(* ===== verification/Prelude.thy ===== *)
theory Prelude
  imports Complex_Main "HOL-Library.Char_ord" "HOL-Library.List_Lexorder"
    "HOL-Library.Product_Lexorder" "HOL-Library.Multiset" "HOL-Library.Code_Target_Numeral"
begin

section \<open>Shared vocabulary: errors, results, number printing, generic list lemmas\<close>

text \<open>
  What every component theory uses: the error values of the Go code, the result type of a
  function that returns \<open>(T, error)\<close>, \<open>strconv.Itoa\<close>, and the generic lemmas on lists that
  the components share. A Go error built by \<open>errors.New\<close> or \<open>fmt.Errorf\<close> is the format
  string with its arguments, unrendered; an error that wraps another one (\<open>%w\<close>) keeps it.
  Sentinel errors are compared by identity in Go; their messages are pairwise distinct, so
  here they are compared by value.
\<close>

named_theorems engine_defs \<open>definitions of the diagnostic engine\<close>
named_theorems service_defs \<open>definitions of the daemon service\<close>

datatype go_error = Err string "string list" | Wrap string "string list" go_error

type_synonym 'a result = "go_error + 'a"

abbreviation is_ok :: "'a result \<Rightarrow> bool" where
  "is_ok r \<equiv> (case r of Inl _ \<Rightarrow> False | Inr _ \<Rightarrow> True)"

subsection \<open>Decimal printing\<close>

fun digits_rev :: "nat \<Rightarrow> string" where
  "digits_rev n = (if n < 10 then [char_of (48 + n)]
                   else char_of (48 + n mod 10) # digits_rev (n div 10))"

declare digits_rev.simps [simp del]

definition itoa_nat :: "nat \<Rightarrow> string" where
  "itoa_nat n = rev (digits_rev n)"

definition itoa :: "int \<Rightarrow> string" where
  "itoa i = (if i < 0 then CHR ''-'' # itoa_nat (nat (- i)) else itoa_nat (nat i))"

lemma digits_rev_nonempty [simp]: "digits_rev n \<noteq> []"
  by (subst digits_rev.simps) simp

lemma itoa_nat_nonempty [simp]: "itoa_nat n \<noteq> []"
  by (simp add: itoa_nat_def)

subsection \<open>Results\<close>

lemma map_sum_Inr: "map_sum h f x = Inr y \<longleftrightarrow> (\<exists>z. x = Inr z \<and> y = f z)"
  by (cases x) auto

lemma map_sum_Inl: "map_sum h f x = Inl e \<longleftrightarrow> (\<exists>d. x = Inl d \<and> e = h d)"
  by (cases x) auto

subsection \<open>Generic lemmas on lists\<close>

lemma nth_list_update_split:
  "i < length xs \<Longrightarrow> xs[i := y] = take i xs @ y # drop (Suc i) xs"
  by (rule upd_conv_take_nth_drop)

lemma list_all_filter [simp]: "list_all P (filter P xs)"
  by (simp add: list_all_iff)

text \<open>Deduplication that keeps the first occurrence, as a loop over a \<open>seen\<close> map does.\<close>

fun dedup_acc :: "'a list \<Rightarrow> 'a list \<Rightarrow> 'a list" where
  "dedup_acc seen [] = []"
| "dedup_acc seen (x # xs) =
     (if x \<in> set seen then dedup_acc seen xs else x # dedup_acc (x # seen) xs)"

definition dedup :: "'a list \<Rightarrow> 'a list" where
  "dedup xs = dedup_acc [] xs"

lemma set_dedup_acc: "set (dedup_acc seen xs) = set xs - set seen"
  by (induction xs arbitrary: seen) auto

lemma distinct_dedup_acc: "distinct (dedup_acc seen xs)"
  by (induction xs arbitrary: seen) (auto simp: set_dedup_acc)

lemma set_dedup [simp]: "set (dedup xs) = set xs"
  by (simp add: dedup_def set_dedup_acc)

lemma distinct_dedup [simp]: "distinct (dedup xs)"
  by (simp add: dedup_def distinct_dedup_acc)

text \<open>
  Two lists with the same elements and an injective sort key have the same sorted
  deduplication: the reason why a result does not depend on the order in which a map or a
  directory is iterated.
\<close>

lemma sort_key_dedup_cong:
  fixes f :: "'a \<Rightarrow> 'b::linorder"
  assumes "set xs = set ys" and "inj_on f (set xs)"
  shows "sort_key f (dedup xs) = sort_key f (dedup ys)"
proof (rule sort_key_inj_key_eq)
  show "mset (dedup xs) = mset (sort_key f (dedup ys))"
    using assms(1) by (simp add: set_eq_iff_mset_eq_distinct [symmetric])
  show "inj_on f (set (dedup xs))" using assms(2) by simp
  show "sorted (map f (sort_key f (dedup ys)))" by simp
qed

lemma sorted_hd_min:
  "sorted (map f xs) \<Longrightarrow> x \<in> set xs \<Longrightarrow> f (hd xs) \<le> f x"
  by (cases xs) auto

end
