(* ===== verification/GoStrings.thy ===== *)
theory GoStrings
  imports GoUnicode
begin

section \<open>Go strings: bytes, UTF-8, and the functions of package strings\<close>

text \<open>
  A Go string is a sequence of bytes, here a \<open>char list\<close> (a \<open>char\<close> is one byte). A rune is a
  code point, here a \<open>nat\<close>. \<open>cells\<close> is what a \<open>for range\<close> loop over a string visits: each
  rune with the bytes it was decoded from, where a byte that starts no valid encoding is
  \<open>U+FFFD\<close> of width one, as package \<open>unicode/utf8\<close> decodes it. \<open>runes\<close> is the conversion
  \<open>[]rune(s)\<close>, \<open>utf8_encode\<close> is \<open>WriteRune\<close> / \<open>string(r)\<close>. The rest of the theory are the
  functions of \<open>strings\<close>, \<open>unicode\<close> and (Unix) \<open>path/filepath\<close> that the program calls.
\<close>

abbreviation byte :: "char \<Rightarrow> nat" where "byte c \<equiv> of_char c"

subsection \<open>UTF-8\<close>

definition RuneError :: rune where "RuneError = 0xFFFD"

abbreviation cont :: "nat \<Rightarrow> bool" where "cont b \<equiv> 0x80 \<le> b \<and> b \<le> 0xBF"

definition second_ok :: "nat \<Rightarrow> nat \<Rightarrow> bool" where
  "second_ok b0 b1 =
     (if b0 = 0xE0 then 0xA0 \<le> b1 \<and> b1 \<le> 0xBF
      else if b0 = 0xED then 0x80 \<le> b1 \<and> b1 \<le> 0x9F
      else if b0 = 0xF0 then 0x90 \<le> b1 \<and> b1 \<le> 0xBF
      else if b0 = 0xF4 then 0x80 \<le> b1 \<and> b1 \<le> 0x8F
      else cont b1)"

text \<open>\<open>decodeRune\<close> of a nonempty string: the rune and the number of bytes it takes.\<close>

fun decodeRune :: "string \<Rightarrow> rune \<times> nat" where
  "decodeRune [] = (RuneError, 0)"
| "decodeRune (c0 # cs) =
    (let b0 = byte c0 in
     if b0 < 0x80 then (b0, 1)
     else if 0xC2 \<le> b0 \<and> b0 \<le> 0xDF then
       (case cs of c1 # _ \<Rightarrow>
          if cont (byte c1) then ((b0 - 0xC0) * 64 + (byte c1 - 0x80), 2) else (RuneError, 1)
        | _ \<Rightarrow> (RuneError, 1))
     else if 0xE0 \<le> b0 \<and> b0 \<le> 0xEF then
       (case cs of c1 # c2 # _ \<Rightarrow>
          if second_ok b0 (byte c1) \<and> cont (byte c2)
          then ((b0 - 0xE0) * 4096 + (byte c1 - 0x80) * 64 + (byte c2 - 0x80), 3)
          else (RuneError, 1)
        | _ \<Rightarrow> (RuneError, 1))
     else if 0xF0 \<le> b0 \<and> b0 \<le> 0xF4 then
       (case cs of c1 # c2 # c3 # _ \<Rightarrow>
          if second_ok b0 (byte c1) \<and> cont (byte c2) \<and> cont (byte c3)
          then ((b0 - 0xF0) * 262144 + (byte c1 - 0x80) * 4096
                  + (byte c2 - 0x80) * 64 + (byte c3 - 0x80), 4)
          else (RuneError, 1)
        | _ \<Rightarrow> (RuneError, 1))
     else (RuneError, 1))"

lemma decodeRune_size:
  "s \<noteq> [] \<Longrightarrow> 1 \<le> snd (decodeRune s) \<and> snd (decodeRune s) \<le> length s"
  by (cases s) (auto simp: Let_def split: list.split)

type_synonym cell = "rune \<times> string"

function cells :: "string \<Rightarrow> cell list" where
  "cells s = (if s = [] then []
     else let (r, n) = decodeRune s in (r, take n s) # cells (drop n s))"
  by pat_completeness auto
termination
proof (relation "measure length")
  fix s :: string and rn r n
  assume "s \<noteq> []" "rn = decodeRune s" "(r, n) = rn"
  then have "1 \<le> n" using decodeRune_size [of s] by (metis snd_conv)
  with \<open>s \<noteq> []\<close> show "(drop n s, s) \<in> measure length" by (cases s) auto
qed simp

declare cells.simps [simp del]

lemma cells_Nil [simp]: "cells [] = []"
  by (simp add: cells.simps)

lemma cells_ascii [simp]: "byte c < 0x80 \<Longrightarrow> cells (c # s) = (byte c, [c]) # cells s"
  by (subst cells.simps) simp

definition cells_string :: "cell list \<Rightarrow> string" where
  "cells_string cs = concat (map snd cs)"

lemma cells_string_simps [simp]:
  "cells_string [] = []" "cells_string (c # cs) = snd c @ cells_string cs"
  "cells_string (cs @ ds) = cells_string cs @ cells_string ds"
  by (simp_all add: cells_string_def)

text \<open>The cells of a string partition it: concatenating their bytes gives it back.\<close>

lemma cells_string_cells [simp]: "cells_string (cells s) = s"
proof (induction s rule: cells.induct)
  case (1 s)
  show ?case
  proof (cases "s = []")
    case False
    obtain r n where rn: "decodeRune s = (r, n)" by fastforce
    with False 1 have "cells_string (cells (drop n s)) = drop n s" by simp
    with False rn show ?thesis by (subst cells.simps) simp
  qed simp
qed

definition runes :: "string \<Rightarrow> rune list" where
  "runes s = map fst (cells s)"

lemma runes_Nil [simp]: "runes [] = []"
  by (simp add: runes_def)

lemma runes_ascii [simp]: "byte c < 0x80 \<Longrightarrow> runes (c # s) = byte c # runes s"
  by (simp add: runes_def)

definition utf8_encode :: "rune \<Rightarrow> string" where
  "utf8_encode r0 = (let r = (if r0 > 0x10FFFF \<or> (0xD800 \<le> r0 \<and> r0 \<le> 0xDFFF) then RuneError else r0) in
     map char_of
      (if r < 0x80 then [r]
       else if r < 0x800 then [0xC0 + r div 64, 0x80 + r mod 64]
       else if r < 0x10000 then [0xE0 + r div 4096, 0x80 + (r div 64) mod 64, 0x80 + r mod 64]
       else [0xF0 + r div 262144, 0x80 + (r div 4096) mod 64, 0x80 + (r div 64) mod 64, 0x80 + r mod 64]))"

definition string_of_runes :: "rune list \<Rightarrow> string" where
  "string_of_runes rs = concat (map utf8_encode rs)"

lemma string_of_runes_simps [simp]:
  "string_of_runes [] = []" "string_of_runes (r # rs) = utf8_encode r @ string_of_runes rs"
  "string_of_runes (rs @ ss) = string_of_runes rs @ string_of_runes ss"
  by (simp_all add: string_of_runes_def)

definition valid_rune :: "rune \<Rightarrow> bool" where
  "valid_rune r \<longleftrightarrow> r \<le> 0x10FFFF \<and> \<not> (0xD800 \<le> r \<and> r \<le> 0xDFFF)"

lemma utf8_encode_ascii [simp]: "r < 0x80 \<Longrightarrow> utf8_encode r = [char_of r]"
  by (simp add: utf8_encode_def)

lemma utf8_encode_nonempty [simp]: "utf8_encode r \<noteq> []"
  by (simp add: utf8_encode_def Let_def)

text \<open>Round trip: decoding what \<open>WriteRune\<close> wrote gives the runes back.\<close>

lemma base64_digits2: "(r::nat) div 4096 * 4096 + r div 64 mod 64 * 64 + r mod 64 = r"
  using mult_div_mod_eq [of 64 r] mult_div_mod_eq [of 64 "r div 64"] div_mult2_eq [of r 64 64, simplified]
  by linarith

lemma base64_digits3:
  "(r::nat) div 262144 * 262144 + r div 4096 mod 64 * 4096 + r div 64 mod 64 * 64 + r mod 64 = r"
  using base64_digits2 [of r] mult_div_mod_eq [of 64 "r div 4096"] div_mult2_eq [of r 4096 64, simplified]
  by linarith

lemma decodeRune_three:
  assumes "a < 16" "b < 64" "d < 64" "second_ok (0xE0 + a) (0x80 + b)"
  shows "decodeRune (char_of (0xE0 + a) # char_of (0x80 + b) # char_of (0x80 + d) # s)
           = (a * 4096 + b * 64 + d, 3)"
  using assms by simp

lemma decodeRune_four:
  assumes "a < 5" "b < 64" "d < 64" "e < 64" "second_ok (0xF0 + a) (0x80 + b)"
  shows "decodeRune (char_of (0xF0 + a) # char_of (0x80 + b) # char_of (0x80 + d) # char_of (0x80 + e) # s)
           = (a * 262144 + b * 4096 + d * 64 + e, 4)"
  using assms by simp

lemma decodeRune_encode:
  assumes "valid_rune r"
  shows "decodeRune (utf8_encode r @ s) = (r, length (utf8_encode r))"
proof -
  consider (a) "r < 0x80" | (b) "0x80 \<le> r \<and> r < 0x800" | (c) "0x800 \<le> r \<and> r < 0x10000"
    | (d) "0x10000 \<le> r \<and> r \<le> 0x10FFFF"
    using assms by (force simp: valid_rune_def)
  then show ?thesis
  proof cases
    case a
    then show ?thesis by simp
  next
    case b
    then have "r div 64 < 32" "2 \<le> r div 64" by auto
    with b show ?thesis by (simp add: utf8_encode_def Let_def)
  next
    case c
    then have q: "r div 4096 < 16" by auto
    have *: "0xE0 + r div 4096 = 0xE0 \<Longrightarrow> 32 \<le> r div 64" using c by auto
    have **: "(r div 64) mod 64 < 32" if "r div 4096 = 13"
    proof -
      from that c assms have "r < 0xD800" by (auto simp: valid_rune_def)
      moreover from that have "r div 64 div 64 = 13" by (simp add: div_mult2_eq [symmetric])
      ultimately have "r div 64 < 864" "r div 64 = 832 + r div 64 mod 64"
        using mult_div_mod_eq [of 64 "r div 64"] by linarith+
      then show ?thesis by linarith
    qed
    have sum: "r div 4096 * 4096 + r div 64 mod 64 * 64 + r mod 64 = r"
      by (rule base64_digits2)
    have s2: "second_ok (0xE0 + r div 4096) (0x80 + r div 64 mod 64)"
    proof (cases "r div 4096 = 0")
      case True
      then have "r div 64 < 64" by auto
      with * True show ?thesis by (simp add: second_ok_def)
    next
      case False
      with ** q show ?thesis by (auto simp: second_ok_def)
    qed
    have e: "utf8_encode r = [char_of (0xE0 + r div 4096), char_of (0x80 + r div 64 mod 64),
        char_of (0x80 + r mod 64)]"
      using c assms by (auto simp: utf8_encode_def valid_rune_def)
    show ?thesis
      using decodeRune_three [OF q _ _ s2, of "r mod 64" s] sum by (simp add: e)
  next
    case d
    then have q: "r div 262144 < 5" by auto
    have *: "r div 262144 = 0 \<Longrightarrow> 16 \<le> r div 4096 \<and> r div 4096 < 64" using d by auto
    have **: "(r div 4096) mod 64 < 16" if "r div 262144 = 4"
    proof -
      from that have "r div 4096 div 64 = 4" by (simp add: div_mult2_eq [symmetric])
      moreover have "r div 4096 < 272" using d by auto
      ultimately show ?thesis using mult_div_mod_eq [of 64 "r div 4096"] by linarith
    qed
    have sum: "r div 262144 * 262144 + r div 4096 mod 64 * 4096 + r div 64 mod 64 * 64 + r mod 64 = r"
      by (rule base64_digits3)
    have s2: "second_ok (0xF0 + r div 262144) (0x80 + r div 4096 mod 64)"
      using q * ** by (cases "r div 262144 = 0") (auto simp: second_ok_def)
    have e: "utf8_encode r = [char_of (0xF0 + r div 262144), char_of (0x80 + r div 4096 mod 64),
        char_of (0x80 + r div 64 mod 64), char_of (0x80 + r mod 64)]"
      using d by (auto simp: utf8_encode_def)
    show ?thesis
      using decodeRune_four [OF q _ _ _ s2, of "r div 64 mod 64" "r mod 64" s] sum by (simp add: e)
  qed
qed

lemma cells_encode:
  "valid_rune r \<Longrightarrow> cells (utf8_encode r @ s) = (r, utf8_encode r) # cells s"
  by (subst cells.simps) (simp add: decodeRune_encode)

lemma runes_string_of_runes:
  "list_all valid_rune rs \<Longrightarrow> runes (string_of_runes rs) = rs"
  by (induction rs) (simp_all add: runes_def cells_encode)

subsection \<open>Package strings\<close>

definition hasPrefix :: "string \<Rightarrow> string \<Rightarrow> bool" where
  "hasPrefix s p \<longleftrightarrow> take (length p) s = p"

definition hasSuffix :: "string \<Rightarrow> string \<Rightarrow> bool" where
  "hasSuffix s p \<longleftrightarrow> length p \<le> length s \<and> drop (length s - length p) s = p"

fun strings_Index :: "string \<Rightarrow> string \<Rightarrow> nat option" where
  "strings_Index [] sub = (if sub = [] then Some 0 else None)"
| "strings_Index (c # s) sub =
     (if hasPrefix (c # s) sub then Some 0 else map_option Suc (strings_Index s sub))"

definition strings_Contains :: "string \<Rightarrow> string \<Rightarrow> bool" where
  "strings_Contains s sub \<longleftrightarrow> strings_Index s sub \<noteq> None"

text \<open>\<open>ContainsAny(s, chars)\<close> for an ASCII \<open>chars\<close>, and \<open>ContainsRune(s, r)\<close>.\<close>

definition containsAny :: "string \<Rightarrow> string \<Rightarrow> bool" where
  "containsAny s chars \<longleftrightarrow> list_ex (\<lambda>c. c \<in> set chars) s"

definition containsRune :: "string \<Rightarrow> rune \<Rightarrow> bool" where
  "containsRune s r \<longleftrightarrow> r \<in> set (runes s)"

text \<open>\<open>Cut\<close>, \<open>Split\<close> and \<open>ReplaceAll\<close> at a one-byte separator; \<open>Join\<close>.\<close>

fun strings_Cut :: "string \<Rightarrow> char \<Rightarrow> string \<times> string \<times> bool" where
  "strings_Cut [] sep = ([], [], False)"
| "strings_Cut (c # s) sep =
     (if c = sep then ([], s, True)
      else let (before, after, found) = strings_Cut s sep in (c # before, after, found))"

fun strings_Split :: "string \<Rightarrow> char \<Rightarrow> string list" where
  "strings_Split [] sep = [[]]"
| "strings_Split (c # s) sep =
     (if c = sep then [] # strings_Split s sep
      else case strings_Split s sep of [] \<Rightarrow> [[c]] | w # ws \<Rightarrow> (c # w) # ws)"

definition replaceByte :: "char \<Rightarrow> string \<Rightarrow> string \<Rightarrow> string" where
  "replaceByte old new s = concat (map (\<lambda>c. if c = old then new else [c]) s)"

fun strings_Join :: "string list \<Rightarrow> string \<Rightarrow> string" where
  "strings_Join [] sep = []"
| "strings_Join [w] sep = w"
| "strings_Join (w # v # ws) sep = w @ sep @ strings_Join (v # ws) sep"

definition strings_ToLower :: "string \<Rightarrow> string" where
  "strings_ToLower s = string_of_runes (map unicode_ToLower (runes s))"

definition strings_ToUpper :: "string \<Rightarrow> string" where
  "strings_ToUpper s = string_of_runes (map unicode_ToUpper (runes s))"

text \<open>\<open>TrimSpace\<close>, \<open>Fields\<close>: white space is \<open>unicode.IsSpace\<close>.\<close>

abbreviation space_cell :: "cell \<Rightarrow> bool" where "space_cell c \<equiv> unicode_IsSpace (fst c)"

definition strings_TrimSpace :: "string \<Rightarrow> string" where
  "strings_TrimSpace s =
     cells_string (rev (dropWhile space_cell (rev (dropWhile space_cell (cells s)))))"

fun fields_loop :: "cell list \<Rightarrow> string \<Rightarrow> string list" where
  "fields_loop [] cur = (if cur = [] then [] else [cur])"
| "fields_loop (c # cs) cur =
     (if space_cell c then (if cur = [] then fields_loop cs [] else cur # fields_loop cs [])
      else fields_loop cs (cur @ snd c))"

definition strings_Fields :: "string \<Rightarrow> string list" where
  "strings_Fields s = fields_loop (cells s) []"

text \<open>The suffix after the last byte that satisfies a predicate (\<open>LastIndexAny\<close> and slicing).\<close>

definition after_last :: "(char \<Rightarrow> bool) \<Rightarrow> string \<Rightarrow> string" where
  "after_last p s = rev (takeWhile (\<lambda>c. \<not> p c) (rev s))"

text \<open>\<open>EqualFold(s, t)\<close> for an ASCII \<open>t\<close>: the fold orbits of \<open>s\<close> and \<open>k\<close> leave ASCII.\<close>

definition rune_fold_eq :: "rune \<Rightarrow> rune \<Rightarrow> bool" where
  "rune_fold_eq r t \<longleftrightarrow>
     (r < 128 \<and> unicode_ToLower r = unicode_ToLower t)
     \<or> (r = 0x17F \<and> unicode_ToLower t = 115) \<or> (r = 0x212A \<and> unicode_ToLower t = 107)"

definition equalFold :: "string \<Rightarrow> string \<Rightarrow> bool" where
  "equalFold s t \<longleftrightarrow> list_all2 rune_fold_eq (runes s) (runes t)"

subsection \<open>Package path/filepath on Unix\<close>

definition slash :: char where "slash = CHR ''/''"

definition filepath_IsAbs :: "string \<Rightarrow> bool" where
  "filepath_IsAbs p \<longleftrightarrow> hasPrefix p ''/''"

fun clean_loop :: "bool \<Rightarrow> string list \<Rightarrow> string list \<Rightarrow> string list" where
  "clean_loop rooted [] stack = rev stack"
| "clean_loop rooted (w # ws) stack =
     (if w = [] \<or> w = ''.'' then clean_loop rooted ws stack
      else if w = ''..'' then
        (case stack of
           [] \<Rightarrow> clean_loop rooted ws (if rooted then [] else [''..''])
         | w' # rest \<Rightarrow> if w' = ''..'' then clean_loop rooted ws (''..'' # stack)
                         else clean_loop rooted ws rest)
      else clean_loop rooted ws (w # stack))"

definition filepath_Clean :: "string \<Rightarrow> string" where
  "filepath_Clean p =
     (let rooted = filepath_IsAbs p; body = strings_Join (clean_loop rooted (strings_Split p slash) []) ''/'' in
      if rooted then slash # body else if body = [] then ''.'' else body)"

definition filepath_Join :: "string list \<Rightarrow> string" where
  "filepath_Join elems =
     (let rest = dropWhile (\<lambda>e. e = []) elems in
      if rest = [] then [] else filepath_Clean (strings_Join rest ''/''))"

definition filepath_Split :: "string \<Rightarrow> string \<times> string" where
  "filepath_Split p =
     (let base = after_last (\<lambda>c. c = slash) p in (take (length p - length base) p, base))"

definition filepath_SplitList :: "string \<Rightarrow> string list" where
  "filepath_SplitList p = (if p = [] then [] else strings_Split p CHR '':'')"

subsection \<open>Lemmas on these functions\<close>

lemma after_last_free: "\<forall>c \<in> set (after_last p s). \<not> p c"
  by (auto simp: after_last_def dest: set_takeWhileD)

lemma filepath_Split_append: "fst (filepath_Split p) @ snd (filepath_Split p) = p"
proof -
  obtain u where u: "p = u @ after_last (\<lambda>c. c = slash) p"
    unfolding after_last_def
    by (metis rev_append rev_rev_ident takeWhile_dropWhile_id)
  then have "take (length p - length (after_last (\<lambda>c. c = slash) p)) p = u"
    by (metis append_eq_conv_conj diff_add_inverse2 length_append)
  with u show ?thesis by (simp add: filepath_Split_def Let_def)
qed

lemma strings_Split_nonempty [simp]: "strings_Split s c \<noteq> []"
  by (induction s) (auto split: list.split)

lemma strings_Join_Cons: "ws \<noteq> [] \<Longrightarrow> strings_Join (w # ws) sep = w @ sep @ strings_Join ws sep"
  by (cases ws) auto

text \<open>Splitting at a separator and joining with it again is the identity.\<close>

lemma strings_Join_Split: "strings_Join (strings_Split s c) [c] = s"
proof (induction s)
  case (Cons x s)
  then show ?case
    by (cases "strings_Split s c"; cases "tl (strings_Split s c)")
      (auto simp: strings_Join_Cons split: list.split)
qed simp

lemma strings_Cut_append:
  "strings_Cut s c = (b, a, f) \<Longrightarrow> s = (if f then b @ c # a else b) \<and> c \<notin> set b"
  by (induction s arbitrary: b a f) (auto split: if_splits prod.splits)

lemma strings_Cut_found: "snd (snd (strings_Cut s c)) \<longleftrightarrow> c \<in> set s"
  by (induction s) (auto split: prod.splits)

lemma length_strings_Join:
  "length (strings_Join ws sep) = sum_list (map length ws) + (length ws - 1) * length sep"
  by (induction ws sep rule: strings_Join.induct) auto

lemma containsAny_simps [simp]:
  "containsAny [] cs = False" "containsAny (c # s) cs = (c \<in> set cs \<or> containsAny s cs)"
  "containsAny (s @ t) cs = (containsAny s cs \<or> containsAny t cs)"
  by (simp_all add: containsAny_def)

lemma containsAny_iff: "containsAny s cs \<longleftrightarrow> (\<exists>c \<in> set s. c \<in> set cs)"
  by (auto simp: containsAny_def list_ex_iff)

text \<open>ASCII runes are decoded from their own byte.\<close>

lemma decodeRune_ge: "0x80 \<le> byte c \<Longrightarrow> 0x80 \<le> fst (decodeRune (c # s))"
proof -
  assume c: "0x80 \<le> byte c"
  have two: "0xC2 \<le> byte c \<Longrightarrow> 0x80 \<le> b \<Longrightarrow> 0x80 \<le> (byte c - 0xC0) * 64 + b - 0x80" for b
    by linarith
  have three: "0xE0 \<le> byte c \<Longrightarrow> second_ok (byte c) b \<Longrightarrow> 0x80 \<le> b2 \<Longrightarrow>
      0x80 \<le> (byte c - 0xE0) * 4096 + (b - 0x80) * 64 + b2 - 0x80" for b b2
    by (cases "byte c = 0xE0", simp_all add: second_ok_def, linarith+)
  have four: "0xF0 \<le> byte c \<Longrightarrow> second_ok (byte c) b \<Longrightarrow> 0x80 \<le> b3 \<Longrightarrow>
      0x80 \<le> (byte c - 0xF0) * 262144 + (b - 0x80) * 4096 + (b2 - 0x80) * 64 + b3 - 0x80" for b b2 b3
    by (cases "byte c = 0xF0", simp_all add: second_ok_def, linarith+)
  show ?thesis using c two three four
    by (simp add: Let_def RuneError_def split: list.split)
qed

lemma cells_low: "(r, bs) \<in> set (cells s) \<Longrightarrow> r < 0x80 \<Longrightarrow> bs = [char_of r] \<and> char_of r \<in> set s"
proof (induction s rule: cells.induct)
  case (1 s)
  obtain c s' where s: "s = c # s'" using "1.prems"(1) by (cases s) auto
  obtain q n where d: "decodeRune s = (q, n)" by fastforce
  have cells: "cells s = (q, take n s) # cells (drop n s)" using s d by (subst cells.simps) simp
  show ?case
  proof (cases "(r, bs) = (q, take n s)")
    case True
    with "1.prems"(2) d s have "byte c < 0x80" using decodeRune_ge [of c s'] by force
    with d s True show ?thesis by auto
  next
    case False
    with "1.prems"(1) cells have "(r, bs) \<in> set (cells (drop n s))" by auto
    with "1.IH" [of "(q, n)" q n] d s "1.prems"(2) show ?thesis by (auto dest: in_set_dropD)
  qed
qed

lemma runes_low: "r \<in> set (runes s) \<Longrightarrow> r < 0x80 \<Longrightarrow> char_of r \<in> set s"
  by (auto simp: runes_def dest: cells_low)

subsection \<open>Valid UTF-8\<close>

text \<open>A string is valid UTF-8 if each of its cells holds the encoding of its rune.\<close>

definition valid_cell :: "cell \<Rightarrow> bool" where
  "valid_cell c \<longleftrightarrow> valid_rune (fst c) \<and> snd c = utf8_encode (fst c)"

definition valid_utf8 :: "string \<Rightarrow> bool" where
  "valid_utf8 s \<longleftrightarrow> list_all valid_cell (cells s)"

lemma cells_valid: "list_all valid_cell cs \<Longrightarrow> cells (cells_string cs @ s) = cs @ cells s"
proof (induction cs)
  case (Cons c cs)
  then show ?case by (cases c) (simp add: valid_cell_def cells_encode)
qed simp

lemma cells_valid_utf8: "valid_utf8 s \<Longrightarrow> cells (s @ t) = cells s @ cells t"
  using cells_valid [of "cells s" t] by (simp add: valid_utf8_def)

lemma utf8_encode_high: "0x80 \<le> r \<Longrightarrow> c \<in> set (utf8_encode r) \<Longrightarrow> 0x80 \<le> byte c"
  by (auto simp: utf8_encode_def Let_def RuneError_def of_char_of split: if_splits)

lemma valid_low: "valid_utf8 s \<Longrightarrow> c \<in> set s \<Longrightarrow> byte c < 0x80 \<Longrightarrow> byte c \<in> set (runes s)"
proof -
  assume s: "valid_utf8 s" and c: "c \<in> set s" "byte c < 0x80"
  have "c \<in> set (cells_string (cells s))" using c(1) by simp
  then obtain d where d: "d \<in> set (cells s)" "c \<in> set (snd d)" by (auto simp: cells_string_def)
  with s have "snd d = utf8_encode (fst d)" by (auto simp: valid_utf8_def list_all_iff valid_cell_def)
  with d(2) c(2) utf8_encode_high [of "fst d" c] have "byte c = fst d" by (cases "fst d < 0x80") auto
  with d(1) show ?thesis by (simp add: runes_def)
qed

lemma string_of_valid_runes: "valid_utf8 s \<Longrightarrow> string_of_runes (runes s) = s"
proof -
  assume s: "valid_utf8 s"
  have "string_of_runes (map fst cs) = cells_string cs" if "list_all valid_cell cs" for cs
    using that by (induction cs) (simp_all add: valid_cell_def)
  with s show ?thesis unfolding runes_def by (simp add: valid_utf8_def)
qed

lemma runes_utf8_encode: "valid_rune r \<Longrightarrow> runes (utf8_encode r) = [r]"
  using runes_string_of_runes [of "[r]"] by simp

lemma utf8_digits:
  fixes a b d e :: nat
  assumes "b < 64" "d < 64" "e < 64"
  shows "(a * 64 + b) div 64 = a" "(a * 64 + b) mod 64 = b"
    "(a * 4096 + b * 64 + d) div 4096 = a" "(a * 4096 + b * 64 + d) div 64 mod 64 = b" "(a * 4096 + b * 64 + d) mod 64 = d"
    "(a * 262144 + b * 4096 + d * 64 + e) div 262144 = a" "(a * 262144 + b * 4096 + d * 64 + e) div 4096 mod 64 = b"
    "(a * 262144 + b * 4096 + d * 64 + e) div 64 mod 64 = d" "(a * 262144 + b * 4096 + d * 64 + e) mod 64 = e"
proof -
  have q: "a * 4096 + b * 64 + d = (a * 64 + b) * 64 + d" "a * 262144 + b * 4096 + d * 64 + e = ((a * 64 + b) * 64 + d) * 64 + e"
    by simp_all
  have r: "m div 4096 = m div 64 div 64" "m div 262144 = m div 64 div 64 div 64" for m :: nat
    by (simp_all add: div_mult2_eq [symmetric])
  have s: "(m * 64 + n) div 64 = m" "(m * 64 + n) mod 64 = n" if "n < 64" for m n :: nat
    using that by simp_all
  show "(a * 64 + b) div 64 = a" "(a * 64 + b) mod 64 = b"
    "(a * 4096 + b * 64 + d) div 4096 = a" "(a * 4096 + b * 64 + d) div 64 mod 64 = b" "(a * 4096 + b * 64 + d) mod 64 = d"
    "(a * 262144 + b * 4096 + d * 64 + e) div 262144 = a" "(a * 262144 + b * 4096 + d * 64 + e) div 4096 mod 64 = b"
    "(a * 262144 + b * 4096 + d * 64 + e) div 64 mod 64 = d" "(a * 262144 + b * 4096 + d * 64 + e) mod 64 = e"
    unfolding q r by (simp_all only: s assms)
qed

lemma encode_two:
  assumes "0xC2 \<le> b0" "b0 \<le> 0xDF" "cont b1"
  shows "valid_rune ((b0 - 0xC0) * 64 + (b1 - 0x80)) \<and> utf8_encode ((b0 - 0xC0) * 64 + (b1 - 0x80)) = [char_of b0, char_of b1]"
proof -
  define a b where "a = b0 - 0xC0" and "b = b1 - 0x80"
  have r: "b0 = 0xC0 + a" "b1 = 0x80 + b" "2 \<le> a" "a < 32" "b < 64" using assms by (auto simp: a_def b_def)
  then show ?thesis using utf8_digits(1,2) [of b b b a] by (simp add: utf8_encode_def valid_rune_def Let_def)
qed

lemma encode_three:
  assumes "0xE0 \<le> b0" "b0 \<le> 0xEF" "second_ok b0 b1" "cont b2"
  shows "valid_rune ((b0 - 0xE0) * 4096 + (b1 - 0x80) * 64 + (b2 - 0x80)) \<and>
    utf8_encode ((b0 - 0xE0) * 4096 + (b1 - 0x80) * 64 + (b2 - 0x80)) = [char_of b0, char_of b1, char_of b2]"
proof -
  define a b d where "a = b0 - 0xE0" and "b = b1 - 0x80" and "d = b2 - 0x80"
  have r: "b0 = 0xE0 + a" "b1 = 0x80 + b" "b2 = 0x80 + d" "a < 16" "b < 64" "d < 64" "a = 0 \<Longrightarrow> 32 \<le> b" "a = 13 \<Longrightarrow> b < 32"
    using assms by (auto simp: a_def b_def d_def second_ok_def split: if_splits)
  let ?r = "a * 4096 + b * 64 + d"
  have "0x800 \<le> ?r" using r by (cases "a = 0") auto
  moreover have "?r < 0x10000" using r by simp
  moreover have "\<not> (0xD800 \<le> ?r \<and> ?r \<le> 0xDFFF)"
  proof (cases "a \<le> 13")
    case True
    with r have "?r < 0xD800" by (cases "a = 13") auto
    then show ?thesis by simp
  next
    case False
    then show ?thesis by simp
  qed
  ultimately show ?thesis using r utf8_digits(3-5) [of b d d a]
    by (auto simp add: utf8_encode_def valid_rune_def Let_def)
qed

lemma encode_four:
  assumes "0xF0 \<le> b0" "b0 \<le> 0xF4" "second_ok b0 b1" "cont b2" "cont b3"
  shows "valid_rune ((b0 - 0xF0) * 262144 + (b1 - 0x80) * 4096 + (b2 - 0x80) * 64 + (b3 - 0x80)) \<and>
    utf8_encode ((b0 - 0xF0) * 262144 + (b1 - 0x80) * 4096 + (b2 - 0x80) * 64 + (b3 - 0x80)) = [char_of b0, char_of b1, char_of b2, char_of b3]"
proof -
  define a b d e where "a = b0 - 0xF0" and "b = b1 - 0x80" and "d = b2 - 0x80" and "e = b3 - 0x80"
  have r: "b0 = 0xF0 + a" "b1 = 0x80 + b" "b2 = 0x80 + d" "b3 = 0x80 + e" "a < 5" "b < 64" "d < 64" "e < 64"
      "a = 0 \<Longrightarrow> 16 \<le> b" "a = 4 \<Longrightarrow> b < 16"
    using assms by (auto simp: a_def b_def d_def e_def second_ok_def split: if_splits)
  let ?r = "a * 262144 + b * 4096 + d * 64 + e"
  have "0x10000 \<le> ?r" using r by (cases "a = 0") auto
  moreover have "?r \<le> 0x10FFFF" using r by (cases "a = 4") auto
  ultimately show ?thesis using r utf8_digits(6-9) [of b d e a]
    by (simp add: utf8_encode_def valid_rune_def Let_def)
qed

text \<open>What a cell holds: the encoding of its rune, or one byte that starts no encoding.\<close>

lemma decodeRune_cases:
  assumes "s \<noteq> []" "decodeRune s = (r, n)"
  shows "valid_rune r \<and> take n s = utf8_encode r \<or> r = RuneError \<and> n = 1"
proof -
  from assms(1) obtain c0 cs where s: "s = c0 # cs" by (cases s) auto
  consider (a) "byte c0 < 0x80" | (b) "0xC2 \<le> byte c0" "byte c0 \<le> 0xDF" | (c) "0xE0 \<le> byte c0" "byte c0 \<le> 0xEF"
    | (d) "0xF0 \<le> byte c0" "byte c0 \<le> 0xF4" | (e) "r = RuneError \<and> n = 1"
    using assms(2) s by (force simp: Let_def split: if_splits)
  then show ?thesis
  proof cases
    case a
    with assms(2) s show ?thesis by (auto simp: valid_rune_def)
  next
    case b
    with assms(2) s encode_two [OF b] show ?thesis by (auto simp: Let_def split: list.splits if_splits)
  next
    case c
    with assms(2) s encode_three [OF c] show ?thesis by (auto simp: Let_def split: list.splits if_splits)
  next
    case d
    with assms(2) s encode_four [OF d] show ?thesis by (auto simp: Let_def split: list.splits if_splits)
  qed simp
qed

lemma cell_shape:
  "(r, bs) \<in> set (cells s) \<Longrightarrow> valid_rune r \<and> (bs = utf8_encode r \<or> r = RuneError \<and> length bs = 1)"
proof (induction s rule: cells.induct)
  case (1 s)
  then have s: "s \<noteq> []" by auto
  obtain q n where d: "decodeRune s = (q, n)" by fastforce
  have cells: "cells s = (q, take n s) # cells (drop n s)" using s d by (subst cells.simps) simp
  show ?case
  proof (cases "(r, bs) = (q, take n s)")
    case True
    with decodeRune_cases [OF s d] s show ?thesis by (cases s) (auto simp: valid_rune_def RuneError_def)
  next
    case False
    with "1.prems" cells have "(r, bs) \<in> set (cells (drop n s))" by auto
    with "1.IH" [OF s, of "(q, n)"] d show ?thesis by simp
  qed
qed

end
