(* ===== verification/Tokenizer.thy ===== *)
theory Tokenizer
  imports GoStrings
begin

section \<open>Shell tokenization (internal/diagnose/engine.go)\<close>

text \<open>
  The two tokenizers of the engine, the byte ranges of tokens and the replacement of one
  token. A Go loop over \<open>[]rune(line)\<close> is a recursion over the remaining runes with the
  loop's variables as a record; the loop over \<open>range line\<close> is a fold over the cells of the
  line (rune and bytes). The lemmas relate the tokenizers to the ranges: the occurrence
  that a decision counts among the words is the occurrence that a rewrite replaces.
\<close>

subsection \<open>Model\<close>

abbreviation SQ :: rune where "SQ \<equiv> 39"
abbreviation DQ :: rune where "DQ \<equiv> 34"
abbreviation BSL :: rune where "BSL \<equiv> 92"
abbreviation BTICK :: rune where "BTICK \<equiv> 96"
abbreviation DOLLAR :: rune where "DOLLAR \<equiv> 36"
abbreviation NEWLINE :: rune where "NEWLINE \<equiv> 10"

definition errIncompleteShellInput :: go_error where
  "errIncompleteShellInput = Err ''incomplete shell input'' []"

definition errUnsupportedShellSyntax :: go_error where
  "errUnsupportedShellSyntax = Err ''unsupported shell syntax'' []"

definition blank :: "rune \<Rightarrow> bool" where
  "blank r \<longleftrightarrow> r = 32 \<or> r = 9"

definition compoundOperator :: "rune list \<Rightarrow> string \<times> nat" where
  "compoundOperator rs =
     (case rs of
        [] \<Rightarrow> ([], 0)
      | r # rest \<Rightarrow>
         if r = 59 then ('';'', 1)
         else if r = 40 then (''('', 1)
         else if r = 41 then ('')'', 1)
         else if r = 38 then
           (case rest of n # _ \<Rightarrow> if n = 38 then (''&&'', 2) else (''&'', 1) | [] \<Rightarrow> (''&'', 1))
         else if r = 124 then
           (case rest of n # _ \<Rightarrow> if n = 124 then (''||'', 2) else if n = 38 then (''|&'', 2) else (''|'', 1)
                       | [] \<Rightarrow> (''|'', 1))
         else if r = NEWLINE then ('';'', 1)
         else ([], 0))"

text \<open>The variables of the loops; \<open>tk_quote\<close> is 0 outside quotes.\<close>

record tok =
  tk_result :: "string list"
  tk_current :: "rune list"
  tk_quote :: rune
  tk_escaped :: bool
  tk_started :: bool

definition tok0 :: tok where
  "tok0 = \<lparr>tk_result = [], tk_current = [], tk_quote = 0, tk_escaped = False, tk_started = False\<rparr>"

definition tok_flush :: "tok \<Rightarrow> tok" where
  "tok_flush s = (if tk_started s
     then s\<lparr>tk_result := tk_result s @ [string_of_runes (tk_current s)], tk_current := [], tk_started := False\<rparr>
     else s)"

definition tok_write :: "rune \<Rightarrow> tok \<Rightarrow> tok" where
  "tok_write r s = s\<lparr>tk_current := tk_current s @ [r], tk_started := True\<rparr>"

function tokenize_loop :: "tok \<Rightarrow> rune list \<Rightarrow> tok" where
  "tokenize_loop s [] = s"
| "tokenize_loop s (r # rs) =
     (if tk_escaped s then tokenize_loop (tok_write r s\<lparr>tk_escaped := False\<rparr>) rs
      else if r = BSL \<and> tk_quote s \<noteq> SQ then tokenize_loop (s\<lparr>tk_escaped := True, tk_started := True\<rparr>) rs
      else if tk_quote s \<noteq> 0 then
        tokenize_loop (if r = tk_quote s then s\<lparr>tk_quote := 0, tk_started := True\<rparr> else tok_write r s) rs
      else if r = SQ \<or> r = DQ then tokenize_loop (s\<lparr>tk_quote := r, tk_started := True\<rparr>) rs
      else if 0 < snd (compoundOperator (r # rs)) then
        tokenize_loop ((tok_flush s)\<lparr>tk_result := tk_result (tok_flush s) @ [fst (compoundOperator (r # rs))]\<rparr>)
          (drop (snd (compoundOperator (r # rs)) - 1) rs)
      else if blank r then tokenize_loop (tok_flush s) rs
      else tokenize_loop (tok_write r s) rs)"
  by pat_completeness auto
termination by (relation "measure (length \<circ> snd)") auto

definition tokenize :: "string \<Rightarrow> string list result" where
  "tokenize line =
     (case tokenize_loop tok0 (runes line) of s \<Rightarrow>
        if tk_escaped s \<or> tk_quote s \<noteq> 0 then Inl errIncompleteShellInput
        else Inr (tk_result (tok_flush s)))"

datatype shellLexer = shellPOSIX | shellFish | shellPowerShell

definition isCompoundOperator :: "string \<Rightarrow> bool" where
  "isCompoundOperator v \<longleftrightarrow> v \<in> set ['';'', ''&'', ''&&'', ''|'', ''|&'', ''||'', ''('', '')'']"

definition hasUnsupportedShellSyntax :: "string list \<Rightarrow> bool" where
  "hasUnsupportedShellSyntax words \<longleftrightarrow>
     list_ex (\<lambda>word. isCompoundOperator word \<or> containsAny word (''<>'' @ [CHR 0x60] @ ''$*?[]{}'')) words"

definition unsafeShellCharacter :: "rune \<Rightarrow> shellLexer \<Rightarrow> string \<Rightarrow> bool \<Rightarrow> bool" where
  "unsafeShellCharacter character lexer shellName startsWord \<longleftrightarrow>
     containsRune ('';|&()<>$*?[]{}'' @ [CHR 0x0A] @ ''#'' @ [CHR 0x60]) character
     \<or> (lexer = shellPowerShell \<and> (character = 64 \<or> character = 44))
     \<or> (lexer = shellPOSIX \<and> equalFold shellName ''zsh'' \<and> character = 33)
     \<or> (startsWord \<and> character = 126)"

text \<open>The characters a backslash escapes inside double quotes in a POSIX shell.\<close>

definition posix_escapable :: "rune \<Rightarrow> bool" where
  "posix_escapable r \<longleftrightarrow> containsRune (''$'' @ [CHR 0x60, CHR 0x5C, CHR 0x22, CHR 0x0A]) r"

fun conservative_loop :: "shellLexer \<Rightarrow> string \<Rightarrow> tok \<Rightarrow> rune list \<Rightarrow> tok result" where
  "conservative_loop lexer shellName s [] = Inr s"
| "conservative_loop lexer shellName s (r # rs) =
     (if tk_quote s \<noteq> 0 then
        (if tk_quote s = SQ \<and> lexer = shellPowerShell \<and> r = SQ \<and> rs \<noteq> [] \<and> hd rs = SQ then
           conservative_loop lexer shellName (tok_write r s) (tl rs)
         else if r = tk_quote s then conservative_loop lexer shellName (s\<lparr>tk_quote := 0\<rparr>) rs
         else if tk_quote s = DQ \<and> r = BSL \<and> lexer \<noteq> shellPowerShell then
           (case rs of
              [] \<Rightarrow> Inl errIncompleteShellInput
            | n # rest \<Rightarrow>
               conservative_loop lexer shellName
                 (s\<lparr>tk_current := tk_current s
                      @ (if lexer = shellPOSIX \<and> \<not> posix_escapable n then [r] else [])
                      @ (if n \<noteq> NEWLINE then [n] else []), tk_started := True\<rparr>) rest)
         else if r = BTICK \<or> (tk_quote s = DQ \<and> r = DOLLAR) then Inl errUnsupportedShellSyntax
         else conservative_loop lexer shellName (tok_write r s) rs)
      else if blank r then conservative_loop lexer shellName (tok_flush s) rs
      else if r = SQ \<or> r = DQ then conservative_loop lexer shellName (s\<lparr>tk_quote := r, tk_started := True\<rparr>) rs
      else if r = BSL \<and> lexer \<noteq> shellPowerShell then
        (case rs of
           [] \<Rightarrow> Inl errIncompleteShellInput
         | n # rest \<Rightarrow>
            conservative_loop lexer shellName
              (s\<lparr>tk_current := tk_current s @ (if n \<noteq> NEWLINE then [n] else []), tk_started := True\<rparr>) rest)
      else if unsafeShellCharacter r lexer shellName (\<not> tk_started s) then Inl errUnsupportedShellSyntax
      else conservative_loop lexer shellName (tok_write r s) rs)"

definition tokenizeConservative :: "string \<Rightarrow> shellLexer \<Rightarrow> string \<Rightarrow> string list result" where
  "tokenizeConservative line lexer shellName =
     (case conservative_loop lexer shellName tok0 (runes line) of
        Inl e \<Rightarrow> Inl e
      | Inr s \<Rightarrow>
         if tk_quote s \<noteq> 0 then Inl errIncompleteShellInput
         else if hasUnsupportedShellSyntax (tk_result (tok_flush s)) then Inl errUnsupportedShellSyntax
         else Inr (tk_result (tok_flush s)))"

definition tokenizeForShell :: "string \<Rightarrow> string \<Rightarrow> string list result" where
  "tokenizeForShell shellName line =
     (case strings_ToLower (strings_TrimSpace shellName) of name \<Rightarrow>
        if name = [] then tokenize line
        else if name = ''bash'' \<or> name = ''zsh'' then tokenizeConservative line shellPOSIX shellName
        else if name = ''fish'' then tokenizeConservative line shellFish shellName
        else if name = ''powershell'' \<or> name = ''pwsh'' then tokenizeConservative line shellPowerShell shellName
        else Inl errUnsupportedShellSyntax)"

definition ShellCommandSupported :: "string \<Rightarrow> string \<Rightarrow> bool" where
  "ShellCommandSupported shellName line =
     (case tokenizeForShell shellName line of Inl e \<Rightarrow> False | Inr words \<Rightarrow> \<not> hasUnsupportedShellSyntax words)"

definition rewriteCompatible :: "string \<Rightarrow> string \<Rightarrow> bool" where
  "rewriteCompatible shellName line \<longleftrightarrow> shellName = [] \<or> \<not> containsAny line [CHR 0x27, CHR 0x5C, CHR 0x22]"

definition tokenOccurrence :: "string list \<Rightarrow> nat \<Rightarrow> nat" where
  "tokenOccurrence words position = length (filter (\<lambda>w. w = words ! position) (take (Suc position) words))"

text \<open>\<open>shellTokenRanges\<close>: \<open>start\<close> is \<open>None\<close> for -1; \<open>rg_index\<close> is the byte index of the loop.\<close>

record shellTokenRange =
  tr_start :: nat
  tr_end :: nat
  tr_value :: string

record ranging =
  rg_index :: nat
  rg_ranges :: "shellTokenRange list"
  rg_value :: "rune list"
  rg_start :: "nat option"
  rg_quote :: rune
  rg_escaped :: bool

definition ranging0 :: ranging where
  "ranging0 = \<lparr>rg_index = 0, rg_ranges = [], rg_value = [], rg_start = None, rg_quote = 0, rg_escaped = False\<rparr>"

definition rg_flush :: "ranging \<Rightarrow> ranging" where
  "rg_flush s = (case rg_start s of
     None \<Rightarrow> s
   | Some b \<Rightarrow> s\<lparr>rg_ranges := rg_ranges s @
        [\<lparr>tr_start = b, tr_end = rg_index s, tr_value = string_of_runes (rg_value s)\<rparr>],
        rg_value := [], rg_start := None\<rparr>)"

definition rg_begin :: "ranging \<Rightarrow> ranging" where
  "rg_begin s = (case rg_start s of None \<Rightarrow> s\<lparr>rg_start := Some (rg_index s)\<rparr> | Some b \<Rightarrow> s)"

definition token_break :: "rune \<Rightarrow> bool" where
  "token_break r \<longleftrightarrow> r = 59 \<or> r = 38 \<or> r = 124 \<or> r = 40 \<or> r = 41 \<or> r = NEWLINE"

definition rg_step :: "ranging \<Rightarrow> rune \<Rightarrow> ranging" where
  "rg_step s r =
     (if rg_escaped s then s\<lparr>rg_value := rg_value s @ [r], rg_escaped := False\<rparr>
      else if r = BSL \<and> rg_quote s \<noteq> SQ then (rg_begin s)\<lparr>rg_escaped := True\<rparr>
      else if rg_quote s \<noteq> 0 then
        (if r = rg_quote s then s\<lparr>rg_quote := 0\<rparr> else s\<lparr>rg_value := rg_value s @ [r]\<rparr>)
      else if r = SQ \<or> r = DQ then (rg_begin s)\<lparr>rg_quote := r\<rparr>
      else if blank r then rg_flush s
      else if token_break r then rg_flush s
      else (rg_begin s)\<lparr>rg_value := rg_value s @ [r]\<rparr>)"

definition rg_loop :: "ranging \<Rightarrow> cell list \<Rightarrow> ranging" where
  "rg_loop = foldl (\<lambda>s (r, bytes). (rg_step s r)\<lparr>rg_index := rg_index s + length bytes\<rparr>)"

definition shellTokenRanges :: "string \<Rightarrow> shellTokenRange list" where
  "shellTokenRanges line = rg_ranges (rg_flush (rg_loop ranging0 (cells line)))"

definition double_quote_escape :: "string \<Rightarrow> string" where
  "double_quote_escape s =
     concat (map (\<lambda>c. if c \<in> set [CHR 0x5C, CHR 0x22, CHR ''$'', CHR 0x60] then [CHR 0x5C, c] else [c]) s)"

definition quotedReplacement :: "string \<Rightarrow> string \<Rightarrow> string" where
  "quotedReplacement raw replacement =
     (if 2 \<le> length raw \<and> raw ! 0 = CHR 0x27 \<and> raw ! (length raw - 1) = CHR 0x27 then
        [CHR 0x27] @ replaceByte CHR 0x27 [CHR 0x27, CHR 0x5C, CHR 0x27, CHR 0x27] replacement @ [CHR 0x27]
      else if 2 \<le> length raw \<and> raw ! 0 = CHR 0x22 \<and> raw ! (length raw - 1) = CHR 0x22 then
        [CHR 0x22] @ double_quote_escape replacement @ [CHR 0x22]
      else replacement)"

text \<open>\<open>line[a:b]\<close>.\<close>

definition slice :: "string \<Rightarrow> nat \<Rightarrow> nat \<Rightarrow> string" where
  "slice s a b = drop a (take b s)"

text \<open>The search loop that \<open>replaceTokenOccurrence\<close> and \<open>CommandDiffEmphasis\<close> share.\<close>

fun find_occurrence :: "shellTokenRange list \<Rightarrow> string \<Rightarrow> int \<Rightarrow> int \<Rightarrow> shellTokenRange option" where
  "find_occurrence [] original occurrence matched = None"
| "find_occurrence (token # tokens) original occurrence matched =
     (if tr_value token \<noteq> original then find_occurrence tokens original occurrence matched
      else if matched + 1 \<noteq> occurrence then find_occurrence tokens original occurrence (matched + 1)
      else Some token)"

definition replaceTokenOccurrence :: "string \<Rightarrow> string \<Rightarrow> string \<Rightarrow> int \<Rightarrow> string option" where
  "replaceTokenOccurrence line original replacement occurrence =
     (case find_occurrence (shellTokenRanges line) original occurrence 0 of
        None \<Rightarrow> None
      | Some token \<Rightarrow> Some (take (tr_start token) line
          @ quotedReplacement (slice line (tr_start token) (tr_end token)) replacement
          @ drop (tr_end token) line))"

definition assignment_char :: "nat \<Rightarrow> rune \<Rightarrow> bool" where
  "assignment_char index r \<longleftrightarrow> r = 95 \<or> (97 \<le> r \<and> r \<le> 122) \<or> (65 \<le> r \<and> r \<le> 90)
     \<or> (0 < index \<and> 48 \<le> r \<and> r \<le> 57)"

definition assignmentWord :: "string \<Rightarrow> bool" where
  "assignmentWord v =
     (case strings_Cut v CHR ''='' of (name, _, found) \<Rightarrow>
        found \<and> name \<noteq> [] \<and> list_all (\<lambda>(index, r). assignment_char index r) (enumerate 0 (runes name)))"

definition isShellKeyword :: "string \<Rightarrow> bool" where
  "isShellKeyword v \<longleftrightarrow> v \<in> set [''if'', ''then'', ''else'', ''fi'', ''for'', ''while'', ''do'', ''done'', ''case'',
     ''esac'', ''function'', ''time'', ''command'', ''builtin'', ''exec'', ''sudo'']"

text \<open>\<open>commandPositions\<close>: the loop with its index and \<open>expectCommand\<close>.\<close>

fun command_positions_from :: "nat \<Rightarrow> bool \<Rightarrow> string list \<Rightarrow> nat list" where
  "command_positions_from index expectCommand [] = []"
| "command_positions_from index expectCommand (word # words) =
     (if isCompoundOperator word then command_positions_from (Suc index) (word \<noteq> '')'') words
      else if \<not> expectCommand then command_positions_from (Suc index) expectCommand words
      else if isShellKeyword word \<or> assignmentWord word then command_positions_from (Suc index) expectCommand words
      else index # command_positions_from (Suc index) False words)"

definition commandPositions :: "string list \<Rightarrow> nat list" where
  "commandPositions words = command_positions_from 0 True words"

subsection \<open>The tokenizers and the token ranges agree\<close>

text \<open>The two loops keep the same words, as long as the tokenizer meets no operator.\<close>

definition tok_sim :: "tok \<Rightarrow> ranging \<Rightarrow> bool" where
  "tok_sim s g \<longleftrightarrow> tk_result s = map tr_value (rg_ranges g) \<and> tk_current s = rg_value g \<and>
     tk_quote s = rg_quote g \<and> tk_escaped s = rg_escaped g \<and> (tk_started s \<longleftrightarrow> rg_start g \<noteq> None) \<and>
     (rg_quote g \<noteq> 0 \<or> rg_escaped g \<longrightarrow> rg_start g \<noteq> None)"

lemmas tok_steps = tok_write_def tok_flush_def rg_flush_def rg_begin_def

lemma tok_sim0: "tok_sim tok0 ranging0"
  by (simp add: tok_sim_def tok0_def ranging0_def)

lemma tok_sim_index [simp]: "tok_sim s (g\<lparr>rg_index := i\<rparr>) = tok_sim s g"
  by (simp add: tok_sim_def)

lemma tok_sim_flush:
  "tok_sim s g \<Longrightarrow> \<not> tk_escaped s \<Longrightarrow> tk_quote s = 0 \<Longrightarrow> tok_sim (tok_flush s) (rg_flush g)"
  by (auto simp: tok_sim_def tok_steps split: option.splits)

lemma compoundOperator_break: "0 < snd (compoundOperator (r # rs)) \<longleftrightarrow> token_break r"
  by (auto simp: compoundOperator_def token_break_def split: list.split)

lemma compoundOperator_is: "token_break r \<Longrightarrow> isCompoundOperator (fst (compoundOperator (r # rs)))"
  by (auto simp: compoundOperator_def token_break_def isCompoundOperator_def split: list.split)

text \<open>One step of the tokenizer on a rune that starts no operator, and on one that does.\<close>

definition tok_step :: "tok \<Rightarrow> rune \<Rightarrow> tok" where
  "tok_step s r =
     (if tk_escaped s then (tok_write r s)\<lparr>tk_escaped := False\<rparr>
      else if r = BSL \<and> tk_quote s \<noteq> SQ then s\<lparr>tk_escaped := True, tk_started := True\<rparr>
      else if tk_quote s \<noteq> 0 then (if r = tk_quote s then s\<lparr>tk_quote := 0, tk_started := True\<rparr> else tok_write r s)
      else if r = SQ \<or> r = DQ then s\<lparr>tk_quote := r, tk_started := True\<rparr>
      else if blank r then tok_flush s else tok_write r s)"

definition tok_operator :: "tok \<Rightarrow> string \<Rightarrow> tok" where
  "tok_operator s w = (tok_flush s)\<lparr>tk_result := tk_result (tok_flush s) @ [w]\<rparr>"

definition at_operator :: "tok \<Rightarrow> rune \<Rightarrow> bool" where
  "at_operator s r \<longleftrightarrow> \<not> tk_escaped s \<and> tk_quote s = 0 \<and> token_break r"

lemma token_break_plain: "token_break r \<Longrightarrow> r \<noteq> BSL \<and> r \<noteq> SQ \<and> r \<noteq> DQ \<and> \<not> blank r"
  by (auto simp: token_break_def blank_def)

lemma tokenize_loop_step: "\<not> at_operator s r \<Longrightarrow> tokenize_loop s (r # rs) = tokenize_loop (tok_step s r) rs"
  by (cases "tk_escaped s"; cases "r = BSL"; cases "tk_quote s = SQ"; cases "tk_quote s = 0"; cases "r = SQ \<or> r = DQ")
     (simp_all add: tok_step_def at_operator_def compoundOperator_break)

lemma tokenize_loop_operator:
  "at_operator s r \<Longrightarrow> tokenize_loop s (r # rs) = tokenize_loop
     (tok_operator s (fst (compoundOperator (r # rs)))) (drop (snd (compoundOperator (r # rs)) - 1) rs)"
  using token_break_plain [of r]
  by (simp add: compoundOperator_break tok_operator_def at_operator_def)

declare tokenize_loop.simps(2) [simp del]

lemma tokenize_loop_keeps: "list_ex P (tk_result s) \<Longrightarrow> list_ex P (tk_result (tokenize_loop s rs))"
proof (induction "length rs" arbitrary: s rs rule: less_induct)
  case less
  show ?case
  proof (cases rs)
    case (Cons r rs')
    have "list_ex P (tk_result (tok_step s r))"
      using less.prems by (simp add: tok_step_def tok_steps)
    moreover have "list_ex P (tk_result (tok_operator s w))" for w
      using less.prems by (simp add: tok_operator_def tok_steps)
    ultimately show ?thesis using less.hyps Cons
      by (cases "at_operator s r") (auto simp: tokenize_loop_operator tokenize_loop_step)
  qed (use less.prems in simp)
qed

lemma rg_loop_Cons: "rg_loop g ((r, bs) # cs) = rg_loop ((rg_step g r)\<lparr>rg_index := rg_index g + length bs\<rparr>) cs"
  by (simp add: rg_loop_def)

lemma tok_step_sim: "tok_sim s g \<Longrightarrow> \<not> at_operator s r \<Longrightarrow> tok_sim (tok_step s r) (rg_step g r)"
  by (auto simp: tok_sim_def tok_step_def rg_step_def at_operator_def tok_steps split: option.split)

lemma tokenize_loop_sim:
  assumes "tok_sim s g" and "\<not> list_ex isCompoundOperator (tk_result (tokenize_loop s (map fst cs)))"
  shows "tok_sim (tokenize_loop s (map fst cs)) (rg_loop g cs)"
  using assms
proof (induction cs arbitrary: s g)
  case (Cons c cs)
  obtain r bs where c: "c = (r, bs)" by fastforce
  show ?case
  proof (cases "at_operator s r")
    case True
    then have "list_ex isCompoundOperator (tk_result (tok_operator s (fst (compoundOperator (r # map fst cs)))))"
      by (simp add: tok_operator_def compoundOperator_is at_operator_def)
    with Cons.prems(2) show ?thesis
      by (simp add: c tokenize_loop_operator [OF True] tokenize_loop_keeps)
  next
    case False
    with Cons.IH Cons.prems tok_step_sim [OF Cons.prems(1) False] show ?thesis
      by (simp add: c rg_loop_Cons tokenize_loop_step)
  qed
qed (simp add: rg_loop_def)

text \<open>The same for the shells, on lines without quotes and backslashes.\<close>

lemma unsafe_break: "token_break r \<Longrightarrow> unsafeShellCharacter r lexer shellName b"
  by (auto simp: token_break_def unsafeShellCharacter_def containsRune_def)

lemma conservative_loop_sim:
  assumes "conservative_loop lexer shellName s (map fst cs) = Inr s'" and "tok_sim s g"
    and "tk_quote s = 0" "\<not> tk_escaped s" and "\<forall>c \<in> set cs. fst c \<noteq> SQ \<and> fst c \<noteq> DQ \<and> fst c \<noteq> BSL"
  shows "tok_sim s' (rg_loop g cs) \<and> tk_quote s' = 0 \<and> \<not> tk_escaped s'"
  using assms
proof (induction cs arbitrary: s g)
  case (Cons c cs)
  obtain r bs where c: "c = (r, bs)" by fastforce
  have r: "r \<noteq> SQ" "r \<noteq> DQ" "r \<noteq> BSL" using Cons.prems(5) by (simp_all add: c)
  have nb: "\<not> token_break r"
    using Cons.prems(1,3) r unsafe_break [of r] token_break_plain [of r] by (auto simp: c)
  have "conservative_loop lexer shellName (tok_step s r) (map fst cs) = Inr s'"
    using Cons.prems(1,3,4) r by (simp add: c tok_step_def split: if_splits)
  moreover have "tok_sim (tok_step s r) (rg_step g r)"
    using Cons.prems(2) nb by (simp add: tok_step_sim at_operator_def)
  moreover have "tk_quote (tok_step s r) = 0" "\<not> tk_escaped (tok_step s r)"
    using Cons.prems(3,4) r by (simp_all add: tok_step_def tok_steps)
  ultimately show ?case using Cons.IH [of "tok_step s r"] Cons.prems(5) by (simp add: c rg_loop_Cons)
qed (simp add: rg_loop_def)

lemma tok_sim_values:
  "tok_sim s g \<Longrightarrow> \<not> tk_escaped s \<Longrightarrow> tk_quote s = 0 \<Longrightarrow>
   map tr_value (rg_ranges (rg_flush g)) = tk_result (tok_flush s)"
  using tok_sim_flush [of s g] by (simp add: tok_sim_def)

lemma tok_sim_closed: "tok_sim s g \<Longrightarrow> \<not> tk_escaped s \<Longrightarrow> tk_quote s = 0 \<Longrightarrow> rg_quote g = 0 \<and> \<not> rg_escaped g"
  by (simp add: tok_sim_def)

text \<open>Quotes and escapes are closed at the end of the line.\<close>

definition ranges_closed :: "string \<Rightarrow> bool" where
  "ranges_closed line \<longleftrightarrow> rg_quote (rg_loop ranging0 (cells line)) = 0 \<and> \<not> rg_escaped (rg_loop ranging0 (cells line))"

lemma tokenize_ranges:
  assumes "tokenize line = Inr words" and "\<not> list_ex isCompoundOperator words"
  shows "map tr_value (shellTokenRanges line) = words \<and> ranges_closed line"
proof -
  define s where "s = tokenize_loop tok0 (map fst (cells line))"
  have w: "words = tk_result (tok_flush s)" and q: "\<not> tk_escaped s" "tk_quote s = 0"
    using assms(1) by (simp_all add: tokenize_def s_def runes_def split: if_splits)
  have "\<not> list_ex isCompoundOperator (tk_result s)"
    using assms(2) by (auto simp: w tok_flush_def split: if_splits)
  then have "tok_sim s (rg_loop ranging0 (cells line))"
    unfolding s_def by (intro tokenize_loop_sim tok_sim0)
  from this q have "ranges_closed line" "map tr_value (shellTokenRanges line) = words"
    unfolding ranges_closed_def shellTokenRanges_def w by (rule tok_sim_closed, rule tok_sim_values)
  then show ?thesis by simp
qed

lemma char_of_quotes: "char_of SQ = CHR 0x27" "char_of DQ = CHR 0x22" "char_of BSL = CHR 0x5C"
  by code_simp+

lemma tokenizeConservative_ranges:
  assumes "tokenizeConservative line lexer shellName = Inr words"
    and "\<not> containsAny line [CHR 0x27, CHR 0x5C, CHR 0x22]"
  shows "map tr_value (shellTokenRanges line) = words \<and> ranges_closed line"
proof -
  obtain s where s: "conservative_loop lexer shellName tok0 (map fst (cells line)) = Inr s"
    and w: "words = tk_result (tok_flush s)"
    using assms(1) by (auto simp: tokenizeConservative_def runes_def split: sum.splits if_splits)
  have "CHR 0x27 \<notin> set line" "CHR 0x22 \<notin> set line" "CHR 0x5C \<notin> set line"
    using assms(2) by (auto simp: containsAny_iff)
  then have "SQ \<notin> set (runes line)" "DQ \<notin> set (runes line)" "BSL \<notin> set (runes line)"
    using runes_low [of SQ line] runes_low [of DQ line] runes_low [of BSL line] by (auto simp: char_of_quotes)
  then have "\<forall>c \<in> set (cells line). fst c \<noteq> SQ \<and> fst c \<noteq> DQ \<and> fst c \<noteq> BSL"
    unfolding runes_def set_map by (metis imageI)
  then have "tok_sim s (rg_loop ranging0 (cells line)) \<and> tk_quote s = 0 \<and> \<not> tk_escaped s"
    by (intro conservative_loop_sim [OF s tok_sim0]) (auto simp: tok0_def)
  then show ?thesis using tok_sim_closed [of s] tok_sim_values [of s]
    unfolding ranges_closed_def shellTokenRanges_def w by blast
qed

lemma words_values:
  assumes "tokenizeForShell shellName line = Inr words" and "\<not> hasUnsupportedShellSyntax words"
    and "rewriteCompatible shellName line"
  shows "map tr_value (shellTokenRanges line) = words \<and> ranges_closed line"
proof -
  have op: "\<not> list_ex isCompoundOperator words"
    using assms(2) by (auto simp: hasUnsupportedShellSyntax_def list_ex_iff)
  show ?thesis
  proof (cases "tokenize line = Inr words")
    case True
    then show ?thesis using op by (rule tokenize_ranges)
  next
    case False
    with assms(1) have "shellName \<noteq> []"
      by (auto simp: tokenizeForShell_def strings_TrimSpace_def strings_ToLower_def)
    moreover obtain lexer where "tokenizeConservative line lexer shellName = Inr words"
      using assms(1) False by (auto simp: tokenizeForShell_def split: if_splits)
    ultimately show ?thesis using assms(3) by (simp add: rewriteCompatible_def tokenizeConservative_ranges)
  qed
qed

text \<open>
  Property C26: whenever the engine may rewrite a line, the words it analysed are exactly the
  values of the token ranges from which the rewrite takes the bytes to replace, in the same
  order.
\<close>

theorem words_are_ranges:
  assumes "tokenizeForShell shellName line = Inr words" and "\<not> hasUnsupportedShellSyntax words"
    and "rewriteCompatible shellName line"
  shows "map tr_value (shellTokenRanges line) = words"
  using words_values [OF assms] by blast

theorem words_are_ranges_witness:
  "map tr_value (shellTokenRanges ''ls  -l'') = [''ls'', ''-l'']"
proof -
  have "tokenizeForShell ''bash'' ''ls  -l'' = Inr [''ls'', ''-l'']" by code_simp
  moreover have "\<not> hasUnsupportedShellSyntax [''ls'', ''-l'']" by code_simp
  moreover have "rewriteCompatible ''bash'' ''ls  -l''" by code_simp
  ultimately show ?thesis by (rule words_are_ranges)
qed

subsection \<open>Replacing one token\<close>

lemma find_occurrence_nth:
  "p < length ts \<Longrightarrow> tr_value (ts ! p) = original \<Longrightarrow>
   find_occurrence ts original (matched + int (length (filter (\<lambda>w. w = original) (take (Suc p) (map tr_value ts))))) matched
     = Some (ts ! p)"
proof (induction ts arbitrary: p matched)
  case (Cons t ts)
  show ?case
  proof (cases p)
    case 0
    with Cons.prems show ?thesis by simp
  next
    case (Suc q)
    let ?n = "length (filter (\<lambda>w. w = original) (take (Suc q) (map tr_value ts)))"
    have q: "q < length ts" "tr_value (ts ! q) = original" using Cons.prems Suc by simp_all
    have "original \<in> set (take (Suc q) (map tr_value ts))"
      using q by (auto simp: take_Suc_conv_app_nth)
    then have "0 < ?n" by (auto simp: filter_empty_conv)
    then show ?thesis
      using Cons.IH [OF q, of "matched + 1"] Cons.IH [OF q, of matched] Suc by (auto simp: algebra_simps)
  qed
qed simp

lemma find_tokenOccurrence:
  "map tr_value ts = words \<Longrightarrow> p < length words \<Longrightarrow>
   find_occurrence ts (words ! p) (int (tokenOccurrence words p)) 0 = Some (ts ! p)"
  using find_occurrence_nth [of p ts "words ! p" 0] by (auto simp: tokenOccurrence_def)

text \<open>Ranges are nonempty, in the line, in order and do not overlap.\<close>

definition rg_ok :: "ranging \<Rightarrow> bool" where
  "rg_ok g \<longleftrightarrow> (\<forall>t \<in> set (rg_ranges g). tr_start t < tr_end t \<and> tr_end t \<le> rg_index g) \<and>
     sorted_wrt (\<lambda>t u. tr_end t \<le> tr_start u) (rg_ranges g) \<and>
     (\<forall>b. rg_start g = Some b \<longrightarrow> b < rg_index g \<and> (\<forall>t \<in> set (rg_ranges g). tr_end t \<le> b)) \<and>
     (rg_quote g \<noteq> 0 \<or> rg_escaped g \<longrightarrow> rg_start g \<noteq> None)"

lemma rg_ok_flush:
  "rg_ok g \<Longrightarrow> rg_quote g = 0 \<Longrightarrow> \<not> rg_escaped g \<Longrightarrow> rg_ok ((rg_flush g)\<lparr>rg_index := rg_index g + n\<rparr>)"
  by (cases "rg_start g") (auto simp: rg_ok_def rg_flush_def sorted_wrt_append)

lemma rg_ok_begin: "rg_ok g \<Longrightarrow> 0 < n \<Longrightarrow> rg_ok ((rg_begin g)\<lparr>rg_index := rg_index g + n\<rparr>) \<and> rg_start (rg_begin g) \<noteq> None"
  by (cases "rg_start g") (auto simp: rg_ok_def rg_begin_def trans_le_add1)

lemma rg_ok_updates:
  "rg_ok (g\<lparr>rg_value := v, rg_index := i\<rparr>) = rg_ok (g\<lparr>rg_index := i\<rparr>)"
  "rg_ok (g\<lparr>rg_value := v, rg_escaped := False, rg_index := i\<rparr>) \<longleftrightarrow> rg_ok (g\<lparr>rg_escaped := False, rg_index := i\<rparr>)"
  "rg_ok (g\<lparr>rg_index := i\<rparr>) \<Longrightarrow> rg_ok (g\<lparr>rg_escaped := False, rg_index := i\<rparr>)"
  "rg_ok (g\<lparr>rg_index := i\<rparr>) \<Longrightarrow> rg_ok (g\<lparr>rg_quote := 0, rg_index := i\<rparr>)"
  "rg_ok (g\<lparr>rg_index := i\<rparr>) \<Longrightarrow> rg_start g \<noteq> None \<Longrightarrow> rg_ok (g\<lparr>rg_escaped := True, rg_index := i\<rparr>)"
  "rg_ok (g\<lparr>rg_index := i\<rparr>) \<Longrightarrow> rg_start g \<noteq> None \<Longrightarrow> rg_ok (g\<lparr>rg_quote := r, rg_index := i\<rparr>)"
  "rg_ok g \<Longrightarrow> rg_ok (g\<lparr>rg_index := rg_index g + n\<rparr>)"
  unfolding rg_ok_def by (auto simp: trans_le_add1 trans_less_add1)

lemma rg_ok_step: "rg_ok g \<Longrightarrow> 0 < n \<Longrightarrow> rg_ok ((rg_step g r)\<lparr>rg_index := rg_index g + n\<rparr>)"
  using rg_ok_flush [of g n] rg_ok_begin [of g n]
  by (simp add: rg_step_def rg_ok_updates)

lemma rg_ok_loop:
  "rg_ok g \<Longrightarrow> \<forall>c \<in> set cs. snd c \<noteq> [] \<Longrightarrow>
   rg_ok (rg_loop g cs) \<and> rg_index (rg_loop g cs) = rg_index g + length (cells_string cs)"
proof (induction cs arbitrary: g)
  case (Cons c cs)
  then show ?case by (cases c) (simp add: rg_loop_Cons rg_ok_step)
qed (simp add: rg_loop_def)

lemma cells_nonempty: "c \<in> set (cells s) \<Longrightarrow> snd c \<noteq> []"
proof (induction s rule: cells.induct)
  case (1 s)
  show ?case
  proof (cases "s = []")
    case False
    obtain q n where d: "decodeRune s = (q, n)" by fastforce
    have "cells s = (q, take n s) # cells (drop n s)" using False d by (subst cells.simps) simp
    with "1.IH" [of "(q, n)" q n] "1.prems" False d decodeRune_size [of s] show ?thesis by auto
  qed (use "1.prems" in simp)
qed

lemma shellTokenRanges_ok:
  "(\<forall>t \<in> set (shellTokenRanges line). tr_start t < tr_end t \<and> tr_end t \<le> length line) \<and>
   sorted_wrt (\<lambda>t u. tr_end t \<le> tr_start u) (shellTokenRanges line)"
proof -
  define g where "g = rg_loop ranging0 (cells line)"
  have "rg_ok ranging0" by (simp add: rg_ok_def ranging0_def)
  then have "rg_ok g \<and> rg_index g = rg_index ranging0 + length (cells_string (cells line))"
    unfolding g_def by (rule rg_ok_loop) (auto dest: cells_nonempty)
  then have g: "rg_ok g" "rg_index g = length line" by (simp_all add: ranging0_def)
  then show ?thesis unfolding shellTokenRanges_def g_def [symmetric]
    by (cases "rg_start g") (auto simp: rg_ok_def rg_flush_def sorted_wrt_append)
qed

text \<open>
  For every word of an analysed line, replacing it by its occurrence number
  changes exactly the bytes of that word: the result is the line with the byte range of the
  word exchanged, and everything before and after it is kept.
\<close>

lemma replace_hits_word:
  assumes "tokenizeForShell shellName line = Inr words" and "\<not> hasUnsupportedShellSyntax words"
    and "rewriteCompatible shellName line" and "p < length words"
  shows "\<exists>a b. a < b \<and> b \<le> length line \<and> tr_start (shellTokenRanges line ! p) = a \<and> tr_end (shellTokenRanges line ! p) = b \<and>
    replaceTokenOccurrence line (words ! p) replacement (int (tokenOccurrence words p)) =
      Some (take a line @ quotedReplacement (slice line a b) replacement @ drop b line)"
proof -
  have v: "map tr_value (shellTokenRanges line) = words"
    using words_values [OF assms(1-3)] by blast
  have "p < length (shellTokenRanges line)" using assms(4) by (simp add: v [symmetric])
  then have "tr_start (shellTokenRanges line ! p) < tr_end (shellTokenRanges line ! p) \<and>
      tr_end (shellTokenRanges line ! p) \<le> length line"
    using shellTokenRanges_ok [of line] nth_mem by blast
  with find_tokenOccurrence [OF v assms(4)] show ?thesis by (simp add: replaceTokenOccurrence_def)
qed

end
