(* ===== verification/Rewriting.thy ===== *)
theory Rewriting
  imports Tokenizer
begin

section \<open>Rewritten lines (internal/diagnose/engine.go)\<close>

text \<open>
  What a shell line with one token replaced by \<open>replaceTokenOccurrence\<close> means to the
  tokenizer: the same words, with the chosen one exchanged.
\<close>

subsection \<open>Tokenizing the rewritten line\<close>

text \<open>
  A replacement is plain if no rune of it means anything to the tokenizers or to the quoting
  of \<open>quotedReplacement\<close>.
\<close>

definition plain_rune :: "rune \<Rightarrow> bool" where
  "plain_rune r \<longleftrightarrow> valid_rune r \<and> \<not> blank r \<and> \<not> token_break r \<and> r \<noteq> SQ \<and> r \<noteq> DQ \<and> r \<noteq> BSL \<and> r \<noteq> DOLLAR \<and> r \<noteq> BTICK"

definition plain_word :: "string \<Rightarrow> bool" where
  "plain_word s \<longleftrightarrow> s \<noteq> [] \<and> valid_utf8 s \<and> list_all plain_rune (runes s)"

text \<open>The state between words, and how a later state depends on an earlier range.\<close>

definition rg_clean :: "ranging \<Rightarrow> bool" where
  "rg_clean g \<longleftrightarrow> rg_start g = None \<and> rg_quote g = 0 \<and> \<not> rg_escaped g \<and> rg_value g = []"

definition rg_in_word :: "ranging \<Rightarrow> string list \<Rightarrow> rune list \<Rightarrow> bool" where
  "rg_in_word g ws v \<longleftrightarrow> map tr_value (rg_ranges g) = ws \<and> rg_start g \<noteq> None \<and> rg_value g = v \<and>
     rg_quote g = 0 \<and> \<not> rg_escaped g"

definition rg_like :: "nat \<Rightarrow> string \<Rightarrow> ranging \<Rightarrow> ranging \<Rightarrow> bool" where
  "rg_like p v g g' \<longleftrightarrow> p < length (rg_ranges g) \<and>
     map tr_value (rg_ranges g') = (map tr_value (rg_ranges g))[p := v] \<and> rg_value g' = rg_value g \<and>
     (rg_start g' = None \<longleftrightarrow> rg_start g = None) \<and> rg_quote g' = rg_quote g \<and> rg_escaped g' = rg_escaped g"

lemma rg_like_flush: "rg_like p v g g' \<Longrightarrow> rg_like p v (rg_flush g) (rg_flush g')"
  by (auto simp: rg_like_def rg_flush_def list_update_append split: option.splits)

lemma rg_like_index [simp]: "rg_like p v (g\<lparr>rg_index := i\<rparr>) (g'\<lparr>rg_index := j\<rparr>) = rg_like p v g g'"
  by (simp add: rg_like_def)

lemma rg_like_step: "rg_like p v g g' \<Longrightarrow> rg_like p v (rg_step g r) (rg_step g' r)"
  using rg_like_flush [of p v g g']
  by (simp add: rg_step_def) (auto simp: rg_like_def rg_begin_def split: option.splits)

lemma rg_like_loop: "rg_like p v g g' \<Longrightarrow> rg_like p v (rg_loop g cs) (rg_loop g' cs)"
proof (induction cs arbitrary: g g')
  case (Cons c cs)
  then show ?case by (cases c) (simp add: rg_loop_Cons rg_like_step)
qed (simp add: rg_loop_def)

lemma rg_loop_append: "rg_loop g (cs @ ds) = rg_loop (rg_loop g cs) ds"
  by (simp add: rg_loop_def)

lemma rg_loop_snoc:
  "rg_loop g (cs @ [(r, bs)]) = (rg_step (rg_loop g cs) r)\<lparr>rg_index := rg_index (rg_loop g cs) + length bs\<rparr>"
  by (simp add: rg_loop_def)

lemma rg_index_loop: "rg_index (rg_loop g cs) = rg_index g + length (cells_string cs)"
proof (induction cs arbitrary: g)
  case (Cons c cs)
  then show ?case by (cases c) (simp add: rg_loop_Cons)
qed (simp add: rg_loop_def)

lemma rg_step_cases:
  assumes "rg_start g = None \<longrightarrow> rg_clean g"
  shows "rg_quote g = 0 \<and> \<not> rg_escaped g \<and> (blank r \<or> token_break r) \<and> rg_step g r = rg_flush g \<or>
    rg_ranges (rg_step g r) = rg_ranges g \<and>
      rg_start (rg_step g r) = Some (case rg_start g of None \<Rightarrow> rg_index g | Some b \<Rightarrow> b)"
proof (cases "\<not> rg_escaped g \<and> rg_quote g = 0 \<and> (blank r \<or> token_break r)")
  case True
  then have "r \<noteq> BSL" "r \<noteq> SQ" "r \<noteq> DQ" by (auto simp: blank_def token_break_def)
  with True show ?thesis by (auto simp: rg_step_def)
next
  case False
  show ?thesis
  proof (cases "rg_start g")
    case None
    with assms False show ?thesis by (auto simp: rg_clean_def rg_step_def rg_begin_def)
  next
    case (Some b)
    with False show ?thesis by (auto simp: rg_step_def rg_begin_def)
  qed
qed

text \<open>Every range, and the word in progress, begins after a clean state.\<close>

definition word_from :: "cell list \<Rightarrow> cell list \<Rightarrow> nat \<Rightarrow> bool" where
  "word_from xs ts b \<longleftrightarrow> rg_clean (rg_loop ranging0 xs) \<and> b = length (cells_string xs) \<and>
     rg_start (rg_loop ranging0 (xs @ ts)) \<noteq> None \<and>
     rg_ranges (rg_loop ranging0 (xs @ ts)) = rg_ranges (rg_loop ranging0 xs)"

definition word_closed :: "cell list \<Rightarrow> cell list \<Rightarrow> bool" where
  "word_closed xs ts \<longleftrightarrow> rg_quote (rg_loop ranging0 (xs @ ts)) = 0 \<and> \<not> rg_escaped (rg_loop ranging0 (xs @ ts))"

definition split_at :: "cell list \<Rightarrow> nat \<Rightarrow> bool" where
  "split_at cs p \<longleftrightarrow> (\<exists>xs ts c ys. cs = xs @ ts @ c # ys \<and> word_from xs ts (tr_start (rg_ranges (rg_loop ranging0 cs) ! p)) \<and>
     word_closed xs ts \<and> length (rg_ranges (rg_loop ranging0 xs)) = p \<and> (blank (fst c) \<or> token_break (fst c)) \<and>
     tr_end (rg_ranges (rg_loop ranging0 cs) ! p) = length (cells_string (xs @ ts)))"

lemma split_at_snoc:
  assumes "split_at cs p" and "rg_ranges (rg_loop ranging0 (cs @ [c])) ! p = rg_ranges (rg_loop ranging0 cs) ! p"
  shows "split_at (cs @ [c]) p"
proof -
  obtain xs ts d ys where "cs = xs @ ts @ d # ys" "word_from xs ts (tr_start (rg_ranges (rg_loop ranging0 cs) ! p))"
    "word_closed xs ts" "length (rg_ranges (rg_loop ranging0 xs)) = p" "blank (fst d) \<or> token_break (fst d)"
    "tr_end (rg_ranges (rg_loop ranging0 cs) ! p) = length (cells_string (xs @ ts))"
    using assms(1) unfolding split_at_def by blast
  then show ?thesis unfolding split_at_def assms(2)
    by (intro exI [of _ xs] exI [of _ ts] exI [of _ d] exI [of _ "ys @ [c]"]) simp
qed

lemma token_splits:
  "(rg_start (rg_loop ranging0 cs) = None \<longrightarrow> rg_clean (rg_loop ranging0 cs)) \<and>
   (\<forall>b. rg_start (rg_loop ranging0 cs) = Some b \<longrightarrow> (\<exists>xs ts. cs = xs @ ts \<and> word_from xs ts b)) \<and>
   (\<forall>p < length (rg_ranges (rg_loop ranging0 cs)). split_at cs p)"
proof (induction cs rule: rev_induct)
  case Nil
  show ?case by (simp add: rg_loop_def ranging0_def rg_clean_def)
next
  case (snoc c cs)
  obtain r bs where c: "c = (r, bs)" by fastforce
  define g where "g = rg_loop ranging0 cs"
  have loop: "rg_loop ranging0 (cs @ [c]) = (rg_step g r)\<lparr>rg_index := rg_index g + length bs\<rparr>"
    by (simp add: c rg_loop_snoc g_def)
  have IH: "rg_start g = None \<Longrightarrow> rg_clean g"
    "\<And>b. rg_start g = Some b \<Longrightarrow> \<exists>xs ts. cs = xs @ ts \<and> word_from xs ts b"
    "\<And>p. p < length (rg_ranges g) \<Longrightarrow> split_at cs p"
    using snoc.IH by (simp_all add: g_def)
  have "rg_start g = None \<longrightarrow> rg_clean g" using IH(1) by simp
  note step_cases = rg_step_cases [OF this, of r]
  consider (keep) "rg_ranges (rg_step g r) = rg_ranges g"
      "rg_start (rg_step g r) = Some (case rg_start g of None \<Rightarrow> rg_index g | Some b \<Rightarrow> b)"
    | (flush) "rg_quote g = 0" "\<not> rg_escaped g" "blank r \<or> token_break r" "rg_step g r = rg_flush g"
    using step_cases by fast
  then show ?case
  proof cases
    case keep
    have "\<exists>xs ts. cs @ [c] = xs @ ts \<and> word_from xs ts b" if b: "rg_start (rg_step g r) = Some b" for b
    proof (cases "rg_start g")
      case None
      with keep b IH(1) have "word_from cs [c] b"
        by (simp add: word_from_def loop g_def [symmetric]) (simp add: g_def rg_index_loop ranging0_def)
      then show ?thesis by blast
    next
      case (Some b')
      with keep b IH(2) obtain xs ts where "cs = xs @ ts" "word_from xs ts b" by fastforce
      with keep b have "word_from xs (ts @ [c]) b"
        by (simp add: word_from_def loop [unfolded \<open>cs = xs @ ts\<close>, simplified]) (simp add: g_def)
      with \<open>cs = xs @ ts\<close> show ?thesis by (intro exI [of _ xs] exI [of _ "ts @ [c]"]) simp
    qed
    moreover have "split_at (cs @ [c]) p" if "p < length (rg_ranges g)" for p
      using that keep by (intro split_at_snoc IH(3)) (simp_all add: loop g_def [symmetric])
    ultimately show ?thesis using keep by (simp add: loop)
  next
    case flush
    have clean: "rg_clean (rg_loop ranging0 (cs @ [c]))"
      using flush IH(1) by (cases "rg_start g") (auto simp: loop rg_clean_def rg_flush_def)
    have "split_at (cs @ [c]) p" if p: "p < length (rg_ranges (rg_flush g))" for p
    proof (cases "p < length (rg_ranges g)")
      case True
      then show ?thesis using flush
        by (intro split_at_snoc IH(3)) (simp_all add: loop g_def [symmetric] rg_flush_def nth_append split: option.split)
    next
      case False
      with p obtain b where b: "rg_start g = Some b" and p': "p = length (rg_ranges g)"
        by (auto simp: rg_flush_def split: option.splits)
      obtain xs ts where cs: "cs = xs @ ts" "word_from xs ts b" using IH(2) [OF b] by blast
      then have "word_closed xs ts" "length (rg_ranges (rg_loop ranging0 xs)) = p"
        using flush p' by (simp_all add: word_closed_def word_from_def g_def)
      moreover have "rg_index g = length (cells_string (xs @ ts))"
        unfolding g_def rg_index_loop cs(1) by (simp add: ranging0_def)
      then have "rg_ranges (rg_loop ranging0 (cs @ [c])) ! p =
          \<lparr>tr_start = b, tr_end = length (cells_string (xs @ ts)), tr_value = string_of_runes (rg_value g)\<rparr>"
        using flush(4) b p' by (simp add: loop rg_flush_def)
      ultimately show ?thesis unfolding split_at_def using cs flush(3)
        by (intro exI [of _ xs] exI [of _ ts] exI [of _ c] exI [of _ "[]"]) (simp add: c)
    qed
    with clean flush show ?thesis by (simp add: rg_clean_def loop)
  qed
qed

text \<open>A plain word is one word again, whatever quotes the replaced token had.\<close>

lemma rg_loop_plain:
  "list_all plain_rune (map fst cs) \<Longrightarrow> rg_quote g = 0 \<Longrightarrow> \<not> rg_escaped g \<Longrightarrow> cs \<noteq> [] \<or> rg_start g \<noteq> None \<Longrightarrow>
   rg_in_word (rg_loop g cs) (map tr_value (rg_ranges g)) (rg_value g @ map fst cs)"
proof (induction cs arbitrary: g)
  case (Cons c cs)
  obtain r bs where c: "c = (r, bs)" by fastforce
  have r: "plain_rune r" using Cons.prems(1) by (simp add: c)
  have step: "rg_step g r = (rg_begin g)\<lparr>rg_value := rg_value g @ [r]\<rparr>" and started: "rg_start (rg_begin g) \<noteq> None"
      "rg_ranges (rg_begin g) = rg_ranges g" "rg_quote (rg_begin g) = 0" "\<not> rg_escaped (rg_begin g)"
    using r Cons.prems(2,3) by (auto simp: rg_step_def plain_rune_def rg_begin_def split: option.split)
  show ?case
    using Cons.IH [of "(rg_step g r)\<lparr>rg_index := rg_index g + length bs\<rparr>"] Cons.prems(1) started
    by (simp add: c rg_loop_Cons step)
qed (simp add: rg_in_word_def rg_loop_def)

lemma rg_loop_quoted:
  "list_all plain_rune (map fst cs) \<Longrightarrow> rg_quote g = q \<Longrightarrow> q = SQ \<or> q = DQ \<Longrightarrow> \<not> rg_escaped g \<Longrightarrow>
   \<exists>i. rg_loop g cs = g\<lparr>rg_value := rg_value g @ map fst cs, rg_index := i\<rparr>"
proof (induction cs arbitrary: g)
  case Nil
  then show ?case by (intro exI [of _ "rg_index g"]) (simp add: rg_loop_def)
next
  case (Cons c cs)
  obtain r bs where c: "c = (r, bs)" by fastforce
  have "rg_step g r = g\<lparr>rg_value := rg_value g @ [r]\<rparr>"
    using Cons.prems by (auto simp: c rg_step_def plain_rune_def)
  then show ?case
    using Cons.IH [of "g\<lparr>rg_value := rg_value g @ [r], rg_index := rg_index g + length bs\<rparr>"] Cons.prems
    by (auto simp: c rg_loop_Cons)
qed

lemma rg_in_quotes:
  assumes "list_all plain_rune (map fst cs)" and "rg_clean g" and "q = SQ \<or> q = DQ"
  shows "rg_in_word (rg_loop g ((q, [char_of q]) # cs @ [(q, [char_of q])])) (map tr_value (rg_ranges g)) (map fst cs)"
proof -
  define g1 where "g1 = g\<lparr>rg_start := Some (rg_index g), rg_quote := q, rg_index := rg_index g + 1\<rparr>"
  have "rg_loop g ((q, [char_of q]) # cs @ [(q, [char_of q])]) = rg_loop (rg_loop g1 cs) [(q, [char_of q])]"
    using assms(2,3) by (auto simp: rg_loop_Cons rg_loop_append rg_step_def rg_clean_def rg_begin_def g1_def)
  moreover obtain i where "rg_loop g1 cs = g1\<lparr>rg_value := map fst cs, rg_index := i\<rparr>"
    using rg_loop_quoted [OF assms(1), of g1 q] assms(2,3) by (auto simp: g1_def rg_clean_def)
  moreover have "rg_in_word (rg_loop (g1\<lparr>rg_value := map fst cs, rg_index := i\<rparr>) [(q, [char_of q])])
      (map tr_value (rg_ranges g)) (map fst cs)" for i
    using assms(3,2) by (elim disjE) (simp_all add: rg_loop_def rg_step_def g1_def rg_clean_def rg_in_word_def)
  ultimately show ?thesis by simp
qed

lemma concat_map_single: "(\<And>x. x \<in> set xs \<Longrightarrow> f x = [x]) \<Longrightarrow> concat (map f xs) = xs"
  by (induction xs) simp_all

lemma plain_word_bytes:
  assumes "plain_word w"
  shows "replaceByte CHR 0x27 new w = w" and "double_quote_escape w = w"
proof -
  define L where "L = {CHR 0x27, CHR 0x5C, CHR 0x22, CHR ''$'', CHR 0x60}"
  have low: "byte c < 0x80 \<and> \<not> plain_rune (byte c)" if "c \<in> L" for c
    using that unfolding L_def by (elim insertE) (simp_all add: plain_rune_def)
  have "plain_rune (byte c)" if "c \<in> set w" "byte c < 0x80" for c
    using assms valid_low [of w c] that by (auto simp: plain_word_def list_all_iff)
  then have "set w \<inter> L = {}" using low by blast
  then have n: "c \<noteq> CHR 0x27 \<and> c \<notin> set [CHR 0x5C, CHR 0x22, CHR ''$'', CHR 0x60]" if "c \<in> set w" for c
    using that by (auto simp: L_def)
  show "replaceByte CHR 0x27 new w = w" unfolding replaceByte_def using n by (intro concat_map_single) simp
  show "double_quote_escape w = w" unfolding double_quote_escape_def using n by (intro concat_map_single) simp
qed

lemma replacement_one_word:
  assumes "plain_word w" and "rg_clean g"
  shows "valid_utf8 (quotedReplacement raw w) \<and>
    rg_in_word (rg_loop g (cells (quotedReplacement raw w))) (map tr_value (rg_ranges g)) (runes w)"
proof -
  have w: "valid_utf8 w" "list_all plain_rune (map fst (cells w))" "cells w \<noteq> []"
    using assms(1) by (auto simp: plain_word_def runes_def) (metis cells_string_cells cells_string_simps(1))
  have q: "cells (char_of q # w @ [char_of q]) = (q, [char_of q]) # cells w @ [(q, [char_of q])]" if "q = SQ \<or> q = DQ" for q
    using that w(1) by (auto simp: cells_valid_utf8)
  have "rg_in_word (rg_loop g (cells w)) (map tr_value (rg_ranges g)) (runes w)"
    using rg_loop_plain [of "cells w" g] w assms(2) by (simp add: rg_clean_def runes_def)
  moreover have "rg_in_word (rg_loop g (cells (char_of q # w @ [char_of q]))) (map tr_value (rg_ranges g)) (runes w)"
    if "q = SQ \<or> q = DQ" for q
    unfolding q [OF that] runes_def using w(2) assms(2) that by (rule rg_in_quotes)
  moreover have "valid_utf8 (char_of q # w @ [char_of q])" if "q = SQ \<or> q = DQ" for q
    unfolding valid_utf8_def q [OF that] using w(1) that by (auto simp: valid_utf8_def valid_cell_def valid_rune_def)
  moreover have "quotedReplacement raw w \<in> {w, char_of SQ # w @ [char_of SQ], char_of DQ # w @ [char_of DQ]}"
    unfolding quotedReplacement_def plain_word_bytes [OF assms(1)] char_of_quotes by simp
  ultimately show ?thesis using w(1) by (elim insertE emptyE; simp only: simp_thms)
qed

text \<open>After the word, the states of the original and of the changed line are alike.\<close>

lemma rg_like_after_word:
  assumes "rg_start h \<noteq> None" and "rg_quote h = 0" "\<not> rg_escaped h"
    and "rg_in_word k (map tr_value (rg_ranges h)) (runes w)" and "valid_utf8 w"
  shows "rg_like (length (rg_ranges h)) w (rg_flush h) (rg_flush k)"
  using assms string_of_valid_runes [OF assms(5)]
  by (auto simp: rg_like_def rg_in_word_def rg_flush_def list_update_append)

lemma retokenize_split:
  assumes line: "cells line = xs @ ts @ ys" "valid_utf8 line" and w: "plain_word w"
    and word: "word_from xs ts a" "word_closed xs ts"
    and flush: "ys = [] \<or> blank (fst (hd ys)) \<or> token_break (fst (hd ys))"
  shows "map tr_value (shellTokenRanges (cells_string xs @ quotedReplacement raw w @ cells_string ys))
    = (map tr_value (shellTokenRanges line))[length (rg_ranges (rg_loop ranging0 xs)) := w]"
proof -
  define g h k where "g = rg_loop ranging0 xs" and "h = rg_loop g ts"
    and "k = rg_loop g (cells (quotedReplacement raw w))"
  have g: "rg_clean g" "rg_ranges h = rg_ranges g" "rg_start h \<noteq> None" "rg_quote h = 0" "\<not> rg_escaped h"
    using word by (simp_all add: word_from_def word_closed_def g_def h_def rg_loop_append)
  have k: "valid_utf8 (quotedReplacement raw w)" "rg_in_word k (map tr_value (rg_ranges h)) (runes w)"
    using replacement_one_word [OF w g(1)] by (simp_all add: k_def g(2))
  have w': "valid_utf8 w" using w by (simp add: plain_word_def)
  have valid: "list_all valid_cell xs" "list_all valid_cell ys" using line by (simp_all add: valid_utf8_def)
  have new: "cells (cells_string xs @ quotedReplacement raw w @ cells_string ys) = xs @ cells (quotedReplacement raw w) @ ys"
    using cells_valid [OF valid(2), of "[]"] by (simp add: cells_valid [OF valid(1)] cells_valid_utf8 [OF k(1)])
  have like: "rg_like (length (rg_ranges g)) w (rg_flush h) (rg_flush k)"
    using rg_like_after_word [OF g(3-5) k(2) w'] by (simp add: g(2))
  have "rg_like (length (rg_ranges g)) w (rg_flush (rg_loop h ys)) (rg_flush (rg_loop k ys))"
  proof (cases ys)
    case Nil
    with like show ?thesis by (simp add: rg_loop_def)
  next
    case (Cons c ys')
    obtain r bs where c: "c = (r, bs)" by fastforce
    have r: "r \<noteq> BSL" "r \<noteq> SQ" "r \<noteq> DQ" "blank r \<or> token_break r"
      using flush by (auto simp: Cons c blank_def token_break_def)
    have "rg_step h r = rg_flush h" "rg_step k r = rg_flush k"
      using r g(4,5) k(2) by (auto simp: rg_step_def rg_in_word_def)
    with like show ?thesis by (simp add: Cons c rg_loop_Cons rg_like_loop rg_like_flush)
  qed
  then show ?thesis
    unfolding shellTokenRanges_def new line(1)
    by (simp add: rg_like_def rg_loop_append g_def [symmetric] h_def [symmetric] k_def [symmetric])
qed

lemma retokenize_range:
  assumes "valid_utf8 line" and "plain_word w" and "p < length (shellTokenRanges line)"
    and complete: "ranges_closed line"
  shows "map tr_value (shellTokenRanges (take (tr_start (shellTokenRanges line ! p)) line
      @ quotedReplacement raw w @ drop (tr_end (shellTokenRanges line ! p)) line))
    = (map tr_value (shellTokenRanges line))[p := w]"
proof -
  let ?g = "rg_loop ranging0 (cells line)" and ?t = "shellTokenRanges line ! p"
  have cut: "take (length (cells_string xs)) line = cells_string xs \<and>
      drop (length (cells_string (xs @ ts))) line = cells_string ys" if "cells line = xs @ ts @ ys" for xs ts ys
  proof -
    have "line = cells_string xs @ cells_string ts @ cells_string ys"
      using that by (metis cells_string_cells cells_string_simps(3))
    then show ?thesis by simp
  qed
  show ?thesis
  proof (cases "p < length (rg_ranges ?g)")
    case True
    then have t: "?t = rg_ranges ?g ! p"
      by (simp add: shellTokenRanges_def rg_flush_def nth_append split: option.split)
    from True token_splits have "split_at (cells line) p" by blast
    then obtain xs ts c ys where *: "cells line = xs @ ts @ c # ys" "word_from xs ts (tr_start ?t)" "word_closed xs ts"
      "length (rg_ranges (rg_loop ranging0 xs)) = p" "blank (fst c) \<or> token_break (fst c)"
      "tr_end ?t = length (cells_string (xs @ ts))"
      unfolding split_at_def t by blast
    then have "tr_start ?t = length (cells_string xs)" by (simp add: word_from_def)
    with * cut [OF *(1)] retokenize_split [OF *(1) assms(1,2) *(2,3), of raw] show ?thesis by simp
  next
    case False
    with assms(3) obtain b where b: "rg_start ?g = Some b" and p: "p = length (rg_ranges ?g)"
      and t: "?t = \<lparr>tr_start = b, tr_end = rg_index ?g, tr_value = string_of_runes (rg_value ?g)\<rparr>"
      by (auto simp: shellTokenRanges_def rg_flush_def nth_append split: option.splits)
    obtain xs ts where *: "cells line = xs @ ts" "word_from xs ts b" using token_splits b by blast
    have "cells line = xs @ ts @ []" using *(1) by simp
    moreover have "word_closed xs ts" "length (rg_ranges (rg_loop ranging0 xs)) = p" "b = length (cells_string xs)"
      using complete *(2) p by (simp_all add: ranges_closed_def word_closed_def word_from_def *(1) [symmetric])
    moreover have "rg_index ?g = length (cells_string (xs @ ts))"
      using *(1) by (simp add: rg_index_loop ranging0_def)
    ultimately show ?thesis
      using cut [of xs ts "[]"] retokenize_split [of line xs ts "[]" w b raw] assms(1,2) *(2) t by simp
  qed
qed

lemma rewrite_tokens:
  assumes "tokenizeForShell shellName line = Inr words" and "\<not> hasUnsupportedShellSyntax words"
    and "rewriteCompatible shellName line" and "p < length words"
    and "valid_utf8 line" and "plain_word w"
  shows "\<exists>buffer. replaceTokenOccurrence line (words ! p) w (int (tokenOccurrence words p)) = Some buffer \<and>
    map tr_value (shellTokenRanges buffer) = words[p := w]"
proof -
  have v: "map tr_value (shellTokenRanges line) = words" "ranges_closed line"
    using words_values [OF assms(1-3)] by blast+
  have p: "p < length (shellTokenRanges line)" using assms(4) by (simp add: v(1) [symmetric])
  show ?thesis
    using retokenize_range [OF assms(5,6) p v(2)] find_tokenOccurrence [OF v(1) assms(4)]
    by (simp add: replaceTokenOccurrence_def v(1))
qed



end
