(* ===== verification/GoRegexp.thy ===== *)
theory GoRegexp
  imports GoStrings "HOL-Library.Sublist"
begin

section \<open>Regular expressions with the leftmost-first semantics of package regexp\<close>

text \<open>
  The abstract syntax covers the operators that the program's patterns use: character
  classes, sequence, ordered alternation, greedy repetition, greedy option, capture groups
  and the anchors. \<open>rx_run\<close> lists every way a pattern can match at a position, in order of
  preference, so the head of the list is the match that the leftmost-first rule picks;
  \<open>rx_find\<close> looks for the leftmost position. Text is a list of cells (runes with their
  bytes), so that a byte that is not valid UTF-8 is copied unchanged by a replacement.
  Repetition is bounded by the length of the remaining text, which is enough because an
  iteration that consumes nothing is not followed (\<open>star_run_fuel\<close>).
\<close>

datatype rx =
    REmpty
  | RClass bool "(rune \<times> rune) list"   \<comment> \<open>negated?, ranges\<close>
  | RSeq rx rx
  | RAlt rx rx
  | RStar rx
  | ROpt rx
  | RGroup nat rx
  | RBegin                              \<comment> \<open>beginning of text\<close>
  | REnd                                \<comment> \<open>end of text\<close>
  | RBeginLine                          \<comment> \<open>\<open>^\<close> under \<open>(?m)\<close>\<close>
  | REndLine                            \<comment> \<open>\<open>$\<close> under \<open>(?m)\<close>\<close>

text \<open>A matching position: the rune before it, the text after it, the captures so far.\<close>

type_synonym captures = "(nat \<times> cell list) list"
type_synonym mstate = "rune option \<times> cell list \<times> captures"

abbreviation ms_rest :: "mstate \<Rightarrow> cell list" where "ms_rest st \<equiv> fst (snd st)"

definition in_ranges :: "(rune \<times> rune) list \<Rightarrow> rune \<Rightarrow> bool" where
  "in_ranges rs r \<longleftrightarrow> list_ex (\<lambda>(a, b). a \<le> r \<and> r \<le> b) rs"

fun star_run :: "nat \<Rightarrow> (mstate \<Rightarrow> mstate list) \<Rightarrow> mstate \<Rightarrow> mstate list" where
  "star_run 0 f st = [st]"
| "star_run (Suc n) f st =
     concat (map (star_run n f) (filter (\<lambda>st'. length (ms_rest st') < length (ms_rest st)) (f st))) @ [st]"

primrec rx_run :: "rx \<Rightarrow> mstate \<Rightarrow> mstate list" where
  "rx_run REmpty st = [st]"
| "rx_run (RClass neg rs) st =
     (case st of (p, txt, caps) \<Rightarrow> case txt of [] \<Rightarrow> []
        | c # cs \<Rightarrow> if in_ranges rs (fst c) \<noteq> neg then [(Some (fst c), cs, caps)] else [])"
| "rx_run (RSeq a b) st = concat (map (rx_run b) (rx_run a st))"
| "rx_run (RAlt a b) st = rx_run a st @ rx_run b st"
| "rx_run (RStar a) st = star_run (length (ms_rest st)) (rx_run a) st"
| "rx_run (ROpt a) st = rx_run a st @ [st]"
| "rx_run (RGroup n a) st =
     map (\<lambda>(p, rest, caps). (p, rest, (n, take (length (ms_rest st) - length rest) (ms_rest st)) # caps))
       (rx_run a st)"
| "rx_run RBegin st = (if fst st = None then [st] else [])"
| "rx_run REnd st = (if ms_rest st = [] then [st] else [])"
| "rx_run RBeginLine st = (if fst st = None \<or> fst st = Some 10 then [st] else [])"
| "rx_run REndLine st =
     (case ms_rest st of [] \<Rightarrow> [st] | c # _ \<Rightarrow> if fst c = 10 then [st] else [])"

text \<open>The leftmost match: the cells skipped before it, and the position after it.\<close>

fun rx_find :: "rx \<Rightarrow> rune option \<Rightarrow> cell list \<Rightarrow> (cell list \<times> mstate) option" where
  "rx_find r p [] = (case rx_run r (p, [], []) of st # _ \<Rightarrow> Some ([], st) | [] \<Rightarrow> None)"
| "rx_find r p (c # cs) =
     (case rx_run r (p, c # cs, []) of st # _ \<Rightarrow> Some ([], st)
      | [] \<Rightarrow> map_option (\<lambda>(sk, st). (c # sk, st)) (rx_find r (Some (fst c)) cs))"

definition rx_MatchString :: "rx \<Rightarrow> string \<Rightarrow> bool" where
  "rx_MatchString r s \<longleftrightarrow> rx_find r None (cells s) \<noteq> None"

definition cap_string :: "nat \<Rightarrow> captures \<Rightarrow> string" where
  "cap_string n caps = (case map_of caps n of None \<Rightarrow> [] | Some cs \<Rightarrow> cells_string cs)"

subsection \<open>A match consumes a prefix of the text\<close>

lemma star_run_suffix:
  assumes "\<And>st st'. st' \<in> set (f st) \<Longrightarrow> suffix (ms_rest st') (ms_rest st)"
  shows "st' \<in> set (star_run n f st) \<Longrightarrow> suffix (ms_rest st') (ms_rest st)"
proof (induction n arbitrary: st)
  case (Suc n)
  from Suc.prems consider "st' = st"
    | st1 where "st1 \<in> set (f st)" "st' \<in> set (star_run n f st1)" by auto
  then show ?case
  proof cases
    case 2
    then show ?thesis using Suc.IH assms suffix_order.trans by blast
  qed simp
qed simp

lemma rx_run_group_rest:
  "st' \<in> set (rx_run (RGroup n a) st) \<Longrightarrow> \<exists>st1 \<in> set (rx_run a st). ms_rest st' = ms_rest st1"
  by (force split: prod.splits)

lemma rx_run_suffix: "st' \<in> set (rx_run r st) \<Longrightarrow> suffix (ms_rest st') (ms_rest st)"
proof (induction r arbitrary: st st')
  case (RClass neg rs)
  then show ?case by (auto split: prod.splits list.splits if_splits simp: suffix_ConsI)
next
  case (RSeq a b)
  then obtain st1 where "st1 \<in> set (rx_run a st)" "st' \<in> set (rx_run b st1)" by auto
  with RSeq.IH show ?case using suffix_order.trans by blast
next
  case (RStar a)
  then show ?case using star_run_suffix by (metis rx_run.simps(5))
next
  case (RGroup n a)
  then show ?case using rx_run_group_rest by metis
qed (auto split: if_splits list.splits)

text \<open>The bound on repetition is enough: more rounds than runes left add nothing.\<close>

lemma star_run_fuel:
  "length (ms_rest st) \<le> n \<Longrightarrow> star_run (Suc n) f st = star_run n f st"
proof (induction n arbitrary: st)
  case 0
  then show ?case by simp
next
  case (Suc n)
  have "map (star_run (Suc n) f) (filter (\<lambda>st'. length (ms_rest st') < length (ms_rest st)) (f st))
      = map (star_run n f) (filter (\<lambda>st'. length (ms_rest st') < length (ms_rest st)) (f st))"
    using Suc by (intro map_cong refl) auto
  then show ?case by (metis star_run.simps(2))
qed

text \<open>The least number of runes a pattern consumes.\<close>

primrec rx_minlen :: "rx \<Rightarrow> nat" where
  "rx_minlen REmpty = 0"
| "rx_minlen (RClass neg rs) = 1"
| "rx_minlen (RSeq a b) = rx_minlen a + rx_minlen b"
| "rx_minlen (RAlt a b) = min (rx_minlen a) (rx_minlen b)"
| "rx_minlen (RStar a) = 0"
| "rx_minlen (ROpt a) = 0"
| "rx_minlen (RGroup n a) = rx_minlen a"
| "rx_minlen RBegin = 0"
| "rx_minlen REnd = 0"
| "rx_minlen RBeginLine = 0"
| "rx_minlen REndLine = 0"

lemma rx_run_minlen:
  "st' \<in> set (rx_run r st) \<Longrightarrow> length (ms_rest st') + rx_minlen r \<le> length (ms_rest st)"
proof (induction r arbitrary: st st')
  case (RSeq a b)
  then obtain st1 where "st1 \<in> set (rx_run a st)" "st' \<in> set (rx_run b st1)" by auto
  from RSeq.IH(1) [OF this(1)] RSeq.IH(2) [OF this(2)] show ?case by simp
next
  case (RAlt a b)
  from RAlt.prems consider "st' \<in> set (rx_run a st)" | "st' \<in> set (rx_run b st)" by auto
  then show ?case
  proof cases
    case 1
    from RAlt.IH(1) [OF this] show ?thesis by simp
  next
    case 2
    from RAlt.IH(2) [OF this] show ?thesis by simp
  qed
next
  case (ROpt a)
  show ?case using suffix_length_le [OF rx_run_suffix [OF ROpt.prems]] by simp
next
  case (RStar a)
  show ?case using suffix_length_le [OF rx_run_suffix [OF RStar.prems]] by simp
next
  case (RGroup n a)
  then obtain st1 where "st1 \<in> set (rx_run a st)" "ms_rest st' = ms_rest st1"
    using rx_run_group_rest by blast
  with RGroup.IH [OF this(1)] show ?case by simp
qed (auto split: prod.splits list.splits if_splits)

lemma rx_find_suffix:
  "rx_find r p cs = Some (sk, st) \<Longrightarrow> \<exists>m. cs = sk @ m @ ms_rest st \<and> rx_minlen r \<le> length m"
proof (induction r p cs arbitrary: sk rule: rx_find.induct)
  case (1 r p)
  then have "st \<in> set (rx_run r (p, [], []))" "sk = []"
    by (auto split: list.splits)
  then show ?case using rx_run_suffix [of st r "(p, [], [])"] rx_run_minlen [of st r "(p, [], [])"]
    by auto
next
  case (2 r p c cs)
  show ?case
  proof (cases "rx_run r (p, c # cs, [])")
    case Nil
    with "2.prems" obtain sk' where "rx_find r (Some (fst c)) cs = Some (sk', st)" "sk = c # sk'"
      by (auto split: list.splits)
    with "2.IH" Nil show ?thesis by auto
  next
    case (Cons st1 sts)
    with "2.prems" have "st \<in> set (rx_run r (p, c # cs, []))" "sk = []" by auto
    moreover from this(1) obtain m where "c # cs = m @ ms_rest st"
      using rx_run_suffix [of st r "(p, c # cs, [])"] by (auto simp: suffix_def)
    moreover from this have "Suc (length cs) = length m + length (ms_rest st)"
      by (metis length_Cons length_append)
    ultimately show ?thesis using rx_run_minlen [of st r "(p, c # cs, [])"] by auto
  qed
qed

subsection \<open>Replacing and finding all matches\<close>

text \<open>
  \<open>ReplaceAllString\<close> with a template that is group 1 followed by a literal, and the first
  submatches of \<open>FindAllStringSubmatch\<close>. Both are used with patterns that consume at least
  one rune (\<open>0 < rx_minlen r\<close>), so each match makes progress; the guard on the length only
  makes the functions total.
\<close>

function rx_replace :: "rx \<Rightarrow> string \<Rightarrow> rune option \<Rightarrow> cell list \<Rightarrow> string" where
  "rx_replace r lit p cs =
     (case rx_find r p cs of
        None \<Rightarrow> cells_string cs
      | Some (sk, (p', rest, caps)) \<Rightarrow>
          cells_string sk @ cap_string 1 caps @ lit @
          (if length rest < length cs then rx_replace r lit p' rest else cells_string rest))"
  by pat_completeness auto
termination by (relation "measure (\<lambda>(r, lit, p, cs). length cs)") auto

declare rx_replace.simps [simp del]

definition rx_ReplaceAllString :: "rx \<Rightarrow> string \<Rightarrow> string \<Rightarrow> string" where
  "rx_ReplaceAllString r s lit = rx_replace r lit None (cells s)"

function rx_findall :: "rx \<Rightarrow> rune option \<Rightarrow> cell list \<Rightarrow> string list" where
  "rx_findall r p cs =
     (case rx_find r p cs of
        None \<Rightarrow> []
      | Some (sk, (p', rest, caps)) \<Rightarrow>
          cap_string 1 caps # (if length rest < length cs then rx_findall r p' rest else []))"
  by pat_completeness auto
termination by (relation "measure (\<lambda>(r, p, cs). length cs)") auto

declare rx_findall.simps [simp del]

definition rx_FindAllSubmatch1 :: "rx \<Rightarrow> string \<Rightarrow> string list" where
  "rx_FindAllSubmatch1 r s = rx_findall r None (cells s)"

lemma rx_replace_no_match: "rx_find r p cs = None \<Longrightarrow> rx_replace r lit p cs = cells_string cs"
  by (simp add: rx_replace.simps)

lemma rx_ReplaceAllString_no_match:
  "\<not> rx_MatchString r s \<Longrightarrow> rx_ReplaceAllString r s lit = s"
  using rx_replace_no_match [of r None "cells s" lit]
  by (simp only: rx_ReplaceAllString_def rx_MatchString_def not_not cells_string_cells)

subsection \<open>Building patterns\<close>

definition rchar :: "rune \<Rightarrow> rx" where "rchar r = RClass False [(r, r)]"

fun rseqs :: "rx list \<Rightarrow> rx" where
  "rseqs [] = REmpty"
| "rseqs [r] = r"
| "rseqs (r # rs) = RSeq r (rseqs rs)"

fun ralts :: "rx list \<Rightarrow> rx" where
  "ralts [] = RClass False []"
| "ralts [r] = r"
| "ralts (r # rs) = RAlt r (ralts rs)"

definition rlit :: "string \<Rightarrow> rx" where "rlit s = rseqs (map rchar (runes s))"

definition rplus :: "rx \<Rightarrow> rx" where "rplus r = RSeq r (RStar r)"

text \<open>
  A letter under \<open>(?i)\<close> stands for its simple-fold orbit; the orbits of \<open>k\<close> and \<open>s\<close>
  contain the Kelvin sign and the long s.
\<close>

definition rchar_ci :: "rune \<Rightarrow> rx" where
  "rchar_ci r =
     (let l = unicode_ToLower r; u = unicode_ToUpper r in
      RClass False ([(l, l), (u, u)] @ (if l = 107 then [(0x212A, 0x212A)] else [])
                      @ (if l = 115 then [(0x17F, 0x17F)] else [])))"

definition rlit_ci :: "string \<Rightarrow> rx" where "rlit_ci s = rseqs (map rchar_ci (runes s))"

definition posix_space :: "(rune \<times> rune) list" where
  "posix_space = [(9, 13), (32, 32)]"

end
