(* ===== verification/Redact.thy ===== *)
theory Redact
  imports GoRegexp
begin

section \<open>Secret redaction (internal/redact)\<close>

text \<open>
  The five credential patterns of \<open>redact.go\<close> as syntax trees, \<open>redact_Text\<close> (the
  function \<open>Text\<close>, which applies them in order) and \<open>redact_Command\<close> (the function
  \<open>Command\<close>, which redacts a tokenized command word by word and also the word after a
  secret-named flag). The lemmas characterise which slots of a command are replaced and
  when the "changed" flag is raised.
\<close>

definition Replacement :: string where "Replacement = ''[REDACTED]''"

definition secret_word_class :: rx where
  "secret_word_class =
     RClass False [(97, 122), (65, 90), (0x17F, 0x17F), (0x212A, 0x212A), (48, 57), (95, 95), (45, 45)]"

definition dash_or_underscore :: rx where
  "dash_or_underscore = ROpt (RClass False [(45, 45), (95, 95)])"

definition secretAssignment :: rx where
  "secretAssignment =
     RSeq (RGroup 1 (rseqs [
         ralts [RBegin, RClass False (posix_space @ [(63, 63), (38, 38), (59, 59)]), rlit ''--''],
         ROpt (RSeq (RStar secret_word_class) (rchar 95)),
         ralts [rlit_ci ''token'', rlit_ci ''secret'', rlit_ci ''password'', rlit_ci ''passwd'',
           rseqs [rlit_ci ''api'', dash_or_underscore, rlit_ci ''key''],
           rseqs [rlit_ci ''access'', dash_or_underscore, rlit_ci ''key''],
           rseqs [rlit_ci ''private'', dash_or_underscore, rlit_ci ''key''],
           rlit_ci ''credential'', rlit_ci ''authorization'', rlit_ci ''cookie''],
         rchar 61]))
       (rplus (RClass True (posix_space @ [(38, 38), (59, 59)])))"

definition URLUserInfo :: rx where
  "URLUserInfo =
     rseqs [RGroup 1 (rseqs [RClass False [(97, 122), (65, 90)],
              RStar (RClass False [(97, 122), (65, 90), (48, 57), (43, 43), (46, 46), (45, 45)]),
              rlit ''://'']),
            rplus (RClass True ([(47, 47), (64, 64)] @ posix_space)), rchar 64]"

definition nonspace_run :: rx where
  "nonspace_run = rplus (RClass True posix_space)"

definition space_run :: rx where
  "space_run = rplus (RClass False posix_space)"

definition bearerCredential :: rx where
  "bearerCredential = RSeq (RGroup 1 (RSeq (rlit_ci ''bearer'') space_run)) nonspace_run"

definition authorizationCredential :: rx where
  "authorizationCredential =
     RSeq (RGroup 1 (rseqs [ROpt (rlit_ci ''proxy-''), rlit_ci ''authorization:'', space_run,
              ralts [rlit_ci ''basic'', rlit_ci ''bearer'', rlit_ci ''token''], space_run]))
       nonspace_run"

definition cookieCredential :: rx where
  "cookieCredential =
     RSeq (RGroup 1 (rseqs [ROpt (rlit_ci ''set-''), rlit_ci ''cookie:'',
              RStar (RClass False posix_space)]))
       nonspace_run"

definition redact_Text :: "string \<Rightarrow> string \<times> bool" where
  "redact_Text value =
     (let r1 = rx_ReplaceAllString secretAssignment value Replacement;
          r2 = rx_ReplaceAllString URLUserInfo r1 (Replacement @ ''@'');
          r3 = rx_ReplaceAllString bearerCredential r2 Replacement;
          r4 = rx_ReplaceAllString authorizationCredential r3 Replacement;
          r5 = rx_ReplaceAllString cookieCredential r4 Replacement
      in (r5, r5 \<noteq> value))"

definition secret_suffixes :: "string list" where
  "secret_suffixes = [''TOKEN'', ''SECRET'', ''PASSWORD'', ''PASSWD'', ''API_KEY'', ''APIKEY'',
     ''ACCESS_KEY'', ''PRIVATE_KEY'', ''CREDENTIAL'', ''AUTHORIZATION'', ''COOKIE'']"

definition secretName :: "string \<Rightarrow> bool" where
  "secretName value0 =
     (let trimmed = dropWhile (\<lambda>c. c = CHR ''-'') value0;
          value = strings_ToUpper
             (map (\<lambda>c. if c = CHR ''-'' \<or> c = CHR ''.'' then CHR ''_'' else c) trimmed)
      in list_ex (\<lambda>suffix. value = suffix \<or> hasSuffix value (CHR ''_'' # suffix)) secret_suffixes)"

definition secretFlag :: "string \<Rightarrow> bool" where
  "secretFlag value \<longleftrightarrow>
     hasPrefix value ''--'' \<and> \<not> strings_Contains value ''='' \<and> secretName value"

text \<open>The redacted form of one word and whether it changed, before the flag rule.\<close>

definition redact_word :: "string \<Rightarrow> string \<times> bool" where
  "redact_word word =
     (let (value, valueChanged) = redact_Text word; (key, _, found) = strings_Cut word CHR ''='' in
      if found \<and> secretName key then (key @ ''='' @ Replacement, True) else (value, valueChanged))"

text \<open>
  The loop of \<open>Command\<close> over an array of slots: a slot that a preceding flag has filled is
  kept.
\<close>

fun redact_loop :: "string list \<Rightarrow> nat \<Rightarrow> string list \<Rightarrow> bool \<Rightarrow> string list \<times> bool" where
  "redact_loop [] index redacted changed = (redacted, changed)"
| "redact_loop (word # words) index redacted changed =
     (let (value, valueChanged) = redact_word word;
          fill = secretFlag word \<and> index + 1 < length redacted;
          redacted1 = (if fill then redacted[index + 1 := Replacement] else redacted);
          redacted2 = (if redacted1 ! index = [] then redacted1[index := value] else redacted1)
      in redact_loop words (index + 1) redacted2 (changed \<or> fill \<or> valueChanged))"

definition redact_slots :: "string list \<Rightarrow> string list \<times> bool" where
  "redact_slots words = redact_loop words 0 (replicate (length words) []) False"

definition redact_Command :: "string list \<Rightarrow> string \<times> bool" where
  "redact_Command words =
     (let (redacted, changed) = redact_slots words in (strings_Join redacted '' '', changed))"

definition ContainsSecret :: "string list \<Rightarrow> bool" where
  "ContainsSecret words = snd (redact_Command words)"

subsection \<open>The array loop as a left-to-right recursion\<close>

fun redact_spec :: "string list \<Rightarrow> bool \<Rightarrow> string list \<times> bool" where
  "redact_spec [] filled = ([], False)"
| "redact_spec (word # words) filled =
     (let (value, valueChanged) = redact_word word;
          fill = secretFlag word \<and> words \<noteq> [];
          (rest, changed) = redact_spec words fill
      in ((if filled then Replacement else value) # rest, fill \<or> valueChanged \<or> changed))"

lemma Replacement_nonempty [simp]: "Replacement \<noteq> []"
  by (simp add: Replacement_def)

text \<open>
  The array before position \<open>i\<close> is final, position \<open>i\<close> is filled or empty, and the rest is
  empty: under this invariant the loop computes the recursion.
\<close>

lemma redact_loop_spec:
  assumes "length pre = i" and "slot = (if filled then Replacement else [])"
  shows "redact_loop words i (pre @ (case words of [] \<Rightarrow> [] | _ # ws \<Rightarrow> slot # replicate (length ws) [])) ch
     = (pre @ fst (redact_spec words filled), ch \<or> snd (redact_spec words filled))"
  using assms
proof (induction words arbitrary: i pre slot filled ch)
  case Nil
  then show ?case by simp
next
  case (Cons w ws)
  obtain v vc where rw: "redact_word w = (v, vc)" by fastforce
  define fill where "fill = (secretFlag w \<and> ws \<noteq> [])"
  let ?slot' = "if fill then Replacement else []"
  let ?v = "if filled then Replacement else v"
  have step: "redact_loop (w # ws) i (pre @ slot # replicate (length ws) []) ch
      = redact_loop ws (Suc i) ((pre @ [?v]) @ (case ws of [] \<Rightarrow> [] | _ # vs \<Rightarrow> ?slot' # replicate (length vs) []))
          (ch \<or> fill \<or> vc)"
    using Cons.prems rw by (cases ws) (auto simp: fill_def list_update_append nth_append)
  show ?case
    using Cons.IH [of "pre @ [?v]" "Suc i" ?slot' fill "ch \<or> fill \<or> vc"] Cons.prems step rw
    by (auto simp: fill_def Let_def split: prod.split)
qed

lemma redact_slots_spec: "redact_slots words = redact_spec words False"
  using redact_loop_spec [of "[]" 0 "[]" False words False]
  by (cases words) (auto simp: redact_slots_def)

lemma length_redact_spec [simp]: "length (fst (redact_spec words filled)) = length words"
  by (induction words filled rule: redact_spec.induct) (auto simp: Let_def split: prod.splits)

lemma redact_word_unchanged: "\<not> snd (redact_word w) \<Longrightarrow> fst (redact_word w) = w"
  by (auto simp: redact_word_def redact_Text_def Let_def split: prod.splits if_splits)

lemma redact_spec_nth:
  "i < length words \<Longrightarrow>
   fst (redact_spec words filled) ! i =
     (if (i = 0 \<and> filled) \<or> (0 < i \<and> secretFlag (words ! (i - 1))) then Replacement
      else fst (redact_word (words ! i)))"
proof (induction words filled arbitrary: i rule: redact_spec.induct)
  case (2 word words filled)
  obtain v vc where rw: "redact_word word = (v, vc)" by fastforce
  show ?case
  proof (cases i)
    case 0
    with rw show ?thesis by (simp add: Let_def split: prod.split)
  next
    case (Suc j)
    with "2.prems" have j: "j < length words" by simp
    then have "words \<noteq> []" by auto
    with "2.IH" [OF rw [symmetric] _ _ j] Suc rw show ?thesis
      by (cases j) (auto simp: Let_def split: prod.split)
  qed
qed simp

lemma redact_spec_changed:
  "snd (redact_spec words filled) \<longleftrightarrow>
     (\<exists>w \<in> set words. snd (redact_word w)) \<or> (\<exists>w \<in> set (butlast words). secretFlag w)"
proof (induction words arbitrary: filled)
  case (Cons word words)
  then show ?case by (cases words) (auto simp: Let_def split: prod.splits)
qed simp

lemma redact_spec_unchanged:
  "\<not> snd (redact_spec words False) \<Longrightarrow> fst (redact_spec words False) = words"
proof (rule nth_equalityI)
  fix i
  assume u: "\<not> snd (redact_spec words False)" and "i < length (fst (redact_spec words False))"
  then have i: "i < length words" by simp
  have "\<not> snd (redact_word (words ! i))" using u i redact_spec_changed nth_mem by blast
  moreover have "\<not> (0 < i \<and> secretFlag (words ! (i - 1)))"
  proof
    assume a: "0 < i \<and> secretFlag (words ! (i - 1))"
    with i have "words ! (i - 1) \<in> set (butlast words)"
      by (metis Suc_diff_1 Suc_less_eq diff_Suc_1 length_butlast less_diff_conv nth_butlast nth_mem
          One_nat_def Suc_eq_plus1)
    with u a redact_spec_changed show False by blast
  qed
  ultimately show "fst (redact_spec words False) ! i = words ! i"
    using redact_spec_nth [OF i, of False] redact_word_unchanged by auto
qed simp

lemma redact_Command_unchanged:
  "\<not> snd (redact_Command words) \<Longrightarrow> fst (redact_Command words) = strings_Join words '' ''"
  using redact_spec_unchanged [of words]
  by (auto simp: redact_Command_def redact_slots_spec split: prod.splits)

lemma ContainsSecret_iff:
  "ContainsSecret words \<longleftrightarrow>
     (\<exists>w \<in> set words. snd (redact_word w)) \<or> (\<exists>w \<in> set (butlast words). secretFlag w)"
  using redact_spec_changed [of words False]
  by (auto simp: ContainsSecret_def redact_Command_def redact_slots_spec split: prod.splits)

subsection \<open>Properties\<close>

text \<open>
  Property C29: what \<open>Command\<close> puts into each slot. The word after a secret-named flag is
  replaced, a word \<open>key=value\<close> with a secret key keeps only its key, and every other word is
  the text redaction of itself; so no value of a secret-named flag or assignment survives.
\<close>

theorem redact_slots_exact:
  assumes "i < length words"
  shows "fst (redact_slots words) ! i =
    (if 0 < i \<and> secretFlag (words ! (i - 1)) then Replacement
     else case strings_Cut (words ! i) CHR ''='' of (key, _, found) \<Rightarrow>
       if found \<and> secretName key then key @ ''='' @ Replacement else fst (redact_Text (words ! i)))"
  using redact_spec_nth [OF assms, of False]
  by (auto simp: redact_slots_spec redact_word_def Let_def split: prod.split)

theorem redact_slots_exact_witness:
  "fst (redact_slots [''curl'', ''--api-token'', ''abc'']) ! 2 = Replacement"
proof -
  have f: "secretFlag ''--api-token''" by code_simp
  show ?thesis
    using redact_slots_exact [of 2 "[''curl'', ''--api-token'', ''abc'']"] f by simp
qed

text \<open>
  The "changed" flag is complete. If \<open>Command\<close> reports no secret then the text
  it returns is the plain join of the words, so a suggestion that is shown unredacted is
  exactly the repaired command.
\<close>

lemma redact_no_secret_identity:
  "\<not> ContainsSecret words \<Longrightarrow> redact_Command words = (strings_Join words '' '', False)"
  using redact_Command_unchanged [of words] by (auto simp: ContainsSecret_def prod_eq_iff)

end
