(* ===== verification/Risk.thy ===== *)
theory Risk
  imports Redact Tokenizer
begin

section \<open>Risk assessment (internal/diagnose/engine.go)\<close>

text \<open>
  The local classification of a command line: secret, privilege escalation, network effect,
  file system mutation, recognized safe, unknown. Sets of names are lists; the loops over
  \<open>words[position+1:]\<close> are recursions over \<open>drop\<close>. The lemmas relate the two ways in which
  the code finds command positions and spell out what the class \<open>safe\<close> guarantees.
\<close>

subsection \<open>Model\<close>

type_synonym Risk = string
type_synonym MessageKey = string

definition RiskSafe :: Risk where "RiskSafe = ''safe''"
definition RiskUnknown :: Risk where "RiskUnknown = ''unknown''"
definition RiskHigh :: Risk where "RiskHigh = ''high''"

definition MessageRiskSecret :: MessageKey where
  "MessageRiskSecret = ''diagnostic.risk.secret''"
definition MessageRiskPrivilegeEscalation :: MessageKey where
  "MessageRiskPrivilegeEscalation = ''diagnostic.risk.privilege_escalation''"
definition MessageRiskNetworkEffect :: MessageKey where
  "MessageRiskNetworkEffect = ''diagnostic.risk.network_effect''"
definition MessageRiskFilesystemMutation :: MessageKey where
  "MessageRiskFilesystemMutation = ''diagnostic.risk.filesystem_mutation''"
definition MessageRiskRecognizedSafe :: MessageKey where
  "MessageRiskRecognizedSafe = ''diagnostic.risk.recognized_safe''"
definition MessageRiskUnknown :: MessageKey where
  "MessageRiskUnknown = ''diagnostic.risk.unknown''"

record riskAssessment =
  ra_risk :: Risk
  ra_rationale :: MessageKey

definition commandName :: "string \<Rightarrow> string" where
  "commandName v = strings_ToLower (after_last (\<lambda>c. c = slash \<or> c = CHR 0x5C) v)"

definition privilegeEscalationCommands :: "string list" where
  "privilegeEscalationCommands = [''doas'', ''pkexec'', ''runas'', ''su'', ''sudo'', ''sudoedit'']"

definition networkEffectCommands :: "string list" where
  "networkEffectCommands = [''curl'', ''ftp'', ''nc'', ''ncat'', ''netcat'', ''scp'', ''sftp'', ''ssh'', ''telnet'',
     ''tftp'', ''wget'']"

definition safeCommands :: "string list" where
  "safeCommands = [''basename'', ''cat'', ''dirname'', ''echo'', ''head'', ''ls'', ''printf'', ''pwd'', ''readlink'',
     ''realpath'', ''stat'', ''true'', ''uname'', ''wc'', ''which'', ''whoami'']"

definition filesystemMutationCommands :: "string list" where
  "filesystemMutationCommands = [''chgrp'', ''chmod'', ''chown'', ''cp'', ''dd'', ''install'', ''ln'', ''mkdir'',
     ''mkfifo'', ''mknod'', ''mkfs'', ''mv'', ''patch'', ''rm'', ''rmdir'', ''rsync'', ''shred'', ''tee'', ''touch'',
     ''truncate'', ''unlink'', ''wipefs'']"

text \<open>\<open>commandStartAt\<close>: its loop, from \<open>position\<close> on.\<close>

fun command_start_from :: "nat \<Rightarrow> bool \<Rightarrow> nat \<Rightarrow> string list \<Rightarrow> bool" where
  "command_start_from position expectCommand target [] = False"
| "command_start_from position expectCommand target (word # words) =
     (if isCompoundOperator word then command_start_from (Suc position) (word \<noteq> '')'') target words
      else if \<not> expectCommand then command_start_from (Suc position) expectCommand target words
      else if position = target then True
      else if isShellKeyword word \<or> assignmentWord word then command_start_from (Suc position) expectCommand target words
      else command_start_from (Suc position) False target words)"

definition commandStartAt :: "string list \<Rightarrow> nat \<Rightarrow> bool" where
  "commandStartAt words target = command_start_from 0 True target words"

definition escalatesPrivileges :: "string list \<Rightarrow> bool" where
  "escalatesPrivileges words = list_ex (\<lambda>(position, word).
     commandStartAt words position \<and> commandName word \<in> set privilegeEscalationCommands) (enumerate 0 words)"

fun hasNetworkGitSubcommand :: "string list \<Rightarrow> bool" where
  "hasNetworkGitSubcommand [] = False"
| "hasNetworkGitSubcommand (word # words) =
     (if isCompoundOperator word then False
      else if word \<in> set [''clone'', ''fetch'', ''ls-remote'', ''pull'', ''push''] then True
      else if \<not> hasPrefix word ''-'' then False
      else hasNetworkGitSubcommand words)"

definition hasNetworkEffect :: "string list \<Rightarrow> bool" where
  "hasNetworkEffect words = list_ex (\<lambda>(position, word).
     commandStartAt words position \<and>
     (commandName word \<in> set networkEffectCommands
      \<or> (commandName word = ''git'' \<and> hasNetworkGitSubcommand (drop (position + 1) words)))) (enumerate 0 words)"

fun hasSafeGitSubcommand :: "string list \<Rightarrow> bool" where
  "hasSafeGitSubcommand [] = True"
| "hasSafeGitSubcommand (word # words) =
     (if isCompoundOperator word then False
      else if hasPrefix word ''-'' then hasSafeGitSubcommand words
      else word \<in> set [''diff'', ''log'', ''ls-files'', ''rev-parse'', ''show'', ''status''])"

definition hasShellRedirection :: "string list \<Rightarrow> bool" where
  "hasShellRedirection words = list_ex (\<lambda>word. strings_Contains word ''>'') words"

definition knownSafeCommandLine :: "string list \<Rightarrow> bool" where
  "knownSafeCommandLine words \<longleftrightarrow>
     \<not> hasShellRedirection words \<and> commandPositions words \<noteq> [] \<and>
     list_all (\<lambda>position.
        if commandName (words ! position) = ''git'' then hasSafeGitSubcommand (drop (position + 1) words)
        else commandName (words ! position) \<in> set safeCommands) (commandPositions words)"

fun hasArgument :: "string list \<Rightarrow> string \<Rightarrow> bool" where
  "hasArgument [] v = False"
| "hasArgument (word # words) v =
     (if isCompoundOperator word then False else if word = v then True else hasArgument words v)"

definition mutatesFilesystem :: "string list \<Rightarrow> bool" where
  "mutatesFilesystem words = list_ex (\<lambda>position.
     let command = commandName (words ! position); arguments = drop (position + 1) words in
       command \<in> set filesystemMutationCommands
       \<or> (command = ''find'' \<and> hasArgument arguments ''-delete'')
       \<or> ((command = ''sed'' \<or> command = ''perl'')
           \<and> (hasArgument arguments ''-i'' \<or> hasArgument arguments ''--in-place'')))
     (commandPositions words)"

definition assessRisk :: "string list \<Rightarrow> bool \<Rightarrow> riskAssessment" where
  "assessRisk words containsSecret =
     (if containsSecret \<or> ContainsSecret words then \<lparr>ra_risk = RiskHigh, ra_rationale = MessageRiskSecret\<rparr>
      else if escalatesPrivileges words then \<lparr>ra_risk = RiskHigh, ra_rationale = MessageRiskPrivilegeEscalation\<rparr>
      else if hasNetworkEffect words then \<lparr>ra_risk = RiskHigh, ra_rationale = MessageRiskNetworkEffect\<rparr>
      else if mutatesFilesystem words then \<lparr>ra_risk = RiskHigh, ra_rationale = MessageRiskFilesystemMutation\<rparr>
      else if knownSafeCommandLine words then \<lparr>ra_risk = RiskSafe, ra_rationale = MessageRiskRecognizedSafe\<rparr>
      else \<lparr>ra_risk = RiskUnknown, ra_rationale = MessageRiskUnknown\<rparr>)"

definition classify :: "string list \<Rightarrow> bool \<Rightarrow> Risk" where
  "classify words containsSecret = ra_risk (assessRisk words containsSecret)"

lemmas risk_names = RiskSafe_def RiskUnknown_def RiskHigh_def

subsection \<open>Command positions\<close>

definition command_word :: "string \<Rightarrow> bool" where
  "command_word w \<longleftrightarrow> \<not> isCompoundOperator w \<and> \<not> isShellKeyword w \<and> \<not> assignmentWord w"

lemma command_start_from_ge: "command_start_from n e t ws \<Longrightarrow> n \<le> t \<and> t < n + length ws"
  by (induction n e t ws rule: command_start_from.induct) (auto split: if_splits)

lemma command_positions_from_ge: "p \<in> set (command_positions_from n e ws) \<Longrightarrow> n \<le> p \<and> p < n + length ws"
  by (induction n e ws rule: command_positions_from.induct) (auto split: if_splits)

text \<open>Both loops find the same command words.\<close>

lemma command_positions_from_iff:
  "n \<le> p \<Longrightarrow> p \<in> set (command_positions_from n e ws) \<longleftrightarrow> command_start_from n e p ws \<and> command_word (ws ! (p - n))"
proof (induction n e ws rule: command_positions_from.induct)
  case (2 n e w ws)
  show ?case
  proof (cases "p = n")
    case True
    then show ?thesis
      using command_positions_from_ge [of n "Suc n"] command_start_from_ge [of "Suc n" _ n]
      by (auto simp: command_word_def)
  next
    case False
    then have "p - n = Suc (p - Suc n)" "Suc n \<le> p" using "2.prems" by simp_all
    with 2 False show ?thesis by auto
  qed
qed simp

lemma commandPositions_iff:
  "p \<in> set (commandPositions words) \<longleftrightarrow> commandStartAt words p \<and> command_word (words ! p)"
  using command_positions_from_iff [of 0 p True words] by (simp add: commandPositions_def commandStartAt_def)

lemma commandStartAt_length: "commandStartAt words p \<Longrightarrow> p < length words"
  using command_start_from_ge by (fastforce simp: commandStartAt_def)

lemma list_ex_enumerate: "list_ex P (enumerate 0 xs) \<longleftrightarrow> (\<exists>i < length xs. P (i, xs ! i))"
  by (force simp: list_ex_iff in_set_enumerate_eq)

lemma safe_assessment:
  "ra_risk (assessRisk words s) = RiskSafe \<longleftrightarrow>
   \<not> s \<and> \<not> ContainsSecret words \<and> \<not> escalatesPrivileges words \<and> \<not> hasNetworkEffect words \<and>
   \<not> mutatesFilesystem words \<and> knownSafeCommandLine words"
  by (simp add: assessRisk_def risk_names)

lemma strings_Contains_char: "strings_Contains s [c] \<longleftrightarrow> c \<in> set s"
proof -
  have "strings_Index s [c] \<noteq> None \<longleftrightarrow> c \<in> set s"
    by (induction s) (auto simp: hasPrefix_def)
  then show ?thesis by (simp add: strings_Contains_def)
qed

text \<open>
  Property C27: what the class safe guarantees. A line assessed as safe contains no secret and
  no redirection, has at least one command, and at every place where the shell would start a
  command there is a keyword, an assignment, a command of the read-only list or a read-only
  Git subcommand, never one that escalates privileges, and never one that uses the network.
\<close>

theorem safe_is_read_only:
  assumes "ra_risk (assessRisk words containsSecret) = RiskSafe"
  shows "\<not> containsSecret \<and> \<not> ContainsSecret words \<and> (\<forall>w \<in> set words. CHR ''>'' \<notin> set w) \<and>
    (\<exists>p. commandStartAt words p \<and> command_word (words ! p)) \<and>
    (\<forall>p. commandStartAt words p \<longrightarrow>
       commandName (words ! p) \<notin> set privilegeEscalationCommands \<and>
       commandName (words ! p) \<notin> set networkEffectCommands \<and>
       (\<not> command_word (words ! p) \<or> commandName (words ! p) \<in> set safeCommands \<or>
        commandName (words ! p) = ''git'' \<and> hasSafeGitSubcommand (drop (p + 1) words) \<and>
          \<not> hasNetworkGitSubcommand (drop (p + 1) words)))"
proof (intro conjI allI impI)
  have s: "\<not> containsSecret" "\<not> ContainsSecret words" "\<not> escalatesPrivileges words" "\<not> hasNetworkEffect words"
    "knownSafeCommandLine words"
    using assms by (simp_all add: safe_assessment)
  show "\<not> containsSecret" "\<not> ContainsSecret words" by fact+
  show "\<forall>w \<in> set words. CHR ''>'' \<notin> set w"
    using s(5) by (auto simp: knownSafeCommandLine_def hasShellRedirection_def list_ex_iff strings_Contains_char)
  show "\<exists>p. commandStartAt words p \<and> command_word (words ! p)"
    using s(5) commandPositions_iff by (auto simp: knownSafeCommandLine_def neq_Nil_conv) (metis list.set_intros(1))
  fix p assume p: "commandStartAt words p"
  note lt = commandStartAt_length [OF p]
  show "commandName (words ! p) \<notin> set privilegeEscalationCommands"
    using s(3) p lt by (auto simp: escalatesPrivileges_def list_ex_enumerate)
  show "commandName (words ! p) \<notin> set networkEffectCommands"
    using s(4) p lt by (auto simp: hasNetworkEffect_def list_ex_enumerate)
  have "commandName (words ! p) = ''git'' \<Longrightarrow> \<not> hasNetworkGitSubcommand (drop (p + 1) words)"
    using s(4) p lt by (auto simp: hasNetworkEffect_def list_ex_enumerate)
  moreover have "p \<in> set (commandPositions words)" if "command_word (words ! p)"
    using p that by (simp add: commandPositions_iff)
  then have "command_word (words ! p) \<Longrightarrow> (if commandName (words ! p) = ''git'' then hasSafeGitSubcommand (drop (p + 1) words)
        else commandName (words ! p) \<in> set safeCommands)"
    using s(5) unfolding knownSafeCommandLine_def list_all_iff by blast
  ultimately show "\<not> command_word (words ! p) \<or> commandName (words ! p) \<in> set safeCommands \<or>
        commandName (words ! p) = ''git'' \<and> hasSafeGitSubcommand (drop (p + 1) words) \<and>
          \<not> hasNetworkGitSubcommand (drop (p + 1) words)"
    by (auto split: if_splits)
qed

theorem safe_is_read_only_witness:
  "ra_risk (assessRisk [''git'', ''status''] False) = RiskSafe \<and> \<not> ContainsSecret [''git'', ''status'']"
proof -
  have s: "ra_risk (assessRisk [''git'', ''status''] False) = RiskSafe" by code_simp
  with safe_is_read_only [OF s] show ?thesis by blast
qed

text \<open>
  A command that escalates privileges, uses the network or carries a secret is
  high risk wherever the shell starts it, also after assignments, keywords and operators.
\<close>

lemma dangerous_start_high:
  assumes "commandStartAt words p"
    and "commandName (words ! p) \<in> set privilegeEscalationCommands \<union> set networkEffectCommands
      \<or> command_word (words ! p) \<and> commandName (words ! p) \<in> set filesystemMutationCommands"
  shows "ra_risk (assessRisk words containsSecret) = RiskHigh"
proof -
  note lt = commandStartAt_length [OF assms(1)]
  have "escalatesPrivileges words" if "commandName (words ! p) \<in> set privilegeEscalationCommands"
    using that assms(1) lt by (auto simp: escalatesPrivileges_def list_ex_enumerate)
  moreover have "hasNetworkEffect words" if "commandName (words ! p) \<in> set networkEffectCommands"
    using that assms(1) lt by (auto simp: hasNetworkEffect_def list_ex_enumerate)
  moreover have "mutatesFilesystem words"
    if "command_word (words ! p)" "commandName (words ! p) \<in> set filesystemMutationCommands"
    using that assms(1) commandPositions_iff [of p words] by (auto simp: mutatesFilesystem_def list_ex_iff Let_def)
  ultimately have "escalatesPrivileges words \<or> hasNetworkEffect words \<or> mutatesFilesystem words"
    using assms(2) by blast
  then show ?thesis by (auto simp: assessRisk_def)
qed

end
