(* ===== verification/Config.thy ===== *)
theory Config
  imports GoStrings
begin

section \<open>Configuration (internal/config/config.go)\<close>

text \<open>
  The configuration record, its rule exceptions, the schema migration, the settings and the
  session overrides. Methods with a pointer receiver return the new record or the error.
  The invariant \<open>config_ok\<close> is what \<open>decode\<close> checks; the locale \<open>config_editor\<close> states what
  an operation on configurations owes it. \<open>decode_checked\<close> is the part of \<open>decode\<close> after the JSON
  decoder has filled the record; the file and its JSON text are modelled in theory \<open>StateFiles\<close>.
\<close>

subsection \<open>Model\<close>

record RuleException =
  re_ID :: string
  re_Command :: string

record Display =
  di_Cause :: bool
  di_Change :: bool
  di_Confidence :: bool
  di_Risk :: bool
  di_Consequence :: bool
  di_Trace :: bool

record Config =
  cf_SchemaVersion :: int
  cf_Mode :: string
  cf_Display :: Display
  cf_AutoApplySafe :: bool
  cf_LocalHistoryEnabled :: bool
  cf_CuratedPacksEnabled :: bool
  cf_RiskInterrupt :: bool
  cf_LocalLearningEnabled :: bool
  cf_LearningRetentionDays :: int
  cf_LearnedRuleActionCeiling :: string
  cf_UndoEnabled :: bool
  cf_UndoTTLSeconds :: int
  cf_RuleExceptions :: "RuleException list"

definition CurrentSchemaVersion :: int where "CurrentSchemaVersion = 7"
definition maxRuleExceptionCommandBytes :: nat where "maxRuleExceptionCommandBytes = 8192"
definition defaultLearningRetentionDays :: int where "defaultLearningRetentionDays = 30"
definition maxLearningRetentionDays :: int where "maxLearningRetentionDays = 90"
definition defaultUndoTTLSeconds :: int where "defaultUndoTTLSeconds = 30"
definition maxUndoTTLSeconds :: int where "maxUndoTTLSeconds = 300"

definition Default :: Config where
  "Default = \<lparr>cf_SchemaVersion = CurrentSchemaVersion, cf_Mode = ''hint'',
     cf_Display = \<lparr>di_Cause = True, di_Change = True, di_Confidence = True, di_Risk = True, di_Consequence = True,
       di_Trace = False\<rparr>,
     cf_AutoApplySafe = False, cf_LocalHistoryEnabled = False, cf_CuratedPacksEnabled = True, cf_RiskInterrupt = False,
     cf_LocalLearningEnabled = False, cf_LearningRetentionDays = defaultLearningRetentionDays,
     cf_LearnedRuleActionCeiling = ''hint'', cf_UndoEnabled = True, cf_UndoTTLSeconds = defaultUndoTTLSeconds,
     cf_RuleExceptions = []\<rparr>"

definition HasRuleException :: "Config \<Rightarrow> string \<Rightarrow> bool" where
  "HasRuleException c command = list_ex (\<lambda>exception. re_Command exception = command) (cf_RuleExceptions c)"

definition id_tail_char :: "rune \<Rightarrow> bool" where
  "id_tail_char r \<longleftrightarrow> (97 \<le> r \<and> r \<le> 122) \<or> (48 \<le> r \<and> r \<le> 57) \<or> r = 45 \<or> r = 95"

definition validRuleExceptionID :: "string \<Rightarrow> bool" where
  "validRuleExceptionID v =
     (case v of
        [] \<Rightarrow> False
      | c # rest \<Rightarrow> length v \<le> 64 \<and> 97 \<le> byte c \<and> byte c \<le> 122 \<and> list_all id_tail_char (runes rest))"

definition validateRuleException :: "RuleException \<Rightarrow> go_error option" where
  "validateRuleException exception =
     (if \<not> validRuleExceptionID (re_ID exception) then Some (Err ''invalid rule exception id %q'' [re_ID exception])
      else if strings_TrimSpace (re_Command exception) = [] \<or> maxRuleExceptionCommandBytes < length (re_Command exception)
      then Some (Err ''rule exception command must be non-empty and within the input limit'' [])
      else None)"

text \<open>The search loop of \<open>AddRuleException\<close>: the first clash, if any.\<close>

fun exception_clash :: "RuleException \<Rightarrow> RuleException list \<Rightarrow> go_error option" where
  "exception_clash exception [] = None"
| "exception_clash exception (existing # rest) =
     (if re_ID existing = re_ID exception then Some (Err ''rule exception %q already exists'' [re_ID exception])
      else if re_Command existing = re_Command exception then Some (Err ''rule exception command already exists'' [])
      else exception_clash exception rest)"

definition AddRuleException :: "RuleException \<Rightarrow> Config \<Rightarrow> Config result" where
  "AddRuleException exception c =
     (case validateRuleException exception of
        Some e \<Rightarrow> Inl e
      | None \<Rightarrow>
         (case exception_clash exception (cf_RuleExceptions c) of
            Some e \<Rightarrow> Inl e
          | None \<Rightarrow> Inr (c\<lparr>cf_RuleExceptions := cf_RuleExceptions c @ [exception]\<rparr>)))"

fun update_exceptions :: "string \<Rightarrow> string \<Rightarrow> RuleException list \<Rightarrow> RuleException list result" where
  "update_exceptions i command [] = Inl (Err ''rule exception %q does not exist'' [i])"
| "update_exceptions i command (existing # rest) =
     (if re_ID existing \<noteq> i \<and> re_Command existing = command then Inl (Err ''rule exception command already exists'' [])
      else if re_ID existing = i then Inr (existing\<lparr>re_Command := command\<rparr> # rest)
      else map_sum id (\<lambda>es. existing # es) (update_exceptions i command rest))"

definition UpdateRuleException :: "string \<Rightarrow> string \<Rightarrow> Config \<Rightarrow> Config result" where
  "UpdateRuleException i command c =
     (if \<not> validRuleExceptionID i then Inl (Err ''invalid rule exception id %q'' [i])
      else case validateRuleException \<lparr>re_ID = i, re_Command = command\<rparr> of
        Some e \<Rightarrow> Inl e
      | None \<Rightarrow> map_sum id (\<lambda>es. c\<lparr>cf_RuleExceptions := es\<rparr>) (update_exceptions i command (cf_RuleExceptions c)))"

fun remove_exception :: "string \<Rightarrow> RuleException list \<Rightarrow> RuleException list result" where
  "remove_exception i [] = Inl (Err ''rule exception %q does not exist'' [i])"
| "remove_exception i (existing # rest) =
     (if re_ID existing = i then Inr rest else map_sum id (\<lambda>es. existing # es) (remove_exception i rest))"

definition RemoveRuleException :: "string \<Rightarrow> Config \<Rightarrow> Config result" where
  "RemoveRuleException i c =
     (if \<not> validRuleExceptionID i then Inl (Err ''invalid rule exception id %q'' [i])
      else map_sum id (\<lambda>es. c\<lparr>cf_RuleExceptions := es\<rparr>) (remove_exception i (cf_RuleExceptions c)))"

fun validate_exceptions_from :: "string list \<Rightarrow> string list \<Rightarrow> RuleException list \<Rightarrow> go_error option" where
  "validate_exceptions_from seenIDs seenCommands [] = None"
| "validate_exceptions_from seenIDs seenCommands (exception # rest) =
     (case validateRuleException exception of
        Some e \<Rightarrow> Some e
      | None \<Rightarrow>
         if re_ID exception \<in> set seenIDs then Some (Err ''duplicate rule exception id %q'' [re_ID exception])
         else if re_Command exception \<in> set seenCommands then Some (Err ''duplicate rule exception command'' [])
         else validate_exceptions_from (re_ID exception # seenIDs) (re_Command exception # seenCommands) rest)"

definition validateRuleExceptions :: "RuleException list \<Rightarrow> go_error option" where
  "validateRuleExceptions exceptions = validate_exceptions_from [] [] exceptions"

definition validMode :: "string \<Rightarrow> bool" where
  "validMode v \<longleftrightarrow> v = ''hint'' \<or> v = ''interrupt'' \<or> v = ''off'' \<or> v = ''rewrite''"

definition validLearnedRuleAction :: "string \<Rightarrow> bool" where
  "validLearnedRuleAction v \<longleftrightarrow> v = ''off'' \<or> v = ''hint'' \<or> v = ''rewrite''"

text \<open>One round of the loop of \<open>migrate\<close>, for the versions that its \<open>switch\<close> knows.\<close>

definition migrate_step :: "Config \<Rightarrow> int \<Rightarrow> Config option" where
  "migrate_step cfg version =
     (if version = 0 then Some (cfg\<lparr>cf_RiskInterrupt := (cf_Mode cfg = ''interrupt''), cf_SchemaVersion := 1\<rparr>)
      else if version = 1 then Some (cfg\<lparr>cf_RiskInterrupt := (cf_Mode cfg = ''interrupt''), cf_SchemaVersion := 2\<rparr>)
      else if version = 2 then Some (cfg\<lparr>cf_SchemaVersion := 3\<rparr>)
      else if version = 3 then Some (cfg\<lparr>cf_CuratedPacksEnabled := True, cf_SchemaVersion := 4\<rparr>)
      else if version = 4 then
        Some ((if cf_Mode cfg = ''rewrite'' \<or> cf_Mode cfg = ''interrupt''
               then cfg\<lparr>cf_Mode := ''hint'', cf_AutoApplySafe := False, cf_RiskInterrupt := False\<rparr> else cfg)
              \<lparr>cf_SchemaVersion := 5\<rparr>)
      else if version = 5 then Some (cfg\<lparr>cf_LocalHistoryEnabled := False, cf_SchemaVersion := 6\<rparr>)
      else if version = 6 then Some (cfg\<lparr>cf_SchemaVersion := 7\<rparr>)
      else None)"

function migrate_loop :: "Config \<Rightarrow> int \<Rightarrow> Config result" where
  "migrate_loop cfg version =
     (if version < CurrentSchemaVersion then
        (case migrate_step cfg version of
           None \<Rightarrow> Inl (Err ''unsupported configuration schema version %d'' [itoa version])
         | Some cfg' \<Rightarrow> migrate_loop cfg' (version + 1))
      else Inr cfg)"
  by pat_completeness auto
termination by (relation "measure (\<lambda>(cfg, version). nat (CurrentSchemaVersion - version))") auto

declare migrate_loop.simps [simp del]

definition migrate :: "Config \<Rightarrow> int \<Rightarrow> Config result" where
  "migrate cfg version =
     (if CurrentSchemaVersion < version then Inl (Err ''unsupported configuration schema version %d'' [itoa version])
      else migrate_loop cfg version)"

text \<open>The part of \<open>decode\<close> after the JSON decoder: migration and the checks.\<close>

definition config_checks :: "Config \<Rightarrow> go_error option" where
  "config_checks c =
     (if \<not> validMode (cf_Mode c) then Some (Err ''invalid mode %q'' [cf_Mode c])
      else if \<not> validLearnedRuleAction (cf_LearnedRuleActionCeiling c)
      then Some (Err ''invalid learned rule action ceiling %q'' [cf_LearnedRuleActionCeiling c])
      else if cf_LearningRetentionDays c < 1 \<or> maxLearningRetentionDays < cf_LearningRetentionDays c
      then Some (Err ''learning retention days must be between 1 and %d'' [itoa maxLearningRetentionDays])
      else if cf_UndoTTLSeconds c < 1 \<or> maxUndoTTLSeconds < cf_UndoTTLSeconds c
      then Some (Err ''undo ttl seconds must be between 1 and %d'' [itoa maxUndoTTLSeconds])
      else if cf_LocalHistoryEnabled c then Some (Err ''local history is not supported'' [])
      else validateRuleExceptions (cf_RuleExceptions c))"

definition decode_checked :: "Config \<Rightarrow> int \<Rightarrow> Config result" where
  "decode_checked base version =
     (case migrate base version of
        Inl e \<Rightarrow> Inl e
      | Inr migrated \<Rightarrow> (case config_checks migrated of Some e \<Rightarrow> Inl e | None \<Rightarrow> Inr migrated))"

text \<open>\<open>strconv.ParseBool\<close> and \<open>strconv.Atoi\<close>.\<close>

definition parseBool :: "string \<Rightarrow> bool result" where
  "parseBool v =
     (if v \<in> set [''1'', ''t'', ''T'', ''TRUE'', ''true'', ''True''] then Inr True
      else if v \<in> set [''0'', ''f'', ''F'', ''FALSE'', ''false'', ''False''] then Inr False
      else Inl (Err ''strconv.ParseBool: parsing %q: invalid syntax'' [v]))"

definition digits_value :: "string \<Rightarrow> nat" where
  "digits_value ds = foldl (\<lambda>n c. n * 10 + (byte c - 48)) 0 ds"

definition all_digits :: "string \<Rightarrow> bool" where
  "all_digits ds \<longleftrightarrow> ds \<noteq> [] \<and> list_all (\<lambda>c. 48 \<le> byte c \<and> byte c \<le> 57) ds"

definition strconv_Atoi :: "string \<Rightarrow> int option" where
  "strconv_Atoi v =
     (case (case v of c # ds \<Rightarrow> if c = CHR ''-'' then (True, ds) else if c = CHR ''+'' then (False, ds) else (False, v)
            | [] \<Rightarrow> (False, v)) of (neg, ds) \<Rightarrow>
        if \<not> all_digits ds then None
        else case (if neg then - int (digits_value ds) else int (digits_value ds)) of n \<Rightarrow>
          if - 9223372036854775808 \<le> n \<and> n \<le> 9223372036854775807 then Some n else None)"

definition set_flag :: "string \<Rightarrow> bool \<Rightarrow> Config \<Rightarrow> Config" where
  "set_flag key parsed c =
     (if key = ''auto_apply_safe'' then c\<lparr>cf_AutoApplySafe := parsed\<rparr>
      else if key = ''curated_packs_enabled'' then c\<lparr>cf_CuratedPacksEnabled := parsed\<rparr>
      else if key = ''risk_interrupt'' then c\<lparr>cf_RiskInterrupt := parsed\<rparr>
      else if key = ''local_learning_enabled'' then c\<lparr>cf_LocalLearningEnabled := parsed\<rparr>
      else if key = ''undo_enabled'' then c\<lparr>cf_UndoEnabled := parsed\<rparr>
      else if key = ''display.cause'' then c\<lparr>cf_Display := (cf_Display c)\<lparr>di_Cause := parsed\<rparr>\<rparr>
      else if key = ''display.change'' then c\<lparr>cf_Display := (cf_Display c)\<lparr>di_Change := parsed\<rparr>\<rparr>
      else if key = ''display.confidence'' then c\<lparr>cf_Display := (cf_Display c)\<lparr>di_Confidence := parsed\<rparr>\<rparr>
      else if key = ''display.risk'' then c\<lparr>cf_Display := (cf_Display c)\<lparr>di_Risk := parsed\<rparr>\<rparr>
      else if key = ''display.consequence'' then c\<lparr>cf_Display := (cf_Display c)\<lparr>di_Consequence := parsed\<rparr>\<rparr>
      else if key = ''display.trace'' then c\<lparr>cf_Display := (cf_Display c)\<lparr>di_Trace := parsed\<rparr>\<rparr>
      else c)"

definition bool_keys :: "string list" where
  "bool_keys = [''auto_apply_safe'', ''curated_packs_enabled'', ''risk_interrupt'', ''local_learning_enabled'',
     ''undo_enabled'', ''display.cause'', ''display.change'', ''display.confidence'', ''display.risk'',
     ''display.consequence'', ''display.trace'']"

definition config_Set :: "string \<Rightarrow> string \<Rightarrow> Config \<Rightarrow> Config result" where
  "config_Set key v c =
     (if key = ''mode'' then
        (if \<not> validMode v then Inl (Err ''mode must be hint, interrupt, off, or rewrite'' [])
         else Inr (c\<lparr>cf_Mode := v\<rparr>))
      else if key \<in> set bool_keys then map_sum id (\<lambda>parsed. set_flag key parsed c) (parseBool v)
      else if key = ''learning_retention_days'' then
        (case strconv_Atoi v of
           None \<Rightarrow> Inl (Err ''learning_retention_days must be between 1 and %d'' [itoa maxLearningRetentionDays])
         | Some parsed \<Rightarrow>
             if parsed < 1 \<or> maxLearningRetentionDays < parsed
             then Inl (Err ''learning_retention_days must be between 1 and %d'' [itoa maxLearningRetentionDays])
             else Inr (c\<lparr>cf_LearningRetentionDays := parsed\<rparr>))
      else if key = ''undo_ttl_seconds'' then
        (case strconv_Atoi v of
           None \<Rightarrow> Inl (Err ''undo_ttl_seconds must be between 1 and %d'' [itoa maxUndoTTLSeconds])
         | Some parsed \<Rightarrow>
             if parsed < 1 \<or> maxUndoTTLSeconds < parsed
             then Inl (Err ''undo_ttl_seconds must be between 1 and %d'' [itoa maxUndoTTLSeconds])
             else Inr (c\<lparr>cf_UndoTTLSeconds := parsed\<rparr>))
      else if key = ''learned_rule_action_ceiling'' then
        (if \<not> validLearnedRuleAction v then Inl (Err ''learned_rule_action_ceiling must be off, hint, or rewrite'' [])
         else Inr (c\<lparr>cf_LearnedRuleActionCeiling := v\<rparr>))
      else Inl (Err ''unknown configuration key %q'' [key]))"

text \<open>Session overrides: the environment as the list of its entries, a Go map as its list of pairs.\<close>

definition sessionOverrideKeys :: "(string \<times> string) list" where
  "sessionOverrideKeys =
     [(''SOLOMON_MODE'', ''mode''), (''SOLOMON_AUTO_APPLY_SAFE'', ''auto_apply_safe''),
      (''SOLOMON_CURATED_PACKS_ENABLED'', ''curated_packs_enabled''), (''SOLOMON_RISK_INTERRUPT'', ''risk_interrupt''),
      (''SOLOMON_LOCAL_LEARNING_ENABLED'', ''local_learning_enabled''), (''SOLOMON_UNDO_ENABLED'', ''undo_enabled''),
      (''SOLOMON_UNDO_TTL_SECONDS'', ''undo_ttl_seconds'')]"

fun session_entries :: "string list \<Rightarrow> (string \<times> string) list \<Rightarrow> (string \<times> string) list result" where
  "session_entries [] values = Inr values"
| "session_entries (entry # entries) values =
     (case strings_Cut entry CHR ''='' of (key, v, ok) \<Rightarrow>
        if \<not> ok \<or> \<not> hasPrefix key ''SOLOMON_'' then session_entries entries values
        else if key = ''SOLOMON_REGISTRY_ENABLED'' \<or> key = ''SOLOMON_AUTO_UPDATE_ENABLED'' then session_entries entries values
        else if key \<in> fst ` set values then Inl (Err ''duplicate session override %q'' [key])
        else session_entries entries (values @ [(key, v)]))"

text \<open>\<open>environ\<close> is \<open>None\<close> where \<open>Paths.Environ\<close> is nil.\<close>

definition sessionValues :: "string list option \<Rightarrow> (string \<Rightarrow> string) \<Rightarrow> (string \<times> string) list result" where
  "sessionValues environ env =
     (case environ of
        None \<Rightarrow> Inr (map (\<lambda>(key, _). (key, env key)) sessionOverrideKeys)
      | Some entries \<Rightarrow> session_entries entries [])"

definition apply_override :: "string \<Rightarrow> string \<Rightarrow> Config \<Rightarrow> Config result" where
  "apply_override key v cfg =
     (case map_of sessionOverrideKeys key of
        None \<Rightarrow> Inl (Err ''unknown session override %q'' [key])
      | Some setting \<Rightarrow>
          if v = [] then Inr cfg
          else if setting \<noteq> ''mode'' \<and> setting \<noteq> ''undo_ttl_seconds'' \<and> v \<noteq> ''true'' \<and> v \<noteq> ''false''
          then Inl (Err ''invalid %s %q: must be true or false'' [key, v])
          else case config_Set setting v cfg of
            Inl e \<Rightarrow> Inl (Wrap ''invalid %s %q: %w'' [key, v] e)
          | Inr cfg' \<Rightarrow> Inr cfg')"

fun apply_overrides :: "(string \<times> string) list \<Rightarrow> Config \<Rightarrow> Config result" where
  "apply_overrides [] cfg = Inr cfg"
| "apply_overrides ((key, v) # rest) cfg =
     (case apply_override key v cfg of Inl e \<Rightarrow> Inl e | Inr cfg' \<Rightarrow> apply_overrides rest cfg')"

definition ApplySessionOverrides :: "Config \<Rightarrow> (string \<times> string) list \<Rightarrow> Config result" where
  "ApplySessionOverrides cfg values = apply_overrides (sort_key fst values) cfg"

definition applySessionPrecedence :: "Config \<Rightarrow> string list option \<Rightarrow> (string \<Rightarrow> string) \<Rightarrow> Config result" where
  "applySessionPrecedence base environ env =
     (case sessionValues environ env of Inl e \<Rightarrow> Inl e | Inr values \<Rightarrow> ApplySessionOverrides base values)"

subsection \<open>The invariant and the operations that keep it\<close>

definition config_ok :: "Config \<Rightarrow> bool" where
  "config_ok c \<longleftrightarrow> config_checks c = None"

lemma validate_exceptions_from_iff:
  "validate_exceptions_from ids commands es = None \<longleftrightarrow>
     (\<forall>e \<in> set es. validateRuleException e = None \<and> re_ID e \<notin> set ids \<and> re_Command e \<notin> set commands) \<and>
     distinct (map re_ID es) \<and> distinct (map re_Command es)"
  by (induction ids commands es rule: validate_exceptions_from.induct) (auto simp: image_iff split: option.split)

lemma validateRuleExceptions_iff:
  "validateRuleExceptions es = None \<longleftrightarrow>
     (\<forall>e \<in> set es. validateRuleException e = None) \<and> distinct (map re_ID es) \<and> distinct (map re_Command es)"
  by (simp add: validateRuleExceptions_def validate_exceptions_from_iff)

lemma config_ok_iff:
  "config_ok c \<longleftrightarrow> validMode (cf_Mode c) \<and> validLearnedRuleAction (cf_LearnedRuleActionCeiling c) \<and>
     1 \<le> cf_LearningRetentionDays c \<and> cf_LearningRetentionDays c \<le> maxLearningRetentionDays \<and>
     1 \<le> cf_UndoTTLSeconds c \<and> cf_UndoTTLSeconds c \<le> maxUndoTTLSeconds \<and> \<not> cf_LocalHistoryEnabled c \<and>
     (\<forall>e \<in> set (cf_RuleExceptions c). validateRuleException e = None) \<and>
     distinct (map re_ID (cf_RuleExceptions c)) \<and> distinct (map re_Command (cf_RuleExceptions c))"
  by (auto simp: config_ok_def config_checks_def validateRuleExceptions_iff)

text \<open>What an editing operation, given by its argument, owes the invariant.\<close>

locale config_editor =
  fixes edit :: "'k \<Rightarrow> Config \<Rightarrow> Config result"
  assumes edit_ok: "config_ok c \<Longrightarrow> edit k c = Inr c' \<Longrightarrow> config_ok c'"
begin

primrec run :: "'k list \<Rightarrow> Config \<Rightarrow> Config result" where
  "run [] c = Inr c"
| "run (k # ks) c = (case edit k c of Inl e \<Rightarrow> Inl e | Inr c' \<Rightarrow> run ks c')"

lemma run_ok: "config_ok c \<Longrightarrow> run ks c = Inr c' \<Longrightarrow> config_ok c'"
  by (induction ks arbitrary: c) (auto split: sum.splits dest: edit_ok)

end

lemma exception_clash_iff:
  "exception_clash e es = None \<longleftrightarrow> re_ID e \<notin> re_ID ` set es \<and> re_Command e \<notin> re_Command ` set es"
  by (induction es) auto

lemma AddRuleException_Inr:
  "AddRuleException e c = Inr c' \<longleftrightarrow> validateRuleException e = None \<and> re_ID e \<notin> re_ID ` set (cf_RuleExceptions c) \<and>
     re_Command e \<notin> re_Command ` set (cf_RuleExceptions c) \<and> c' = c\<lparr>cf_RuleExceptions := cf_RuleExceptions c @ [e]\<rparr>"
  using exception_clash_iff [of e "cf_RuleExceptions c"]
  by (auto simp: AddRuleException_def split: option.splits)

lemma remove_exception_Inr:
  "remove_exception i es = Inr es' \<Longrightarrow>
     \<exists>pre e post. es = pre @ e # post \<and> re_ID e = i \<and> i \<notin> re_ID ` set pre \<and> es' = pre @ post"
proof (induction es arbitrary: es')
  case (Cons e es)
  show ?case
  proof (cases "re_ID e = i")
    case True
    with Cons.prems show ?thesis by (intro exI [of _ "[]"]) auto
  next
    case False
    with Cons.prems obtain zs where z: "remove_exception i es = Inr zs" "es' = e # zs" by (auto simp: map_sum_Inr)
    obtain pre x post where "es = pre @ x # post" "re_ID x = i" "i \<notin> re_ID ` set pre" "zs = pre @ post"
      using Cons.IH [OF z(1)] by blast
    with False z(2) show ?thesis by (intro exI [of _ "e # pre"]) auto
  qed
qed simp

lemma remove_exception_last: "i \<notin> re_ID ` set es \<Longrightarrow> re_ID e = i \<Longrightarrow> remove_exception i (es @ [e]) = Inr es"
  by (induction es) auto

lemma RemoveRuleException_ok: "config_ok c \<Longrightarrow> RemoveRuleException i c = Inr c' \<Longrightarrow> config_ok c'"
  by (auto simp: RemoveRuleException_def map_sum_Inr config_ok_iff dest!: remove_exception_Inr split: if_splits)

lemma set_flag_ok: "config_ok (set_flag k b c) = config_ok c"
  by (simp add: set_flag_def config_ok_iff)

lemma config_Set_ok: "config_ok c \<Longrightarrow> config_Set k v c = Inr c' \<Longrightarrow> config_ok c'"
  by (auto simp: config_Set_def map_sum_Inr set_flag_ok split: if_splits option.splits)
     (simp_all add: config_ok_iff)

lemma apply_override_ok: "config_ok c \<Longrightarrow> apply_override k v c = Inr c' \<Longrightarrow> config_ok c'"
  by (auto simp: apply_override_def split: option.splits if_splits sum.splits dest: config_Set_ok)

text \<open>Every way to edit a configuration but \<open>UpdateRuleException\<close>, which may break it (below).\<close>

datatype config_edit =
    EditSet string string
  | EditAdd RuleException
  | EditRemove string
  | EditOverride string string

fun apply_edit :: "config_edit \<Rightarrow> Config \<Rightarrow> Config result" where
  "apply_edit (EditSet k v) c = config_Set k v c"
| "apply_edit (EditAdd e) c = AddRuleException e c"
| "apply_edit (EditRemove i) c = RemoveRuleException i c"
| "apply_edit (EditOverride k v) c = apply_override k v c"

primrec apply_edits :: "config_edit list \<Rightarrow> Config \<Rightarrow> Config result" where
  "apply_edits [] c = Inr c"
| "apply_edits (e # es) c = (case apply_edit e c of Inl err \<Rightarrow> Inl err | Inr c' \<Rightarrow> apply_edits es c')"

interpretation edits: config_editor apply_edit
proof
  fix c k c' assume c: "config_ok c" and e: "apply_edit k c = Inr c'"
  show "config_ok c'"
  proof (cases k)
    case (EditSet x v) with c e config_Set_ok show ?thesis by simp
  next
    case (EditAdd x) with c e show ?thesis by (auto simp: AddRuleException_Inr config_ok_iff)
  next
    case (EditRemove i) with c e RemoveRuleException_ok show ?thesis by simp
  next
    case (EditOverride x v) with c e apply_override_ok show ?thesis by simp
  qed
qed

lemma apply_edits_run: "apply_edits es c = edits.run es c"
  by (induction es arbitrary: c) (auto split: sum.split)

interpretation overrides: config_editor "\<lambda>(k, v). apply_override k v"
  by unfold_locales (auto dest: apply_override_ok)

lemma apply_overrides_run: "apply_overrides kvs c = overrides.run kvs c"
  by (induction kvs c rule: apply_overrides.induct) (auto split: sum.split)

subsection \<open>Properties\<close>



text \<open>
  A configuration that \<open>decode\<close> accepts is well-formed, and session overrides
  keep it so.
\<close>

lemma decoded_config_ok:
  assumes "decode_checked base version = Inr cfg" and "applySessionPrecedence cfg environ env = Inr cfg'"
  shows "config_ok cfg \<and> config_ok cfg'"
proof -
  have ok: "config_ok cfg"
    using assms(1) by (auto simp: decode_checked_def config_ok_def split: sum.splits option.splits)
  obtain kvs where "apply_overrides kvs cfg = Inr cfg'"
    using assms(2) by (auto simp: applySessionPrecedence_def ApplySessionOverrides_def split: sum.splits)
  with ok overrides.run_ok show ?thesis unfolding apply_overrides_run by blast
qed

text \<open>Migration.\<close>

lemma migrate_loop_start:
  "migrate_loop c 7 = Inr c"
  "migrate_loop c 6 = Inr (c\<lparr>cf_SchemaVersion := 7\<rparr>)"
  "migrate_loop c 5 = Inr (c\<lparr>cf_LocalHistoryEnabled := False, cf_SchemaVersion := 7\<rparr>)"
  by (simp_all add: migrate_loop.simps migrate_step_def CurrentSchemaVersion_def)

definition drop_authority :: "Config \<Rightarrow> Config" where
  "drop_authority c = (if cf_Mode c = ''rewrite'' \<or> cf_Mode c = ''interrupt''
     then c\<lparr>cf_Mode := ''hint'', cf_AutoApplySafe := False, cf_RiskInterrupt := False\<rparr> else c)"

text \<open>The closed form of a migration: what each starting version changes.\<close>

definition migrated :: "Config \<Rightarrow> int \<Rightarrow> Config" where
  "migrated c v =
     (if v = 7 then c
      else (let c1 = (if v \<le> 1 then c\<lparr>cf_RiskInterrupt := (cf_Mode c = ''interrupt'')\<rparr> else c);
                c2 = (if v \<le> 3 then c1\<lparr>cf_CuratedPacksEnabled := True\<rparr> else c1);
                c3 = (if v \<le> 4 then drop_authority c2 else c2);
                c4 = (if v \<le> 5 then c3\<lparr>cf_LocalHistoryEnabled := False\<rparr> else c3)
            in c4\<lparr>cf_SchemaVersion := 7\<rparr>))"

lemma migrate_loop_cases: "(0::int) \<le> v \<Longrightarrow> v \<le> 7 \<Longrightarrow> v \<in> {0, 1, 2, 3, 4, 5, 6, 7}"
  unfolding insert_iff empty_iff by presburger

lemma migrate_loop_steps:
  "migrate_loop c 4 = migrate_loop ((drop_authority c)\<lparr>cf_SchemaVersion := 5\<rparr>) 5"
  "migrate_loop c 3 = migrate_loop (c\<lparr>cf_CuratedPacksEnabled := True, cf_SchemaVersion := 4\<rparr>) 4"
  "migrate_loop c 2 = migrate_loop (c\<lparr>cf_SchemaVersion := 3\<rparr>) 3"
  "migrate_loop c 1 = migrate_loop (c\<lparr>cf_RiskInterrupt := (cf_Mode c = ''interrupt''), cf_SchemaVersion := 2\<rparr>) 2"
  "migrate_loop c 0 = migrate_loop (c\<lparr>cf_RiskInterrupt := (cf_Mode c = ''interrupt''), cf_SchemaVersion := 1\<rparr>) 1"
  by (subst migrate_loop.simps, simp add: migrate_step_def CurrentSchemaVersion_def drop_authority_def)+

lemma drop_authority_update [simp]:
  "drop_authority (c\<lparr>cf_SchemaVersion := n\<rparr>) = (drop_authority c)\<lparr>cf_SchemaVersion := n\<rparr>"
  by (simp add: drop_authority_def)

lemma migrate_closed: "0 \<le> v \<Longrightarrow> v \<le> 7 \<Longrightarrow> migrate c v = Inr (migrated c v)"
proof -
  assume v: "0 \<le> v" "v \<le> 7"
  then have "v \<in> {0, 1, 2, 3, 4, 5, 6, 7}" by (rule migrate_loop_cases)
  then have "migrate_loop c v = Inr (migrated c v)"
    by (elim insertE emptyE) (simp_all add: migrate_loop_start migrate_loop_steps migrated_def Let_def)
  with v show ?thesis by (simp add: migrate_def CurrentSchemaVersion_def)
qed

text \<open>
  Migration succeeds exactly for the versions 0 to 7, ends with schema version 7
  unless it had nothing to do, and changes exactly what the closed form \<open>migrated\<close> says; every
  older or newer version is refused.
\<close>

lemma migrate_exact:
  "migrate c v = (if 0 \<le> v \<and> v \<le> 7 then Inr (migrated c v)
     else Inl (Err ''unsupported configuration schema version %d'' [itoa v]))"
proof (cases "0 \<le> v \<and> v \<le> 7")
  case True
  then show ?thesis by (simp add: migrate_closed)
next
  case False
  then show ?thesis
    by (auto simp: migrate_def CurrentSchemaVersion_def migrate_loop.simps [of c v] migrate_step_def)
qed

text \<open>
  A migrated configuration of schema version 4 or less never carries over the
  authority to edit or block commands: its mode is neither rewrite nor interrupt, and where it
  was, automatic application and interruption are off. Everything the user set apart from
  that (display, learning, undo, rule exceptions) is kept.
\<close>

lemma migrate_drops_authority:
  assumes "0 \<le> v" "v \<le> 4" and "migrate c v = Inr c'"
  shows "cf_Mode c' \<noteq> ''rewrite'' \<and> cf_Mode c' \<noteq> ''interrupt'' \<and>
    (cf_Mode c = ''rewrite'' \<or> cf_Mode c = ''interrupt'' \<longrightarrow>
       cf_Mode c' = ''hint'' \<and> \<not> cf_AutoApplySafe c' \<and> \<not> cf_RiskInterrupt c') \<and>
    cf_Display c' = cf_Display c \<and> cf_RuleExceptions c' = cf_RuleExceptions c \<and>
    cf_LocalLearningEnabled c' = cf_LocalLearningEnabled c \<and> cf_LearningRetentionDays c' = cf_LearningRetentionDays c \<and>
    cf_UndoEnabled c' = cf_UndoEnabled c \<and> cf_UndoTTLSeconds c' = cf_UndoTTLSeconds c"
proof -
  have "migrate c v = Inr (migrated c v)"
    using assms(1,2) migrate_closed [of v c] by simp
  with assms(3) have "c' = migrated c v" by simp
  with assms(1,2) show ?thesis by (auto simp: migrated_def Let_def drop_authority_def)
qed

text \<open>
  Removing an exception that was just added gives the old configuration back,
  and while it is there exactly its command is exempt in addition.
\<close>

lemma add_remove_exception:
  assumes "AddRuleException e c = Inr c'"
  shows "RemoveRuleException (re_ID e) c' = Inr c \<and>
    (\<forall>command. HasRuleException c' command \<longleftrightarrow> command = re_Command e \<or> HasRuleException c command)"
proof -
  have v: "validRuleExceptionID (re_ID e)"
    using assms by (auto simp: AddRuleException_Inr validateRuleException_def split: if_splits)
  with assms show ?thesis
    by (auto simp: AddRuleException_Inr RemoveRuleException_def remove_exception_last HasRuleException_def)
qed

text \<open>
  \<open>UpdateRuleException\<close> does not keep the invariant: it compares the new command
  only with the exceptions before the updated one, so an update can succeed and leave two
  exceptions with the same command, a configuration that \<open>decode\<close> refuses.
\<close>

lemma update_exception_breaks_config:
  "\<exists>c c'. config_ok c \<and> UpdateRuleException ''a'' ''pwd'' c = Inr c' \<and> \<not> config_ok c' \<and>
     decode_checked c' 7 = Inl (Err ''duplicate rule exception command'' [])"
proof -
  let ?c = "Default\<lparr>cf_RuleExceptions := [\<lparr>re_ID = ''a'', re_Command = ''ls''\<rparr>, \<lparr>re_ID = ''b'', re_Command = ''pwd''\<rparr>]\<rparr>"
  let ?d = "Default\<lparr>cf_RuleExceptions := [\<lparr>re_ID = ''a'', re_Command = ''pwd''\<rparr>, \<lparr>re_ID = ''b'', re_Command = ''pwd''\<rparr>]\<rparr>"
  have "config_ok ?c" by code_simp
  moreover have "UpdateRuleException ''a'' ''pwd'' ?c = Inr ?d" by code_simp
  moreover have "\<not> config_ok ?d" by code_simp
  moreover have "decode_checked ?d 7 = Inl (Err ''duplicate rule exception command'' [])" by code_simp
  ultimately show ?thesis by blast
qed

end
