(* ===== verification/Executables.thy ===== *)
theory Executables
  imports GoStrings
begin

section \<open>Executables on the path and their cache (internal/diagnose/engine.go)\<close>

text \<open>
  The executable index of the engine: the scan of the directories of \<open>PATH\<close>, its cache with
  one entry per platform, \<open>PATHEXT\<close> and \<open>PATH\<close>, and the lookup of a command. The operating
  system is the record \<open>os_env\<close>: what \<open>os.Stat\<close> and \<open>ReadDir\<close> would return, fixed during
  one call. Paths are Unix paths; the platform argument of the code is kept.
\<close>

subsection \<open>Model\<close>

record file_info =
  fi_IsDir :: bool
  fi_IsRegular :: bool
  fi_Mode :: nat
  fi_ModTime :: int
  fi_Size :: int

text \<open>An entry's \<open>Info\<close> may fail: \<open>de_Mode\<close> is \<open>None\<close> then.\<close>

record dir_entry =
  de_Name :: string
  de_IsDir :: bool
  de_Mode :: "nat option"

record os_env =
  os_GOOS :: string
  os_PATHEXT :: string
  os_Stat :: "string \<Rightarrow> file_info option"
  os_ReadDir :: "string \<Rightarrow> dir_entry list option"

definition maxPathDirectories :: nat where "maxPathDirectories = 64"
definition maxDirectoryEntries :: nat where "maxDirectoryEntries = 512"

record executableCacheEntry =
  ce_signature :: string
  ce_names :: "string list"

type_synonym Cache = "string \<rightharpoonup> executableCacheEntry"

definition NewCache :: Cache where "NewCache = Map.empty"

definition Invalidate :: "Cache \<Rightarrow> Cache" where "Invalidate c = Map.empty"

definition limitedReadDir :: "os_env \<Rightarrow> string \<Rightarrow> dir_entry list option" where
  "limitedReadDir env path = map_option (take maxDirectoryEntries) (os_ReadDir env path)"

text \<open>\<open>mode&0o111 != 0\<close>.\<close>

definition executable_mode :: "nat \<Rightarrow> bool" where
  "executable_mode m \<longleftrightarrow> odd m \<or> odd (m div 8) \<or> odd (m div 64)"

definition executableExtensions :: "string \<Rightarrow> string list" where
  "executableExtensions pathExt =
     (let trimmed = filter (\<lambda>e. e \<noteq> []) (map strings_TrimSpace
            (strings_Split (if pathExt = [] then ''.COM;.EXE;.BAT;.CMD'' else pathExt) CHR '';''))
      in map (\<lambda>e. strings_ToLower (if hasPrefix e ''.'' then e else ''.'' @ e)) trimmed)"

definition executableExtension :: "string \<Rightarrow> string \<Rightarrow> string option" where
  "executableExtension name pathExt =
     find (\<lambda>extension. hasSuffix (strings_ToLower name) extension) (executableExtensions pathExt)"

definition isExecutableCandidate :: "string \<Rightarrow> nat \<Rightarrow> string \<Rightarrow> string \<Rightarrow> bool" where
  "isExecutableCandidate name mode platform pathExt =
     (if platform \<noteq> ''windows'' then executable_mode mode else executableExtension name pathExt \<noteq> None)"

text \<open>
  \<open>name[:len(name)-len(extension)]\<close>: lower-casing keeps the length of ASCII names; the Go
  slice fails where a lower-cased suffix is longer than the name, which \<open>take\<close> maps to the
  empty name.
\<close>

definition normalizeExecutableName :: "string \<Rightarrow> string \<Rightarrow> string \<Rightarrow> string" where
  "normalizeExecutableName name platform pathExt =
     (if platform \<noteq> ''windows'' then name
      else case executableExtension name pathExt of
        Some extension \<Rightarrow> strings_ToLower (take (length name - length extension) name)
      | None \<Rightarrow> strings_ToLower name)"

definition isPathQualified :: "string \<Rightarrow> string \<Rightarrow> bool" where
  "isPathQualified v platform =
     (if platform = ''windows'' then containsAny v [slash, CHR 0x5C] else strings_Contains v ''/'')"

text \<open>The names that one directory contributes, and the scan of the path.\<close>

definition directory_names :: "os_env \<Rightarrow> string \<Rightarrow> string \<Rightarrow> string \<Rightarrow> string list" where
  "directory_names env platform pathExt dir =
     (case limitedReadDir env dir of
        None \<Rightarrow> []
      | Some entries \<Rightarrow> map (\<lambda>entry. normalizeExecutableName (de_Name entry) platform pathExt)
          (filter (\<lambda>entry. \<not> de_IsDir entry \<and> (case de_Mode entry of
             None \<Rightarrow> False | Some mode \<Rightarrow> isExecutableCandidate (de_Name entry) mode platform pathExt)) entries))"

definition scan_path :: "os_env \<Rightarrow> string \<Rightarrow> string \<Rightarrow> string \<Rightarrow> string list" where
  "scan_path env pathValue platform pathExt =
     sort (dedup (concat (map (directory_names env platform pathExt)
       (take maxPathDirectories (filepath_SplitList pathValue)))))"

definition signature_of :: "os_env \<Rightarrow> string \<Rightarrow> string" where
  "signature_of env dir =
     (case os_Stat env dir of
        None \<Rightarrow> dir @ '':missing'' @ [CHR 0x00]
      | Some info \<Rightarrow> dir @ '':'' @ itoa (fi_ModTime info) @ '':'' @ itoa (fi_Size info) @ [CHR 0x00])"

definition pathSignature :: "os_env \<Rightarrow> string \<Rightarrow> string" where
  "pathSignature env pathValue =
     (let dirs = filepath_SplitList pathValue in
      concat (map (signature_of env) (take maxPathDirectories dirs))
        @ (if maxPathDirectories < length dirs then ''truncated'' @ [CHR 0x00] else []))"

definition cacheKey :: "string \<Rightarrow> string \<Rightarrow> string \<Rightarrow> string" where
  "cacheKey platform pathExt pathValue = platform @ CHR 0x00 # pathExt @ CHR 0x00 # pathValue"

definition executableNamesFor :: "os_env \<Rightarrow> string \<Rightarrow> string \<Rightarrow> string \<Rightarrow> Cache \<Rightarrow> string list \<times> Cache" where
  "executableNamesFor env pathValue platform pathExt c =
     (let key = cacheKey platform pathExt pathValue; signature = pathSignature env pathValue;
          result = scan_path env pathValue platform pathExt;
          miss = (result, c(key \<mapsto> \<lparr>ce_signature = signature, ce_names = result\<rparr>)) in
      case c key of
        None \<Rightarrow> miss
      | Some entry \<Rightarrow> if ce_signature entry = signature then (ce_names entry, c) else miss)"

text \<open>\<open>sort.Search\<close>, the binary search of the standard library.\<close>

function sort_Search :: "nat \<Rightarrow> nat \<Rightarrow> (nat \<Rightarrow> bool) \<Rightarrow> nat" where
  "sort_Search i j f =
     (if i < j then (if \<not> f ((i + j) div 2) then sort_Search ((i + j) div 2 + 1) j f
                     else sort_Search i ((i + j) div 2) f)
      else i)"
  by pat_completeness auto
termination by (relation "measure (\<lambda>(i, j, f). j - i)") auto

declare sort_Search.simps [simp del]

definition searchStrings :: "string list \<Rightarrow> string \<Rightarrow> nat" where
  "searchStrings names v = sort_Search 0 (length names) (\<lambda>i. v \<le> names ! i)"

definition executable_file :: "os_env \<Rightarrow> string \<Rightarrow> bool" where
  "executable_file env path =
     (case os_Stat env path of None \<Rightarrow> False | Some info \<Rightarrow> \<not> fi_IsDir info \<and> executable_mode (fi_Mode info))"

definition commandExistsFor :: "os_env \<Rightarrow> string \<Rightarrow> string \<Rightarrow> string \<Rightarrow> string \<Rightarrow> Cache \<Rightarrow> bool \<times> Cache" where
  "commandExistsFor env name pathValue platform pathExt c =
     (if platform \<noteq> ''windows'' then
        (list_ex (\<lambda>dir. executable_file env (filepath_Join [dir, name]))
           (take maxPathDirectories (filepath_SplitList pathValue)), c)
      else case executableNamesFor env pathValue platform pathExt c of (names, c') \<Rightarrow>
        (case normalizeExecutableName name platform pathExt of n \<Rightarrow>
           (searchStrings names n < length names \<and> names ! searchStrings names n = n, c')))"

subsection \<open>Binary search\<close>

lemma sort_Search_least:
  assumes "\<And>x y. i \<le> x \<Longrightarrow> x \<le> y \<Longrightarrow> y < j \<Longrightarrow> f x \<Longrightarrow> f y" and "i \<le> j"
  shows "i \<le> sort_Search i j f \<and> sort_Search i j f \<le> j \<and> (\<forall>x. i \<le> x \<and> x < sort_Search i j f \<longrightarrow> \<not> f x) \<and>
    (sort_Search i j f < j \<longrightarrow> f (sort_Search i j f))"
  using assms
proof (induction i j f rule: sort_Search.induct)
  case (1 i j f)
  let ?h = "(i + j) div 2"
  show ?case
  proof (cases "i < j")
    case True
    then have h: "i \<le> ?h" "?h < j" by simp_all
    show ?thesis
    proof (cases "f ?h")
      case fh: True
      then have nn: "\<not> \<not> f ?h" by simp
      have "i \<le> sort_Search i ?h f \<and> sort_Search i ?h f \<le> ?h \<and> (\<forall>x. i \<le> x \<and> x < sort_Search i ?h f \<longrightarrow> \<not> f x) \<and>
          (sort_Search i ?h f < ?h \<longrightarrow> f (sort_Search i ?h f))"
      proof (rule "1.IH"(2) [OF True nn])
        show "f y" if "i \<le> x" "x \<le> y" "y < ?h" "f x" for x y
          using "1.prems"(1) [OF that(1,2) less_trans [OF that(3) h(2)] that(4)] .
      qed (rule h(1))
      moreover have "sort_Search i j f = sort_Search i ?h f" using True fh by (subst sort_Search.simps) simp
      ultimately show ?thesis using fh h by (cases "sort_Search i ?h f = ?h") auto
    next
      case fh: False
      have "?h + 1 \<le> sort_Search (?h + 1) j f \<and> sort_Search (?h + 1) j f \<le> j \<and>
          (\<forall>x. ?h + 1 \<le> x \<and> x < sort_Search (?h + 1) j f \<longrightarrow> \<not> f x) \<and>
          (sort_Search (?h + 1) j f < j \<longrightarrow> f (sort_Search (?h + 1) j f))"
      proof (rule "1.IH"(1) [OF True fh])
        show "f y" if "?h + 1 \<le> x" "x \<le> y" "y < j" "f x" for x y
          using "1.prems"(1) [of x y] that h(1) by simp
      qed (use h(2) in simp)
      moreover have "sort_Search i j f = sort_Search (?h + 1) j f" using True fh by (subst sort_Search.simps) simp
      moreover have "\<not> f x" if "i \<le> x" "x \<le> ?h" for x
        using "1.prems"(1) [of x ?h] that h fh by blast
      ultimately show ?thesis using h by (auto simp: Suc_le_eq) (meson not_le)+
    qed
  qed (use "1.prems"(2) in \<open>auto simp: sort_Search.simps\<close>)
qed

lemma searchStrings_found:
  assumes "sorted names"
  shows "searchStrings names v < length names \<and> names ! searchStrings names v = v \<longleftrightarrow> v \<in> set names"
proof -
  define k where "k = searchStrings names v"
  have k: "k \<le> length names" "\<forall>x < k. \<not> v \<le> names ! x" "k < length names \<longrightarrow> v \<le> names ! k"
    using sort_Search_least [of 0 "length names" "\<lambda>i. v \<le> names ! i"] assms
    by (auto simp: k_def searchStrings_def dest: sorted_nth_mono order_trans)
  have "k < length names \<and> names ! k = v" if v: "v \<in> set names"
  proof -
    obtain i where i: "i < length names" "names ! i = v" using v by (metis in_set_conv_nth)
    have "k \<le> i" using k(2) i(2) by (metis not_le_imp_less order_refl)
    moreover from this have "names ! k \<le> v" using assms i sorted_nth_mono by blast
    ultimately show ?thesis using k(3) i(1) by (metis antisym le_less_trans)
  qed
  then show ?thesis unfolding k_def by (metis nth_mem)
qed

subsection \<open>The cache\<close>

definition no_nul :: "string \<Rightarrow> bool" where
  "no_nul s \<longleftrightarrow> CHR 0x00 \<notin> set s"

text \<open>Every entry whose signature is current holds the names that a scan would find.\<close>

definition cache_ok :: "os_env \<Rightarrow> Cache \<Rightarrow> bool" where
  "cache_ok env c \<longleftrightarrow> (\<forall>platform pathExt pathValue entry. no_nul platform \<and> no_nul pathExt \<and>
     c (cacheKey platform pathExt pathValue) = Some entry \<and> ce_signature entry = pathSignature env pathValue \<longrightarrow>
     ce_names entry = scan_path env pathValue platform pathExt)"

lemma append_sep_eq:
  "c \<notin> set xs \<Longrightarrow> c \<notin> set ys \<Longrightarrow> xs @ c # us = ys @ c # vs \<longleftrightarrow> xs = ys \<and> us = vs"
proof (induction xs arbitrary: ys)
  case Nil then show ?case by (cases ys) auto
next
  case (Cons x xs) then show ?case by (cases ys) auto
qed

lemma cacheKey_inject:
  "no_nul p \<Longrightarrow> no_nul e \<Longrightarrow> no_nul p' \<Longrightarrow> no_nul e' \<Longrightarrow>
   cacheKey p e v = cacheKey p' e' v' \<longleftrightarrow> p = p' \<and> e = e' \<and> v = v'"
  by (auto simp: cacheKey_def no_nul_def append_sep_eq)

lemma executableNamesFor_ok:
  assumes "cache_ok env c" "no_nul platform" "no_nul pathExt"
  shows "fst (executableNamesFor env pathValue platform pathExt c) = scan_path env pathValue platform pathExt"
    and "cache_ok env (snd (executableNamesFor env pathValue platform pathExt c))"
  using assms
  by (auto simp: executableNamesFor_def Let_def cache_ok_def cacheKey_inject split: option.split if_splits)



end
