(* ===== verification/GoFloat.thy ===== *)
theory GoFloat
  imports Prelude
begin

section \<open>The float64 arithmetic of the confidence score\<close>

text \<open>
  The engine computes a confidence as \<open>1 - float64(d)/float64(n)\<close> and compares it with
  decimal thresholds. A finite float64 is a rational number; \<open>fl64\<close> rounds an exact result
  to the nearest float64, ties to even, for the values that occur here (at most 1 and far
  above the subnormal range). \<open>threshold_exact\<close> shows that the comparison of the rounded
  values is the comparison of the exact fractions. \<open>format_f2\<close> is \<open>FormatFloat(x, 'f', 2, 64)\<close>
  and \<open>%.2f\<close>.
\<close>

text \<open>The quotient of two integers rounded to the nearest integer, ties to even.\<close>

definition round_step :: "int \<Rightarrow> int \<Rightarrow> int \<Rightarrow> int" where
  "round_step q f r =
     (if 2 * r < q then f else if q < 2 * r then f + 1 else if even f then f else f + 1)"

definition round_div :: "int \<Rightarrow> int \<Rightarrow> int" where
  "round_div p q = round_step q (p div q) (p mod q)"

text \<open>
  Numerator and scale are doubled together until \<open>p / q\<close> has 53 bits of integer part.
\<close>

fun scale_up :: "nat \<Rightarrow> int \<Rightarrow> int \<Rightarrow> int \<Rightarrow> int \<times> int" where
  "scale_up 0 p q w = (p, w)"
| "scale_up (Suc n) p q w =
     (if 4503599627370496 * q \<le> p then (p, w) else scale_up n (2 * p) q (2 * w))"

definition fl64 :: "rat \<Rightarrow> rat" where
  "fl64 x = (case quotient_of x of (p, q) \<Rightarrow>
     if p = 0 then 0
     else case scale_up 1074 p q 1 of (p', w) \<Rightarrow> of_int (round_div p' q) / of_int w)"

definition format_cents :: "int \<Rightarrow> string" where
  "format_cents n = itoa (n div 100) @ ''.'' @
     [char_of (48 + nat (n mod 100 div 10)), char_of (48 + nat (n mod 10))]"

definition format_f2 :: "rat \<Rightarrow> string" where
  "format_f2 x = (case quotient_of x of (p, q) \<Rightarrow> format_cents (round_div (100 * p) q))"

lemmas round_div_unfold = round_div_def round_step_def

lemma round_div_int: "0 < q \<Longrightarrow> \<bar>2 * (q * round_div p q) - 2 * p\<bar> \<le> q"
proof -
  assume q: "0 < q"
  define f r where "f = p div q" and "r = p mod q"
  have p: "p = q * f + r" and r: "0 \<le> r" "r < q" using q by (simp_all add: f_def r_def)
  have "2 * (q * f) - 2 * p = - 2 * r" "2 * (q * (f + 1)) - 2 * p = 2 * q - 2 * r"
    by (simp_all add: p algebra_simps)
  with r q show ?thesis
    by (auto simp: round_div_unfold f_def [symmetric] r_def [symmetric] simp del: distrib_left_numeral)
qed

lemma round_div_nonneg: "0 \<le> p \<Longrightarrow> 0 < q \<Longrightarrow> 0 \<le> round_div p q"
  by (simp add: round_div_unfold pos_imp_zdiv_nonneg_iff)

lemma round_div_error:
  assumes "0 < q"
  shows "\<bar>of_int (round_div p q) - of_int p / of_int q\<bar> \<le> (1/2 :: rat)"
proof -
  have "\<bar>2 * (q * round_div p q) - 2 * p\<bar> \<le> q" using assms by (rule round_div_int)
  then have "\<bar>2 * (of_int q * of_int (round_div p q)) - 2 * (of_int p :: rat)\<bar> \<le> of_int q"
    by (metis (mono_tags) of_int_abs of_int_diff of_int_le_iff of_int_mult of_int_numeral)
  then have "\<bar>2 * (of_int q * of_int (round_div p q)) - 2 * (of_int p :: rat)\<bar> / (2 * of_int q) \<le> 1/2"
    using assms by (simp add: field_simps)
  moreover have "of_int (round_div p q) - of_int p / of_int q
      = (2 * (of_int q * of_int (round_div p q)) - 2 * of_int p) / (2 * of_int q :: rat)"
    using assms by (simp add: field_simps)
  ultimately show ?thesis using assms by (simp add: abs_divide)
qed

text \<open>Scaling a fraction of at most 1 multiplies both parts by at least \<open>2\<^sup>5\<^sup>2\<close>.\<close>

lemma scale_up_power:
  "\<exists>k. scale_up n p q w = (p * 2 ^ k, w * 2 ^ k) \<and>
     (0 < q \<longrightarrow> (\<forall>m \<le> n. p * 2 ^ m \<le> 4503599627370496 * q \<longrightarrow> m \<le> k))"
proof (induction n arbitrary: p w)
  case 0
  then show ?case by (intro exI [of _ 0]) simp
next
  case (Suc n)
  show ?case
  proof (cases "4503599627370496 * q \<le> p")
    case True
    have "m = 0" if "0 < q" "p * 2 ^ m \<le> 4503599627370496 * q" for m
    proof (rule ccontr)
      assume "m \<noteq> 0"
      then have "(2::int) \<le> 2 ^ m" by (cases m) auto
      moreover have "0 < p" using True that(1) by linarith
      ultimately have "p * 2 \<le> p * 2 ^ m" by simp
      with that True \<open>0 < p\<close> show False by linarith
    qed
    with True show ?thesis by (intro exI [of _ 0]) auto
  next
    case False
    obtain k where k: "scale_up n (2 * p) q (2 * w) = (2 * p * 2 ^ k, 2 * w * 2 ^ k)"
        "0 < q \<longrightarrow> (\<forall>m \<le> n. 2 * p * 2 ^ m \<le> 4503599627370496 * q \<longrightarrow> m \<le> k)"
      using Suc.IH by blast
    have "m \<le> Suc k" if "0 < q" "m \<le> Suc n" "p * 2 ^ m \<le> 4503599627370496 * q" for m
      using that k(2) by (cases m) (auto simp: algebra_simps)
    with k(1) False show ?thesis by (intro exI [of _ "Suc k"]) (auto simp: algebra_simps)
  qed
qed

lemma fl64_nonneg: "0 \<le> x \<Longrightarrow> 0 \<le> fl64 x"
proof -
  assume x: "0 \<le> x"
  obtain p q where pq: "quotient_of x = (p, q)" by fastforce
  have q: "0 < q" using quotient_of_denom_pos [OF pq] .
  have p: "0 \<le> p" using x q quotient_of_div [OF pq] by (simp add: zero_le_divide_iff)
  obtain k where k: "scale_up 1074 p q 1 = (p * 2 ^ k, 1 * 2 ^ k)"
    using scale_up_power by blast
  have "0 \<le> round_div (p * 2 ^ k) q" using p q by (intro round_div_nonneg) auto
  with pq k show ?thesis by (simp add: fl64_def)
qed

lemma round_div_le: "p \<le> q * m \<Longrightarrow> 0 < q \<Longrightarrow> round_div p q \<le> m"
proof -
  assume p: "p \<le> q * m" and q: "0 < q"
  have "2 * (q * round_div p q) < 2 * (q * (m + 1))"
    using round_div_int [OF q, of p] p q by (simp add: distrib_left)
  with q show ?thesis by simp
qed

lemma fl64_le_one: "x \<le> 1 \<Longrightarrow> fl64 x \<le> 1"
proof -
  assume x: "x \<le> 1"
  obtain p q where pq: "quotient_of x = (p, q)" by fastforce
  have q: "0 < q" using quotient_of_denom_pos [OF pq] .
  have "p \<le> q" using x q quotient_of_div [OF pq] by simp
  moreover obtain k where k: "scale_up 1074 p q 1 = (p * 2 ^ k, 1 * 2 ^ k)"
    using scale_up_power by blast
  ultimately have "round_div (p * 2 ^ k) q \<le> 2 ^ k" by (intro round_div_le q) simp
  then have "of_int (round_div (p * 2 ^ k) q) \<le> (2 ^ k :: rat)"
    by (metis of_int_le_iff of_int_numeral of_int_power)
  with pq k show ?thesis by (simp add: fl64_def)
qed

lemma fl64_error:
  assumes "x \<le> 1"
  shows "\<bar>fl64 x - x\<bar> \<le> 1 / 9007199254740992"
proof -
  obtain p q where pq: "quotient_of x = (p, q)" by fastforce
  have q: "0 < q" and x: "x = of_int p / of_int q"
    using quotient_of_denom_pos [OF pq] quotient_of_div [OF pq] by simp_all
  have pq1: "p \<le> q" using assms q by (simp add: x)
  show ?thesis
  proof (cases "p = 0")
    case False
    obtain k where s: "scale_up 1074 p q 1 = (p * 2 ^ k, 1 * 2 ^ k)"
      and bound: "0 < q \<longrightarrow> (\<forall>m \<le> 1074. p * 2 ^ m \<le> 4503599627370496 * q \<longrightarrow> m \<le> k)"
      using scale_up_power by blast
    have k: "52 \<le> k" using bound q pq1 by simp
    have "\<bar>of_int (round_div (p * 2 ^ k) q) - of_int (p * 2 ^ k) / of_int q\<bar> \<le> (1/2 :: rat)"
      by (rule round_div_error [OF q])
    then have "\<bar>of_int (round_div (p * 2 ^ k) q) - of_int (p * 2 ^ k) / of_int q\<bar> / 2 ^ k
        \<le> (1/2 :: rat) / 2 ^ k"
      by (rule divide_right_mono) simp
    moreover have "fl64 x - x
        = (of_int (round_div (p * 2 ^ k) q) - of_int (p * 2 ^ k) / of_int q) / 2 ^ k"
      using False pq s by (simp add: fl64_def diff_divide_distrib x)
    ultimately have "\<bar>fl64 x - x\<bar> \<le> (1/2) / 2 ^ k" by (simp add: abs_divide)
    also have "\<dots> \<le> (1/2) / 2 ^ 52"
      using power_increasing [OF k, of "2::rat"] by (intro divide_left_mono) auto
    finally show ?thesis by simp
  qed (use pq x in \<open>simp add: fl64_def\<close>)
qed

text \<open>Fractions with denominators \<open>n\<close> and 20 that differ are at least \<open>1/(20 n)\<close> apart.\<close>

lemma fraction_gap:
  fixes d n t :: int
  assumes "0 < n" and "of_int d / of_int n \<noteq> (of_int t / 20 :: rat)"
  shows "1 / (20 * of_int n) \<le> \<bar>of_int d / of_int n - (of_int t / 20 :: rat)\<bar>"
proof -
  have "of_int d / of_int n - (of_int t / 20 :: rat) = of_int (20 * d - t * n) / (20 * of_int n)"
    using assms(1) by (simp add: field_simps)
  moreover have "20 * d - t * n \<noteq> 0"
  proof
    assume "20 * d - t * n = 0"
    then have "20 * (of_int d :: rat) = of_int t * of_int n"
      by (metis eq_iff_diff_eq_0 of_int_mult of_int_numeral)
    with assms show False by (simp add: field_simps)
  qed
  then have "1 \<le> \<bar>20 * d - t * n\<bar>" by linarith
  then have "(1::rat) \<le> \<bar>of_int (20 * d - t * n)\<bar>"
    by (metis of_int_1_le_iff of_int_abs)
  ultimately show ?thesis using assms(1) by (simp add: abs_divide divide_right_mono)
qed

text \<open>The thresholds are multiples of 1/20: 0.60, 0.75, 0.80 and 0.90.\<close>

definition threshold_twentieths :: "int set" where
  "threshold_twentieths = {12, 15, 16, 18}"

lemma fl64_tie:
  assumes "t \<in> threshold_twentieths" and "y = (of_int (20 - t) / 20 :: rat)"
  shows "fl64 (1 - fl64 y) = fl64 (of_int t / 20)"
proof -
  have "fl64 (1 - fl64 (8 / 20)) = fl64 (12 / 20)" by code_simp
  moreover have "fl64 (1 - fl64 (5 / 20)) = fl64 (15 / 20)" by code_simp
  moreover have "fl64 (1 - fl64 (4 / 20)) = fl64 (16 / 20)" by code_simp
  moreover have "fl64 (1 - fl64 (2 / 20)) = fl64 (18 / 20)" by code_simp
  ultimately show ?thesis
    using assms(1) unfolding assms(2) by (auto simp: threshold_twentieths_def)
qed

lemma threshold_exact:
  fixes d n t :: int
  assumes "0 \<le> d" "d \<le> n" "0 < n" "n \<le> 1048576" "t \<in> threshold_twentieths"
  shows "fl64 (of_int t / 20) \<le> fl64 (1 - fl64 (of_int d / of_int n))
     \<longleftrightarrow> (of_int t / 20 :: rat) \<le> 1 - of_int d / of_int n"
proof (cases "of_int d / of_int n = (of_int (20 - t) / 20 :: rat)")
  case True
  then have "(of_int t / 20 :: rat) \<le> 1 - of_int d / of_int n" by (simp add: field_simps)
  with fl64_tie [OF assms(5) True] show ?thesis by simp
next
  case False
  let ?x = "of_int d / of_int n :: rat" and ?e = "1 / 9007199254740992 :: rat"
  have x: "0 \<le> ?x" "?x \<le> 1" using assms by simp_all
  have n: "(of_int n :: rat) \<le> 1048576" using assms(4) of_int_le_iff by fastforce
  have "1 / (20 * 1048576) \<le> 1 / (20 * of_int n :: rat)"
    using n assms(3) by (intro divide_left_mono) auto
  also have "\<dots> \<le> \<bar>?x - of_int (20 - t) / 20\<bar>"
    using fraction_gap [OF assms(3) False] .
  finally have gap: "1 / 20971520 \<le> \<bar>?x - of_int (20 - t) / 20\<bar>" by simp
  have e1: "\<bar>fl64 ?x - ?x\<bar> \<le> ?e" using x by (intro fl64_error)
  have "0 \<le> fl64 ?x" using x(1) by (rule fl64_nonneg)
  then have e2: "\<bar>fl64 (1 - fl64 ?x) - (1 - fl64 ?x)\<bar> \<le> ?e" by (intro fl64_error) simp
  have e3: "\<bar>fl64 (of_int t / 20) - of_int t / 20\<bar> \<le> ?e"
    using assms(5) by (intro fl64_error) (auto simp: threshold_twentieths_def)
  have t: "of_int (20 - t) / 20 = (1 - of_int t / 20 :: rat)" by (simp add: field_simps)
  show ?thesis using gap e1 e2 e3 unfolding t by linarith
qed

end
