(* ===== verification/EditDistance.thy ===== *)
theory EditDistance
  imports GoStrings GoFloat
begin

section \<open>Edit distances and candidate ranking (internal/diagnose/engine.go)\<close>

text \<open>
  The two table-filling distances of the engine (\<open>damerauLevenshtein\<close> and
  \<open>keyboardAdjacencyDistance\<close>), the ranking of candidates and \<open>nearest\<close>. Both distances
  keep one or two previous rows of a table; the locale \<open>table_rows\<close> states what a row step
  must compute and proves once that the loops compute the table. The specification is the
  least cost of a list of edits.
\<close>

subsection \<open>Model\<close>

fun go_min :: "nat list \<Rightarrow> nat" where
  "go_min [] = 0"
| "go_min (v # vs) = foldl (\<lambda>result x. if x < result then x else result) v vs"

text \<open>\<open>current[j+1]\<close> of \<open>damerauLevenshtein\<close> at row \<open>i\<close>, column \<open>j\<close>.\<close>

definition dl_entry :: "rune list \<Rightarrow> rune list \<Rightarrow> nat list \<Rightarrow> nat list \<Rightarrow> nat list \<Rightarrow> nat \<Rightarrow> nat \<Rightarrow> nat" where
  "dl_entry a b previousPrevious previous current i j =
     (let cost = (if a ! i \<noteq> b ! j then 1 else 0);
          best = go_min [current ! j + 1, previous ! (j + 1) + 1, previous ! j + cost]
      in if 0 < i \<and> 0 < j \<and> a ! i = b ! (j - 1) \<and> a ! (i - 1) = b ! j
         then go_min [best, previousPrevious ! (j - 1) + 1] else best)"

text \<open>
  One row (\<open>fill_row\<close>) and the loop over the rows (\<open>fill_table\<close>) of such a computation: the
  entry function and the first column are the parts in which the two distances differ.
\<close>

definition fill_row :: "(nat list \<Rightarrow> nat \<Rightarrow> nat) \<Rightarrow> nat \<Rightarrow> nat \<Rightarrow> nat list" where
  "fill_row entry first m = foldl (\<lambda>current j. current @ [entry current j]) [first] [0..<m]"

definition damerauLevenshtein :: "string \<Rightarrow> string \<Rightarrow> nat" where
  "damerauLevenshtein s t =
     (let a = runes s; b = runes t; m = length b in
      snd (foldl (\<lambda>(previousPrevious, previous) i.
             (previous, fill_row (\<lambda>current. dl_entry a b previousPrevious previous current i) (i + 1) m))
           (replicate (m + 1) 0, [0..<m + 1]) [0..<length a]) ! m)"

definition keyboardRows :: "rune list list" where
  "keyboardRows = map runes
     [''1234567890-='', ''qwertyuiop[]'' @ [CHR 0x5C], ''asdfghjkl;'' @ [CHR 0x27], ''zxcvbnm,./'']"

definition key_positions :: "rune \<Rightarrow> (nat \<times> nat) list" where
  "key_positions k =
     concat (map (\<lambda>(row, keys). map (\<lambda>(column, _). (row, column))
                    (filter (\<lambda>(column, key). key = k) (enumerate 0 keys)))
              (enumerate 0 keyboardRows))"

definition go_abs_diff :: "nat \<Rightarrow> nat \<Rightarrow> nat" where
  "go_abs_diff x y = nat \<bar>int x - int y\<bar>"

definition keyboardAdjacent :: "rune \<Rightarrow> rune \<Rightarrow> bool" where
  "keyboardAdjacent left right =
     list_ex (\<lambda>(leftRow, leftColumn). list_ex (\<lambda>(rightRow, rightColumn).
         go_abs_diff leftRow rightRow \<le> 1 \<and> go_abs_diff leftColumn rightColumn \<le> 1)
       (key_positions (unicode_ToLower right)))
     (key_positions (unicode_ToLower left))"

definition kb_substitution :: "rune \<Rightarrow> rune \<Rightarrow> nat" where
  "kb_substitution left right = (if left = right then 0 else if keyboardAdjacent left right then 1 else 2)"

definition kb_entry :: "rune list \<Rightarrow> rune list \<Rightarrow> nat list \<Rightarrow> nat list \<Rightarrow> nat \<Rightarrow> nat \<Rightarrow> nat" where
  "kb_entry a b previous current i j =
     go_min [current ! j + 2, previous ! (j + 1) + 2, previous ! j + kb_substitution (a ! i) (b ! j)]"

definition keyboardAdjacencyDistance :: "string \<Rightarrow> string \<Rightarrow> nat" where
  "keyboardAdjacencyDistance s t =
     (let a = runes (strings_ToLower s); b = runes (strings_ToLower t); m = length b in
      foldl (\<lambda>previous i. fill_row (\<lambda>current. kb_entry a b previous current i) ((i + 1) * 2) m)
        (map (\<lambda>index. index * 2) [0..<m + 1]) [0..<length a] ! m)"

record rankedCandidate =
  rc_value :: string
  rc_editDistance :: nat
  rc_keyboardDistance :: nat

definition ranked :: "string \<Rightarrow> string \<Rightarrow> rankedCandidate" where
  "ranked v candidate = \<lparr>rc_value = candidate, rc_editDistance = damerauLevenshtein v candidate,
     rc_keyboardDistance = keyboardAdjacencyDistance v candidate\<rparr>"

definition rank_key :: "rankedCandidate \<Rightarrow> nat \<times> nat \<times> string" where
  "rank_key c = (rc_editDistance c, rc_keyboardDistance c, rc_value c)"

definition rankCandidates :: "string \<Rightarrow> string list \<Rightarrow> rankedCandidate list" where
  "rankCandidates v candidates = sort_key rank_key (map (ranked v) (dedup candidates))"

definition nearest :: "string \<Rightarrow> string list \<Rightarrow> string \<times> nat" where
  "nearest v candidates =
     (case rankCandidates v candidates of
        [] \<Rightarrow> ([], 0)
      | c # _ \<Rightarrow> (rc_value c, rc_editDistance c))"

definition maxDistance :: "string \<Rightarrow> nat" where
  "maxDistance v = (if length (runes v) \<le> 4 then 1 else if length (runes v) \<le> 8 then 2 else 3)"

definition confidence_of :: "nat \<Rightarrow> nat \<Rightarrow> rat" where
  "confidence_of d n = fl64 (1 - fl64 (of_nat d / of_nat n))"

text \<open>
  Where both strings are empty the code divides 0 by 0 and gets a NaN; \<open>confidence\<close> is only
  called with a nonempty second string.
\<close>

definition confidence :: "string \<Rightarrow> string \<Rightarrow> rat" where
  "confidence a b = confidence_of (damerauLevenshtein a b) (max (length (runes a)) (length (runes b)))"

definition isKnownRepairClass :: "string \<Rightarrow> bool" where
  "isKnownRepairClass class \<longleftrightarrow> class = ''command'' \<or> class = ''semantic'' \<or> class = ''path''"

definition confidenceThreshold :: "string \<Rightarrow> rat" where
  "confidenceThreshold class =
     (if class = ''command'' then fl64 (12 / 20)
      else if class = ''semantic'' then fl64 (15 / 20)
      else if class = ''path'' then fl64 (18 / 20)
      else 1)"

definition meetsConfidenceThreshold :: "string \<Rightarrow> rat \<Rightarrow> bool" where
  "meetsConfidenceThreshold class v \<longleftrightarrow> isKnownRepairClass class \<and> confidenceThreshold class \<le> v"

record Evidence =
  ev_Kind :: string
  ev_Value :: string

definition collectEvidence :: "string \<Rightarrow> string \<Rightarrow> int \<Rightarrow> rat \<Rightarrow> Evidence list" where
  "collectEvidence class resolver distance v =
     (if resolver = [] \<or> distance < 0 \<or> \<not> meetsConfidenceThreshold class v then []
      else [\<lparr>ev_Kind = ''resolver'', ev_Value = resolver\<rparr>,
            \<lparr>ev_Kind = ''edit_distance'', ev_Value = itoa distance\<rparr>,
            \<lparr>ev_Kind = ''confidence_threshold'', ev_Value = format_f2 (confidenceThreshold class)\<rparr>])"

subsection \<open>Specification: the least cost of a list of edits\<close>

datatype edit_op = Keep rune | Subst rune rune | Delete rune | Insert rune | Swap rune rune

fun op_source :: "edit_op \<Rightarrow> rune list" where
  "op_source (Keep x) = [x]"
| "op_source (Subst x y) = [x]"
| "op_source (Delete x) = [x]"
| "op_source (Insert y) = []"
| "op_source (Swap x y) = [x, y]"

fun op_target :: "edit_op \<Rightarrow> rune list" where
  "op_target (Keep x) = [x]"
| "op_target (Subst x y) = [y]"
| "op_target (Delete x) = []"
| "op_target (Insert y) = [y]"
| "op_target (Swap x y) = [y, x]"

definition edits_from :: "edit_op list \<Rightarrow> rune list" where
  "edits_from ops = concat (map op_source ops)"

definition edits_to :: "edit_op list \<Rightarrow> rune list" where
  "edits_to ops = concat (map op_target ops)"

text \<open>Unit costs: every edit but \<open>Keep\<close> costs one.\<close>

fun unit_cost :: "edit_op \<Rightarrow> nat" where
  "unit_cost (Keep x) = 0"
| "unit_cost _ = 1"

definition edits_cost :: "(edit_op \<Rightarrow> nat) \<Rightarrow> edit_op list \<Rightarrow> nat" where
  "edits_cost c ops = sum_list (map c ops)"

text \<open>
  The recursion behind both tables, on reversed prefixes: \<open>w\<close> is the cost of an insertion or
  a deletion, \<open>sc\<close> of a substitution, \<open>sw\<close> of swapping two neighbours if that is allowed.
\<close>

fun gdist :: "nat \<Rightarrow> (rune \<Rightarrow> rune \<Rightarrow> nat) \<Rightarrow> nat option \<Rightarrow> rune list \<Rightarrow> rune list \<Rightarrow> nat" where
  "gdist w sc sw [] ys = w * length ys"
| "gdist w sc sw (x # xs) [] = w * length (x # xs)"
| "gdist w sc sw (x # xs) (y # ys) =
     (let best = min (gdist w sc sw (x # xs) ys + w) (min (gdist w sc sw xs (y # ys) + w) (gdist w sc sw xs ys + sc x y))
      in case sw of None \<Rightarrow> best
         | Some c \<Rightarrow> (case xs of [] \<Rightarrow> best | x' # xs' \<Rightarrow> (case ys of [] \<Rightarrow> best | y' # ys' \<Rightarrow>
               if x = y' \<and> x' = y then min best (gdist w sc sw xs' ys' + c) else best)))"

declare gdist.simps [simp del]

lemma gdist_Nil1 [simp]: "gdist w sc sw [] ys = w * length ys"
  by (simp add: gdist.simps)

lemma go_min_two [simp]: "go_min [a, b] = min a b" by simp
lemma go_min_three [simp]: "go_min [a, b, c] = min a (min b c)" by simp

declare go_min.simps(2) [simp del]

subsection \<open>Filling a table row by row\<close>

locale table_rows =
  fixes cell :: "nat \<Rightarrow> nat \<Rightarrow> nat" and n m :: nat
    and entry :: "nat \<Rightarrow> nat list \<Rightarrow> nat list \<Rightarrow> nat list \<Rightarrow> nat \<Rightarrow> nat"
    and first :: "nat \<Rightarrow> nat"
  assumes first_cell: "i < n \<Longrightarrow> cell (Suc i) 0 = first i"
    and entry_cell: "i < n \<Longrightarrow> j < m \<Longrightarrow> (0 < i \<Longrightarrow> pp = map (cell (i - 1)) [0..<Suc m]) \<Longrightarrow>
      entry i pp (map (cell i) [0..<Suc m]) (map (cell (Suc i)) [0..<Suc j]) j = cell (Suc i) (Suc j)"
begin

definition row :: "nat \<Rightarrow> nat list" where
  "row i = map (cell i) [0..<Suc m]"

lemma fill_row_row:
  assumes "i < n" and "0 < i \<Longrightarrow> pp = row (i - 1)"
  shows "fill_row (entry i pp (row i)) (first i) m = row (Suc i)"
proof -
  have "k \<le> m \<Longrightarrow> foldl (\<lambda>current j. current @ [entry i pp (row i) current j]) [first i] [0..<k]
      = map (cell (Suc i)) [0..<Suc k]" for k
    using assms first_cell entry_cell [of i _ pp]
    by (induction k) (auto simp: row_def)
  then show ?thesis by (simp add: fill_row_def row_def)
qed

lemma fill_with_two_rows:
  "k \<le> n \<Longrightarrow> \<exists>pp. (0 < k \<longrightarrow> pp = row (k - 1)) \<and>
     foldl (\<lambda>(pp, p) i. (p, fill_row (entry i pp p) (first i) m)) (pp0, row 0) [0..<k] = (pp, row k)"
proof (induction k)
  case (Suc k)
  then obtain pp where pp: "0 < k \<longrightarrow> pp = row (k - 1)"
    "foldl (\<lambda>(pp, p) i. (p, fill_row (entry i pp p) (first i) m)) (pp0, row 0) [0..<k] = (pp, row k)"
    by auto
  with fill_row_row [of k pp] Suc.prems show ?case by auto
qed simp

lemma fill_with_one_row:
  assumes "\<And>i pp. entry i pp = e i" and "k \<le> n"
  shows "foldl (\<lambda>p i. fill_row (e i p) (first i) m) (row 0) [0..<k] = row k"
  using assms(2)
proof (induction k)
  case (Suc k)
  with fill_row_row [of k "row (k - 1)"] assms(1) show ?case by simp
qed simp

end

abbreviation unit_sub :: "rune \<Rightarrow> rune \<Rightarrow> nat" where
  "unit_sub x y \<equiv> (if x = y then 0 else 1)"

lemma rev_take_Suc: "i < length a \<Longrightarrow> rev (take (Suc i) a) = a ! i # rev (take i a)"
  by (simp add: take_Suc_conv_app_nth)

lemma gdist_Nil2 [simp]: "gdist w sc sw xs [] = w * length xs"
  by (cases xs) (simp_all add: gdist.simps)

lemma case_rev_take:
  "i \<le> length a \<Longrightarrow> (case rev (take i a) of [] \<Rightarrow> z | x # xs \<Rightarrow> f x xs)
     = (if 0 < i then f (a ! (i - 1)) (rev (take (i - 1) a)) else z)"
  by (cases i) (simp_all add: rev_take_Suc)

text \<open>One step of the recursion, in terms of prefixes.\<close>

lemma gdist_prefix_step:
  fixes w sc sw a b
  defines "G \<equiv> \<lambda>i j. gdist w sc sw (rev (take i a)) (rev (take j b))"
  assumes i: "i < length a" and j: "j < length b"
  shows "G (Suc i) (Suc j) =
    (let best = min (G (Suc i) j + w) (min (G i (Suc j) + w) (G i j + sc (a ! i) (b ! j)))
     in case sw of None \<Rightarrow> best
        | Some c \<Rightarrow> if 0 < i \<and> 0 < j \<and> a ! i = b ! (j - 1) \<and> a ! (i - 1) = b ! j
                   then min best (G (i - 1) (j - 1) + c) else best)"
proof -
  have "G (Suc i) (Suc j) = gdist w sc sw (a ! i # rev (take i a)) (b ! j # rev (take j b))"
    using i j by (simp only: G_def rev_take_Suc)
  also have "\<dots> = (let best = min (G (Suc i) j + w) (min (G i (Suc j) + w) (G i j + sc (a ! i) (b ! j)))
     in case sw of None \<Rightarrow> best
        | Some c \<Rightarrow> (case rev (take i a) of [] \<Rightarrow> best | x' # xs' \<Rightarrow>
           (case rev (take j b) of [] \<Rightarrow> best | y' # ys' \<Rightarrow>
             if a ! i = y' \<and> x' = b ! j then min best (gdist w sc sw xs' ys' + c) else best)))"
    using i j by (simp only: gdist.simps(3) G_def rev_take_Suc)
  also have "\<dots> = (let best = min (G (Suc i) j + w) (min (G i (Suc j) + w) (G i j + sc (a ! i) (b ! j)))
     in case sw of None \<Rightarrow> best
        | Some c \<Rightarrow> (if 0 < i then (if 0 < j then
             (if a ! i = b ! (j - 1) \<and> a ! (i - 1) = b ! j then min best (G (i - 1) (j - 1) + c) else best)
           else best) else best))"
    by (simp only: case_rev_take [OF less_imp_le [OF i]] case_rev_take [OF less_imp_le [OF j]] G_def)
  also have "\<dots> = (let best = min (G (Suc i) j + w) (min (G i (Suc j) + w) (G i j + sc (a ! i) (b ! j)))
     in case sw of None \<Rightarrow> best
        | Some c \<Rightarrow> if 0 < i \<and> 0 < j \<and> a ! i = b ! (j - 1) \<and> a ! (i - 1) = b ! j
                   then min best (G (i - 1) (j - 1) + c) else best)"
    by (cases "0 < i"; cases "0 < j") (simp_all only: simp_thms if_True if_False)
  finally show ?thesis .
qed

lemma nth_map_upt_Suc: "l \<le> k \<Longrightarrow> map f [0..<Suc k] ! l = f l"
  by (simp del: upt_Suc)

interpretation dl: table_rows
  "\<lambda>i j. gdist 1 unit_sub (Some 1) (rev (take i a)) (rev (take j b))" "length a" "length b"
  "\<lambda>i pp p cur j. dl_entry a b pp p cur i j" "\<lambda>i. i + 1" for a b
proof unfold_locales
  fix i j pp
  let ?c = "\<lambda>i j. gdist 1 unit_sub (Some 1) (rev (take i a)) (rev (take j b))"
  assume i: "i < length a" and j: "j < length b"
    and pp: "0 < i \<Longrightarrow> pp = map (?c (i - 1)) [0..<Suc (length b)]"
  have pp': "pp ! (j - 1) = ?c (i - 1) (j - 1)" if "0 < i" "0 < j"
    unfolding pp [OF that(1)] by (rule nth_map_upt_Suc) (use j in linarith)
  have cur: "map (?c (Suc i)) [0..<Suc j] ! j = ?c (Suc i) j"
    and p: "map (?c i) [0..<Suc (length b)] ! j = ?c i j"
    and p1: "map (?c i) [0..<Suc (length b)] ! (j + 1) = ?c i (Suc j)"
    using j by (simp_all add: nth_map_upt_Suc del: upt_Suc map_map)
  have cost: "(if a ! i \<noteq> b ! j then 1 else 0) = unit_sub (a ! i) (b ! j)" by simp
  show "dl_entry a b pp (map (?c i) [0..<Suc (length b)]) (map (?c (Suc i)) [0..<Suc j]) i j = ?c (Suc i) (Suc j)"
    unfolding gdist_prefix_step [OF i j] dl_entry_def Let_def cur p p1 cost go_min_three go_min_two option.case
    by (rule if_cong) (simp_all only: pp' simp_thms)
qed simp

interpretation kb: table_rows
  "\<lambda>i j. gdist 2 kb_substitution None (rev (take i a)) (rev (take j b))" "length a" "length b"
  "\<lambda>i pp p cur j. kb_entry a b p cur i j" "\<lambda>i. (i + 1) * 2" for a b
proof unfold_locales
  fix i j pp
  let ?c = "\<lambda>i j. gdist 2 kb_substitution None (rev (take i a)) (rev (take j b))"
  assume "i < length a" and "j < length b"
  then show "kb_entry a b (map (?c i) [0..<Suc (length b)]) (map (?c (Suc i)) [0..<Suc j]) i j = ?c (Suc i) (Suc j)"
    by (subst gdist_prefix_step) (auto simp: kb_entry_def Let_def simp del: upt_Suc)
qed simp

text \<open>The table algorithms compute the recursion.\<close>

lemma damerauLevenshtein_gdist:
  "damerauLevenshtein s t = gdist 1 unit_sub (Some 1) (rev (runes s)) (rev (runes t))"
proof -
  let ?a = "runes s" and ?b = "runes t"
  have "dl.row ?a ?b 0 = [0..<Suc (length ?b)]"
    unfolding dl.row_def by (rule nth_equalityI) (auto simp del: upt_Suc)
  moreover obtain pp where
    "foldl (\<lambda>(pp, p) i. (p, fill_row (\<lambda>cur. dl_entry ?a ?b pp p cur i) (i + 1) (length ?b)))
       (replicate (length ?b + 1) 0, dl.row ?a ?b 0) [0..<length ?a] = (pp, dl.row ?a ?b (length ?a))"
    using dl.fill_with_two_rows [of "length ?a" ?a ?b "replicate (length ?b + 1) 0"] by blast
  ultimately have "damerauLevenshtein s t = dl.row ?a ?b (length ?a) ! length ?b"
    by (simp add: damerauLevenshtein_def Let_def del: upt_Suc)
  then show ?thesis unfolding dl.row_def by (simp del: upt_Suc)
qed

lemma keyboardAdjacencyDistance_gdist:
  "keyboardAdjacencyDistance s t =
     gdist 2 kb_substitution None (rev (runes (strings_ToLower s))) (rev (runes (strings_ToLower t)))"
proof -
  let ?a = "runes (strings_ToLower s)" and ?b = "runes (strings_ToLower t)"
  have "kb.row ?a ?b 0 = map (\<lambda>index. index * 2) [0..<length ?b + 1]"
    unfolding kb.row_def by (rule nth_equalityI) (auto simp del: upt_Suc)
  moreover have
    "foldl (\<lambda>p i. fill_row (\<lambda>cur. kb_entry ?a ?b p cur i) ((i + 1) * 2) (length ?b))
       (kb.row ?a ?b 0) [0..<length ?a] = kb.row ?a ?b (length ?a)"
    using kb.fill_with_one_row [of ?a ?b "\<lambda>i p cur j. kb_entry ?a ?b p cur i j" "length ?a"] by blast
  ultimately have "keyboardAdjacencyDistance s t = kb.row ?a ?b (length ?a) ! length ?b"
    by (simp add: keyboardAdjacencyDistance_def Let_def del: upt_Suc)
  then show ?thesis unfolding kb.row_def by (simp del: upt_Suc)
qed

subsection \<open>The distances are least costs\<close>

lemma gdist_le_best:
  "gdist w sc sw (x # xs) (y # ys)
     \<le> min (gdist w sc sw (x # xs) ys + w) (min (gdist w sc sw xs (y # ys) + w) (gdist w sc sw xs ys + sc x y))"
  by (subst gdist.simps(3), unfold Let_def)
     (simp only: min.cobounded1 order_refl simp_thms split: option.split list.split if_split)

lemma gdist_cases:
  obtains "gdist w sc sw (x # xs) (y # ys) = gdist w sc sw (x # xs) ys + w"
  | "gdist w sc sw (x # xs) (y # ys) = gdist w sc sw xs (y # ys) + w"
  | "gdist w sc sw (x # xs) (y # ys) = gdist w sc sw xs ys + sc x y"
  | xs' ys' k where "sw = Some k" "xs = y # xs'" "ys = x # ys'"
      "gdist w sc sw (x # xs) (y # ys) = gdist w sc sw xs' ys' + k"
  using gdist.simps(3) [of w sc sw x xs y ys]
  by (auto simp: Let_def min_def split: option.splits list.splits if_splits)

locale edit_costs =
  fixes c :: "edit_op \<Rightarrow> nat" and allowed :: "edit_op \<Rightarrow> bool" and w :: nat
    and sc :: "rune \<Rightarrow> rune \<Rightarrow> nat" and sw :: "nat option"
  assumes keep: "c (Keep x) = 0" "sc x x = 0"
    and indel: "c (Insert x) = w" "c (Delete x) = w"
    and subst: "sc x y \<le> c (Subst x y)" "x \<noteq> y \<Longrightarrow> c (Subst x y) = sc x y"
    and plain: "allowed (Keep x)" "allowed (Insert x)" "allowed (Delete x)" "allowed (Subst x y)"
    and swap: "allowed (Swap x y) \<longleftrightarrow> sw = Some (c (Swap x y))" "sw = Some k \<Longrightarrow> c (Swap x y) = k"
begin

definition edits :: "rune list \<Rightarrow> rune list \<Rightarrow> edit_op list set" where
  "edits a b = {ops. edits_from ops = a \<and> edits_to ops = b \<and> list_all allowed ops}"

lemma gdist_insert: "gdist w sc sw xs (y # ys) \<le> gdist w sc sw xs ys + w"
  using gdist_le_best [of w sc sw] by (cases xs) auto

lemma gdist_delete: "gdist w sc sw (x # xs) ys \<le> gdist w sc sw xs ys + w"
  using gdist_le_best [of w sc sw x xs] by (cases ys) auto

lemma gdist_subst: "gdist w sc sw (x # xs) (y # ys) \<le> gdist w sc sw xs ys + sc x y"
  using gdist_le_best [of w sc sw x xs y ys] by auto

lemma gdist_swap: "sw = Some k \<Longrightarrow> gdist w sc sw (y # x # xs) (x # y # ys) \<le> gdist w sc sw xs ys + k"
  by (subst gdist.simps(3)) (simp add: Let_def)

lemma gdist_below:
  "list_all allowed ops \<Longrightarrow> gdist w sc sw (rev (edits_from ops)) (rev (edits_to ops)) \<le> edits_cost c ops"
proof (induction ops rule: rev_induct)
  case (snoc e ops)
  let ?xs = "rev (edits_from ops)" and ?ys = "rev (edits_to ops)"
  have "gdist w sc sw (rev (op_source e) @ ?xs) (rev (op_target e) @ ?ys) \<le> gdist w sc sw ?xs ?ys + c e"
  proof (cases e)
    case (Keep x) with gdist_subst [of x ?xs x ?ys] show ?thesis by (simp add: keep)
  next
    case (Subst x y) with gdist_subst [of x ?xs y ?ys] subst(1) [of x y] show ?thesis by simp
  next
    case (Delete x) with gdist_delete [of x ?xs ?ys] show ?thesis by (simp add: indel)
  next
    case (Insert y) with gdist_insert [of ?xs y ?ys] show ?thesis by (simp add: indel)
  next
    case (Swap x y)
    with snoc.prems have "sw = Some (c e)" by (simp add: swap(1))
    with Swap gdist_swap [of "c e" y x ?xs ?ys] show ?thesis by simp
  qed
  moreover have "gdist w sc sw ?xs ?ys \<le> edits_cost c ops" using snoc by simp
  ultimately show ?case by (simp add: edits_from_def edits_to_def edits_cost_def)
qed (simp add: edits_from_def edits_to_def edits_cost_def)

lemma edits_snoc:
  "ops \<in> edits (rev xs) (rev ys) \<Longrightarrow> allowed e \<Longrightarrow>
   ops @ [e] \<in> edits (rev xs @ op_source e) (rev ys @ op_target e)"
  by (simp add: edits_def edits_from_def edits_to_def)

lemma cost_snoc: "edits_cost c (ops @ [e]) = edits_cost c ops + c e"
  by (simp add: edits_cost_def)

lemma edits_inserts: "map Insert ys \<in> edits [] ys" and edits_deletes: "map Delete xs \<in> edits xs []"
proof -
  have "edits_from (map Insert ys) = [] \<and> edits_to (map Insert ys) = ys"
    by (induction ys) (simp_all add: edits_from_def edits_to_def)
  moreover have "edits_from (map Delete xs) = xs \<and> edits_to (map Delete xs) = []"
    by (induction xs) (simp_all add: edits_from_def edits_to_def)
  ultimately show "map Insert ys \<in> edits [] ys" "map Delete xs \<in> edits xs []"
    by (simp_all add: edits_def list_all_iff plain)
qed

lemma cost_indels: "edits_cost c (map Insert ys) = w * length ys" "edits_cost c (map Delete xs) = w * length xs"
  by (induction ys, simp_all add: edits_cost_def indel) (induction xs, simp_all add: indel)

lemma gdist_attained: "\<exists>ops \<in> edits (rev xs) (rev ys). edits_cost c ops = gdist w sc sw xs ys"
proof (induction "length xs + length ys" arbitrary: xs ys rule: less_induct)
  case less
  have step: ?case
    if "length xs' + length ys' < length xs + length ys" "allowed e"
      "gdist w sc sw xs ys = gdist w sc sw xs' ys' + c e"
      "rev xs = rev xs' @ op_source e" "rev ys = rev ys' @ op_target e" for xs' ys' e
    using less [OF that(1)] edits_snoc [of _ xs' ys' e] that(2-) cost_snoc by metis
  consider "xs = []" | "ys = []" | x xs1 y ys1 where "xs = x # xs1" "ys = y # ys1"
    by (cases xs; cases ys) auto
  then show ?case
  proof cases
    case 1 with edits_inserts [of "rev ys"] cost_indels(1) [of "rev ys"] show ?thesis by force
  next
    case 2 with edits_deletes [of "rev xs"] cost_indels(2) [of "rev xs"] show ?thesis by force
  next
    case (3 x xs1 y ys1)
    note xs = 3(1) and ys = 3(2)
    show ?thesis
    proof (cases rule: gdist_cases [of w sc sw x xs1 y ys1])
      case 1 with xs ys show ?thesis by (intro step [of xs ys1 "Insert y"]) (simp_all add: plain indel)
    next
      case 2 with xs ys show ?thesis by (intro step [of xs1 ys "Delete x"]) (simp_all add: plain indel)
    next
      case 3 with xs ys show ?thesis
        by (intro step [of xs1 ys1 "if x = y then Keep x else Subst x y"]) (simp_all add: plain keep subst(2))
    next
      case (4 xs' ys' k) with xs ys show ?thesis
        by (intro step [of xs' ys' "Swap y x"]) (simp_all add: swap(1) swap(2) [OF 4(1)])
    qed
  qed
qed

lemma gdist_sym_le:
  assumes sym: "\<And>x y. sc x y = sc y x"
  shows "gdist w sc sw ys xs \<le> gdist w sc sw xs ys"
proof (induction "length xs + length ys" arbitrary: xs ys rule: less_induct)
  case less
  consider "xs = []" | "ys = []" | x xs1 y ys1 where "xs = x # xs1" "ys = y # ys1"
    by (cases xs; cases ys) auto
  then show ?case
  proof cases
    case (3 x xs1 y ys1)
    note xs = 3(1) and ys = 3(2)
    show ?thesis
    proof (cases rule: gdist_cases [of w sc sw x xs1 y ys1])
      case 1 with xs ys less [of xs ys1] gdist_delete [of y ys1 xs] show ?thesis by simp
    next
      case 2 with xs ys less [of xs1 ys] gdist_insert [of ys x xs1] show ?thesis by simp
    next
      case 3 with xs ys less [of xs1 ys1] gdist_subst [of y ys1 x xs1] sym [of x y] show ?thesis by simp
    next
      case (4 xs' ys' k) with xs ys less [of xs' ys'] gdist_swap [of k y x ys' xs'] show ?thesis by simp
    qed
  qed simp_all
qed

lemma gdist_least:
  "gdist w sc sw (rev a) (rev b) = (LEAST n. \<exists>ops \<in> edits a b. edits_cost c ops = n)"
proof (rule Least_equality [symmetric])
  show "\<exists>ops \<in> edits a b. edits_cost c ops = gdist w sc sw (rev a) (rev b)"
    using gdist_attained [of "rev a" "rev b"] by simp
qed (use gdist_below in \<open>auto simp: edits_def\<close>)

end


interpretation unit: edit_costs unit_cost "\<lambda>_. True" 1 unit_sub "Some 1"
  by unfold_locales auto

text \<open>The keyboard distance has no swaps; a substitution of neighbouring keys costs one, every other two.\<close>

fun key_cost :: "edit_op \<Rightarrow> nat" where
  "key_cost (Keep x) = 0"
| "key_cost (Subst x y) = (if keyboardAdjacent x y then 1 else 2)"
| "key_cost _ = 2"

fun no_swap :: "edit_op \<Rightarrow> bool" where
  "no_swap (Swap x y) = False"
| "no_swap _ = True"

interpretation key: edit_costs key_cost no_swap 2 kb_substitution None
  by unfold_locales (auto simp: kb_substitution_def)

subsection \<open>Properties of the distances\<close>


text \<open>
  \<open>keyboardAdjacencyDistance\<close> is the least cost of insertions, deletions (two
  each) and substitutions (one for neighbouring keys, two otherwise) between the lower-cased
  strings.
\<close>

lemma keyboardAdjacencyDistance_least:
  "keyboardAdjacencyDistance s t =
     (LEAST n. \<exists>ops. edits_from ops = runes (strings_ToLower s) \<and> edits_to ops = runes (strings_ToLower t) \<and>
        list_all no_swap ops \<and> edits_cost key_cost ops = n)"
  unfolding keyboardAdjacencyDistance_gdist key.gdist_least by (simp add: key.edits_def Bex_def conj_ac)

text \<open>Bounds of the unit-cost distance.\<close>

lemma unit_gdist_le_max: "gdist 1 unit_sub (Some 1) xs ys \<le> max (length xs) (length ys)"
proof (induction xs arbitrary: ys)
  case (Cons x xs)
  then show ?case
  proof (cases ys)
    case (Cons y ys')
    with Cons.IH [of ys'] unit.gdist_subst [of x xs y ys'] show ?thesis by (auto split: if_splits)
  qed simp
qed simp

lemma edits_length_bounds:
  "length (edits_from ops) \<le> length (edits_to ops) + edits_cost unit_cost ops \<and>
   length (edits_to ops) \<le> length (edits_from ops) + edits_cost unit_cost ops"
proof (induction ops)
  case (Cons e ops)
  then show ?case by (cases e) (auto simp: edits_from_def edits_to_def edits_cost_def)
qed (simp add: edits_from_def edits_to_def edits_cost_def)

lemma edits_cost_0: "edits_cost unit_cost ops = 0 \<Longrightarrow> edits_from ops = edits_to ops"
proof (induction ops)
  case (Cons e ops)
  then show ?case by (cases e) (auto simp: edits_from_def edits_to_def edits_cost_def)
qed (simp add: edits_from_def edits_to_def)

lemma damerauLevenshtein_attained:
  obtains ops where "edits_from ops = runes s" "edits_to ops = runes t"
    "edits_cost unit_cost ops = damerauLevenshtein s t"
  using unit.gdist_attained [of "rev (runes s)" "rev (runes t)"]
  by (auto simp: unit.edits_def damerauLevenshtein_gdist)

lemma damerauLevenshtein_le_max:
  "damerauLevenshtein s t \<le> max (length (runes s)) (length (runes t))"
  using unit_gdist_le_max [of "rev (runes s)" "rev (runes t)"] by (simp add: damerauLevenshtein_gdist)

lemma damerauLevenshtein_refl: "runes s = runes t \<Longrightarrow> damerauLevenshtein s t = 0"
proof -
  assume st: "runes s = runes t"
  have "edits_from (map Keep xs) = xs \<and> edits_to (map Keep xs) = xs \<and> edits_cost unit_cost (map Keep xs) = 0" for xs
    by (induction xs) (simp_all add: edits_from_def edits_to_def edits_cost_def)
  with unit.gdist_below [of "map Keep (runes t)"] st show ?thesis
    by (simp add: damerauLevenshtein_gdist list_all_iff)
qed

text \<open>
  The edit distance is symmetric, is 0 exactly for strings with the same runes,
  is at most the longer and at least the difference of the lengths.
\<close>

lemma damerauLevenshtein_bounds:
  "damerauLevenshtein s t = damerauLevenshtein t s \<and>
   (damerauLevenshtein s t = 0 \<longleftrightarrow> runes s = runes t) \<and>
   damerauLevenshtein s t \<le> max (length (runes s)) (length (runes t)) \<and>
   length (runes s) \<le> length (runes t) + damerauLevenshtein s t"
proof -
  have "damerauLevenshtein s t = damerauLevenshtein t s"
    unfolding damerauLevenshtein_gdist by (intro antisym unit.gdist_sym_le) auto
  moreover obtain ops where ops: "edits_from ops = runes s" "edits_to ops = runes t"
    "edits_cost unit_cost ops = damerauLevenshtein s t" by (rule damerauLevenshtein_attained)
  have "damerauLevenshtein s t = 0 \<longleftrightarrow> runes s = runes t"
    using edits_cost_0 [of ops] ops damerauLevenshtein_refl by auto
  moreover have "length (runes s) \<le> length (runes t) + damerauLevenshtein s t"
    using edits_length_bounds [of ops] ops by simp
  ultimately show ?thesis using damerauLevenshtein_le_max by blast
qed

subsection \<open>Properties of the ranking\<close>

lemma rank_key_ranked: "rank_key (ranked v c) = (damerauLevenshtein v c, keyboardAdjacencyDistance v c, c)"
  by (simp add: rank_key_def ranked_def)

lemma inj_rank_key: "inj rank_key"
  by (rule injI) (simp add: rank_key_def)

lemma set_rankCandidates: "set (rankCandidates v cs) = ranked v ` set cs"
  by (simp add: rankCandidates_def set_dedup)

lemma nearest_hd:
  "cs \<noteq> [] \<Longrightarrow> \<exists>r rs. rankCandidates v cs = r # rs \<and> nearest v cs = (rc_value r, rc_editDistance r) \<and>
     (\<forall>c \<in> set cs. rank_key r \<le> rank_key (ranked v c))"
proof -
  assume "cs \<noteq> []"
  then have "rankCandidates v cs \<noteq> []" using set_rankCandidates [of v cs] by force
  then obtain r rs where r: "rankCandidates v cs = r # rs" by (cases "rankCandidates v cs") auto
  have "sorted (map rank_key (r # rs))" unfolding r [symmetric] by (simp add: rankCandidates_def)
  moreover have "ranked v c \<in> set (r # rs)" if "c \<in> set cs" for c
    using that unfolding r [symmetric] set_rankCandidates by blast
  ultimately have "\<forall>c \<in> set cs. rank_key r \<le> rank_key (ranked v c)" by auto
  then show ?thesis using r by (simp add: nearest_def)
qed

text \<open>
  Property C30: \<open>nearest\<close> returns one of the candidates, with its edit distance, and no
  candidate is better: by edit distance, then keyboard distance, then the string itself.
\<close>

theorem nearest_best:
  assumes "candidates \<noteq> []" and "nearest v candidates = (best, distance)"
  shows "best \<in> set candidates \<and> distance = damerauLevenshtein v best \<and>
    (\<forall>c \<in> set candidates. (distance, keyboardAdjacencyDistance v best, best)
       \<le> (damerauLevenshtein v c, keyboardAdjacencyDistance v c, c))"
proof -
  obtain r rs where r: "rankCandidates v candidates = r # rs"
    "nearest v candidates = (rc_value r, rc_editDistance r)"
    "\<forall>c \<in> set candidates. rank_key r \<le> rank_key (ranked v c)"
    using nearest_hd [OF assms(1)] by blast
  have "r \<in> ranked v ` set candidates" unfolding set_rankCandidates [symmetric] r(1) by simp
  then obtain c where c: "c \<in> set candidates" "r = ranked v c" by blast
  have best: "best = c" and distance: "distance = damerauLevenshtein v c"
    using r(2) assms(2) by (simp_all add: c(2) ranked_def)
  show ?thesis using r(3) c(1) unfolding best distance c(2) rank_key_ranked by blast
qed

theorem nearest_best_witness:
  "nearest ''gti'' [''go'', ''git''] = (''git'', 1) \<and> ''git'' \<in> set [''go'', ''git'']"
proof -
  have n: "nearest ''gti'' [''go'', ''git''] = (''git'', 1)" by code_simp
  with nearest_best [OF _ n] show ?thesis by blast
qed

text \<open>
  The answer of \<open>nearest\<close> depends only on the set of candidates, not on their
  order or repetitions; directory order and map iteration order cannot change a suggestion.
\<close>

lemma nearest_order_independent:
  assumes "set candidates = set candidates'"
  shows "nearest v candidates = nearest v candidates'"
proof -
  have m: "mset (dedup candidates) = mset (dedup candidates')"
    using assms by (simp add: set_eq_iff_mset_eq_distinct [symmetric])
  have "rankCandidates v candidates = rankCandidates v candidates'"
    unfolding rankCandidates_def
    by (rule sort_key_inj_key_eq) (simp_all add: m inj_on_subset [OF inj_rank_key])
  then show ?thesis by (simp add: nearest_def)
qed

subsection \<open>Confidence\<close>

lemma confidence_bounds:
  assumes "runes a \<noteq> [] \<or> runes b \<noteq> []"
  shows "0 \<le> confidence a b" and "confidence a b \<le> 1"
proof -
  let ?n = "max (length (runes a)) (length (runes b))" and ?d = "damerauLevenshtein a b"
  have n: "0 < ?n" using assms by (cases "runes a"; cases "runes b") auto
  have "(of_nat ?d :: rat) \<le> of_nat ?n" using damerauLevenshtein_le_max [of a b] of_nat_mono by blast
  then have q: "(of_nat ?d / of_nat ?n :: rat) \<le> 1" using n by (auto simp: field_simps)
  then show "0 \<le> confidence a b"
    unfolding confidence_def confidence_of_def by (intro fl64_nonneg) (simp add: fl64_le_one)
  show "confidence a b \<le> 1"
    unfolding confidence_def confidence_of_def by (intro fl64_le_one) (simp add: fl64_nonneg)
qed

lemma twentieths_le:
  fixes d n t :: int
  assumes "0 < n"
  shows "(of_int t / 20 :: rat) \<le> 1 - of_int d / of_int n \<longleftrightarrow> 20 * d \<le> (20 - t) * n"
proof -
  have "(of_int t / 20 :: rat) \<le> 1 - of_int d / of_int n \<longleftrightarrow>
      (20 * of_int d :: rat) \<le> (20 - of_int t) * of_int n"
    using assms by (simp add: field_simps)
  also have "\<dots> \<longleftrightarrow> (of_int (20 * d) :: rat) \<le> of_int ((20 - t) * n)" by simp
  finally show ?thesis by (simp only: of_int_le_iff)
qed

definition class_twentieths :: "string \<Rightarrow> int" where
  "class_twentieths class = (if class = ''command'' then 12 else if class = ''semantic'' then 15 else 18)"

text \<open>
  The float comparison behind \<open>meetsConfidenceThreshold\<close> is exact: for strings of
  at most 2\<open>\<^sup>2\<^sup>0\<close> runes a repair of class command or path meets its threshold exactly if
  the edit distance is at most 40 or 10 per cent of the longer length, rounding notwithstanding.
\<close>

lemma confidence_threshold_exact:
  assumes "class = ''command'' \<or> class = ''semantic'' \<or> class = ''path''"
    and "runes b \<noteq> []" and "max (length (runes a)) (length (runes b)) \<le> 1048576"
  shows "meetsConfidenceThreshold class (confidence a b) \<longleftrightarrow>
    20 * int (damerauLevenshtein a b)
      \<le> (20 - class_twentieths class) * int (max (length (runes a)) (length (runes b)))"
proof -
  let ?n = "max (length (runes a)) (length (runes b))" and ?d = "damerauLevenshtein a b"
  let ?t = "class_twentieths class"
  have n: "0 < int ?n" using assms(2) by (cases "runes b") auto
  have t: "?t \<in> threshold_twentieths" "confidenceThreshold class = fl64 (of_int ?t / 20)"
    using assms(1) by (auto simp: class_twentieths_def threshold_twentieths_def confidenceThreshold_def)
  have "meetsConfidenceThreshold class (confidence a b) \<longleftrightarrow>
      fl64 (of_int ?t / 20) \<le> fl64 (1 - fl64 (of_int (int ?d) / of_int (int ?n)))"
    using assms(1) t(2) by (simp add: meetsConfidenceThreshold_def isKnownRepairClass_def confidence_def confidence_of_def)
  also have "\<dots> \<longleftrightarrow> (of_int ?t / 20 :: rat) \<le> 1 - of_int (int ?d) / of_int (int ?n)"
    using n assms(3) damerauLevenshtein_le_max [of a b] by (intro threshold_exact t(1)) auto
  also have "\<dots> \<longleftrightarrow> 20 * int ?d \<le> (20 - ?t) * int ?n" by (rule twentieths_le [OF n])
  finally show ?thesis .
qed

end
