(* ===== verification/GoBase64.thy ===== *)
theory GoBase64
  imports GoStrings
begin

section \<open>Base64 without padding (encoding/base64, RawStdEncoding)\<close>

text \<open>
  \<open>EncodeToString\<close> and \<open>DecodeString\<close> of \<open>base64.RawStdEncoding\<close>, and their round trip.
\<close>

text \<open>\<open>base64.RawStdEncoding\<close>: three bytes give four digits, no padding.\<close>

definition base64_digit :: "nat \<Rightarrow> char" where
  "base64_digit n = ''ABCDEFGHIJKLMNOPQRSTUVWXYZabcdefghijklmnopqrstuvwxyz0123456789+/'' ! n"

fun base64_encode :: "string \<Rightarrow> string" where
  "base64_encode [] = []"
| "base64_encode [a] = [base64_digit (byte a div 4), base64_digit (byte a mod 4 * 16)]"
| "base64_encode [a, b] = [base64_digit (byte a div 4), base64_digit (byte a mod 4 * 16 + byte b div 16),
     base64_digit (byte b mod 16 * 4)]"
| "base64_encode (a # b # c # rest) =
     base64_digit (byte a div 4) # base64_digit (byte a mod 4 * 16 + byte b div 16)
     # base64_digit (byte b mod 16 * 4 + byte c div 64) # base64_digit (byte c mod 64) # base64_encode rest"

definition base64_alphabet :: string where
  "base64_alphabet = ''ABCDEFGHIJKLMNOPQRSTUVWXYZabcdefghijklmnopqrstuvwxyz0123456789+/''"

definition base64_value :: "char \<Rightarrow> nat" where
  "base64_value c = length (takeWhile (\<lambda>x. x \<noteq> c) base64_alphabet)"

text \<open>The bytes of a digit string, without the checks.\<close>

fun base64_decode :: "string \<Rightarrow> string" where
  "base64_decode (a # b # c # d # rest) =
     char_of (base64_value a * 4 + base64_value b div 16) # char_of (base64_value b mod 16 * 16 + base64_value c div 4)
     # char_of (base64_value c mod 4 * 64 + base64_value d) # base64_decode rest"
| "base64_decode [a, b, c] = [char_of (base64_value a * 4 + base64_value b div 16),
     char_of (base64_value b mod 16 * 16 + base64_value c div 4)]"
| "base64_decode [a, b] = [char_of (base64_value a * 4 + base64_value b div 16)]"
| "base64_decode _ = []"

lemma base64_alphabet_distinct: "distinct base64_alphabet" "length base64_alphabet = 64"
  by code_simp+

lemma base64_value_digit: "n < 64 \<Longrightarrow> base64_value (base64_digit n) = n"
proof -
  assume n: "n < 64"
  have d: "base64_digit n = base64_alphabet ! n" by (simp add: base64_digit_def base64_alphabet_def)
  have "takeWhile (\<lambda>x. x \<noteq> base64_alphabet ! n) base64_alphabet = take n base64_alphabet"
    using base64_alphabet_distinct n by (intro takeWhile_eq_take_P_nth) (auto simp: nth_eq_iff_index_eq)
  then show ?thesis using base64_alphabet_distinct(2) n by (simp add: base64_value_def d)
qed

lemma base64_digit_in: "n < 64 \<Longrightarrow> base64_digit n \<in> set base64_alphabet"
  using base64_alphabet_distinct(2) by (simp add: base64_digit_def base64_alphabet_def [symmetric])

lemma byte_less: "byte c < 256"
  by (metis mod_less_divisor of_char_mod_256 zero_less_numeral)

lemma base64_pieces:
  fixes a b c :: nat
  assumes "a < 256" "b < 256" "c < 256"
  shows "a div 4 < 64" "a mod 4 * 16 + b div 16 < 64" "b mod 16 * 4 + c div 64 < 64" "c mod 64 < 64"
    "a mod 4 * 16 < 64" "b mod 16 * 4 < 64"
    "a div 4 * 4 + (a mod 4 * 16 + b div 16) div 16 = a"
    "(a mod 4 * 16 + b div 16) mod 16 * 16 + (b mod 16 * 4 + c div 64) div 4 = b"
    "(b mod 16 * 4 + c div 64) mod 4 * 64 + c mod 64 = c"
proof -
  have m: "(x * 16 + y) div 16 = x" "(x * 16 + y) mod 16 = y" if "y < 16" for x y :: nat using that by simp_all
  have n: "(x * 4 + y) div 4 = x" "(x * 4 + y) mod 4 = y" if "y < 4" for x y :: nat using that by simp_all
  have b: "b div 16 < 16" and c: "c div 64 < 4" and a: "a div 4 < 64" using assms by simp_all
  have "a mod 4 < 4" "b mod 16 < 16" by simp_all
  then have mods: "a mod 4 \<le> 3" "b mod 16 \<le> 15" by linarith+
  show "a div 4 < 64" by (rule a)
  show "a mod 4 * 16 + b div 16 < 64" "a mod 4 * 16 < 64" using mods(1) b by linarith+
  show "b mod 16 * 4 + c div 64 < 64" "b mod 16 * 4 < 64" using mods(2) c by linarith+
  show "c mod 64 < 64" by simp
  show "a div 4 * 4 + (a mod 4 * 16 + b div 16) div 16 = a" unfolding m(1) [OF b] by (rule div_mult_mod_eq)
  show "(a mod 4 * 16 + b div 16) mod 16 * 16 + (b mod 16 * 4 + c div 64) div 4 = b"
    unfolding m(2) [OF b] n(1) [OF c] by (rule div_mult_mod_eq)
  show "(b mod 16 * 4 + c div 64) mod 4 * 64 + c mod 64 = c" unfolding n(2) [OF c] by (rule div_mult_mod_eq)
qed

lemma base64_round_trip: "base64_decode (base64_encode s) = s"
proof (induction s rule: base64_encode.induct)
  case (2 a)
  show ?case using base64_pieces [OF byte_less [of a], of 0 0] by (simp add: base64_value_digit)
next
  case (3 a b)
  show ?case using base64_pieces [OF byte_less [of a] byte_less [of b], of 0] by (simp add: base64_value_digit)
next
  case (4 a b c rest)
  then show ?case
    using base64_pieces [OF byte_less [of a] byte_less [of b] byte_less [of c]] by (simp add: base64_value_digit)
qed simp

lemma base64_encode_alphabet: "set (base64_encode s) \<subseteq> set base64_alphabet"
proof (induction s rule: base64_encode.induct)
  case (2 a)
  show ?case using base64_pieces [OF byte_less [of a], of 0 0] by (simp add: base64_digit_in)
next
  case (3 a b)
  show ?case using base64_pieces [OF byte_less [of a] byte_less [of b], of 0] by (simp add: base64_digit_in)
next
  case (4 a b c rest)
  then show ?case
    using base64_pieces [OF byte_less [of a] byte_less [of b] byte_less [of c]] by (simp add: base64_digit_in)
qed simp

text \<open>
  \<open>DecodeString\<close> skips carriage returns and newlines, and fails on other bytes outside the
  alphabet and on a single left-over digit.
\<close>

definition base64_DecodeString :: "string \<Rightarrow> string option" where
  "base64_DecodeString v =
     (case filter (\<lambda>c. c \<noteq> CHR 0x0D \<and> c \<noteq> CHR 0x0A) v of digits \<Rightarrow>
        if list_all (\<lambda>c. c \<in> set base64_alphabet) digits \<and> length digits mod 4 \<noteq> 1
        then Some (base64_decode digits) else None)"

lemma length_base64_encode: "length (base64_encode s) mod 4 \<noteq> 1"
  by (induction s rule: base64_encode.induct) simp_all

lemma base64_DecodeString_encode: "base64_DecodeString (base64_encode s) = Some s"
proof -
  have "CHR 0x0D \<notin> set base64_alphabet" "CHR 0x0A \<notin> set base64_alphabet" by code_simp+
  then have "filter (\<lambda>c. c \<noteq> CHR 0x0D \<and> c \<noteq> CHR 0x0A) (base64_encode s) = base64_encode s"
    using base64_encode_alphabet [of s] by (auto simp: filter_id_conv)
  moreover have "list_all (\<lambda>c. c \<in> set base64_alphabet) (base64_encode s)"
    using base64_encode_alphabet [of s] by (auto simp: list_all_iff)
  ultimately show ?thesis
    using length_base64_encode [of s] by (simp add: base64_DecodeString_def base64_round_trip)
qed

end
