(* ===== verification/Engine.thy ===== *)
theory Engine
  imports Rewriting Risk Config Executables EditDistance GoBase64
begin

section \<open>The diagnosis engine (internal/diagnose/engine.go)\<close>

text \<open>
  The decision record, the three resolvers (command, semantic, path), the mode policy and
  \<open>CheckShellContext\<close>, which composes them. What the code observes of its environment is a
  parameter: the operating system (\<open>os_env\<close>), what \<open>ctx.Err()\<close> returns at its n-th call and
  what the clock returns at its n-th call; the state counts the calls and holds the
  executable cache. The semantic resolver is the interface \<open>SemanticResolver\<close>: a function of
  the words and the number of context observations made so far. A confidence is a rational
  number, so the NaN and infinity tests of \<open>validateProtocol\<close> have no counterpart.
\<close>

subsection \<open>Messages and decisions\<close>

definition MessageCauseCommandNotFound :: MessageKey where
  "MessageCauseCommandNotFound = ''diagnostic.cause.command_not_found''"
definition MessageConsequenceCommandRejects :: MessageKey where
  "MessageConsequenceCommandRejects = ''diagnostic.consequence.command_rejects''"
definition MessageCauseUnknownGitSubcommand :: MessageKey where
  "MessageCauseUnknownGitSubcommand = ''diagnostic.cause.unknown_git_subcommand''"
definition MessageConsequenceGitExits :: MessageKey where
  "MessageConsequenceGitExits = ''diagnostic.consequence.git_exits''"
definition MessageCausePathNotFound :: MessageKey where
  "MessageCausePathNotFound = ''diagnostic.cause.path_not_found''"
definition MessageConsequencePathMayFail :: MessageKey where
  "MessageConsequencePathMayFail = ''diagnostic.consequence.path_may_fail''"

lemmas message_keys = MessageCauseCommandNotFound_def MessageConsequenceCommandRejects_def
  MessageCauseUnknownGitSubcommand_def MessageConsequenceGitExits_def MessageCausePathNotFound_def
  MessageConsequencePathMayFail_def MessageRiskSecret_def MessageRiskPrivilegeEscalation_def
  MessageRiskNetworkEffect_def MessageRiskFilesystemMutation_def MessageRiskRecognizedSafe_def MessageRiskUnknown_def

definition defaultMessages :: "(MessageKey \<times> string) list" where
  "defaultMessages =
     [(MessageCauseCommandNotFound, ''command not found locally''),
      (MessageConsequenceCommandRejects, ''the shell would reject this command''),
      (MessageCauseUnknownGitSubcommand, ''unknown Git subcommand''),
      (MessageConsequenceGitExits, ''Git will exit before performing work''),
      (MessageCausePathNotFound, ''path does not exist''),
      (MessageConsequencePathMayFail, ''the command may fail or target the wrong file''),
      (MessageRiskSecret, ''contains a secret-bearing argument''),
      (MessageRiskPrivilegeEscalation, ''invokes privilege escalation''),
      (MessageRiskNetworkEffect, ''has a network effect''),
      (MessageRiskFilesystemMutation, ''may modify the filesystem''),
      (MessageRiskRecognizedSafe, ''is a recognized read-only command''),
      (MessageRiskUnknown, ''could not establish a safe local classification'')]"

definition DefaultMessage :: "MessageKey \<Rightarrow> string option" where
  "DefaultMessage key = map_of defaultMessages key"

text \<open>\<open>defaultMessages[key]\<close>: the empty string for an unknown key.\<close>

definition message :: "MessageKey \<Rightarrow> string" where
  "message key = (case map_of defaultMessages key of None \<Rightarrow> [] | Some v \<Rightarrow> v)"

definition RepairClassCommand :: string where "RepairClassCommand = ''command''"
definition RepairClassSemantic :: string where "RepairClassSemantic = ''semantic''"
definition RepairClassPath :: string where "RepairClassPath = ''path''"

lemmas class_names = RepairClassCommand_def RepairClassSemantic_def RepairClassPath_def

record consequenceTemplate =
  ct_cause :: MessageKey
  ct_consequence :: MessageKey

definition consequenceFor :: "string \<Rightarrow> consequenceTemplate option" where
  "consequenceFor class = map_of
     [(RepairClassCommand, \<lparr>ct_cause = MessageCauseCommandNotFound, ct_consequence = MessageConsequenceCommandRejects\<rparr>),
      (RepairClassSemantic, \<lparr>ct_cause = MessageCauseUnknownGitSubcommand, ct_consequence = MessageConsequenceGitExits\<rparr>),
      (RepairClassPath, \<lparr>ct_cause = MessageCausePathNotFound, ct_consequence = MessageConsequencePathMayFail\<rparr>)] class"

text \<open>\<open>template, _ := consequenceFor(class)\<close>: the zero template for an unknown class.\<close>

definition template_for :: "string \<Rightarrow> consequenceTemplate" where
  "template_for class = (case consequenceFor class of None \<Rightarrow> \<lparr>ct_cause = [], ct_consequence = []\<rparr> | Some t \<Rightarrow> t)"

record Decision =
  d_Version :: int
  d_Action :: string
  d_RewriteEligible :: bool
  d_Cause :: string
  d_CauseKey :: MessageKey
  d_Consequence :: string
  d_ConsequenceKey :: MessageKey
  d_Suggestion :: string
  d_Class :: string
  d_Evidence :: "Evidence list"
  d_Confidence :: rat
  d_Risk :: Risk
  d_RiskRationale :: string
  d_RiskRationaleKey :: MessageKey
  d_Incomplete :: bool
  d_Trace :: "string list"
  d_original :: string
  d_replacement :: string
  d_occurrence :: int

definition AdapterProtocolVersion :: int where "AdapterProtocolVersion = 1"
definition MaxInputBytes :: int where "MaxInputBytes = 8192"
definition MaxOutputBytes :: int where "MaxOutputBytes = 8192"
definition MaxAnalysisDuration :: int where "MaxAnalysisDuration = 1000000000"

definition ErrInputLimit :: go_error where "ErrInputLimit = Err ''diagnostic input exceeds size limit'' []"
definition ErrOutputLimit :: go_error where "ErrOutputLimit = Err ''diagnostic output exceeds size limit'' []"
definition ErrAnalysisLimit :: go_error where "ErrAnalysisLimit = Err ''diagnostic analysis exceeds time limit'' []"

text \<open>\<open>Decision{}\<close> and \<open>noDecision()\<close>.\<close>

definition zeroDecision :: Decision where
  "zeroDecision = \<lparr>d_Version = 0, d_Action = [], d_RewriteEligible = False, d_Cause = [], d_CauseKey = [],
     d_Consequence = [], d_ConsequenceKey = [], d_Suggestion = [], d_Class = [], d_Evidence = [], d_Confidence = 0,
     d_Risk = [], d_RiskRationale = [], d_RiskRationaleKey = [], d_Incomplete = False, d_Trace = [],
     d_original = [], d_replacement = [], d_occurrence = 0\<rparr>"

definition noDecision :: Decision where
  "noDecision = zeroDecision\<lparr>d_Version := AdapterProtocolVersion, d_Action := ''none'', d_Risk := RiskSafe\<rparr>"

definition validAction :: "string \<Rightarrow> bool" where
  "validAction v \<longleftrightarrow> v = ''none'' \<or> v = ''hint'' \<or> v = ''interrupt'' \<or> v = ''rewrite''"

definition validRisk :: "Risk \<Rightarrow> bool" where
  "validRisk v \<longleftrightarrow> v = RiskSafe \<or> v = RiskUnknown \<or> v = RiskHigh"

definition validateProtocol :: "Decision \<Rightarrow> go_error option" where
  "validateProtocol d =
     (if d_Version d \<noteq> AdapterProtocolVersion then Some (Err ''unsupported protocol version %d'' [itoa (d_Version d)])
      else if \<not> validAction (d_Action d) then Some (Err ''invalid protocol action %q'' [d_Action d])
      else if \<not> validRisk (d_Risk d) then Some (Err ''invalid protocol risk %q'' [d_Risk d])
      else if d_Confidence d < 0 \<or> 1 < d_Confidence d then Some (Err ''invalid protocol confidence %v'' [])
      else None)"

definition encodeRecordText :: "string \<Rightarrow> string" where
  "encodeRecordText v = base64_encode v"

definition record_fields :: "Decision \<Rightarrow> string list" where
  "record_fields d = [itoa (d_Version d), d_Action d, d_Risk d, format_f2 (d_Confidence d),
     encodeRecordText (d_Cause d), encodeRecordText (d_Consequence d), encodeRecordText (d_Suggestion d)]"

definition Record :: "Decision \<Rightarrow> string result" where
  "Record d =
     (case validateProtocol d of
        Some e \<Rightarrow> Inl e
      | None \<Rightarrow>
         (let record = strings_Join (record_fields d) [CHR 0x09] @ [CHR 0x0A] in
          if MaxOutputBytes < int (length record) then Inl ErrOutputLimit else Inr record))"

definition decisionOutputSize :: "Decision \<Rightarrow> int" where
  "decisionOutputSize d =
     int (length (d_Cause d) + length (d_CauseKey d) + length (d_Consequence d) + length (d_ConsequenceKey d)
        + length (d_Suggestion d) + length (d_Class d) + length (d_Risk d) + length (d_RiskRationale d)
        + length (d_RiskRationaleKey d) + 128
        + sum_list (map (\<lambda>e. length (ev_Kind e) + length (ev_Value e)) (d_Evidence d))
        + sum_list (map length (d_Trace d)))"

subsection \<open>Events, inspections and diffs\<close>

record Event =
  e_Version :: int
  e_Stage :: string
  e_Action :: string
  e_RewriteEligible :: bool
  e_Cause :: string
  e_CauseKey :: MessageKey
  e_Consequence :: string
  e_ConsequenceKey :: MessageKey
  e_Suggestion :: string
  e_Class :: string
  e_Evidence :: "Evidence list"
  e_Confidence :: rat
  e_Risk :: Risk
  e_RiskRationale :: string
  e_RiskRationaleKey :: MessageKey
  e_Incomplete :: bool
  e_Trace :: "string list"

definition decision_Event :: "Decision \<Rightarrow> string \<Rightarrow> Event" where
  "decision_Event d stage = \<lparr>e_Version = d_Version d, e_Stage = stage, e_Action = d_Action d,
     e_RewriteEligible = d_RewriteEligible d, e_Cause = d_Cause d, e_CauseKey = d_CauseKey d,
     e_Consequence = d_Consequence d, e_ConsequenceKey = d_ConsequenceKey d, e_Suggestion = d_Suggestion d,
     e_Class = d_Class d, e_Evidence = d_Evidence d, e_Confidence = d_Confidence d, e_Risk = d_Risk d,
     e_RiskRationale = d_RiskRationale d, e_RiskRationaleKey = d_RiskRationaleKey d, e_Incomplete = d_Incomplete d,
     e_Trace = d_Trace d\<rparr>"

definition diff_shown :: "Decision \<Rightarrow> string \<Rightarrow> bool" where
  "diff_shown d line \<longleftrightarrow>
     \<not> (d_Risk d = RiskHigh \<or> d_original d = [] \<or> d_replacement d = [] \<or> d_occurrence d < 1) \<and>
     (case tokenize line of Inl e \<Rightarrow> False | Inr words \<Rightarrow> \<not> snd (redact_Command words))"

definition CommandDiff :: "Decision \<Rightarrow> string \<Rightarrow> string" where
  "CommandDiff d line =
     (if \<not> diff_shown d line then []
      else case replaceTokenOccurrence line (d_original d) (d_replacement d) (d_occurrence d) of
        None \<Rightarrow> []
      | Some corrected \<Rightarrow> ''- '' @ line @ [CHR 0x0A] @ ''+ '' @ corrected)"

definition CommandDiffEmphasis :: "Decision \<Rightarrow> string \<Rightarrow> string" where
  "CommandDiffEmphasis d line =
     (if \<not> diff_shown d line then []
      else case find_occurrence (shellTokenRanges line) (d_original d) (d_occurrence d) 0 of
        None \<Rightarrow> []
      | Some token \<Rightarrow>
         (let raw = slice line (tr_start token) (tr_end token) in
          take (tr_start token) line @ ''[-'' @ raw @ ''-]{+'' @ quotedReplacement raw (d_replacement d) @ ''+}''
            @ drop (tr_end token) line))"

record Inspection =
  i_Event :: Event
  i_Diff :: string
  i_EmphasizedDiff :: string

definition Inspect :: "Decision \<Rightarrow> string \<Rightarrow> string \<Rightarrow> Inspection result" where
  "Inspect d stage command =
     (if stage \<noteq> ''pre'' \<and> stage \<noteq> ''post'' then Inl (Err ''invalid inspection stage %q'' [stage])
      else case validateProtocol d of
        Some e \<Rightarrow> Inl e
      | None \<Rightarrow> Inr \<lparr>i_Event = decision_Event d stage, i_Diff = CommandDiff d command,
          i_EmphasizedDiff = CommandDiffEmphasis d command\<rparr>)"

subsection \<open>Options, environment and state\<close>

record SemanticMatch =
  sm_PackID :: string
  sm_RuleID :: string
  sm_Source :: string
  sm_Suggestion :: string
  sm_Cause :: string
  sm_Risk :: Risk
  sm_Rationale :: string
  sm_Original :: string
  sm_Replacement :: string
  sm_Occurrence :: int

text \<open>\<open>MatchWordsContext(ctx, words)\<close>: the match, \<open>None\<close> for not ok, or an error; the number of observations of the context.\<close>

type_synonym SemanticResolver = "string list \<Rightarrow> nat \<Rightarrow> SemanticMatch option result \<times> nat"

record Limits =
  l_InputBytes :: int
  l_OutputBytes :: int
  l_AnalysisTime :: int

record Options =
  o_Config :: Config
  o_Path :: string
  o_CWD :: string
  o_SemanticResolver :: "SemanticResolver option"
  o_Limits :: Limits

record engine_env =
  ee_os :: os_env
  ee_ctx :: "nat \<Rightarrow> go_error option"
  ee_clock :: "nat \<Rightarrow> int"

record engine_state =
  st_polls :: nat
  st_ticks :: nat
  st_cache :: Cache

definition ctx_Err :: "engine_env \<Rightarrow> engine_state \<Rightarrow> go_error option \<times> engine_state" where
  "ctx_Err env s = (ee_ctx env (st_polls s), s\<lparr>st_polls := st_polls s + 1\<rparr>)"

definition now :: "engine_env \<Rightarrow> engine_state \<Rightarrow> int \<times> engine_state" where
  "now env s = (ee_clock env (st_ticks s), s\<lparr>st_ticks := st_ticks s + 1\<rparr>)"

definition engine_limits :: "Options \<Rightarrow> Limits" where
  "engine_limits opt =
     (let l = o_Limits opt in
      \<lparr>l_InputBytes = (if l_InputBytes l \<le> 0 then MaxInputBytes else l_InputBytes l),
       l_OutputBytes = (if l_OutputBytes l \<le> 0 then MaxOutputBytes else l_OutputBytes l),
       l_AnalysisTime = (if l_AnalysisTime l \<le> 0 then MaxAnalysisDuration else l_AnalysisTime l)\<rparr>)"

subsection \<open>The mode policy\<close>

definition semanticRewriteAllowed :: "Decision \<Rightarrow> bool" where
  "semanticRewriteAllowed d \<longleftrightarrow> d_Class d \<noteq> RepairClassSemantic
     \<or> \<not> list_ex (\<lambda>e. ev_Kind e = ''source'' \<and> ev_Value e = ''installed'') (d_Evidence d)"

definition intrinsicRewriteEligible :: "Decision \<Rightarrow> bool" where
  "intrinsicRewriteEligible d \<longleftrightarrow> d_Suggestion d \<noteq> [] \<and> \<not> d_Incomplete d \<and> d_Risk d = RiskSafe \<and>
     fl64 (16 / 20) \<le> d_Confidence d \<and> meetsConfidenceThreshold (d_Class d) (d_Confidence d) \<and> semanticRewriteAllowed d"

definition safeAutoApply :: "Options \<Rightarrow> Decision \<Rightarrow> bool" where
  "safeAutoApply opt d \<longleftrightarrow> cf_Mode (o_Config opt) = ''rewrite'' \<and> cf_AutoApplySafe (o_Config opt) \<and> intrinsicRewriteEligible d"

definition evaluateRewriteBuffer :: "Options \<Rightarrow> Decision \<Rightarrow> Decision \<times> bool" where
  "evaluateRewriteBuffer opt d = (if \<not> safeAutoApply opt d then (d, False) else (d\<lparr>d_Action := ''rewrite''\<rparr>, True))"

definition shouldInterrupt :: "Options \<Rightarrow> Decision \<Rightarrow> string \<Rightarrow> bool" where
  "shouldInterrupt opt d stage \<longleftrightarrow> stage = ''pre'' \<and>
     (cf_Mode (o_Config opt) = ''interrupt'' \<or> cf_Mode (o_Config opt) = ''rewrite'' \<and> cf_RiskInterrupt (o_Config opt)) \<and>
     d_Suggestion d \<noteq> [] \<and> \<not> d_Incomplete d \<and> fl64 (18 / 20) \<le> d_Confidence d \<and>
     meetsConfidenceThreshold (d_Class d) (d_Confidence d)"

definition applyMode :: "Options \<Rightarrow> Decision \<Rightarrow> string \<Rightarrow> Decision" where
  "applyMode opt d0 stage =
     (let d = d0\<lparr>d_RewriteEligible := intrinsicRewriteEligible d0\<rparr>; (rewritten, ok) = evaluateRewriteBuffer opt d in
      if stage = ''pre'' \<and> ok then rewritten
      else if shouldInterrupt opt d stage then d\<lparr>d_Action := ''interrupt''\<rparr>
      else d\<lparr>d_Action := ''hint''\<rparr>)"

subsection \<open>The resolvers\<close>

type_synonym 'a checked = "'a result \<times> engine_state"

text \<open>The decision that \<open>commandDecision\<close> and \<open>pathDecision\<close> build for word \<open>p\<close>.\<close>

definition repair_decision :: "string \<Rightarrow> string \<Rightarrow> string list \<Rightarrow> nat \<Rightarrow> string \<Rightarrow> nat \<Rightarrow> rat \<Rightarrow> Decision" where
  "repair_decision class resolver words p replacement distance conf =
     (let replaced = words[p := replacement]; (suggestion, containsSecret) = redact_Command replaced;
          template = template_for class; assessment = assessRisk replaced containsSecret in
      zeroDecision\<lparr>d_Version := AdapterProtocolVersion, d_Cause := message (ct_cause template), d_CauseKey := ct_cause template,
        d_Consequence := message (ct_consequence template), d_ConsequenceKey := ct_consequence template,
        d_Suggestion := suggestion, d_Class := class, d_Evidence := collectEvidence class resolver (int distance) conf,
        d_Confidence := conf, d_Risk := ra_risk assessment, d_RiskRationale := message (ra_rationale assessment),
        d_RiskRationaleKey := ra_rationale assessment, d_Trace := [''resolver:'' @ resolver, ''distance:'' @ itoa (int distance)],
        d_original := words ! p, d_replacement := replacement, d_occurrence := int (tokenOccurrence words p)\<rparr>)"

fun command_loop :: "Options \<Rightarrow> engine_env \<Rightarrow> string list \<Rightarrow> string list \<Rightarrow> nat list \<Rightarrow> engine_state \<Rightarrow> Decision checked" where
  "command_loop opt env words candidates [] s = (Inr zeroDecision, s)"
| "command_loop opt env words candidates (position # positions) s =
     (case ctx_Err env s of (err, s1) \<Rightarrow>
        case err of Some e \<Rightarrow> (Inl e, s1) | None \<Rightarrow>
        (case (if isPathQualified (words ! position) (os_GOOS (ee_os env)) then (True, st_cache s1)
               else commandExistsFor (ee_os env) (words ! position) (o_Path opt) (os_GOOS (ee_os env)) (os_PATHEXT (ee_os env)) (st_cache s1))
         of (skip, cache) \<Rightarrow> case s1\<lparr>st_cache := cache\<rparr> of s2 \<Rightarrow>
           if skip then command_loop opt env words candidates positions s2
           else case nearest (words ! position) candidates of (best, distance) \<Rightarrow>
             if best = [] \<or> maxDistance (words ! position) < distance then command_loop opt env words candidates positions s2
             else if \<not> meetsConfidenceThreshold RepairClassCommand (confidence (words ! position) best)
             then command_loop opt env words candidates positions s2
             else (Inr (repair_decision RepairClassCommand ''path'' words position best distance
                          (confidence (words ! position) best)), s2)))"

definition commandDecision :: "Options \<Rightarrow> engine_env \<Rightarrow> string list \<Rightarrow> engine_state \<Rightarrow> Decision checked" where
  "commandDecision opt env words s =
     (case ctx_Err env s of (err, s1) \<Rightarrow> case err of Some e \<Rightarrow> (Inl e, s1) | None \<Rightarrow>
        (case executableNamesFor (ee_os env) (o_Path opt) (os_GOOS (ee_os env)) (os_PATHEXT (ee_os env)) (st_cache s1)
         of (candidates, cache) \<Rightarrow>
           case ctx_Err env (s1\<lparr>st_cache := cache\<rparr>) of (err, s2) \<Rightarrow> case err of Some e \<Rightarrow> (Inl e, s2) | None \<Rightarrow>
             command_loop opt env words candidates (commandPositions words) s2))"

definition semantic_decision_of :: "SemanticMatch \<Rightarrow> string list \<Rightarrow> Decision" where
  "semantic_decision_of match suggestedWords =
     (let (suggestion, containsSecret) = redact_Command suggestedWords in
      zeroDecision\<lparr>d_Version := AdapterProtocolVersion, d_Cause := sm_Cause match, d_Suggestion := suggestion,
        d_Class := RepairClassSemantic,
        d_Evidence := [\<lparr>ev_Kind = ''resolver'', ev_Value = ''curated''\<rparr>, \<lparr>ev_Kind = ''pack'', ev_Value = sm_PackID match\<rparr>,
            \<lparr>ev_Kind = ''rule'', ev_Value = sm_RuleID match\<rparr>]
          @ (if sm_Source match \<noteq> [] then [\<lparr>ev_Kind = ''source'', ev_Value = sm_Source match\<rparr>] else []),
        d_Confidence := 1, d_Risk := (if containsSecret then RiskHigh else sm_Risk match),
        d_RiskRationale := (if containsSecret then message MessageRiskSecret else sm_Rationale match),
        d_RiskRationaleKey := (if containsSecret then MessageRiskSecret else []),
        d_Trace := [''pack:'' @ sm_PackID match, ''rule:'' @ sm_RuleID match],
        d_original := sm_Original match, d_replacement := sm_Replacement match, d_occurrence := sm_Occurrence match\<rparr>)"

definition semanticDecision :: "Options \<Rightarrow> engine_env \<Rightarrow> string \<Rightarrow> string list \<Rightarrow> engine_state \<Rightarrow> Decision checked" where
  "semanticDecision opt env shellName words s =
     (case ctx_Err env s of (err, s1) \<Rightarrow> case err of Some e \<Rightarrow> (Inl e, s1) | None \<Rightarrow>
        (case o_SemanticResolver opt of None \<Rightarrow> (Inr zeroDecision, s1) | Some resolve \<Rightarrow>
          (case resolve words (st_polls s1) of (answer, polls) \<Rightarrow> case s1\<lparr>st_polls := polls\<rparr> of s2 \<Rightarrow>
            case answer of Inl e \<Rightarrow> (Inl e, s2) | Inr found \<Rightarrow>
            (case ctx_Err env s2 of (err, s3) \<Rightarrow> case err of Some e \<Rightarrow> (Inl e, s3) | None \<Rightarrow>
              (case found of None \<Rightarrow> (Inr zeroDecision, s3) | Some match \<Rightarrow>
                if sm_PackID match = [] \<or> sm_RuleID match = [] \<or> sm_Suggestion match = [] \<or> \<not> validRisk (sm_Risk match)
                then (Inr zeroDecision, s3)
                else case tokenizeForShell shellName (sm_Suggestion match) of
                  Inl e \<Rightarrow> (Inr zeroDecision, s3)
                | Inr suggestedWords \<Rightarrow>
                    if suggestedWords = [] \<or> hasUnsupportedShellSyntax suggestedWords then (Inr zeroDecision, s3)
                    else (Inr (semantic_decision_of match suggestedWords), s3))))))"

text \<open>\<open>pathDecision\<close>: its loop, from index \<open>i\<close> on.\<close>

definition path_like :: "string \<Rightarrow> bool" where
  "path_like word \<longleftrightarrow> \<not> (hasPrefix word ''-'' \<or> \<not> strings_Contains word ''/'' \<and> \<not> hasPrefix word ''.'')"

definition path_repair :: "Options \<Rightarrow> engine_env \<Rightarrow> string list \<Rightarrow> nat \<Rightarrow> Decision option" where
  "path_repair opt env words i =
     (case words ! i of word \<Rightarrow>
      if \<not> path_like word \<or> os_Stat (ee_os env) (filepath_Join [o_CWD opt, word]) \<noteq> None then None
      else case filepath_Split word of (dir, base) \<Rightarrow>
        (case limitedReadDir (ee_os env) (filepath_Join [o_CWD opt, dir]) of None \<Rightarrow> None
         | Some entries \<Rightarrow>
            (case nearest base (map de_Name entries) of (best, distance) \<Rightarrow>
              if best = [] \<or> maxDistance base < distance then None
              else if \<not> meetsConfidenceThreshold RepairClassPath (confidence base best) then None
              else Some (repair_decision RepairClassPath ''filesystem'' words i (filepath_Join [dir, best]) distance
                           (confidence base best)))))"

fun path_loop :: "Options \<Rightarrow> engine_env \<Rightarrow> string list \<Rightarrow> nat list \<Rightarrow> engine_state \<Rightarrow> Decision checked" where
  "path_loop opt env words [] s = (Inr zeroDecision, s)"
| "path_loop opt env words (i # is) s =
     (case ctx_Err env s of (err, s1) \<Rightarrow> case err of Some e \<Rightarrow> (Inl e, s1) | None \<Rightarrow>
        (case path_repair opt env words i of
           None \<Rightarrow> path_loop opt env words is s1
         | Some d \<Rightarrow> (Inr d, s1)))"

definition pathDecision :: "Options \<Rightarrow> engine_env \<Rightarrow> string list \<Rightarrow> engine_state \<Rightarrow> Decision checked" where
  "pathDecision opt env words s = path_loop opt env words [1..<length words] s"

subsection \<open>Checking a line\<close>

text \<open>A Go result \<open>(Decision, error)\<close>: the decision and the error, if any.\<close>

type_synonym check_result = "(Decision \<times> go_error option) \<times> engine_state"

definition engine_finish ::
  "Options \<Rightarrow> engine_env \<Rightarrow> Decision \<Rightarrow> string \<Rightarrow> string \<Rightarrow> string \<Rightarrow> int \<Rightarrow> engine_state \<Rightarrow> check_result" where
  "engine_finish opt env d0 shellName line stage started s =
     (case ctx_Err env s of (err, s1) \<Rightarrow> case err of Some e \<Rightarrow> ((noDecision, Some e), s1) | None \<Rightarrow>
        (case now env s1 of (time, s2) \<Rightarrow>
          if l_AnalysisTime (engine_limits opt) < time - started then ((noDecision, Some ErrAnalysisLimit), s2)
          else if l_OutputBytes (engine_limits opt) < decisionOutputSize d0 then ((noDecision, Some ErrOutputLimit), s2)
          else case applyMode opt d0 stage of d1 \<Rightarrow>
            case (if d_Action d1 = ''rewrite'' \<and> \<not> rewriteCompatible shellName line then d1\<lparr>d_Action := ''hint''\<rparr> else d1) of d2 \<Rightarrow>
            if d_Action d2 = ''rewrite'' \<and> d_original d2 \<noteq> [] \<and> d_replacement d2 \<noteq> [] then
              (case replaceTokenOccurrence line (d_original d2) (d_replacement d2) (d_occurrence d2) of
                 None \<Rightarrow> ((noDecision, None), s2)
               | Some buffer \<Rightarrow>
                   if l_OutputBytes (engine_limits opt) < decisionOutputSize (d2\<lparr>d_Suggestion := buffer\<rparr>)
                   then ((noDecision, Some ErrOutputLimit), s2)
                   else ((d2\<lparr>d_Suggestion := buffer\<rparr>, None), s2))
            else ((d2, None), s2)))"

text \<open>Where the code tests a resolver's answer: an error, a suggestion to finish, or nothing.\<close>

definition resolve_then :: "Options \<Rightarrow> engine_env \<Rightarrow> string \<Rightarrow> string \<Rightarrow> string \<Rightarrow> int \<Rightarrow> Decision checked
    \<Rightarrow> (engine_state \<Rightarrow> check_result) \<Rightarrow> check_result" where
  "resolve_then opt env shellName line stage started answer otherwise =
     (case answer of (r, s) \<Rightarrow> case r of
        Inl e \<Rightarrow> ((noDecision, Some e), s)
      | Inr d \<Rightarrow> if d_Suggestion d \<noteq> [] then engine_finish opt env d shellName line stage started s else otherwise s)"

definition check_words :: "Options \<Rightarrow> engine_env \<Rightarrow> string \<Rightarrow> string \<Rightarrow> string \<Rightarrow> int \<Rightarrow> string list \<Rightarrow> engine_state \<Rightarrow> check_result" where
  "check_words opt env shellName line stage started words s =
     resolve_then opt env shellName line stage started (commandDecision opt env words s) (\<lambda>s1.
       resolve_then opt env shellName line stage started (semanticDecision opt env shellName words s1) (\<lambda>s2.
         resolve_then opt env shellName line stage started (pathDecision opt env words s2) (\<lambda>s3.
           case ctx_Err env s3 of (err, s4) \<Rightarrow> case err of Some e \<Rightarrow> ((noDecision, Some e), s4) | None \<Rightarrow>
             (case now env s4 of (time, s5) \<Rightarrow>
               if l_AnalysisTime (engine_limits opt) < time - started then ((noDecision, Some ErrAnalysisLimit), s5)
               else ((noDecision, None), s5)))))"

definition CheckShellContext :: "Options \<Rightarrow> engine_env \<Rightarrow> string \<Rightarrow> string \<Rightarrow> string \<Rightarrow> engine_state \<Rightarrow> check_result" where
  "CheckShellContext opt env shellName line stage s =
     (case ctx_Err env s of (err, s1) \<Rightarrow> case err of Some e \<Rightarrow> ((noDecision, Some e), s1) | None \<Rightarrow>
        if l_InputBytes (engine_limits opt) < int (length line) then ((noDecision, Some ErrInputLimit), s1)
        else if HasRuleException (o_Config opt) line then ((noDecision, None), s1)
        else (case now env s1 of (started, s2) \<Rightarrow>
          (case tokenizeForShell shellName line of
             Inl e \<Rightarrow> ((noDecision\<lparr>d_Incomplete := (e = errIncompleteShellInput)\<rparr>, None), s2)
           | Inr words \<Rightarrow>
              (case ctx_Err env s2 of (err, s3) \<Rightarrow> case err of Some e \<Rightarrow> ((noDecision, Some e), s3) | None \<Rightarrow>
                 if words = [] \<or> cf_Mode (o_Config opt) = ''off'' then ((noDecision, None), s3)
                 else if hasUnsupportedShellSyntax words then ((noDecision, None), s3)
                 else check_words opt env shellName line stage started words s3))))"

definition CheckContext :: "Options \<Rightarrow> engine_env \<Rightarrow> string \<Rightarrow> string \<Rightarrow> engine_state \<Rightarrow> check_result" where
  "CheckContext opt env line stage s = CheckShellContext opt env [] line stage s"

end
