(* ===== verification/PackRegistry.thy ===== *)
theory PackRegistry
  imports GoRegexp GoBase64 Executables
begin

section \<open>Enabled packs and trusted publishers (internal/packs/state.go, keyring.go, signature.go)\<close>

text \<open>
  Two small registries that the CLI edits and writes back: the enabled pack identifiers
  (\<open>pack_State\<close>) and the publisher keys with their revocations (\<open>Keyring\<close>). Both keep
  their entries sorted because lookups search them by halving. What a client may rely on is
  stated once, as the locales \<open>id_registry\<close> and \<open>removable_registry\<close>: the operations act on
  the set of identifiers like insertion and deletion and keep the registry valid. The locales
  are interpreted on the code's operations. \<open>ed25519.Verify\<close> is a parameter.
  Their JSON files are in theory \<open>StateFiles\<close>.
\<close>

subsection \<open>Identifiers and versions (packs.go)\<close>

definition id_char :: rx where "id_char = RClass False [(97, 122), (48, 57)]"

definition identifierPattern :: rx where
  "identifierPattern = rseqs [RBegin, RClass False [(97, 122)], RStar id_char, RStar (RSeq (rchar 45) (rplus id_char)), REnd]"

definition is_identifier :: "string \<Rightarrow> bool" where
  "is_identifier value \<longleftrightarrow> rx_MatchString identifierPattern value"

definition digit_class :: rx where "digit_class = RClass False [(48, 57)]"
definition version_number :: rx where
  "version_number = RAlt (rchar 48) (RSeq (RClass False [(49, 57)]) (RStar digit_class))"
definition version_char :: rx where "version_char = RClass False [(48, 57), (65, 90), (97, 122), (45, 45)]"
definition prerelease_identifier :: rx where
  "prerelease_identifier = RAlt version_number
     (rseqs [RStar version_char, RClass False [(65, 90), (97, 122), (45, 45)], RStar version_char])"

definition semanticVersionPattern :: rx where
  "semanticVersionPattern = rseqs [RBegin, RGroup 1 version_number, rchar 46, RGroup 2 version_number, rchar 46,
     RGroup 3 version_number,
     ROpt (rseqs [rchar 45, prerelease_identifier, RStar (RSeq (rchar 46) prerelease_identifier)]),
     ROpt (rseqs [rchar 43, rplus version_char, RStar (RSeq (rchar 46) (rplus version_char))]), REnd]"

definition semanticVersion :: "string \<Rightarrow> bool" where
  "semanticVersion value \<longleftrightarrow> rx_MatchString semanticVersionPattern value"

subsection \<open>Enabled packs (state.go)\<close>

record pack_State =
  ps_Enabled :: "string list"

definition EnabledFor :: "pack_State \<Rightarrow> string \<Rightarrow> bool" where
  "EnabledFor s ident \<longleftrightarrow> searchStrings (ps_Enabled s) ident < length (ps_Enabled s) \<and>
     ps_Enabled s ! searchStrings (ps_Enabled s) ident = ident"

definition Enable :: "string \<Rightarrow> pack_State \<Rightarrow> pack_State \<times> bool" where
  "Enable ident s = (if \<not> is_identifier ident \<or> EnabledFor s ident then (s, False)
     else (s\<lparr>ps_Enabled := sort (ps_Enabled s @ [ident])\<rparr>, True))"

definition Disable :: "string \<Rightarrow> pack_State \<Rightarrow> pack_State \<times> bool" where
  "Disable ident s = (if ident \<in> set (ps_Enabled s) then (s\<lparr>ps_Enabled := remove1 ident (ps_Enabled s)\<rparr>, True) else (s, False))"

text \<open>The loop shared by both \<open>Validate\<close> methods: identifiers, each greater than the one before.\<close>

fun ids_increase :: "string \<Rightarrow> string list \<Rightarrow> bool" where
  "ids_increase previous [] = True"
| "ids_increase previous (ident # ids) = (if \<not> is_identifier ident \<or> ident \<le> previous then False else ids_increase ident ids)"

definition state_Validate :: "pack_State \<Rightarrow> go_error option" where
  "state_Validate s = (if ids_increase [] (ps_Enabled s) then None
     else Some (Err ''enabled pack ids must be unique lowercase kebab identifiers'' []))"

subsection \<open>Publisher keys (keyring.go)\<close>

record PublisherKey =
  pk_ID :: string
  pk_PublicKey :: string

record Keyring =
  k_Publishers :: "PublisherKey list"
  k_Revoked :: "string list"

definition ed25519_PublicKeySize :: nat where "ed25519_PublicKeySize = 32"
definition ed25519_SignatureSize :: nat where "ed25519_SignatureSize = 64"

definition RevokedFor :: "Keyring \<Rightarrow> string \<Rightarrow> bool" where
  "RevokedFor k ident \<longleftrightarrow> list_ex (\<lambda>revoked. revoked = ident) (k_Revoked k)"

definition PublicKey :: "Keyring \<Rightarrow> string \<Rightarrow> string option" where
  "PublicKey k ident =
     (if RevokedFor k ident then None
      else case sort_Search 0 (length (k_Publishers k)) (\<lambda>i. ident \<le> pk_ID (k_Publishers k ! i)) of index \<Rightarrow>
        if index = length (k_Publishers k) \<or> pk_ID (k_Publishers k ! index) \<noteq> ident then None
        else base64_DecodeString (pk_PublicKey (k_Publishers k ! index)))"

definition ParsePublisherPublicKey :: "string \<Rightarrow> string result" where
  "ParsePublisherPublicKey value =
     (case base64_DecodeString value of None \<Rightarrow> Inl (Err ''invalid publisher public key'' [])
      | Some key \<Rightarrow> if length key \<noteq> ed25519_PublicKeySize then Inl (Err ''invalid publisher public key'' []) else Inr key)"

definition Revoke :: "string \<Rightarrow> Keyring \<Rightarrow> Keyring \<times> bool" where
  "Revoke ident k = (if \<not> is_identifier ident \<or> RevokedFor k ident then (k, False)
     else (k\<lparr>k_Revoked := sort (k_Revoked k @ [ident])\<rparr>, True))"

definition keyring_Add :: "string \<Rightarrow> string \<Rightarrow> Keyring \<Rightarrow> Keyring result" where
  "keyring_Add ident key k =
     (if \<not> is_identifier ident \<or> length key \<noteq> ed25519_PublicKeySize then Inl (Err ''invalid publisher key'' [])
      else if list_ex (\<lambda>p. pk_ID p = ident) (k_Publishers k) then Inl (Err ''publisher %q already exists'' [ident])
      else Inr (k\<lparr>k_Publishers := sort_key pk_ID (k_Publishers k @ [\<lparr>pk_ID = ident, pk_PublicKey = base64_encode key\<rparr>])\<rparr>))"

fun remove_publisher :: "string \<Rightarrow> PublisherKey list \<Rightarrow> PublisherKey list option" where
  "remove_publisher ident [] = None"
| "remove_publisher ident (p # ps) = (if pk_ID p = ident then Some ps else map_option ((#) p) (remove_publisher ident ps))"

definition keyring_Remove :: "string \<Rightarrow> Keyring \<Rightarrow> Keyring \<times> bool" where
  "keyring_Remove ident k = (case remove_publisher ident (k_Publishers k) of None \<Rightarrow> (k, False)
     | Some ps \<Rightarrow> (k\<lparr>k_Publishers := ps\<rparr>, True))"

fun publishers_increase :: "string \<Rightarrow> PublisherKey list \<Rightarrow> bool" where
  "publishers_increase previous [] = True"
| "publishers_increase previous (p # ps) =
     (case base64_DecodeString (pk_PublicKey p) of
        None \<Rightarrow> False
      | Some key \<Rightarrow> if \<not> is_identifier (pk_ID p) \<or> pk_ID p \<le> previous \<or> length key \<noteq> ed25519_PublicKeySize then False
          else publishers_increase (pk_ID p) ps)"

definition keyring_Validate :: "Keyring \<Rightarrow> go_error option" where
  "keyring_Validate k =
     (if \<not> publishers_increase [] (k_Publishers k) then Some (Err ''invalid publisher keyring'' [])
      else if \<not> ids_increase [] (k_Revoked k) then Some (Err ''invalid publisher revocations'' [])
      else None)"

subsection \<open>Detached signatures (signature.go)\<close>

text \<open>The parameter \<open>verify\<close> is \<open>ed25519.Verify(publicKey, message, sig)\<close>.\<close>

type_synonym ed25519_Verify = "string \<Rightarrow> string \<Rightarrow> string \<Rightarrow> bool"

definition VerifyDetachedSignature :: "ed25519_Verify \<Rightarrow> string \<Rightarrow> string \<Rightarrow> string \<Rightarrow> go_error option" where
  "VerifyDetachedSignature verify payload signature publicKey =
     (if length publicKey \<noteq> ed25519_PublicKeySize then Some (Err ''invalid publisher public key'' [])
      else if length signature \<noteq> ed25519_SignatureSize then Some (Err ''invalid detached signature'' [])
      else if \<not> verify publicKey payload signature then Some (Err ''invalid detached signature'' [])
      else None)"

definition VerifyPublisherSignature :: "ed25519_Verify \<Rightarrow> string \<Rightarrow> string \<Rightarrow> string \<Rightarrow> Keyring \<Rightarrow> go_error option" where
  "VerifyPublisherSignature verify payload signature publisher keyring =
     (if RevokedFor keyring publisher then Some (Err ''publisher key is revoked'' [])
      else case PublicKey keyring publisher of
        None \<Rightarrow> Some (Err ''publisher key is unavailable'' [])
      | Some publicKey \<Rightarrow> VerifyDetachedSignature verify payload signature publicKey)"

subsection \<open>The contract of a registry\<close>

datatype registry_op = Insert string | Delete string

fun run_registry :: "(string \<Rightarrow> 's \<Rightarrow> 's) \<Rightarrow> (string \<Rightarrow> 's \<Rightarrow> 's) \<Rightarrow> registry_op list \<Rightarrow> 's \<Rightarrow> 's" where
  "run_registry ins del [] s = s"
| "run_registry ins del (Insert x # ops) s = run_registry ins del ops (ins x s)"
| "run_registry ins del (Delete x # ops) s = run_registry ins del ops (del x s)"

text \<open>The specification: a set of identifiers.\<close>

definition insert_identifier :: "string \<Rightarrow> string set \<Rightarrow> string set" where
  "insert_identifier x A = (if is_identifier x then insert x A else A)"

definition run_set :: "registry_op list \<Rightarrow> string set \<Rightarrow> string set" where
  "run_set = run_registry insert_identifier (\<lambda>x A. A - {x})"

locale id_registry =
  fixes members :: "'s \<Rightarrow> string set" and valid :: "'s \<Rightarrow> bool" and insert_id :: "string \<Rightarrow> 's \<Rightarrow> 's \<times> bool"
  assumes insert_valid: "valid s \<Longrightarrow> valid (fst (insert_id x s))"
    and insert_members: "valid s \<Longrightarrow> members (fst (insert_id x s)) = insert_identifier x (members s)"
    and insert_result: "valid s \<Longrightarrow> snd (insert_id x s) \<longleftrightarrow> is_identifier x \<and> x \<notin> members s"
begin

lemma insert_monotone: "valid s \<Longrightarrow> members s \<subseteq> members (fst (insert_id x s))"
  by (auto simp: insert_members insert_identifier_def)

lemma insert_twice: "valid s \<Longrightarrow> \<not> snd (insert_id x (fst (insert_id x s)))"
  by (simp add: insert_result insert_valid insert_members insert_identifier_def)

end

locale removable_registry = id_registry +
  fixes remove_id :: "string \<Rightarrow> 's \<Rightarrow> 's \<times> bool"
  assumes remove_valid: "valid s \<Longrightarrow> valid (fst (remove_id x s))"
    and remove_members: "valid s \<Longrightarrow> members (fst (remove_id x s)) = members s - {x}"
    and remove_result: "valid s \<Longrightarrow> snd (remove_id x s) \<longleftrightarrow> x \<in> members s"
begin

lemma run_refines:
  "valid s \<Longrightarrow> valid (run_registry (\<lambda>x s. fst (insert_id x s)) (\<lambda>x s. fst (remove_id x s)) ops s) \<and>
     members (run_registry (\<lambda>x s. fst (insert_id x s)) (\<lambda>x s. fst (remove_id x s)) ops s) = run_set ops (members s)"
proof (induction ops arbitrary: s)
  case Nil
  then show ?case by (simp add: run_set_def)
next
  case (Cons op ops)
  then show ?case
    by (cases op) (simp_all add: run_set_def insert_valid remove_valid insert_members remove_members)
qed

end

subsection \<open>Sorted identifiers\<close>

lemma is_identifier_nonempty: "is_identifier x \<Longrightarrow> x \<noteq> []"
proof -
  assume "is_identifier x"
  then obtain sk st where "rx_find identifierPattern None (cells x) = Some (sk, st)"
    by (auto simp: is_identifier_def rx_MatchString_def)
  then obtain m where "cells x = sk @ m @ ms_rest st" "rx_minlen identifierPattern \<le> length m"
    using rx_find_suffix by blast
  then show ?thesis by (auto simp: identifierPattern_def)
qed

lemma Nil_less [simp]: "([] :: string) < x \<longleftrightarrow> x \<noteq> []"
  by (cases x) simp_all

lemma ids_increase_iff: "ids_increase p ids \<longleftrightarrow> sorted_wrt (<) (p # ids) \<and> (\<forall>x \<in> set ids. is_identifier x)"
proof (induction ids arbitrary: p)
  case (Cons x ids)
  then show ?case by (auto simp: not_le intro: less_trans)
qed simp

lemma ids_increase_sorted:
  "ids_increase [] ids \<longleftrightarrow> sorted ids \<and> distinct ids \<and> (\<forall>x \<in> set ids. is_identifier x)"
  using is_identifier_nonempty by (auto simp: ids_increase_iff strict_sorted_iff)

lemma sort_snoc_increase:
  "ids_increase [] ids \<Longrightarrow> is_identifier x \<Longrightarrow> x \<notin> set ids \<Longrightarrow> ids_increase [] (sort (ids @ [x]))"
  by (simp add: ids_increase_sorted)

definition state_ok :: "pack_State \<Rightarrow> bool" where
  "state_ok s \<longleftrightarrow> state_Validate s = None"

lemma state_ok_iff: "state_ok s \<longleftrightarrow> ids_increase [] (ps_Enabled s)"
  by (simp add: state_ok_def state_Validate_def)

lemma EnabledFor_iff: "state_ok s \<Longrightarrow> EnabledFor s x \<longleftrightarrow> x \<in> set (ps_Enabled s)"
  by (simp add: EnabledFor_def searchStrings_found state_ok_iff ids_increase_sorted)

interpretation enabled: removable_registry "\<lambda>s. set (ps_Enabled s)" state_ok Enable Disable
proof
  fix s :: pack_State and x
  assume ok: "state_ok s"
  note enabled = EnabledFor_iff [OF ok] ok [unfolded state_ok_iff]
  show "state_ok (fst (Enable x s))" using enabled by (simp add: Enable_def state_ok_iff sort_snoc_increase)
  show "set (ps_Enabled (fst (Enable x s))) = insert_identifier x (set (ps_Enabled s))"
    using enabled by (auto simp: Enable_def insert_identifier_def)
  show "snd (Enable x s) \<longleftrightarrow> is_identifier x \<and> x \<notin> set (ps_Enabled s)" using enabled by (simp add: Enable_def)
  show "state_ok (fst (Disable x s))"
    using enabled by (auto simp: Disable_def state_ok_iff ids_increase_sorted sorted_remove1 dest: notin_set_remove1)
  show "set (ps_Enabled (fst (Disable x s))) = set (ps_Enabled s) - {x}"
    using enabled by (simp add: Disable_def ids_increase_sorted set_remove1_eq)
  show "snd (Disable x s) \<longleftrightarrow> x \<in> set (ps_Enabled s)" by (simp add: Disable_def)
qed

subsection \<open>The keyring as a map of keys and a set of revocations\<close>

definition keyring_ok :: "Keyring \<Rightarrow> bool" where
  "keyring_ok k \<longleftrightarrow> keyring_Validate k = None"

definition publisher_ok :: "PublisherKey \<Rightarrow> bool" where
  "publisher_ok p \<longleftrightarrow> is_identifier (pk_ID p) \<and> (\<exists>key. base64_DecodeString (pk_PublicKey p) = Some key \<and> length key = 32)"

lemma publishers_increase_iff:
  "publishers_increase q ps \<longleftrightarrow> sorted_wrt (<) (q # map pk_ID ps) \<and> (\<forall>p \<in> set ps. publisher_ok p)"
proof (induction ps arbitrary: q)
  case (Cons p ps)
  then show ?case
    by (auto simp: not_le publisher_ok_def ed25519_PublicKeySize_def split: option.splits intro: less_trans)
qed simp

lemma keyring_ok_iff:
  "keyring_ok k \<longleftrightarrow> sorted (map pk_ID (k_Publishers k)) \<and> distinct (map pk_ID (k_Publishers k)) \<and>
     (\<forall>p \<in> set (k_Publishers k). publisher_ok p) \<and> ids_increase [] (k_Revoked k)"
  using is_identifier_nonempty
  by (auto simp: keyring_ok_def keyring_Validate_def publishers_increase_iff strict_sorted_iff publisher_ok_def)

lemma RevokedFor_iff: "RevokedFor k x \<longleftrightarrow> x \<in> set (k_Revoked k)"
  by (auto simp: RevokedFor_def list_ex_iff)

interpretation revoked: id_registry "\<lambda>k. set (k_Revoked k)" keyring_ok Revoke
  by unfold_locales
    (auto simp: Revoke_def keyring_ok_iff RevokedFor_iff insert_identifier_def sort_snoc_increase)

definition publisher_key :: "PublisherKey list \<Rightarrow> string \<Rightarrow> string option" where
  "publisher_key ps x = (case find (\<lambda>p. pk_ID p = x) ps of None \<Rightarrow> None | Some p \<Rightarrow> base64_DecodeString (pk_PublicKey p))"

lemma sort_Search_cong:
  "(\<And>x. i \<le> x \<Longrightarrow> x < j \<Longrightarrow> f x = g x) \<Longrightarrow> sort_Search i j f = sort_Search i j g"
proof (induction i j f rule: sort_Search.induct)
  case (1 i j f)
  show ?case
  proof (cases "i < j")
    case True
    then have h: "i \<le> (i + j) div 2" "(i + j) div 2 < j" by simp_all
    with "1.prems" have "f ((i + j) div 2) = g ((i + j) div 2)" by blast
    with True h "1.IH" "1.prems" show ?thesis
      by (subst (1 2) sort_Search.simps) (auto simp del: div_mult_self1_is_m)
  qed (simp add: sort_Search.simps)
qed

lemma sort_Search_le: "i \<le> j \<Longrightarrow> sort_Search i j f \<le> j"
proof (induction i j f rule: sort_Search.induct)
  case (1 i j f)
  show ?case
  proof (cases "i < j")
    case True
    then have "i \<le> (i + j) div 2" "(i + j) div 2 + 1 \<le> j" "(i + j) div 2 \<le> j" by simp_all
    with True "1.IH" show ?thesis by (subst sort_Search.simps) (auto intro: order_trans [of _ "(i + j) div 2"])
  qed (use "1.prems" in \<open>simp add: sort_Search.simps\<close>)
qed

lemma find_unique: "distinct (map f xs) \<Longrightarrow> i < length xs \<Longrightarrow> find (\<lambda>p. f p = f (xs ! i)) xs = Some (xs ! i)"
  by (induction xs arbitrary: i) (auto simp: nth_Cons split: nat.splits)

lemma PublicKey_spec:
  assumes "keyring_ok k"
  shows "PublicKey k x = (if x \<in> set (k_Revoked k) then None else publisher_key (k_Publishers k) x)"
proof -
  let ?ps = "k_Publishers k" let ?n = "searchStrings (map pk_ID (k_Publishers k)) x"
  have n: "sort_Search 0 (length ?ps) (\<lambda>i. x \<le> pk_ID (?ps ! i)) = ?n"
    unfolding searchStrings_def by (simp, rule sort_Search_cong) simp
  have le: "?n \<le> length ?ps"
    using sort_Search_le [of 0] by (simp add: searchStrings_def)
  have found: "?n < length ?ps \<and> pk_ID (?ps ! ?n) = x \<longleftrightarrow> x \<in> pk_ID ` set ?ps"
    using searchStrings_found [of "map pk_ID ?ps" x] assms by (auto simp: keyring_ok_iff)
  show ?thesis
  proof (cases "x \<in> pk_ID ` set ?ps")
    case True
    with found have f: "?n < length ?ps" "pk_ID (?ps ! ?n) = x" by simp_all
    with find_unique [of pk_ID ?ps ?n] assms show ?thesis
      by (simp add: PublicKey_def n RevokedFor_iff publisher_key_def keyring_ok_iff)
  next
    case False
    then have "find (\<lambda>p. pk_ID p = x) ?ps = None" by (auto simp: find_None_iff)
    with False found le show ?thesis by (auto simp: PublicKey_def n RevokedFor_iff publisher_key_def)
  qed
qed

text \<open>The operations of the keyring, and their meaning on a map of keys and a set of revocations.\<close>

datatype keyring_op = AddKey string string | RemoveKey string | RevokeKey string

fun keyring_step :: "keyring_op \<Rightarrow> Keyring \<Rightarrow> Keyring" where
  "keyring_step (AddKey x key) k = (case keyring_Add x key k of Inl e \<Rightarrow> k | Inr k' \<Rightarrow> k')"
| "keyring_step (RemoveKey x) k = fst (keyring_Remove x k)"
| "keyring_step (RevokeKey x) k = fst (Revoke x k)"

type_synonym key_spec = "(string \<rightharpoonup> string) \<times> string set"

fun spec_step :: "keyring_op \<Rightarrow> key_spec \<Rightarrow> key_spec" where
  "spec_step (AddKey x key) (m, r) = (if is_identifier x \<and> length key = 32 \<and> m x = None then m(x \<mapsto> key) else m, r)"
| "spec_step (RemoveKey x) (m, r) = (m(x := None), r)"
| "spec_step (RevokeKey x) (m, r) = (m, insert_identifier x r)"

definition keyring_abs :: "Keyring \<Rightarrow> key_spec" where
  "keyring_abs k = (publisher_key (k_Publishers k), set (k_Revoked k))"

lemma find_perm:
  assumes "distinct (map f xs)" "mset xs = mset ys"
  shows "find (\<lambda>p. f p = x) xs = find (\<lambda>p. f p = x) ys"
proof -
  have d: "distinct (map f ys)" using assms by (metis mset_map mset_eq_imp_distinct_iff)
  have s: "set xs = set ys" using assms(2) by (rule mset_eq_setD)
  show ?thesis
  proof (cases "x \<in> f ` set xs")
    case True
    then obtain i j where "i < length xs" "f (xs ! i) = x" "j < length ys" "f (ys ! j) = x" "xs ! i = ys ! j"
      using s by (smt (verit) imageE in_set_conv_nth)
    with find_unique [OF assms(1), of i] find_unique [OF d, of j] show ?thesis by simp
  next
    case False
    then have "find (\<lambda>p. f p = x) xs = None" "find (\<lambda>p. f p = x) ys = None"
      using s by (auto simp: find_None_iff)
    then show ?thesis by simp
  qed
qed

lemma publisher_key_None: "(\<forall>p \<in> set ps. publisher_ok p) \<Longrightarrow> publisher_key ps x = None \<longleftrightarrow> x \<notin> pk_ID ` set ps"
  by (induction ps) (auto simp: publisher_key_def publisher_ok_def)

lemma publisher_key_snoc:
  "x \<notin> pk_ID ` set ps \<Longrightarrow>
   publisher_key (ps @ [\<lparr>pk_ID = x, pk_PublicKey = base64_encode key\<rparr>]) = (publisher_key ps)(x \<mapsto> key)"
  by (rule ext, induction ps) (auto simp: publisher_key_def base64_DecodeString_encode)

lemma keyring_Add_refines:
  assumes "keyring_ok k"
  shows "keyring_ok (keyring_step (AddKey x key) k) \<and>
    keyring_abs (keyring_step (AddKey x key) k) = spec_step (AddKey x key) (keyring_abs k)"
proof (cases "is_identifier x \<and> length key = 32 \<and> x \<notin> pk_ID ` set (k_Publishers k)")
  case True
  let ?new = "k_Publishers k @ [\<lparr>pk_ID = x, pk_PublicKey = base64_encode key\<rparr>]"
  have step: "keyring_step (AddKey x key) k = k\<lparr>k_Publishers := sort_key pk_ID ?new\<rparr>"
    using True by (auto simp: keyring_Add_def ed25519_PublicKeySize_def list_ex_iff)
  have d: "distinct (map pk_ID ?new)" using assms True by (auto simp: keyring_ok_iff)
  then have d': "distinct (map pk_ID (sort_key pk_ID ?new))"
    using mset_eq_imp_distinct_iff [of "map pk_ID (sort_key pk_ID ?new)" "map pk_ID ?new"] by simp
  have "publisher_key (sort_key pk_ID ?new) = (publisher_key (k_Publishers k))(x \<mapsto> key)"
    using publisher_key_snoc [of x "k_Publishers k" key] True find_perm [OF d', of ?new]
    by (simp add: publisher_key_def fun_eq_iff)
  moreover have "publisher_key (k_Publishers k) x = None"
    using publisher_key_None [of "k_Publishers k" x] assms True by (simp add: keyring_ok_iff)
  ultimately show ?thesis using assms True d'
    unfolding step by (auto simp: keyring_abs_def keyring_ok_iff publisher_ok_def base64_DecodeString_encode)
next
  case False
  have "publisher_key (k_Publishers k) x = None \<longleftrightarrow> x \<notin> pk_ID ` set (k_Publishers k)"
    using publisher_key_None [of "k_Publishers k" x] assms by (simp add: keyring_ok_iff)
  with assms False show ?thesis
    by (auto simp: keyring_Add_def ed25519_PublicKeySize_def list_ex_iff keyring_abs_def)
qed

lemma remove_publisher_None: "remove_publisher x ps = None \<longleftrightarrow> x \<notin> pk_ID ` set ps"
  by (induction ps) auto

lemma remove_publisher_Some:
  "remove_publisher x ps = Some qs \<Longrightarrow> distinct (map pk_ID ps) \<Longrightarrow> qs = filter (\<lambda>p. pk_ID p \<noteq> x) ps"
proof (induction ps arbitrary: qs)
  case (Cons p ps)
  have "filter (\<lambda>q. pk_ID q \<noteq> pk_ID p) ps = ps" using Cons.prems(2) by (simp add: filter_id_conv image_iff) metis
  with Cons show ?case by (auto split: if_splits)
qed simp

lemma publisher_key_filter: "publisher_key (filter (\<lambda>p. pk_ID p \<noteq> x) ps) = (publisher_key ps)(x := None)"
  by (rule ext, induction ps) (auto simp: publisher_key_def)

lemma keyring_Remove_refines:
  assumes "keyring_ok k"
  shows "keyring_ok (keyring_step (RemoveKey x) k) \<and>
    keyring_abs (keyring_step (RemoveKey x) k) = spec_step (RemoveKey x) (keyring_abs k)"
proof -
  have d: "distinct (map pk_ID (k_Publishers k))" using assms by (simp add: keyring_ok_iff)
  have "fst (keyring_Remove x k) = k\<lparr>k_Publishers := filter (\<lambda>p. pk_ID p \<noteq> x) (k_Publishers k)\<rparr>"
  proof (cases "remove_publisher x (k_Publishers k)")
    case None
    then have "filter (\<lambda>p. pk_ID p \<noteq> x) (k_Publishers k) = k_Publishers k"
      by (force simp: remove_publisher_None filter_id_conv)
    with None show ?thesis by (simp add: keyring_Remove_def)
  qed (use d in \<open>simp add: keyring_Remove_def remove_publisher_Some\<close>)
  with assms show ?thesis
    by (simp add: keyring_abs_def keyring_ok_iff publisher_key_filter sorted_filter distinct_map_filter)
qed

lemma keyring_step_refines:
  "keyring_ok k \<Longrightarrow> keyring_ok (keyring_step op k) \<and> keyring_abs (keyring_step op k) = spec_step op (keyring_abs k)"
proof (cases op)
  case (RevokeKey x)
  assume "keyring_ok k"
  with revoked.insert_valid [of k x] revoked.insert_members [of k x] RevokeKey show ?thesis
    by (auto simp: keyring_abs_def Revoke_def)
qed (auto dest: keyring_Add_refines keyring_Remove_refines)

lemma keyring_run_refines:
  "keyring_ok k \<Longrightarrow> keyring_ok (fold keyring_step ops k) \<and> keyring_abs (fold keyring_step ops k) = fold spec_step ops (keyring_abs k)"
  by (induction ops arbitrary: k) (simp_all add: keyring_step_refines)

subsection \<open>Properties\<close>

text \<open>
  The enabled packs behave as a set. From a valid state, after any sequence of
  \<open>Enable\<close> and \<open>Disable\<close> calls the state is valid again, and \<open>EnabledFor\<close>, which searches the
  sorted list by halving, answers membership in the set that results from inserting the
  well-formed identifiers and deleting; the calls report whether they changed that set.
\<close>

lemma pack_state_refines_set:
  assumes "state_Validate s = None"
    and "s' = run_registry (\<lambda>x s. fst (Enable x s)) (\<lambda>x s. fst (Disable x s)) ops s"
  shows "state_Validate s' = None \<and> (\<forall>x. EnabledFor s' x \<longleftrightarrow> x \<in> run_set ops (set (ps_Enabled s))) \<and>
    (\<forall>x. snd (Enable x s') \<longleftrightarrow> is_identifier x \<and> x \<notin> run_set ops (set (ps_Enabled s))) \<and>
    (\<forall>x. snd (Disable x s') \<longleftrightarrow> x \<in> run_set ops (set (ps_Enabled s)))"
proof -
  have ok: "state_ok s'" and set: "set (ps_Enabled s') = run_set ops (set (ps_Enabled s))"
    using enabled.run_refines [of s ops] assms by (simp_all add: state_ok_def)
  then show ?thesis
    using EnabledFor_iff [OF ok] enabled.insert_result [OF ok] enabled.remove_result [OF ok]
    by (simp add: state_ok_def)
qed

text \<open>
  Property C38: the keyring behaves as a map from publishers to keys with a set of revoked
  publishers. From a valid keyring, after any sequence of \<open>Add\<close>, \<open>Remove\<close> and \<open>Revoke\<close> the keyring
  is valid, and \<open>PublicKey\<close>, which searches by halving and decodes base64, returns exactly the key
  of the map unless the publisher is revoked.
\<close>

theorem keyring_refines_map:
  assumes "keyring_Validate k = None"
  shows "keyring_Validate (fold keyring_step ops k) = None \<and>
    (case fold spec_step ops (keyring_abs k) of (keys, revoked) \<Rightarrow>
       (\<forall>x. PublicKey (fold keyring_step ops k) x = (if x \<in> revoked then None else keys x)) \<and>
       (\<forall>x. RevokedFor (fold keyring_step ops k) x \<longleftrightarrow> x \<in> revoked))"
proof -
  have ok: "keyring_ok (fold keyring_step ops k)"
    and abs: "keyring_abs (fold keyring_step ops k) = fold spec_step ops (keyring_abs k)"
    using keyring_run_refines [of k ops] assms by (simp_all add: keyring_ok_def)
  show ?thesis
    using PublicKey_spec [OF ok] ok unfolding abs [symmetric]
    by (simp add: keyring_abs_def keyring_ok_def RevokedFor_iff)
qed

definition demo_key :: string where "demo_key = replicate 32 (CHR ''k'')"

theorem keyring_refines_map_witness:
  "PublicKey (fold keyring_step [AddKey ''a'' demo_key, AddKey ''b'' demo_key, RevokeKey ''b''] \<lparr>k_Publishers = [], k_Revoked = []\<rparr>) ''a''
     = Some demo_key"
proof -
  have "keyring_Validate \<lparr>k_Publishers = [], k_Revoked = []\<rparr> = None" by (simp add: keyring_Validate_def)
  moreover have "is_identifier ''a''" "is_identifier ''b''" by code_simp+
  moreover have "length demo_key = 32" by (simp add: demo_key_def)
  ultimately show ?thesis
    using keyring_refines_map [of "\<lparr>k_Publishers = [], k_Revoked = []\<rparr>" "[AddKey ''a'' demo_key, AddKey ''b'' demo_key, RevokeKey ''b'']"]
    by (simp add: keyring_abs_def publisher_key_def insert_identifier_def)
qed

lemma spec_revoked_mono: "x \<in> snd m \<Longrightarrow> x \<in> snd (fold spec_step ops m)"
proof (induction ops arbitrary: m)
  case (Cons op ops)
  obtain keys r where m: "m = (keys, r)" by fastforce
  have "x \<in> snd (spec_step op m)" using Cons.prems by (cases op) (auto simp: m insert_identifier_def)
  then show ?case using Cons.IH by simp
qed simp

text \<open>
  Property C39: revocation is final. Once a publisher is revoked, no sequence of later keyring
  operations, not even adding the publisher again with another key, makes any payload of that
  publisher verify, whatever the signature and whatever \<open>ed25519.Verify\<close> answers.
\<close>

theorem revocation_final:
  assumes "keyring_Validate k = None" and "is_identifier publisher"
  shows "VerifyPublisherSignature verify payload signature publisher (fold keyring_step ops (fst (Revoke publisher k)))
    = Some (Err ''publisher key is revoked'' [])"
proof -
  let ?k = "fst (Revoke publisher k)"
  have ok: "keyring_ok ?k" and r: "publisher \<in> set (k_Revoked ?k)"
    using revoked.insert_valid [of k publisher] revoked.insert_members [of k publisher] assms
    by (simp_all add: keyring_ok_def insert_identifier_def)
  from r have "publisher \<in> snd (keyring_abs (fold keyring_step ops ?k))"
    using keyring_run_refines [OF ok, of ops] spec_revoked_mono [of publisher "keyring_abs ?k" ops]
    by (simp add: keyring_abs_def)
  then show ?thesis by (simp add: VerifyPublisherSignature_def RevokedFor_iff keyring_abs_def)
qed

theorem revocation_final_witness:
  "VerifyPublisherSignature (\<lambda>_ _ _. True) ''x'' (replicate 64 (CHR ''s'')) ''a''
     (fold keyring_step [RemoveKey ''a'', AddKey ''a'' demo_key] (fst (Revoke ''a'' \<lparr>k_Publishers = [], k_Revoked = []\<rparr>)))
   = Some (Err ''publisher key is revoked'' [])"
  by (rule revocation_final) (simp add: keyring_Validate_def, code_simp)

end
