(* ===== verification/GoStrconv.thy ===== *)
theory GoStrconv
  imports GoStrings
begin

section \<open>Decimal numbers (package strconv)\<close>

text \<open>
  \<open>strconv.Atoi\<close> with its result in both failure cases: 0 for text that is no number, and the
  nearest representable 64-bit integer for a number out of range.
\<close>

definition is_digit :: "char \<Rightarrow> bool" where
  "is_digit c \<longleftrightarrow> 48 \<le> byte c \<and> byte c \<le> 57"

definition digit_value :: "char \<Rightarrow> nat" where
  "digit_value c = byte c - 48"

definition dec_value :: "string \<Rightarrow> nat" where
  "dec_value ds = foldl (\<lambda>n d. n * 10 + digit_value d) 0 ds"

definition MaxInt :: int where "MaxInt = 2 ^ 63 - 1"

text \<open>The value, and whether the error is nil.\<close>

definition atoi :: "string \<Rightarrow> int \<times> bool" where
  "atoi s =
     (case (case s of [] \<Rightarrow> (False, s)
            | c # r \<Rightarrow> if c = CHR ''-'' then (True, r) else if c = CHR ''+'' then (False, r) else (False, s))
      of (neg, ds) \<Rightarrow>
        if ds = [] \<or> \<not> list_all is_digit ds then (0, False)
        else if \<not> neg \<and> MaxInt < int (dec_value ds) then (MaxInt, False)
        else if neg \<and> MaxInt + 1 < int (dec_value ds) then (- MaxInt - 1, False)
        else (if neg then - int (dec_value ds) else int (dec_value ds), True))"

lemma is_digit_not_sign: "is_digit c \<Longrightarrow> c \<noteq> CHR ''-'' \<and> c \<noteq> CHR ''+''"
  by (auto simp: is_digit_def)

lemma atoi_digits:
  "ds \<noteq> [] \<Longrightarrow> list_all is_digit ds \<Longrightarrow> fst (atoi ds) = min MaxInt (int (dec_value ds))"
  using is_digit_not_sign by (cases ds) (auto simp: atoi_def Let_def min_def)

end
