(* ===== verification/Packs.thy ===== *)
theory Packs
  imports Engine PackRegistry GoStrconv GoLetters
begin

section \<open>Rule packs (internal/packs: packs, schema, compatibility, compiler, resolver, candidates, fixtures)\<close>

text \<open>
  A pack is a list of rules; a rule maps arguments that match a pattern to a replacement.
  \<open>pack_Validate\<close> and \<open>CheckCompatibility\<close> decide which packs are accepted, \<open>Compile\<close> compiles
  the patterns, and \<open>Resolve\<close> combines several packs. The patterns of a pack are supplied at run
  time, so a compiled pattern is what the code uses of \<open>*regexp.Regexp\<close>: the names of the
  groups and the result of \<open>FindStringSubmatchIndex\<close>; \<open>regexp.Compile\<close> is the parameter
  \<open>re_Compile\<close>. Reading packs from files and JSON is in theory \<open>PackFiles\<close>.
\<close>

subsection \<open>Data\<close>

record Rule =
  r_ID :: string
  r_Command :: string
  r_Pattern :: string
  r_Replacement :: string
  r_PreserveTail :: bool
  r_Cause :: string
  r_Risk :: Risk
  r_RiskRationale :: string

record Pack =
  p_SchemaVersion :: int
  p_ID :: string
  p_Version :: string
  p_Publisher :: string
  p_MinEngineVersion :: string
  p_Capabilities :: "string list"
  p_Rules :: "Rule list"

text \<open>
  A compiled pattern: \<open>SubexpNames()\<close> (entry 0 is the whole match) and
  \<open>FindStringSubmatchIndex\<close>: the byte ranges of the match and its groups, a group that does
  not take part has no range.
\<close>

record Regexp =
  re_SubexpNames :: "string list"
  re_FindStringSubmatchIndex :: "string \<Rightarrow> (nat \<times> nat) option list option"

type_synonym regexp_Compile = "string \<Rightarrow> Regexp result"

definition re_NumSubexp :: "Regexp \<Rightarrow> nat" where
  "re_NumSubexp re = length (re_SubexpNames re) - 1"

definition re_MatchString :: "Regexp \<Rightarrow> string \<Rightarrow> bool" where
  "re_MatchString re v \<longleftrightarrow> re_FindStringSubmatchIndex re v \<noteq> None"

record CompiledRule =
  cr_Rule :: Rule
  cr_pattern :: Regexp

record CompiledPack =
  cp_Pack :: Pack
  cp_Rules :: "CompiledRule list"

subsection \<open>Schema (schema.go)\<close>

definition SchemaVersionV1 :: int where "SchemaVersionV1 = 1"

record Compatibility =
  co_SchemaVersion :: int
  co_Compatible :: bool

definition SchemaCompatibility :: "int \<Rightarrow> Compatibility" where
  "SchemaCompatibility version = \<lparr>co_SchemaVersion = version, co_Compatible = (version = SchemaVersionV1)\<rparr>"

definition ValidateSchemaCompatibility :: "int \<Rightarrow> go_error option" where
  "ValidateSchemaCompatibility version =
     (if co_Compatible (SchemaCompatibility version) then None
      else if version < SchemaVersionV1 then Some (Err ''unsupported legacy schema version %d'' [itoa version])
      else Some (Err ''unsupported future schema version %d'' [itoa version]))"

subsection \<open>Templates (packs.go)\<close>

definition bidi_control :: "rune \<Rightarrow> bool" where
  "bidi_control r \<longleftrightarrow> r = 0x061C \<or> 0x200E \<le> r \<and> r \<le> 0x200F \<or> 0x202A \<le> r \<and> r \<le> 0x202E \<or> 0x2066 \<le> r \<and> r \<le> 0x2069"

definition template_forbidden :: string where
  "template_forbidden = [CHR 0x27, CHR 0x22, CHR 0x5C, CHR 0x60] @ '';&|<>()*?[]{}'' @ [CHR 0x0D, CHR 0x0A]"

definition safeTransformationTemplate :: "string \<Rightarrow> bool" where
  "safeTransformationTemplate value \<longleftrightarrow>
     \<not> (\<not> valid_utf8 value \<or> containsAny value template_forbidden) \<and>
     list_all (\<lambda>r. \<not> (unicode_IsControl r \<or> bidi_control r)) (runes value)"

text \<open>
  The inner loop of \<open>validateTransformationTemplate\<close>: reads the digits of a capture reference,
  \<open>None\<close> if it exceeds the number of captures; otherwise what follows the digits.
\<close>

fun capture_loop :: "nat \<Rightarrow> nat \<Rightarrow> string \<Rightarrow> string option" where
  "capture_loop captures capture [] = Some []"
| "capture_loop captures capture (d # rest) =
     (if \<not> is_digit d then Some (d # rest)
      else if captures div 10 < capture \<or> capture = captures div 10 \<and> captures mod 10 < digit_value d then None
      else capture_loop captures (capture * 10 + digit_value d) rest)"

lemma capture_loop_length: "capture_loop n c s = Some rest \<Longrightarrow> length rest \<le> length s"
  by (induction n c s rule: capture_loop.induct) (auto split: if_splits)

function validateTransformationTemplate :: "string \<Rightarrow> nat \<Rightarrow> go_error option" where
  "validateTransformationTemplate template captures =
     (case template of
        [] \<Rightarrow> None
      | c # rest \<Rightarrow>
          if c \<noteq> CHR ''$'' then validateTransformationTemplate rest captures
          else (case rest of
             [] \<Rightarrow> Some (Err ''transformation template ends with $'' [])
           | d # rest' \<Rightarrow>
               if d = CHR ''$'' then validateTransformationTemplate rest' captures
               else if byte d < 49 \<or> 57 < byte d
               then Some (Err ''transformation template only permits numeric capture references'' [])
               else (case capture_loop captures 0 rest of
                  None \<Rightarrow> Some (Err ''transformation template references unavailable capture'' [])
                | Some after \<Rightarrow> validateTransformationTemplate after captures)))"
  by pat_completeness auto
termination
  by (relation "measure (\<lambda>(template, captures). length template)") (auto dest!: capture_loop_length simp del: capture_loop.simps)

declare validateTransformationTemplate.simps [simp del]

definition validateExplanationTemplate :: "string \<Rightarrow> nat \<Rightarrow> go_error option" where
  "validateExplanationTemplate template captures =
     (if 512 < length template \<or> \<not> valid_utf8 template then Some (Err ''explanation template exceeds limits'' [])
      else if list_ex unicode_IsControl (runes template) then Some (Err ''explanation template contains control characters'' [])
      else validateTransformationTemplate template captures)"

definition validateRiskMetadata :: "Rule \<Rightarrow> go_error option" where
  "validateRiskMetadata rule =
     (if r_RiskRationale rule = [] then Some (Err ''risk rationale is required'' [])
      else validateExplanationTemplate (r_RiskRationale rule) 0)"

subsection \<open>Versions (compatibility.go)\<close>

definition EngineVersion :: string where "EngineVersion = ''1.0.0''"

definition supportedCapabilities :: "string list" where
  "supportedCapabilities = [''matcher-v1'', ''transformation-v1'', ''explanation-v1'', ''risk-v1'']"

definition splitVersion :: "string \<Rightarrow> string \<times> string" where
  "splitVersion value =
     (case strings_Cut value CHR ''+'' of (value, _) \<Rightarrow>
      case strings_Cut value CHR ''-'' of (core, prerelease, _) \<Rightarrow> (core, prerelease))"

fun compare_parts :: "string list \<Rightarrow> string list \<Rightarrow> int" where
  "compare_parts (l # ls) (r # rs) =
     (case atoi l of (lv, lok) \<Rightarrow> case atoi r of (rv, rok) \<Rightarrow>
        if lok \<and> rok then (if lv < rv then -1 else if rv < lv then 1 else compare_parts ls rs)
        else if lok then -1
        else if rok then 1
        else if lv < rv then -1
        else if rv < lv then 1
        else compare_parts ls rs)"
| "compare_parts [] [] = 0"
| "compare_parts [] (r # rs) = -1"
| "compare_parts (l # ls) [] = 1"

definition comparePrerelease :: "string \<Rightarrow> string \<Rightarrow> int" where
  "comparePrerelease left right =
     (if left = [] \<and> right \<noteq> [] then 1
      else if left \<noteq> [] \<and> right = [] then -1
      else compare_parts (strings_Split left CHR ''.'') (strings_Split right CHR ''.''))"

text \<open>
  The loop of \<open>compareVersion\<close> over the core numbers, \<open>Some None\<close> when it falls through to the
  prerelease; the outer \<open>None\<close> is the panic of \<open>rightParts[index]\<close> out of range.
\<close>

fun compare_core :: "string list \<Rightarrow> string list \<Rightarrow> int option option" where
  "compare_core [] rs = Some None"
| "compare_core (l # ls) [] = None"
| "compare_core (l # ls) (r # rs) =
     (if fst (atoi l) < fst (atoi r) then Some (Some (-1))
      else if fst (atoi r) < fst (atoi l) then Some (Some 1)
      else compare_core ls rs)"

definition compareVersion :: "string \<Rightarrow> string \<Rightarrow> int option" where
  "compareVersion left right =
     (case splitVersion left of (leftCore, leftPre) \<Rightarrow> case splitVersion right of (rightCore, rightPre) \<Rightarrow>
        case compare_core (strings_Split leftCore CHR ''.'') (strings_Split rightCore CHR ''.'') of
          None \<Rightarrow> None
        | Some (Some c) \<Rightarrow> Some c
        | Some None \<Rightarrow> Some (comparePrerelease leftPre rightPre))"

fun capabilities_loop :: "string list \<Rightarrow> string list \<Rightarrow> go_error option" where
  "capabilities_loop seen [] = None"
| "capabilities_loop seen (c # cs) =
     (if \<not> is_identifier c then Some (Err ''invalid capability %q'' [c])
      else if c \<in> set seen then Some (Err ''duplicate capability %q'' [c])
      else capabilities_loop (c # seen) cs)"

definition validateCompatibilityMetadata :: "Pack \<Rightarrow> go_error option" where
  "validateCompatibilityMetadata p =
     (if p_MinEngineVersion p \<noteq> [] \<and> \<not> semanticVersion (p_MinEngineVersion p)
      then Some (Err ''minimum engine version must be semantic'' [])
      else capabilities_loop [] (p_Capabilities p))"

subsection \<open>Validation (packs.go)\<close>

definition wrap_rule :: "Rule \<Rightarrow> go_error \<Rightarrow> go_error" where
  "wrap_rule rule e = Wrap ''rule %q: %w'' [r_ID rule] e"

definition rule_metadata :: "Rule \<Rightarrow> Regexp \<Rightarrow> go_error option" where
  "rule_metadata rule pattern =
     (case validateTransformationTemplate (r_Replacement rule) (re_NumSubexp pattern) of Some e \<Rightarrow> Some (wrap_rule rule e) | None \<Rightarrow>
      case validateExplanationTemplate (r_Cause rule) (re_NumSubexp pattern) of Some e \<Rightarrow> Some (wrap_rule rule e) | None \<Rightarrow>
      if r_Risk rule \<noteq> RiskSafe \<and> r_Risk rule \<noteq> RiskHigh \<and> r_Risk rule \<noteq> RiskUnknown
      then Some (Err ''rule %q has invalid risk'' [r_ID rule])
      else if r_PreserveTail rule \<and> r_Risk rule \<noteq> RiskHigh
      then Some (Err ''rule %q: preserve_tail requires high risk'' [r_ID rule])
      else case validateRiskMetadata rule of Some e \<Rightarrow> Some (wrap_rule rule e) | None \<Rightarrow> None)"

fun rules_loop :: "regexp_Compile \<Rightarrow> string list \<Rightarrow> Rule list \<Rightarrow> go_error option" where
  "rules_loop re_Compile seen [] = None"
| "rules_loop re_Compile seen (rule # rules) =
     (if \<not> is_identifier (r_ID rule) \<or> r_Command rule = [] \<or> r_Pattern rule = [] \<or> r_Replacement rule = [] \<or> r_Cause rule = []
      then Some (Err ''invalid rule %q'' [r_ID rule])
      else if \<not> safeTransformationTemplate (r_Replacement rule)
      then Some (Err ''rule %q: transformation contains unsupported shell syntax'' [r_ID rule])
      else if r_ID rule \<in> set seen then Some (Err ''duplicate rule %q'' [r_ID rule])
      else case re_Compile (r_Pattern rule) of
        Inl e \<Rightarrow> Some (wrap_rule rule e)
      | Inr pattern \<Rightarrow>
          (case rule_metadata rule pattern of Some e \<Rightarrow> Some e
           | None \<Rightarrow> rules_loop re_Compile (r_ID rule # seen) rules))"

definition pack_Validate :: "regexp_Compile \<Rightarrow> Pack \<Rightarrow> go_error option" where
  "pack_Validate re_Compile p =
     (case ValidateSchemaCompatibility (p_SchemaVersion p) of Some e \<Rightarrow> Some e | None \<Rightarrow>
      if \<not> is_identifier (p_ID p) \<or> \<not> semanticVersion (p_Version p) \<or> \<not> is_identifier (p_Publisher p)
      then Some (Err ''id and publisher must be lowercase kebab identifiers; version must be semantic'' [])
      else case validateCompatibilityMetadata p of Some e \<Rightarrow> Some e | None \<Rightarrow>
        if p_Rules p = [] then Some (Err ''pack must contain at least one rule'' [])
        else rules_loop re_Compile [] (p_Rules p))"

text \<open>\<open>CheckCompatibility\<close>; a panic of \<open>compareVersion\<close> is the error \<open>index_panic\<close>.\<close>

definition index_panic :: go_error where "index_panic = Err ''runtime error: index out of range'' []"

definition CheckCompatibility :: "regexp_Compile \<Rightarrow> Pack \<Rightarrow> string \<Rightarrow> go_error option" where
  "CheckCompatibility re_Compile p engineVersion =
     (case pack_Validate re_Compile p of Some e \<Rightarrow> Some e | None \<Rightarrow>
      if \<not> semanticVersion engineVersion then Some (Err ''invalid engine version %q'' [engineVersion])
      else case (if p_MinEngineVersion p \<noteq> [] then compareVersion engineVersion (p_MinEngineVersion p) else Some 0) of
        None \<Rightarrow> Some index_panic
      | Some order \<Rightarrow>
          if order < 0 then Some (Err ''pack requires engine version %s'' [p_MinEngineVersion p])
          else (case find (\<lambda>c. c \<notin> set supportedCapabilities) (p_Capabilities p) of
                  Some c \<Rightarrow> Some (Err ''unsupported pack capability %q'' [c]) | None \<Rightarrow> None))"

subsection \<open>Compiling and resolving (compiler.go, resolver.go)\<close>

fun compile_rules :: "regexp_Compile \<Rightarrow> Rule list \<Rightarrow> CompiledRule list result" where
  "compile_rules re_Compile [] = Inr []"
| "compile_rules re_Compile (rule # rules) =
     (case re_Compile (r_Pattern rule) of Inl e \<Rightarrow> Inl e | Inr pattern \<Rightarrow>
        map_sum (\<lambda>e. e) ((#) \<lparr>cr_Rule = rule, cr_pattern = pattern\<rparr>) (compile_rules re_Compile rules))"

definition Compile :: "regexp_Compile \<Rightarrow> Pack \<Rightarrow> CompiledPack result" where
  "Compile re_Compile pack =
     (case CheckCompatibility re_Compile pack EngineVersion of Some e \<Rightarrow> Inl e | None \<Rightarrow>
      map_sum (\<lambda>e. e) (\<lambda>rules. \<lparr>cp_Pack = pack, cp_Rules = rules\<rparr>) (compile_rules re_Compile (p_Rules pack)))"

text \<open>
  The observations of a context: what its \<open>Err()\<close> returns at the n-th call, as in the engine.
  The answer carries the number of calls made so far.
\<close>

type_synonym context_errs = "nat \<Rightarrow> go_error option"

fun match_rules :: "context_errs \<Rightarrow> CompiledRule list \<Rightarrow> string \<Rightarrow> string \<Rightarrow> nat \<Rightarrow> Rule option result \<times> nat" where
  "match_rules ctx [] command value polls = (Inr None, polls)"
| "match_rules ctx (rule # rules) command value polls =
     (case ctx polls of Some e \<Rightarrow> (Inl e, polls + 1) | None \<Rightarrow>
      if r_Command (cr_Rule rule) = command \<and> re_MatchString (cr_pattern rule) value
      then (case ctx (polls + 1) of Some e \<Rightarrow> (Inl e, polls + 2) | None \<Rightarrow> (Inr (Some (cr_Rule rule)), polls + 2))
      else match_rules ctx rules command value (polls + 1))"

definition MatchContext :: "context_errs \<Rightarrow> CompiledPack \<Rightarrow> string \<Rightarrow> string \<Rightarrow> nat \<Rightarrow> Rule option result \<times> nat" where
  "MatchContext ctx p command value polls = match_rules ctx (cp_Rules p) command value polls"

text \<open>\<open>context.Background()\<close> is never done.\<close>

definition pack_Match :: "CompiledPack \<Rightarrow> string \<Rightarrow> string \<Rightarrow> Rule option" where
  "pack_Match p command value =
     (case fst (MatchContext (\<lambda>_. None) p command value 0) of Inl _ \<Rightarrow> None | Inr answer \<Rightarrow> answer)"

fun matchers_loop :: "string \<Rightarrow> (string \<times> string) list \<Rightarrow> CompiledRule list \<Rightarrow> (string \<times> string) list result" where
  "matchers_loop packID seen [] = Inr seen"
| "matchers_loop packID seen (rule # rules) =
     (case r_Command (cr_Rule rule) @ [CHR 0x00] @ r_Pattern (cr_Rule rule) of signature \<Rightarrow>
      case map_of seen signature of
        Some previous \<Rightarrow> Inl (Err ''matcher conflict between %s and %s/%s'' [previous, packID, r_ID (cr_Rule rule)])
      | None \<Rightarrow> matchers_loop packID ((signature, packID @ ''/'' @ r_ID (cr_Rule rule)) # seen) rules)"

fun resolve_loop :: "regexp_Compile \<Rightarrow> string list \<Rightarrow> (string \<times> string) list \<Rightarrow> Pack list \<Rightarrow> CompiledPack list result" where
  "resolve_loop re_Compile seenPacks seenMatchers [] = Inr []"
| "resolve_loop re_Compile seenPacks seenMatchers (pack # packs) =
     (if p_ID pack \<in> set seenPacks then Inl (Err ''duplicate pack id %q'' [p_ID pack])
      else case Compile re_Compile pack of Inl e \<Rightarrow> Inl e | Inr compiled \<Rightarrow>
        (case matchers_loop (p_ID pack) seenMatchers (cp_Rules compiled) of Inl e \<Rightarrow> Inl e | Inr seen \<Rightarrow>
           map_sum (\<lambda>e. e) ((#) compiled) (resolve_loop re_Compile (p_ID pack # seenPacks) seen packs)))"

definition Resolve :: "regexp_Compile \<Rightarrow> Pack list \<Rightarrow> CompiledPack list result" where
  "Resolve re_Compile packs = resolve_loop re_Compile [] [] (sort_key p_ID packs)"

subsection \<open>Command candidates and fixtures (candidates.go, fixtures.go)\<close>

record CommandCandidate =
  cc_ID :: string
  cc_Command :: string
  cc_Replacement :: string

record CommandCandidateCorpus =
  ccc_SchemaVersion :: int
  ccc_Candidates :: "CommandCandidate list"

definition CandidateCorpusSchemaVersionV1 :: int where "CandidateCorpusSchemaVersionV1 = 1"

fun candidates_loop :: "string list \<Rightarrow> CommandCandidate list \<Rightarrow> go_error option" where
  "candidates_loop seen [] = None"
| "candidates_loop seen (c # cs) =
     (if \<not> is_identifier (cc_ID c) \<or> \<not> is_identifier (cc_Command c) \<or> \<not> is_identifier (cc_Replacement c) \<or>
         cc_Command c = cc_Replacement c
      then Some (Err ''invalid command candidate %q'' [cc_ID c])
      else if cc_ID c \<in> set seen then Some (Err ''duplicate command candidate %q'' [cc_ID c])
      else candidates_loop (cc_ID c # seen) cs)"

definition corpus_Validate :: "CommandCandidateCorpus \<Rightarrow> go_error option" where
  "corpus_Validate c =
     (if ccc_SchemaVersion c \<noteq> CandidateCorpusSchemaVersionV1
      then Some (Err ''unsupported command candidate corpus schema version %d'' [itoa (ccc_SchemaVersion c)])
      else if ccc_Candidates c = [] then Some (Err ''command candidate corpus must contain at least one candidate'' [])
      else candidates_loop [] (ccc_Candidates c))"

fun run_candidates :: "(string \<Rightarrow> string \<times> bool) \<Rightarrow> CommandCandidate list \<Rightarrow> go_error option" where
  "run_candidates resolve [] = None"
| "run_candidates resolve (c # cs) =
     (case resolve (cc_Command c) of (actual, matched) \<Rightarrow>
        if \<not> matched \<or> actual \<noteq> cc_Replacement c
        then Some (Err ''command candidate %q resolved to %q, want %q'' [cc_ID c, actual, cc_Replacement c])
        else run_candidates resolve cs)"

definition RunCommandCandidateCorpus :: "CommandCandidateCorpus \<Rightarrow> (string \<Rightarrow> string \<times> bool) option \<Rightarrow> go_error option" where
  "RunCommandCandidateCorpus corpus resolve =
     (case corpus_Validate corpus of Some e \<Rightarrow> Some e | None \<Rightarrow>
      case resolve of None \<Rightarrow> Some (Err ''missing command candidate resolver'' [])
      | Some f \<Rightarrow> run_candidates f (ccc_Candidates corpus))"

record FixtureCase =
  fc_ID :: string
  fc_Command :: string
  fc_Input :: string
  fc_RuleID :: string

record Fixture =
  fx_SchemaVersion :: int
  fx_Cases :: "FixtureCase list"

definition FixtureSchemaVersionV1 :: int where "FixtureSchemaVersionV1 = 1"

fun cases_loop :: "string list \<Rightarrow> FixtureCase list \<Rightarrow> go_error option" where
  "cases_loop seen [] = None"
| "cases_loop seen (c # cs) =
     (if \<not> is_identifier (fc_ID c) \<or> fc_Command c = [] then Some (Err ''invalid fixture case %q'' [fc_ID c])
      else if fc_ID c \<in> set seen then Some (Err ''duplicate fixture case %q'' [fc_ID c])
      else cases_loop (fc_ID c # seen) cs)"

definition fixture_Validate :: "Fixture \<Rightarrow> go_error option" where
  "fixture_Validate f =
     (if fx_SchemaVersion f \<noteq> FixtureSchemaVersionV1
      then Some (Err ''unsupported fixture schema version %d'' [itoa (fx_SchemaVersion f)])
      else if fx_Cases f = [] then Some (Err ''fixture must contain at least one case'' [])
      else cases_loop [] (fx_Cases f))"

text \<open>The inner loop of \<open>RunFixtureCorpus\<close>: an error, or the identifiers seen so far.\<close>

fun run_cases :: "CompiledPack \<Rightarrow> string list \<Rightarrow> FixtureCase list \<Rightarrow> string list result" where
  "run_cases compiled seen [] = Inr seen"
| "run_cases compiled seen (test # tests) =
     (if fc_ID test \<in> set seen then Inl (Err ''duplicate fixture case %q'' [fc_ID test])
      else case (case pack_Match compiled (fc_Command test) (fc_Input test) of None \<Rightarrow> [] | Some rule \<Rightarrow> r_ID rule) of actual \<Rightarrow>
        if actual \<noteq> fc_RuleID test
        then Inl (Err ''fixture case %q matched %q, want %q'' [fc_ID test, actual, fc_RuleID test])
        else run_cases compiled (fc_ID test # seen) tests)"

fun run_fixtures :: "CompiledPack \<Rightarrow> string list \<Rightarrow> Fixture list \<Rightarrow> go_error option" where
  "run_fixtures compiled seen [] = None"
| "run_fixtures compiled seen (fixture # fixtures) =
     (case fixture_Validate fixture of Some e \<Rightarrow> Some e | None \<Rightarrow>
      case run_cases compiled seen (fx_Cases fixture) of Inl e \<Rightarrow> Some e | Inr seen' \<Rightarrow> run_fixtures compiled seen' fixtures)"

definition RunFixtureCorpus :: "regexp_Compile \<Rightarrow> Pack \<Rightarrow> Fixture list \<Rightarrow> go_error option" where
  "RunFixtureCorpus re_Compile pack fixtures =
     (if fixtures = [] then Some (Err ''fixture corpus must contain at least one fixture'' [])
      else case Compile re_Compile pack of Inl e \<Rightarrow> Some e | Inr compiled \<Rightarrow> run_fixtures compiled [] fixtures)"

definition RunFixture :: "regexp_Compile \<Rightarrow> Pack \<Rightarrow> Fixture \<Rightarrow> go_error option" where
  "RunFixture re_Compile pack fixture = RunFixtureCorpus re_Compile pack [fixture]"

end
