(* ===== verification/PackProps.thy ===== *)
theory PackProps
  imports Packs
begin

section \<open>Which packs are accepted\<close>

text \<open>
  Declarative specifications of the templates and the packs that the loops of \<open>Packs\<close> accept,
  the equivalence of the loops with them, what \<open>Resolve\<close> returns, and the order on versions.
\<close>

subsection \<open>Templates\<close>

inductive template_ok :: "nat \<Rightarrow> string \<Rightarrow> bool" where
  template_end: "template_ok n []"
| template_literal: "c \<noteq> CHR ''$'' \<Longrightarrow> template_ok n t \<Longrightarrow> template_ok n (c # t)"
| template_dollar: "template_ok n t \<Longrightarrow> template_ok n (CHR ''$'' # CHR ''$'' # t)"
| template_capture: "ds \<noteq> [] \<Longrightarrow> list_all is_digit ds \<Longrightarrow> hd ds \<noteq> CHR ''0'' \<Longrightarrow> dec_value ds \<le> n \<Longrightarrow>
    t = [] \<or> \<not> is_digit (hd t) \<Longrightarrow> template_ok n t \<Longrightarrow> template_ok n (CHR ''$'' # ds @ t)"

inductive_cases template_consE: "template_ok n (c # t)"

abbreviation push_digit :: "nat \<Rightarrow> char \<Rightarrow> nat" where
  "push_digit n d \<equiv> n * 10 + digit_value d"

lemma foldl_digits_ge: "c \<le> foldl push_digit c ds"
proof (induction ds arbitrary: c)
  case (Cons d ds)
  from Cons.IH [of "push_digit c d"] show ?case by simp
qed simp

lemma digit_value_le: "is_digit d \<Longrightarrow> digit_value d \<le> 9"
  by (auto simp: is_digit_def digit_value_def)

lemma overflow_guard:
  assumes "v \<le> 9"
  shows "\<not> ((n::nat) div 10 < c \<or> c = n div 10 \<and> n mod 10 < v) \<longleftrightarrow> c * 10 + v \<le> n"
proof -
  obtain q r where n: "n = 10 * q + r" "r < 10" "n div 10 = q" "n mod 10 = r"
    using mult_div_mod_eq [of 10 n] by (metis mod_less_divisor zero_less_numeral)
  consider "c < q" | "c = q" | "q < c" by linarith
  then show ?thesis by cases (use n assms in auto)
qed

text \<open>The guard against overflow in the digit loop is exact.\<close>

lemma capture_loop_spec:
  "c \<le> n \<Longrightarrow> capture_loop n c s =
     (if foldl push_digit c (takeWhile is_digit s) \<le> n then Some (dropWhile is_digit s) else None)"
proof (induction n c s rule: capture_loop.induct)
  case (2 n c d rest)
  show ?case
  proof (cases "is_digit d")
    case True
    note guard = overflow_guard [OF digit_value_le [OF True], of n c]
    show ?thesis
    proof (cases "push_digit c d \<le> n")
      case True
      with guard have g: "\<not> (n div 10 < c \<or> c = n div 10 \<and> n mod 10 < digit_value d)" by blast
      note ih = "2.IH" [OF _ g True]
      show ?thesis using \<open>is_digit d\<close> g by (simp add: ih del: de_Morgan_disj)
    next
      case False
      with foldl_digits_ge [of "push_digit c d" "takeWhile is_digit rest"] \<open>is_digit d\<close> guard show ?thesis by auto
    qed
  qed (use "2.prems" in simp)
qed simp

lemma digit_nonzero: "byte d < 49 \<or> 57 < byte d \<longleftrightarrow> \<not> (is_digit d \<and> d \<noteq> CHR ''0'')"
proof -
  have "d = CHR ''0'' \<longleftrightarrow> byte d = byte (CHR ''0'')" by (simp only: of_char_eq_iff)
  then show ?thesis by (auto simp: is_digit_def)
qed

text \<open>The equations of the template loop, case by case.\<close>

lemma template_eqs:
  "validateTransformationTemplate [] n = None"
  "c \<noteq> CHR ''$'' \<Longrightarrow> validateTransformationTemplate (c # t) n = validateTransformationTemplate t n"
  "validateTransformationTemplate [CHR ''$''] n \<noteq> None"
  "validateTransformationTemplate (CHR ''$'' # CHR ''$'' # t) n = validateTransformationTemplate t n"
  "d \<noteq> CHR ''$'' \<Longrightarrow> \<not> (is_digit d \<and> d \<noteq> CHR ''0'') \<Longrightarrow> validateTransformationTemplate (CHR ''$'' # d # t) n \<noteq> None"
  "is_digit d \<Longrightarrow> d \<noteq> CHR ''0'' \<Longrightarrow> validateTransformationTemplate (CHR ''$'' # d # t) n = None \<longleftrightarrow>
     (\<exists>rest. capture_loop n 0 (d # t) = Some rest \<and> validateTransformationTemplate rest n = None)"
proof -
  assume d: "is_digit d" "d \<noteq> CHR ''0''"
  then have "\<not> (byte d < 49 \<or> 57 < byte d)" by (simp only: digit_nonzero) simp
  moreover from d have "d \<noteq> CHR ''$''" by (auto simp: is_digit_def)
  ultimately show "validateTransformationTemplate (CHR ''$'' # d # t) n = None \<longleftrightarrow>
     (\<exists>rest. capture_loop n 0 (d # t) = Some rest \<and> validateTransformationTemplate rest n = None)"
    by (subst validateTransformationTemplate.simps) (simp del: capture_loop.simps split: option.split)
qed (subst validateTransformationTemplate.simps, simp add: digit_nonzero del: capture_loop.simps)+

lemma digits_dropWhile:
  assumes "list_all is_digit ds" "t = [] \<or> \<not> is_digit (hd t)"
  shows "takeWhile is_digit (ds @ t) = ds" "dropWhile is_digit (ds @ t) = t"
proof -
  have "takeWhile is_digit t = []" "dropWhile is_digit t = t" using assms(2) by (cases t; simp)+
  with assms(1) show "takeWhile is_digit (ds @ t) = ds" "dropWhile is_digit (ds @ t) = t"
    by (simp_all add: list_all_iff)
qed

lemma template_loop_sound: "validateTransformationTemplate t n = None \<Longrightarrow> template_ok n t"
proof (induction t rule: length_induct)
  case (1 t)
  consider "t = []" | c rest where "t = c # rest" "c \<noteq> CHR ''$''" | "t = [CHR ''$'']"
    | rest where "t = CHR ''$'' # CHR ''$'' # rest" | d rest where "t = CHR ''$'' # d # rest" "d \<noteq> CHR ''$''"
    by (metis neq_Nil_conv)
  then show ?case
  proof cases
    case (5 d rest)
    let ?ds = "takeWhile is_digit (d # rest)" let ?after = "dropWhile is_digit (d # rest)"
    have d: "is_digit d" "d \<noteq> CHR ''0''" using "1.prems" 5 template_eqs(5) [of d rest n] by auto
    then have cap: "foldl push_digit 0 ?ds \<le> n" "validateTransformationTemplate ?after n = None"
      using "1.prems" 5 capture_loop_spec [of 0 n "d # rest"]
      by (auto simp: template_eqs(6) simp del: capture_loop.simps split: if_splits)
    have "template_ok n ?after" using "1.IH" cap(2) 5(1) d
      by (metis dropWhile.simps(2) le_imp_less_Suc length_Cons length_dropWhile_le less_SucI)
    moreover have "?after = [] \<or> \<not> is_digit (hd ?after)" using hd_dropWhile by blast
    moreover have "hd ?ds \<noteq> CHR ''0''" "?ds \<noteq> []" using d by simp_all
    ultimately have "template_ok n (CHR ''$'' # ?ds @ ?after)"
      using cap by (intro template_capture) (auto simp: dec_value_def list_all_iff dest: set_takeWhileD)
    then show ?thesis unfolding takeWhile_dropWhile_id 5(1) .
  qed (use 1 template_eqs in \<open>auto intro: template_ok.intros\<close>)
qed

lemma template_loop_complete: "template_ok n t \<Longrightarrow> validateTransformationTemplate t n = None"
proof (induction rule: template_ok.induct)
  case (template_capture ds n t)
  then obtain d ds' where ds: "ds = d # ds'" "is_digit d" "d \<noteq> CHR ''0''" by (cases ds) auto
  have "capture_loop n 0 (ds @ t) = Some t"
    using template_capture digits_dropWhile [of ds t] capture_loop_spec [of 0 n "ds @ t"] by (simp add: dec_value_def)
  with ds template_capture.IH show ?case by (simp add: template_eqs(6) del: capture_loop.simps)
qed (simp_all add: template_eqs)

lemma template_iff: "validateTransformationTemplate t n = None \<longleftrightarrow> template_ok n t"
  using template_loop_sound template_loop_complete by blast

subsection \<open>Packs\<close>

text \<open>\<open>if err := x; err != nil { return f(err) }; rest\<close> succeeds if both parts do.\<close>

lemma error_then_None [simp]: "(case x of None \<Rightarrow> y | Some e \<Rightarrow> Some (f e)) = None \<longleftrightarrow> x = None \<and> y = None"
  by (cases x) simp_all

definition explanation_ok :: "nat \<Rightarrow> string \<Rightarrow> bool" where
  "explanation_ok n t \<longleftrightarrow> length t \<le> 512 \<and> valid_utf8 t \<and> (\<forall>r \<in> set (runes t). \<not> unicode_IsControl r) \<and> template_ok n t"

text \<open>A rule that may be used: everything a reviewer of a pack file would have to check.\<close>

definition rule_ok :: "regexp_Compile \<Rightarrow> Rule \<Rightarrow> bool" where
  "rule_ok re_Compile rule \<longleftrightarrow>
     is_identifier (r_ID rule) \<and> r_Command rule \<noteq> [] \<and> r_Pattern rule \<noteq> [] \<and> r_Replacement rule \<noteq> [] \<and> r_Cause rule \<noteq> [] \<and>
     safeTransformationTemplate (r_Replacement rule) \<and>
     (\<exists>pattern. re_Compile (r_Pattern rule) = Inr pattern \<and>
        template_ok (re_NumSubexp pattern) (r_Replacement rule) \<and> explanation_ok (re_NumSubexp pattern) (r_Cause rule)) \<and>
     validRisk (r_Risk rule) \<and> (r_PreserveTail rule \<longrightarrow> r_Risk rule = RiskHigh) \<and>
     r_RiskRationale rule \<noteq> [] \<and> explanation_ok 0 (r_RiskRationale rule)"

definition pack_ok :: "regexp_Compile \<Rightarrow> Pack \<Rightarrow> bool" where
  "pack_ok re_Compile p \<longleftrightarrow>
     p_SchemaVersion p = 1 \<and> is_identifier (p_ID p) \<and> semanticVersion (p_Version p) \<and> is_identifier (p_Publisher p) \<and>
     (p_MinEngineVersion p \<noteq> [] \<longrightarrow> semanticVersion (p_MinEngineVersion p) \<and>
        (\<exists>order. compareVersion ''1.0.0'' (p_MinEngineVersion p) = Some order \<and> 0 \<le> order)) \<and>
     distinct (p_Capabilities p) \<and> set (p_Capabilities p) \<subseteq> set supportedCapabilities \<and>
     p_Rules p \<noteq> [] \<and> distinct (map r_ID (p_Rules p)) \<and> (\<forall>rule \<in> set (p_Rules p). rule_ok re_Compile rule)"

lemma explanation_iff: "validateExplanationTemplate t n = None \<longleftrightarrow> explanation_ok n t"
  by (auto simp: validateExplanationTemplate_def explanation_ok_def template_iff list_ex_iff not_less)

lemma rule_metadata_iff:
  "rule_metadata rule pattern = None \<longleftrightarrow>
     template_ok (re_NumSubexp pattern) (r_Replacement rule) \<and> explanation_ok (re_NumSubexp pattern) (r_Cause rule) \<and>
     validRisk (r_Risk rule) \<and> (r_PreserveTail rule \<longrightarrow> r_Risk rule = RiskHigh) \<and>
     r_RiskRationale rule \<noteq> [] \<and> explanation_ok 0 (r_RiskRationale rule)"
proof -
  have "validateRiskMetadata rule = None \<longleftrightarrow> r_RiskRationale rule \<noteq> [] \<and> explanation_ok 0 (r_RiskRationale rule)"
    by (simp add: validateRiskMetadata_def explanation_iff)
  then show ?thesis
    unfolding rule_metadata_def template_iff [symmetric] explanation_iff [symmetric] validRisk_def
    by auto
qed

lemma rules_loop_iff:
  "rules_loop re seen rules = None \<longleftrightarrow>
     distinct (map r_ID rules) \<and> set (map r_ID rules) \<inter> set seen = {} \<and> (\<forall>rule \<in> set rules. rule_ok re rule)"
proof (induction rules arbitrary: seen)
  case (Cons rule rules)
  show ?case
  proof (cases "re (r_Pattern rule)")
    case (Inl e)
    then have "\<not> rule_ok re rule" by (simp add: rule_ok_def)
    with Inl show ?thesis by simp
  next
    case (Inr pattern)
    have "rule_ok re rule \<longleftrightarrow> is_identifier (r_ID rule) \<and> r_Command rule \<noteq> [] \<and> r_Pattern rule \<noteq> [] \<and> r_Replacement rule \<noteq> [] \<and>
        r_Cause rule \<noteq> [] \<and> safeTransformationTemplate (r_Replacement rule) \<and> rule_metadata rule pattern = None"
      by (auto simp: rule_ok_def rule_metadata_iff Inr)
    with Inr Cons.IH [of "r_ID rule # seen"] show ?thesis by (auto split: option.splits)
  qed
qed simp

lemma capabilities_loop_iff:
  "capabilities_loop seen cs = None \<longleftrightarrow> distinct cs \<and> set cs \<inter> set seen = {} \<and> (\<forall>c \<in> set cs. is_identifier c)"
proof (induction cs arbitrary: seen)
  case (Cons c cs)
  from Cons.IH [of "c # seen"] show ?case by auto
qed simp

lemma supported_identifiers: "c \<in> set supportedCapabilities \<Longrightarrow> is_identifier c"
proof -
  have "list_all is_identifier supportedCapabilities" by code_simp
  then show "c \<in> set supportedCapabilities \<Longrightarrow> is_identifier c" by (simp add: list_all_iff)
qed

lemma pack_Validate_iff:
  "pack_Validate re p = None \<longleftrightarrow>
     p_SchemaVersion p = 1 \<and> is_identifier (p_ID p) \<and> semanticVersion (p_Version p) \<and> is_identifier (p_Publisher p) \<and>
     (p_MinEngineVersion p \<noteq> [] \<longrightarrow> semanticVersion (p_MinEngineVersion p)) \<and>
     distinct (p_Capabilities p) \<and> (\<forall>c \<in> set (p_Capabilities p). is_identifier c) \<and>
     p_Rules p \<noteq> [] \<and> distinct (map r_ID (p_Rules p)) \<and> (\<forall>rule \<in> set (p_Rules p). rule_ok re rule)"
  unfolding pack_Validate_def ValidateSchemaCompatibility_def SchemaCompatibility_def SchemaVersionV1_def
    validateCompatibilityMetadata_def
  by (auto simp: rules_loop_iff capabilities_loop_iff)

lemma CheckCompatibility_iff: "CheckCompatibility re p EngineVersion = None \<longleftrightarrow> pack_ok re p"
proof -
  have v: "semanticVersion EngineVersion" by code_simp
  let ?order = "if p_MinEngineVersion p \<noteq> [] then compareVersion EngineVersion (p_MinEngineVersion p) else Some 0"
  have "CheckCompatibility re p EngineVersion = None \<longleftrightarrow>
      pack_Validate re p = None \<and> (\<exists>order. ?order = Some order \<and> 0 \<le> order) \<and>
      set (p_Capabilities p) \<subseteq> set supportedCapabilities"
    by (cases ?order) (auto simp: CheckCompatibility_def v find_None_iff simp del: if_not_P split: if_splits)
  moreover have "set (p_Capabilities p) \<subseteq> set supportedCapabilities \<Longrightarrow> \<forall>c \<in> set (p_Capabilities p). is_identifier c"
    using supported_identifiers by blast
  ultimately show ?thesis
    by (auto simp: pack_ok_def pack_Validate_iff EngineVersion_def)
qed

lemma compile_rules_iff:
  "compile_rules re rules = Inr cs \<longleftrightarrow>
     list_all2 (\<lambda>rule c. cr_Rule c = rule \<and> re (r_Pattern rule) = Inr (cr_pattern c)) rules cs"
proof (induction rules arbitrary: cs)
  case (Cons rule rules)
  show ?case
  proof (cases "re (r_Pattern rule)")
    case (Inr pattern)
    show ?thesis
      by (cases "compile_rules re rules"; cases cs) (auto simp: Inr Cons.IH [symmetric])
  qed (auto simp: list_all2_Cons1)
qed auto

lemma compile_rules_ok: "\<forall>rule \<in> set rules. rule_ok re rule \<Longrightarrow> \<exists>cs. compile_rules re rules = Inr cs"
  by (induction rules) (auto simp: rule_ok_def)

lemma Compile_iff:
  "Compile re_Compile p = Inr c \<longleftrightarrow> pack_ok re_Compile p \<and> cp_Pack c = p \<and>
     list_all2 (\<lambda>rule cr. cr_Rule cr = rule \<and> re_Compile (r_Pattern rule) = Inr (cr_pattern cr)) (p_Rules p) (cp_Rules c)"
proof (cases "CheckCompatibility re_Compile p EngineVersion")
  case None
  then have "pack_ok re_Compile p" by (simp add: CheckCompatibility_iff)
  then show ?thesis
    by (cases "compile_rules re_Compile (p_Rules p)"; cases c)
      (auto simp: Compile_def None compile_rules_iff [symmetric])
next
  case (Some e)
  then have "\<not> pack_ok re_Compile p" using CheckCompatibility_iff [of re_Compile p] by auto
  with Some show ?thesis by (simp add: Compile_def)
qed

text \<open>
  Property C37: what compiling a pack accepts. \<open>Compile\<close> returns a compiled pack exactly for the
  packs that are \<open>pack_ok\<close>, and then it is the pack itself with one compiled rule per rule, in
  order, whose pattern is the compiled pattern of that rule. In particular a replacement has no
  shell syntax and refers only to groups its pattern has, and a rule that keeps the tail of a
  command is of high risk.
\<close>

theorem compile_exact:
  "Compile re_Compile p = Inr c \<longleftrightarrow> pack_ok re_Compile p \<and> cp_Pack c = p \<and>
     list_all2 (\<lambda>rule cr. cr_Rule cr = rule \<and> re_Compile (r_Pattern rule) = Inr (cr_pattern cr)) (p_Rules p) (cp_Rules c)"
  by (rule Compile_iff)

subsection \<open>Resolving several packs\<close>

definition rule_matcher :: "CompiledRule \<Rightarrow> string" where
  "rule_matcher r = r_Command (cr_Rule r) @ [CHR 0x00] @ r_Pattern (cr_Rule r)"

lemma map_of_dom: "map_of seen x = None \<longleftrightarrow> x \<notin> set (map fst seen)"
  by (simp add: map_of_eq_None_iff)

definition pack_matchers :: "CompiledRule list \<Rightarrow> string list" where
  "pack_matchers rules = map rule_matcher rules"

definition all_matchers :: "CompiledPack list \<Rightarrow> string list" where
  "all_matchers cs = concat (map (\<lambda>c. pack_matchers (cp_Rules c)) cs)"

definition seen_matchers :: "(string \<times> string) list \<Rightarrow> string set" where
  "seen_matchers seen = set (map fst seen)"

lemma all_matchers_simps [simp]:
  "all_matchers [] = []" "all_matchers (c # cs) = pack_matchers (cp_Rules c) @ all_matchers cs"
  by (simp_all add: all_matchers_def)

lemma matchers_loop_Cons:
  "matchers_loop pid seen (r # rules) =
     (case map_of seen (rule_matcher r) of
        Some previous \<Rightarrow> Inl (Err ''matcher conflict between %s and %s/%s'' [previous, pid, r_ID (cr_Rule r)])
      | None \<Rightarrow> matchers_loop pid ((rule_matcher r, pid @ ''/'' @ r_ID (cr_Rule r)) # seen) rules)"
  unfolding rule_matcher_def matchers_loop.simps by (rule refl)

lemma matchers_loop_iff:
  "(\<exists>seen'. matchers_loop pid seen rules = Inr seen') \<longleftrightarrow>
     distinct (pack_matchers rules) \<and> set (pack_matchers rules) \<inter> seen_matchers seen = {}"
  unfolding pack_matchers_def seen_matchers_def
proof (induction rules arbitrary: seen)
  case (Cons r rules)
  show ?case
  proof (cases "map_of seen (rule_matcher r)")
    case None
    then show ?thesis unfolding matchers_loop_Cons
      by (simp del: matchers_loop.simps add: Cons.IH) (auto simp: map_of_dom)
  next
    case (Some previous)
    then have "rule_matcher r \<in> set (map fst seen)" using map_of_dom [of seen "rule_matcher r"] by auto
    with Some show ?thesis unfolding matchers_loop_Cons by auto
  qed
qed simp

lemma matchers_loop_keys:
  "matchers_loop pid seen rules = Inr seen' \<Longrightarrow> seen_matchers seen' = seen_matchers seen \<union> set (pack_matchers rules)"
  unfolding pack_matchers_def seen_matchers_def
  by (induction pid seen rules rule: matchers_loop.induct) (auto simp: rule_matcher_def split: option.splits)

lemma resolve_loop_iff:
  "resolve_loop re packIDs seen packs = Inr cs \<longleftrightarrow>
     distinct (map p_ID packs) \<and> set (map p_ID packs) \<inter> set packIDs = {} \<and>
     list_all2 (\<lambda>p c. Compile re p = Inr c) packs cs \<and>
     distinct (all_matchers cs) \<and>
     set (all_matchers cs) \<inter> seen_matchers seen = {}"
proof (induction packs arbitrary: packIDs seen cs)
  case (Cons p packs)
  show ?case
  proof (cases "p_ID p \<in> set packIDs \<or> (\<exists>e. Compile re p = Inl e)")
    case False
    then obtain c where c: "p_ID p \<notin> set packIDs" "Compile re p = Inr c" by (metis sumE)
    show ?thesis
    proof (cases "matchers_loop (p_ID p) seen (cp_Rules c)")
      case (Inl e)
      then have m: "\<not> distinct (pack_matchers (cp_Rules c)) \<or> set (pack_matchers (cp_Rules c)) \<inter> seen_matchers seen \<noteq> {}"
        using matchers_loop_iff [of "p_ID p" seen "cp_Rules c"] by auto
      have "cs = c # zs \<Longrightarrow> \<not> (distinct (all_matchers cs) \<and>
          set (all_matchers cs) \<inter> seen_matchers seen = {})" for zs
        using m by (auto simp: Int_Un_distrib2)
      moreover have "resolve_loop re packIDs seen (p # packs) = Inl e" using c Inl by simp
      ultimately show ?thesis using c(2) by (auto simp: list_all2_Cons1)
    next
      case (Inr seen')
      then have m: "distinct (pack_matchers (cp_Rules c))" "set (pack_matchers (cp_Rules c)) \<inter> seen_matchers seen = {}"
        using matchers_loop_iff [of "p_ID p" seen "cp_Rules c"] by auto
      have "resolve_loop re packIDs seen (p # packs) = Inr cs \<longleftrightarrow>
          (\<exists>cs'. cs = c # cs' \<and> resolve_loop re (p_ID p # packIDs) seen' packs = Inr cs')"
        using c Inr by (cases "resolve_loop re (p_ID p # packIDs) seen' packs") auto
      also have "\<dots> \<longleftrightarrow> (\<exists>cs'. cs = c # cs' \<and> distinct (map p_ID packs) \<and> set (map p_ID packs) \<inter> set (p_ID p # packIDs) = {} \<and>
          list_all2 (\<lambda>p c. Compile re p = Inr c) packs cs' \<and> distinct (all_matchers cs') \<and>
          set (all_matchers cs') \<inter> seen_matchers seen' = {})"
        by (simp only: Cons.IH)
      finally show ?thesis
        using c m unfolding matchers_loop_keys [OF Inr]
        by (auto simp: list_all2_Cons1 Int_Un_distrib Int_Un_distrib2 Int_commute simp del: resolve_loop.simps)
    qed
  qed (auto simp: list_all2_Cons1)
qed auto

lemma Resolve_iff:
  "Resolve re_Compile packs = Inr cs \<longleftrightarrow>
     distinct (map p_ID packs) \<and> list_all2 (\<lambda>p c. Compile re_Compile p = Inr c) (sort_key p_ID packs) cs \<and>
     distinct (concat (map (\<lambda>c. map rule_matcher (cp_Rules c)) cs))"
proof -
  have "distinct (map p_ID (sort_key p_ID packs)) \<longleftrightarrow> distinct (map p_ID packs)"
    by (rule mset_eq_imp_distinct_iff) simp
  then show ?thesis by (simp add: Resolve_def resolve_loop_iff seen_matchers_def all_matchers_def pack_matchers_def)
qed

text \<open>
  What resolving packs accepts. \<open>Resolve\<close> succeeds exactly if the pack identifiers are
  distinct, every pack compiles and no two rules, of the same or of different packs, have the
  same command and pattern; it returns the compiled packs in the order of their identifiers.
  So the answer does not depend on the order in which the packs were found.
\<close>

lemma resolve_exact:
  "Resolve re_Compile packs = Inr cs \<longleftrightarrow>
     distinct (map p_ID packs) \<and> list_all2 (\<lambda>p c. Compile re_Compile p = Inr c) (sort_key p_ID packs) cs \<and>
     distinct (concat (map (\<lambda>c. map rule_matcher (cp_Rules c)) cs))"
  by (rule Resolve_iff)

lemma resolve_order_independent:
  assumes "mset packs = mset packs'" "distinct (map p_ID packs)"
  shows "Resolve re packs = Resolve re packs'"
proof -
  have "inj_on p_ID (set packs)" using assms(2) by (simp add: distinct_map)
  then have "sort_key p_ID packs' = sort_key p_ID packs"
    using assms(1) by (intro sort_key_inj_key_eq) (simp_all add: mset_eq_setD [OF assms(1)])
  then show ?thesis by (simp add: Resolve_def)
qed

end
