(* ===== verification/PackRuntime.thy ===== *)
theory PackRuntime
  imports PackProps
begin

section \<open>Matching commands against packs (internal/packs/runtime.go)\<close>

text \<open>
  \<open>RuntimeResolver\<close> holds the resolved packs with their source (bundled or installed) and is the
  engine's semantic resolver. \<open>regexp_Expand\<close> is \<open>(*Regexp).ExpandString\<close>. A context is what
  its \<open>Err()\<close> answers at the n-th call; every function returns the number of calls made so far.
  Loading packs from a directory is in theory \<open>PackFiles\<close>.
\<close>

subsection \<open>Template expansion (regexp.Expand)\<close>

definition word_rune :: "rune \<Rightarrow> bool" where
  "word_rune r \<longleftrightarrow> unicode_IsLetter r \<or> unicode_IsDigit r \<or> r = 95"

fun group_number_loop :: "nat \<Rightarrow> string \<Rightarrow> nat option" where
  "group_number_loop n [] = Some n"
| "group_number_loop n (d # ds) =
     (if \<not> is_digit d \<or> 100000000 \<le> n then None else group_number_loop (n * 10 + digit_value d) ds)"

definition group_number :: "string \<Rightarrow> nat option" where
  "group_number name = (if hd name = CHR ''0'' \<and> 1 < length name then None else group_number_loop 0 name)"

text \<open>The variable at the beginning of a text: its name, its number if it has one, and the rest.\<close>

definition expand_name :: "string \<Rightarrow> (string \<times> nat option \<times> string) option" where
  "expand_name str =
     (if str = [] then None
      else case (if hd str = CHR ''{'' then (True, tl str) else (False, str)) of (brace, s) \<Rightarrow>
        case cells_string (takeWhile (\<lambda>c. word_rune (fst c)) (cells s)) of name \<Rightarrow>
        case drop (length name) s of after \<Rightarrow>
          if name = [] then None
          else if brace \<and> (after = [] \<or> hd after \<noteq> CHR ''}'') then None
          else Some (name, group_number name, if brace then tl after else after))"

definition group_text :: "string \<Rightarrow> (nat \<times> nat) option list \<Rightarrow> nat \<Rightarrow> string" where
  "group_text src match n = (if n < length match then (case match ! n of None \<Rightarrow> [] | Some (a, b) \<Rightarrow> slice src a b) else [])"

definition named_group :: "string list \<Rightarrow> (nat \<times> nat) option list \<Rightarrow> string \<Rightarrow> nat option" where
  "named_group names match name =
     find (\<lambda>i. names ! i = name \<and> i < length match \<and> match ! i \<noteq> None) [0..<length names]"

lemma expand_name_shorter: "expand_name s = Some (name, num, rest) \<Longrightarrow> length rest < length s"
  by (cases s) (auto simp: expand_name_def split: if_splits prod.splits)

lemma Cut_shorter: "strings_Cut s c = (b, a, True) \<Longrightarrow> length a < length s"
  using strings_Cut_append [of s c b a True] by auto

function regexp_Expand :: "string list \<Rightarrow> string \<Rightarrow> string \<Rightarrow> (nat \<times> nat) option list \<Rightarrow> string" where
  "regexp_Expand names template src match =
     (case strings_Cut template CHR ''$'' of (before, after, found) \<Rightarrow>
        if \<not> found then template
        else before @
          (if after \<noteq> [] \<and> hd after = CHR ''$'' then CHR ''$'' # regexp_Expand names (tl after) src match
           else case expand_name after of
             None \<Rightarrow> CHR ''$'' # regexp_Expand names after src match
           | Some (name, num, rest) \<Rightarrow>
               (case num of
                  Some n \<Rightarrow> group_text src match n
                | None \<Rightarrow> (case named_group names match name of None \<Rightarrow> [] | Some i \<Rightarrow> group_text src match i))
               @ regexp_Expand names rest src match))"
  by pat_completeness auto
termination
  by (relation "measure (\<lambda>(names, template, src, match). length template)")
    (auto dest!: expand_name_shorter dest: Cut_shorter [OF sym] less_trans Cut_shorter simp: less_imp_diff_less
      intro: le_less_trans [OF diff_le_self])

declare regexp_Expand.simps [simp del]

subsection \<open>The resolver\<close>

record runtimePack =
  rp_compiled :: CompiledPack
  rp_source :: string

record RuntimeResolver =
  rr_packs :: "runtimePack list"

record RuntimeMatch =
  rm_PackID :: string
  rm_RuleID :: string
  rm_Source :: string
  rm_Suggestion :: string
  rm_Cause :: string
  rm_Risk :: string
  rm_Rationale :: string

definition NewRuntimeResolverWithInstalled :: "regexp_Compile \<Rightarrow> Pack list \<Rightarrow> Pack list \<Rightarrow> RuntimeResolver result" where
  "NewRuntimeResolverWithInstalled re_Compile bundled installed =
     (case Resolve re_Compile (bundled @ installed) of
        Inl e \<Rightarrow> Inl e
      | Inr resolved \<Rightarrow> Inr \<lparr>rr_packs = map (\<lambda>pack. \<lparr>rp_compiled = pack,
          rp_source = (if p_ID (cp_Pack pack) \<in> set (map p_ID installed) then ''installed'' else ''bundled'')\<rparr>) resolved\<rparr>)"

definition NewRuntimeResolver :: "regexp_Compile \<Rightarrow> Pack list \<Rightarrow> RuntimeResolver result" where
  "NewRuntimeResolver re_Compile loaded = NewRuntimeResolverWithInstalled re_Compile loaded []"

definition tail_forbidden :: string where
  "tail_forbidden = [CHR 0x20, CHR 0x09, CHR 0x0D, CHR 0x0A, CHR 0x27, CHR 0x22, CHR 0x5C, CHR 0x60] @ ''$;|&()<>*?[]{}''"

definition safeTail :: "string list \<Rightarrow> bool" where
  "safeTail words \<longleftrightarrow> list_all (\<lambda>word. \<not> (word = [] \<or> containsAny word tail_forbidden) \<and>
     list_all (\<lambda>r. \<not> (unicode_IsControl r \<or> bidi_control r)) (runes word)) words"

definition simpleCommandLine :: "string \<Rightarrow> bool" where
  "simpleCommandLine line \<longleftrightarrow>
     \<not> (strings_TrimSpace line = [] \<or> strings_TrimSpace line \<noteq> line) \<and> \<not> 8192 < length line \<and>
     \<not> containsAny line ([CHR 0x27, CHR 0x22, CHR 0x5C, CHR 0x60] @ ''$;|&()'' @ [CHR 0x0D, CHR 0x0A]) \<and>
     \<not> containsRune line 0"

definition runtimeSemanticMatch ::
  "runtimePack \<Rightarrow> CompiledRule \<Rightarrow> string list \<Rightarrow> string \<Rightarrow> (nat \<times> nat) option list \<Rightarrow> string list \<Rightarrow> SemanticMatch" where
  "runtimeSemanticMatch pack rule words value indices tail =
     (case regexp_Expand (re_SubexpNames (cr_pattern rule)) (r_Replacement (cr_Rule rule)) value indices
        @ (if tail \<noteq> [] then '' '' @ strings_Join tail '' '' else []) of replacement \<Rightarrow>
      case \<lparr>sm_PackID = p_ID (cp_Pack (rp_compiled pack)), sm_RuleID = r_ID (cr_Rule rule), sm_Source = rp_source pack,
            sm_Suggestion = words ! 0 @ '' '' @ replacement,
            sm_Cause = regexp_Expand (re_SubexpNames (cr_pattern rule)) (r_Cause (cr_Rule rule)) value indices,
            sm_Risk = r_Risk (cr_Rule rule), sm_Rationale = r_RiskRationale (cr_Rule rule),
            sm_Original = [], sm_Replacement = [], sm_Occurrence = 0\<rparr> of match \<Rightarrow>
      if length words = 2 \<and> tail = [] \<and> \<not> containsRune replacement 32
      then match\<lparr>sm_Original := words ! 1, sm_Replacement := replacement, sm_Occurrence := 1\<rparr>
      else match)"

text \<open>The loop over \<open>argumentCount\<close>, from the given count down to 1.\<close>

fun match_arguments :: "runtimePack \<Rightarrow> CompiledRule \<Rightarrow> string list \<Rightarrow> nat \<Rightarrow> SemanticMatch option" where
  "match_arguments pack rule words 0 = None"
| "match_arguments pack rule words (Suc n) =
     (if Suc n \<noteq> length words - 1 \<and> \<not> r_PreserveTail (cr_Rule rule) then None
      else case drop (Suc (Suc n)) words of tail \<Rightarrow>
        if tail \<noteq> [] \<and> \<not> safeTail tail then match_arguments pack rule words n
        else case strings_Join (take (Suc n) (tl words)) '' '' of value \<Rightarrow>
          (case re_FindStringSubmatchIndex (cr_pattern rule) value of
             None \<Rightarrow> match_arguments pack rule words n
           | Some indices \<Rightarrow>
               if indices = [] \<or> hd indices \<noteq> Some (0, length value) then match_arguments pack rule words n
               else Some (runtimeSemanticMatch pack rule words value indices tail)))"

fun match_pack_rules :: "context_errs \<Rightarrow> runtimePack \<Rightarrow> CompiledRule list \<Rightarrow> string list \<Rightarrow> nat \<Rightarrow> SemanticMatch option result \<times> nat" where
  "match_pack_rules ctx pack [] words polls = (Inr None, polls)"
| "match_pack_rules ctx pack (rule # rules) words polls =
     (case ctx polls of Some e \<Rightarrow> (Inl e, polls + 1) | None \<Rightarrow>
      if r_Command (cr_Rule rule) \<noteq> words ! 0 then match_pack_rules ctx pack rules words (polls + 1)
      else case match_arguments pack rule words (length words - 1) of
        Some m \<Rightarrow> (Inr (Some m), polls + 1)
      | None \<Rightarrow> match_pack_rules ctx pack rules words (polls + 1))"

fun match_packs :: "context_errs \<Rightarrow> runtimePack list \<Rightarrow> string list \<Rightarrow> nat \<Rightarrow> SemanticMatch option result \<times> nat" where
  "match_packs ctx [] words polls = (Inr None, polls)"
| "match_packs ctx (pack # packs) words polls =
     (case ctx polls of Some e \<Rightarrow> (Inl e, polls + 1) | None \<Rightarrow>
      (case match_pack_rules ctx pack (cp_Rules (rp_compiled pack)) words (polls + 1) of (answer, polls') \<Rightarrow>
         case answer of Inr None \<Rightarrow> match_packs ctx packs words polls' | _ \<Rightarrow> (answer, polls')))"

definition MatchWordsContext :: "context_errs \<Rightarrow> RuntimeResolver \<Rightarrow> SemanticResolver" where
  "MatchWordsContext ctx r words polls =
     (case ctx polls of Some e \<Rightarrow> (Inl e, polls + 1) | None \<Rightarrow>
      if length words < 2 then (Inr None, polls + 1)
      else match_packs ctx (rr_packs r) words (polls + 1))"

definition MatchWords :: "RuntimeResolver \<Rightarrow> string list \<Rightarrow> SemanticMatch option" where
  "MatchWords r words = (case fst (MatchWordsContext (\<lambda>_. None) r words 0) of Inl _ \<Rightarrow> None | Inr answer \<Rightarrow> answer)"

definition MatchLineContext :: "context_errs \<Rightarrow> RuntimeResolver \<Rightarrow> string \<Rightarrow> nat \<Rightarrow> RuntimeMatch option result \<times> nat" where
  "MatchLineContext ctx r line polls =
     (case ctx polls of Some e \<Rightarrow> (Inl e, polls + 1) | None \<Rightarrow>
      if \<not> simpleCommandLine line then (Inr None, polls + 1)
      else case MatchWordsContext ctx r (strings_Fields line) (polls + 1) of (answer, polls') \<Rightarrow>
        (map_sum (\<lambda>e. e) (map_option (\<lambda>m. \<lparr>rm_PackID = sm_PackID m, rm_RuleID = sm_RuleID m, rm_Source = sm_Source m,
            rm_Suggestion = sm_Suggestion m, rm_Cause = sm_Cause m, rm_Risk = sm_Risk m, rm_Rationale = sm_Rationale m\<rparr>)) answer,
         polls'))"

definition MatchLine :: "RuntimeResolver \<Rightarrow> string \<Rightarrow> RuntimeMatch option" where
  "MatchLine r line = (case fst (MatchLineContext (\<lambda>_. None) r line 0) of Inl _ \<Rightarrow> None | Inr answer \<Rightarrow> answer)"

definition resolver_Validate :: "RuntimeResolver \<Rightarrow> go_error option" where
  "resolver_Validate r = (if rr_packs r = [] then Some (Err ''runtime resolver has no packs'' []) else None)"

end
