(* ===== verification/FailureEvidence.thy ===== *)
theory FailureEvidence
  imports Redact EditDistance "HOL-Library.AList"
begin

section \<open>Evidence from failure output (internal/packs/*_failure.go)\<close>

text \<open>
  Eight extractors read the captured output of a failed command and turn the lines they know
  into evidence. Their Go bodies are the same text over different pattern tables, so the body
  is modelled once (\<open>extract_failure\<close>) and each extractor is that body over its own limit,
  error and table. The map \<open>unique\<close> is an association list with the code's key; Go iterates
  a map in no fixed order, and \<open>sort_unique\<close> shows that the final sort removes that
  dependence. The contract of an extractor is the locale \<open>failure_extractor\<close>, interpreted on
  all eight.
\<close>

subsection \<open>Pattern vocabulary\<close>

definition none_of :: "rune list \<Rightarrow> rx" where
  "none_of rs = RClass True (map (\<lambda>r. (r, r)) rs)"

definition one_of :: "rune list \<Rightarrow> rx" where
  "one_of rs = RClass False (map (\<lambda>r. (r, r)) rs)"

abbreviation SPC :: rune where "SPC \<equiv> 32"
abbreviation DQ :: rune where "DQ \<equiv> 34"
abbreviation SQ :: rune where "SQ \<equiv> 39"
abbreviation BT :: rune where "BT \<equiv> 96"

definition any_but_newline :: rx where "any_but_newline = none_of [10]"

definition upper_code_class :: rx where
  "upper_code_class = RClass False [(65, 90), (48, 57), (95, 95)]"

text \<open>The submatch that every pattern captures: a maximal run of other characters.\<close>

definition capture_until :: "rune list \<Rightarrow> rx" where
  "capture_until rs = RGroup 1 (rplus (none_of rs))"

type_synonym failure_patterns = "(string \<times> rx) list"

subsection \<open>The shared body\<close>

definition maxGitFailureEvidenceSize :: nat where "maxGitFailureEvidenceSize = 256"

definition sanitizeFailureEvidence :: "string \<Rightarrow> string" where
  "sanitizeFailureEvidence value =
     (case fst (redact_Text (strings_TrimSpace value)) of v \<Rightarrow>
      if v = [] \<or> maxGitFailureEvidenceSize < length v then []
      else if list_ex unicode_IsControl (runes v) then []
      else v)"

definition evidence_key :: "Evidence \<Rightarrow> string" where
  "evidence_key e = ev_Kind e @ [CHR 0x00] @ ev_Value e"

text \<open>One round of the inner loop: \<open>unique[kind+NUL+value] = Evidence{kind, value}\<close>.\<close>

definition record_match :: "string \<Rightarrow> string \<Rightarrow> (string \<times> Evidence) list \<Rightarrow> (string \<times> Evidence) list" where
  "record_match kind match unique =
     (case sanitizeFailureEvidence match of value \<Rightarrow>
      if value = [] then unique
      else AList.update (kind @ [CHR 0x00] @ value) \<lparr>ev_Kind = kind, ev_Value = value\<rparr> unique)"

definition collect_unique :: "failure_patterns \<Rightarrow> string \<Rightarrow> (string \<times> Evidence) list" where
  "collect_unique patterns output =
     fold (\<lambda>(kind, pattern). fold (record_match kind) (rx_FindAllSubmatch1 pattern output)) patterns []"

definition sort_evidence :: "Evidence list \<Rightarrow> Evidence list" where
  "sort_evidence es = sort_key (\<lambda>e. (ev_Kind e, ev_Value e)) es"

definition extract_failure :: "nat \<Rightarrow> go_error \<Rightarrow> failure_patterns \<Rightarrow> string \<Rightarrow> Evidence list result" where
  "extract_failure limit tooLarge patterns output =
     (if limit < length output then Inl tooLarge
      else Inr (sort_evidence (map snd (collect_unique patterns output))))"

subsection \<open>The eight extractors\<close>

definition maxGitFailureOutputBytes :: nat where "maxGitFailureOutputBytes = 8192"
definition ErrGitFailureOutputTooLarge :: go_error where
  "ErrGitFailureOutputTooLarge = Err ''git failure output exceeds size limit'' []"

definition gitFailurePatterns :: failure_patterns where
  "gitFailurePatterns =
     [(''git-pathspec-miss'', rseqs [RBeginLine, ROpt (ralts [rlit ''fatal: '', rlit ''error: '']), rlit ''pathspec '',
         rchar SQ, capture_until [SQ, 13, 10], rchar SQ, rlit '' did not match any file'',
         ROpt (ralts [rlit ''(s)'', rlit ''s'']), ROpt (rlit '' known to git'')]),
      (''git-unknown-option'', rseqs [RBeginLine, ROpt (rlit ''error: ''), rlit ''unknown '',
         ralts [rlit ''option'', rlit ''switch''], rchar SPC, ROpt (one_of [SQ, BT]), capture_until [SQ, BT, 13, 10, SPC]]),
      (''git-unknown-subcommand'', rseqs [RBeginLine, rlit ''git: '', rchar SQ, capture_until [SQ, 13, 10], rchar SQ,
         rlit '' is not a git command''])]"

definition ExtractGitFailureEvidence :: "string \<Rightarrow> Evidence list result" where
  "ExtractGitFailureEvidence = extract_failure maxGitFailureOutputBytes ErrGitFailureOutputTooLarge gitFailurePatterns"

definition maxContainerFailureOutputBytes :: nat where "maxContainerFailureOutputBytes = 8192"
definition ErrContainerFailureOutputTooLarge :: go_error where
  "ErrContainerFailureOutputTooLarge = Err ''container failure output exceeds size limit'' []"

definition containerFailurePatterns :: failure_patterns where
  "containerFailurePatterns =
     [(''container-file-not-found'', rseqs [ralts [RBeginLine, rlit '': ''], rlit ''open '', capture_until [13, 10],
         rlit '': no such file or directory'', REndLine]),
      (''container-unknown-command'', rseqs [RBeginLine, rlit ''docker: unknown command: docker '',
         capture_until [13, 10, SPC], REndLine]),
      (''container-unknown-flag'', rseqs [RBeginLine, rlit ''unknown flag: '',
         RGroup 1 (RSeq (rlit ''--'') (rplus (none_of [13, 10, SPC]))), REndLine])]"

definition ExtractContainerFailureEvidence :: "string \<Rightarrow> Evidence list result" where
  "ExtractContainerFailureEvidence =
     extract_failure maxContainerFailureOutputBytes ErrContainerFailureOutputTooLarge containerFailurePatterns"

definition maxGoFailureOutputBytes :: nat where "maxGoFailureOutputBytes = 8192"
definition ErrGoFailureOutputTooLarge :: go_error where
  "ErrGoFailureOutputTooLarge = Err ''go failure output exceeds size limit'' []"

definition goFailurePatterns :: failure_patterns where
  "goFailurePatterns =
     [(''go-flag-unknown'', rseqs [RBeginLine, rlit ''flag provided but not defined: '',
         RGroup 1 (RSeq (rlit ''-'') (rplus (none_of [13, 10, SPC]))), REndLine]),
      (''go-modfile-missing'', rseqs [RBeginLine, rlit ''go: open '', capture_until [13, 10],
         rlit '': no such file or directory'', REndLine]),
      (''go-path-missing'', rseqs [RBeginLine, ROpt (rlit ''l''), rlit ''stat '', capture_until [13, 10], rlit '': '',
         ralts [rlit ''no such file or directory'', rlit ''directory not found''], REndLine]),
      (''go-unknown-subcommand'', rseqs [RBeginLine, rlit ''go '', capture_until [13, 10, SPC, 58],
         rlit '': unknown command'', REndLine])]"

definition ExtractGoFailureEvidence :: "string \<Rightarrow> Evidence list result" where
  "ExtractGoFailureEvidence = extract_failure maxGoFailureOutputBytes ErrGoFailureOutputTooLarge goFailurePatterns"

definition maxJavaScriptFailureOutputBytes :: nat where "maxJavaScriptFailureOutputBytes = 8192"
definition ErrJavaScriptFailureOutputTooLarge :: go_error where
  "ErrJavaScriptFailureOutputTooLarge = Err ''JavaScript failure output exceeds size limit'' []"

definition javaScriptFailurePatterns :: failure_patterns where
  "javaScriptFailurePatterns =
     [(''bun-unresolved-module'', rseqs [RBeginLine, rlit ''error: Could not resolve: '', rchar DQ,
         capture_until [DQ, 13, 10], rchar DQ]),
      (''deno-module-not-found'', rseqs [RBeginLine, rlit ''error: Module not found '', rchar DQ,
         capture_until [DQ, 13, 10], rchar DQ]),
      (''node-module-not-found'', rseqs [RBeginLine, rlit ''Error'',
         ROpt (rseqs [rlit '' ['', rplus upper_code_class, rlit '']'']), rlit '': Cannot find module '', one_of [SQ, DQ],
         capture_until [SQ, DQ], one_of [SQ, DQ]]),
      (''node-unknown-option'', rseqs [RBeginLine, rlit ''node: '', ralts [rlit ''bad option'', rlit ''unknown option''],
         rlit '': '', capture_until [13, 10, SPC]])]"

definition ExtractJavaScriptFailureEvidence :: "string \<Rightarrow> Evidence list result" where
  "ExtractJavaScriptFailureEvidence =
     extract_failure maxJavaScriptFailureOutputBytes ErrJavaScriptFailureOutputTooLarge javaScriptFailurePatterns"

definition maxKubernetesCloudFailureOutputBytes :: nat where "maxKubernetesCloudFailureOutputBytes = 8192"
definition ErrKubernetesCloudFailureOutputTooLarge :: go_error where
  "ErrKubernetesCloudFailureOutputTooLarge = Err ''kubernetes/cloud failure output exceeds size limit'' []"

definition kubernetesCloudFailurePatterns :: failure_patterns where
  "kubernetesCloudFailurePatterns =
     [(''aws-template-path-invalid'', rseqs [RBeginLine, rlit ''Invalid template path '', capture_until [13, 10], REndLine]),
      (''helm-chart-path-missing'', rseqs [RBeginLine, rlit ''Error: INSTALLATION FAILED: path '', rchar DQ,
         capture_until [DQ, 13, 10], rchar DQ, rlit '' not found'', REndLine]),
      (''helm-unknown-subcommand'', rseqs [RBeginLine, rlit ''Error: unknown command '', rchar DQ,
         capture_until [DQ, 13, 10], rchar DQ, rlit '' for '', rchar DQ, rlit ''helm'', rchar DQ, REndLine]),
      (''kubectl-path-missing'', rseqs [RBeginLine, rlit ''error: the path '', rchar DQ, capture_until [DQ, 13, 10],
         rchar DQ, rlit '' does not exist'', REndLine]),
      (''kubectl-unknown-subcommand'', rseqs [RBeginLine, rlit ''error: unknown command '', rchar DQ,
         capture_until [DQ, 13, 10], rchar DQ, rlit '' for '', rchar DQ, rlit ''kubectl'', rchar DQ, REndLine]),
      (''terraform-varfile-missing'', rseqs [RBeginLine, rlit ''Given variables file '', capture_until [13, 10],
         rlit '' does not exist.'', REndLine])]"

definition ExtractKubernetesCloudFailureEvidence :: "string \<Rightarrow> Evidence list result" where
  "ExtractKubernetesCloudFailureEvidence =
     extract_failure maxKubernetesCloudFailureOutputBytes ErrKubernetesCloudFailureOutputTooLarge kubernetesCloudFailurePatterns"

definition maxPackageManagerFailureOutputBytes :: nat where "maxPackageManagerFailureOutputBytes = 8192"
definition ErrPackageManagerFailureOutputTooLarge :: go_error where
  "ErrPackageManagerFailureOutputTooLarge = Err ''package manager failure output exceeds size limit'' []"

definition packageManagerFailurePatterns :: failure_patterns where
  "packageManagerFailurePatterns =
     [(''brew-missing-formula'', rseqs [RBeginLine, rlit ''Error: No available formula with the name '', rchar DQ,
         capture_until [DQ, 13, 10], rchar DQ, rlit ''.'']),
      (''npm-error-code'', rseqs [RBeginLine, rlit ''npm error code '', RGroup 1 (rplus upper_code_class), REndLine]),
      (''npm-missing-script'', rseqs [RBeginLine, rlit ''npm error Missing script: '', rchar DQ,
         capture_until [DQ, 13, 10], rchar DQ, REndLine]),
      (''pnpm-error-code'', rseqs [RBeginLine, RGroup 1 (RSeq (rlit ''ERR_PNPM_'') (rplus upper_code_class))]),
      (''yarn-unknown-command'', rseqs [RBeginLine, rlit ''error Command '', rchar DQ, capture_until [DQ, 13, 10],
         rchar DQ, rlit '' not found.'', REndLine])]"

definition ExtractPackageManagerFailureEvidence :: "string \<Rightarrow> Evidence list result" where
  "ExtractPackageManagerFailureEvidence =
     extract_failure maxPackageManagerFailureOutputBytes ErrPackageManagerFailureOutputTooLarge packageManagerFailurePatterns"

definition maxPythonFailureOutputBytes :: nat where "maxPythonFailureOutputBytes = 8192"
definition ErrPythonFailureOutputTooLarge :: go_error where
  "ErrPythonFailureOutputTooLarge = Err ''python failure output exceeds size limit'' []"

definition pythonFailurePatterns :: failure_patterns where
  "pythonFailurePatterns =
     [(''pip-package-not-found'', rseqs [RBeginLine,
         rlit ''ERROR: Could not find a version that satisfies the requirement '', capture_until [13, 10, SPC]]),
      (''pytest-unknown-argument'', rseqs [RBeginLine, RStar any_but_newline,
         rlit ''pytest: error: unrecognized arguments: '', capture_until [13, 10, SPC]]),
      (''python-module-not-found'', rseqs [RBeginLine, rlit ''ModuleNotFoundError: No module named '', one_of [SQ, DQ],
         capture_until [SQ, DQ], one_of [SQ, DQ]]),
      (''python-path-not-found'', rseqs [RBeginLine,
         rlit ''FileNotFoundError: [Errno 2] No such file or directory: '', one_of [SQ, DQ], capture_until [SQ, DQ], one_of [SQ, DQ]])]"

definition ExtractPythonFailureEvidence :: "string \<Rightarrow> Evidence list result" where
  "ExtractPythonFailureEvidence =
     extract_failure maxPythonFailureOutputBytes ErrPythonFailureOutputTooLarge pythonFailurePatterns"

definition maxRustFailureOutputBytes :: nat where "maxRustFailureOutputBytes = 8192"
definition ErrRustFailureOutputTooLarge :: go_error where
  "ErrRustFailureOutputTooLarge = Err ''rust failure output exceeds size limit'' []"

definition rustFailurePatterns :: failure_patterns where
  "rustFailurePatterns =
     [(''cargo-manifest-path-invalid'', rseqs [RBeginLine,
         rlit ''error: the manifest-path must be a path to a Cargo.toml file: '', ROpt (one_of [BT, SQ]),
         capture_until [BT, SQ, 13, 10], ROpt (one_of [BT, SQ]), REndLine]),
      (''cargo-unknown-argument'', rseqs [RBeginLine, rlit ''error: unexpected argument '', one_of [SQ, BT],
         capture_until [SQ, BT, 13, 10], one_of [SQ, BT], rlit '' found'', REndLine]),
      (''cargo-unknown-subcommand'', rseqs [RBeginLine, rlit ''error: no such command: '', one_of [BT, SQ],
         capture_until [BT, SQ, 13, 10], one_of [BT, SQ], REndLine]),
      (''rustc-source-not-found'', rseqs [RBeginLine, rlit ''error: couldn'', rchar SQ, rlit ''t read '', one_of [BT, SQ],
         capture_until [BT, SQ, 13, 10], one_of [BT, SQ], rlit '':'']),
      (''rustup-invalid-toolchain'', rseqs [RBeginLine, rlit ''error: invalid value '', one_of [SQ, BT],
         capture_until [SQ, BT, 13, 10], one_of [SQ, BT], rlit '' for '', one_of [SQ, BT], rlit ''[+toolchain]'',
         one_of [SQ, BT], rlit '':''])]"

definition ExtractRustFailureEvidence :: "string \<Rightarrow> Evidence list result" where
  "ExtractRustFailureEvidence = extract_failure maxRustFailureOutputBytes ErrRustFailureOutputTooLarge rustFailurePatterns"

definition failure_extractors :: "((string \<Rightarrow> Evidence list result) \<times> failure_patterns \<times> go_error) list" where
  "failure_extractors =
     [(ExtractGitFailureEvidence, gitFailurePatterns, ErrGitFailureOutputTooLarge),
      (ExtractContainerFailureEvidence, containerFailurePatterns, ErrContainerFailureOutputTooLarge),
      (ExtractGoFailureEvidence, goFailurePatterns, ErrGoFailureOutputTooLarge),
      (ExtractJavaScriptFailureEvidence, javaScriptFailurePatterns, ErrJavaScriptFailureOutputTooLarge),
      (ExtractKubernetesCloudFailureEvidence, kubernetesCloudFailurePatterns, ErrKubernetesCloudFailureOutputTooLarge),
      (ExtractPackageManagerFailureEvidence, packageManagerFailurePatterns, ErrPackageManagerFailureOutputTooLarge),
      (ExtractPythonFailureEvidence, pythonFailurePatterns, ErrPythonFailureOutputTooLarge),
      (ExtractRustFailureEvidence, rustFailurePatterns, ErrRustFailureOutputTooLarge)]"

lemmas failure_limits = maxGitFailureOutputBytes_def maxContainerFailureOutputBytes_def maxGoFailureOutputBytes_def
  maxJavaScriptFailureOutputBytes_def maxKubernetesCloudFailureOutputBytes_def maxPackageManagerFailureOutputBytes_def
  maxPythonFailureOutputBytes_def maxRustFailureOutputBytes_def

subsection \<open>The map of unique evidence\<close>

definition evidence_less :: "Evidence \<Rightarrow> Evidence \<Rightarrow> bool" where
  "evidence_less a b \<longleftrightarrow> ev_Kind a < ev_Kind b \<or> ev_Kind a = ev_Kind b \<and> ev_Value a < ev_Value b"

text \<open>What an extractor should find: the sanitized first submatches of all matches.\<close>

definition evidence_of :: "failure_patterns \<Rightarrow> string \<Rightarrow> Evidence set" where
  "evidence_of patterns output =
     {\<lparr>ev_Kind = kind, ev_Value = sanitizeFailureEvidence match\<rparr> | kind pattern match.
        (kind, pattern) \<in> set patterns \<and> match \<in> set (rx_FindAllSubmatch1 pattern output) \<and>
        sanitizeFailureEvidence match \<noteq> []}"

definition kinds_ok :: "failure_patterns \<Rightarrow> bool" where
  "kinds_ok patterns \<longleftrightarrow> list_all (\<lambda>(kind, _). CHR 0x00 \<notin> set kind) patterns"

definition unique_ok :: "(string \<times> Evidence) list \<Rightarrow> bool" where
  "unique_ok m \<longleftrightarrow> distinct (map fst m) \<and> (\<forall>(k, e) \<in> set m. k = evidence_key e \<and> CHR 0x00 \<notin> set (ev_Kind e))"

lemma evidence_key_inject:
  assumes "CHR 0x00 \<notin> set (ev_Kind a)" "CHR 0x00 \<notin> set (ev_Kind b)" "evidence_key a = evidence_key b"
  shows "a = (b :: Evidence)"
proof -
  have *: "xs @ c # us = ys @ c # vs \<Longrightarrow> c \<notin> set xs \<Longrightarrow> c \<notin> set ys \<Longrightarrow> xs = ys \<and> us = vs"
    for xs us ys vs :: string and c
    by (induction xs arbitrary: ys) (auto simp: Cons_eq_append_conv neq_Nil_conv)
  show ?thesis using * [of "ev_Kind a" "CHR 0x00" "ev_Value a" "ev_Kind b" "ev_Value b"] assms
    by (simp add: evidence_key_def)
qed

lemma unique_ok_Nil [simp]: "unique_ok []"
  by (simp add: unique_ok_def)

lemma set_AList_update:
  "distinct (map fst m) \<Longrightarrow> set (AList.update k v m) = {p \<in> set m. fst p \<noteq> k} \<union> {(k, v)}"
  by (induction m) force+

lemma unique_ok_update:
  assumes "unique_ok m" "CHR 0x00 \<notin> set (ev_Kind e)"
  shows "unique_ok (AList.update (evidence_key e) e m)"
    and "set (map snd (AList.update (evidence_key e) e m)) = insert e (set (map snd m))"
proof -
  have d: "distinct (map fst m)" using assms(1) by (simp add: unique_ok_def)
  show "unique_ok (AList.update (evidence_key e) e m)"
    using assms by (auto simp: unique_ok_def set_AList_update [OF d] distinct_update)
  have "snd p = e" if "p \<in> set m" "fst p = evidence_key e" for p
    using that assms by (auto simp: unique_ok_def intro!: evidence_key_inject)
  then show "set (map snd (AList.update (evidence_key e) e m)) = insert e (set (map snd m))"
    by (auto simp: set_AList_update [OF d] image_iff)
qed

lemma record_match_ok:
  assumes "unique_ok m" "CHR 0x00 \<notin> set kind"
  shows "unique_ok (record_match kind match m) \<and> set (map snd (record_match kind match m)) =
    set (map snd m) \<union> {\<lparr>ev_Kind = kind, ev_Value = v\<rparr> | v. v = sanitizeFailureEvidence match \<and> v \<noteq> []}"
  using unique_ok_update [OF assms(1), of "\<lparr>ev_Kind = kind, ev_Value = sanitizeFailureEvidence match\<rparr>"] assms
  by (simp add: record_match_def evidence_key_def)

lemma record_matches_ok:
  "unique_ok m \<Longrightarrow> CHR 0x00 \<notin> set kind \<Longrightarrow> unique_ok (fold (record_match kind) ms m) \<and>
   set (map snd (fold (record_match kind) ms m)) =
     set (map snd m) \<union> {\<lparr>ev_Kind = kind, ev_Value = sanitizeFailureEvidence x\<rparr> | x. x \<in> set ms \<and> sanitizeFailureEvidence x \<noteq> []}"
proof (induction ms arbitrary: m)
  case (Cons x ms)
  note step = record_match_ok [OF Cons.prems, of x]
  from Cons.IH [of "record_match kind x m"] step Cons.prems show ?case by auto
qed simp

lemma collect_unique_from:
  "unique_ok m \<Longrightarrow> kinds_ok patterns \<Longrightarrow>
   unique_ok (fold (\<lambda>(kind, pattern). fold (record_match kind) (rx_FindAllSubmatch1 pattern output)) patterns m) \<and>
   set (map snd (fold (\<lambda>(kind, pattern). fold (record_match kind) (rx_FindAllSubmatch1 pattern output)) patterns m))
     = set (map snd m) \<union> evidence_of patterns output"
proof (induction patterns arbitrary: m)
  case Nil
  then show ?case by (simp add: evidence_of_def)
next
  case (Cons p patterns)
  obtain kind pattern where p: "p = (kind, pattern)" by fastforce
  have k: "CHR 0x00 \<notin> set kind" "kinds_ok patterns" using Cons.prems by (auto simp: kinds_ok_def p)
  note step = record_matches_ok [OF Cons.prems(1) k(1), of "rx_FindAllSubmatch1 pattern output"]
  have "evidence_of (p # patterns) output = {\<lparr>ev_Kind = kind, ev_Value = sanitizeFailureEvidence x\<rparr> | x.
      x \<in> set (rx_FindAllSubmatch1 pattern output) \<and> sanitizeFailureEvidence x \<noteq> []} \<union> evidence_of patterns output"
    by (auto simp: evidence_of_def p)
  with Cons.IH [OF _ k(2), of "fold (record_match kind) (rx_FindAllSubmatch1 pattern output) m"] step show ?case
    by (auto simp: p)
qed

lemma collect_unique_ok:
  assumes "kinds_ok patterns"
  shows "unique_ok (collect_unique patterns output)"
    and "set (map snd (collect_unique patterns output)) = evidence_of patterns output"
  using collect_unique_from [OF unique_ok_Nil assms] by (simp_all add: collect_unique_def)

lemma unique_ok_distinct: "unique_ok m \<Longrightarrow> distinct (map snd m)"
  by (induction m) (force simp: unique_ok_def)+

text \<open>The order in which Go iterates the map does not matter.\<close>

lemma inj_evidence_sort: "inj (\<lambda>e :: Evidence. (ev_Kind e, ev_Value e))"
  by (rule injI) simp

lemma sort_unique: "mset vs = mset es \<Longrightarrow> sort_evidence vs = sort_evidence es"
  unfolding sort_evidence_def
  by (rule sort_key_inj_key_eq) (auto intro: inj_on_subset [OF inj_evidence_sort])

lemma sorted_wrt_evidence: "distinct es \<Longrightarrow> sorted_wrt evidence_less (sort_evidence es)"
proof -
  assume d: "distinct es"
  let ?k = "\<lambda>e :: Evidence. (ev_Kind e, ev_Value e)"
  have "distinct (map ?k (sort_evidence es))"
    using d by (simp add: distinct_map sort_evidence_def inj_on_subset [OF inj_evidence_sort])
  moreover have "sorted (map ?k (sort_evidence es))" by (simp add: sort_evidence_def)
  ultimately have "sorted_wrt (<) (map ?k (sort_evidence es))" by (simp add: strict_sorted_iff)
  then have "sorted_wrt (\<lambda>a b. ?k a < ?k b) (sort_evidence es)" by (simp add: sorted_wrt_map)
  then show ?thesis by (rule sorted_wrt_mono_rel [rotated]) (auto simp: evidence_less_def)
qed

subsection \<open>The contract of an extractor\<close>

locale failure_extractor =
  fixes extractor :: "string \<Rightarrow> Evidence list result" and patterns :: failure_patterns
    and limit :: nat and tooLarge :: go_error
  assumes too_large: "limit < length out \<Longrightarrow> extractor out = Inl tooLarge"
    and exact: "length out \<le> limit \<Longrightarrow> \<exists>es. extractor out = Inr es \<and>
      sorted_wrt evidence_less es \<and> set es = evidence_of patterns out"
begin

lemma total: "extractor out = Inl tooLarge \<and> limit < length out \<or> (\<exists>es. extractor out = Inr es)"
  using too_large [of out] exact [of out] by (cases "limit < length out") (auto simp: not_less)

lemma result: "extractor out = Inr es \<Longrightarrow>
  length out \<le> limit \<and> sorted_wrt evidence_less es \<and> set es = evidence_of patterns out"
  using too_large [of out] exact [of out] by (cases "limit < length out") (auto simp: not_less)

end

lemma extract_failure_contract:
  assumes "kinds_ok patterns"
  shows "failure_extractor (extract_failure limit tooLarge patterns) patterns limit tooLarge"
proof
  fix out assume "length (out :: string) \<le> limit"
  then show "\<exists>es. extract_failure limit tooLarge patterns out = Inr es \<and> sorted_wrt evidence_less es \<and>
      set es = evidence_of patterns out"
    using collect_unique_ok [OF assms, of out] unique_ok_distinct sorted_wrt_evidence
    by (auto simp: extract_failure_def sort_evidence_def)
qed (simp add: extract_failure_def)

lemma kinds_tables:
  "kinds_ok gitFailurePatterns"
  "kinds_ok containerFailurePatterns"
  "kinds_ok goFailurePatterns"
  "kinds_ok javaScriptFailurePatterns"
  "kinds_ok kubernetesCloudFailurePatterns"
  "kinds_ok packageManagerFailurePatterns"
  "kinds_ok pythonFailurePatterns"
  "kinds_ok rustFailurePatterns"
  by (simp_all add: kinds_ok_def gitFailurePatterns_def containerFailurePatterns_def goFailurePatterns_def javaScriptFailurePatterns_def kubernetesCloudFailurePatterns_def packageManagerFailurePatterns_def pythonFailurePatterns_def rustFailurePatterns_def)

interpretation git_failure: failure_extractor ExtractGitFailureEvidence gitFailurePatterns
  maxGitFailureOutputBytes ErrGitFailureOutputTooLarge
  unfolding ExtractGitFailureEvidence_def by (rule extract_failure_contract [OF kinds_tables(1)])

interpretation container_failure: failure_extractor ExtractContainerFailureEvidence containerFailurePatterns
  maxContainerFailureOutputBytes ErrContainerFailureOutputTooLarge
  unfolding ExtractContainerFailureEvidence_def by (rule extract_failure_contract [OF kinds_tables(2)])

interpretation go_failure: failure_extractor ExtractGoFailureEvidence goFailurePatterns
  maxGoFailureOutputBytes ErrGoFailureOutputTooLarge
  unfolding ExtractGoFailureEvidence_def by (rule extract_failure_contract [OF kinds_tables(3)])

interpretation javascript_failure: failure_extractor ExtractJavaScriptFailureEvidence javaScriptFailurePatterns
  maxJavaScriptFailureOutputBytes ErrJavaScriptFailureOutputTooLarge
  unfolding ExtractJavaScriptFailureEvidence_def by (rule extract_failure_contract [OF kinds_tables(4)])

interpretation kubernetescloud_failure: failure_extractor ExtractKubernetesCloudFailureEvidence kubernetesCloudFailurePatterns
  maxKubernetesCloudFailureOutputBytes ErrKubernetesCloudFailureOutputTooLarge
  unfolding ExtractKubernetesCloudFailureEvidence_def by (rule extract_failure_contract [OF kinds_tables(5)])

interpretation packagemanager_failure: failure_extractor ExtractPackageManagerFailureEvidence packageManagerFailurePatterns
  maxPackageManagerFailureOutputBytes ErrPackageManagerFailureOutputTooLarge
  unfolding ExtractPackageManagerFailureEvidence_def by (rule extract_failure_contract [OF kinds_tables(6)])

interpretation python_failure: failure_extractor ExtractPythonFailureEvidence pythonFailurePatterns
  maxPythonFailureOutputBytes ErrPythonFailureOutputTooLarge
  unfolding ExtractPythonFailureEvidence_def by (rule extract_failure_contract [OF kinds_tables(7)])

interpretation rust_failure: failure_extractor ExtractRustFailureEvidence rustFailurePatterns
  maxRustFailureOutputBytes ErrRustFailureOutputTooLarge
  unfolding ExtractRustFailureEvidence_def by (rule extract_failure_contract [OF kinds_tables(8)])

lemmas failure_results = git_failure.result container_failure.result go_failure.result javascript_failure.result kubernetescloud_failure.result packagemanager_failure.result python_failure.result rust_failure.result

subsection \<open>Properties\<close>

lemma sanitize_clean:
  assumes "sanitizeFailureEvidence v \<noteq> []"
  shows "length (sanitizeFailureEvidence v) \<le> 256" "\<forall>r \<in> set (runes (sanitizeFailureEvidence v)). \<not> unicode_IsControl r"
  using assms by (auto simp: sanitizeFailureEvidence_def maxGitFailureEvidenceSize_def list_ex_iff split: if_splits)

lemma evidence_of_clean:
  "e \<in> evidence_of patterns out \<Longrightarrow> ev_Kind e \<in> fst ` set patterns \<and> ev_Value e \<noteq> [] \<and> length (ev_Value e) \<le> 256 \<and>
     (\<forall>r \<in> set (runes (ev_Value e)). \<not> unicode_IsControl r)"
  using sanitize_clean by (force simp: evidence_of_def)

text \<open>
  Property C33: what the extractors find. Each of the eight extractors refuses exactly the
  outputs of more than 8192 bytes, with its own error; otherwise it returns, in strictly
  increasing order of kind and value, exactly one piece of evidence per distinct sanitized
  submatch of its patterns. No value is empty, longer than 256 bytes or contains a control
  character, so evidence is printable on one line.
\<close>

theorem failure_evidence_exact:
  assumes "(extractor, patterns, tooLarge) \<in> set failure_extractors"
  shows "(8192 < length out \<longrightarrow> extractor out = Inl tooLarge) \<and>
    (length out \<le> 8192 \<longrightarrow> (\<exists>es. extractor out = Inr es \<and> sorted_wrt evidence_less es \<and>
       set es = evidence_of patterns out \<and>
       (\<forall>e \<in> set es. ev_Kind e \<in> fst ` set patterns \<and> ev_Value e \<noteq> [] \<and> length (ev_Value e) \<le> 256 \<and>
          (\<forall>r \<in> set (runes (ev_Value e)). \<not> unicode_IsControl r))))"
proof -
  have "failure_extractor extractor patterns 8192 tooLarge"
    using assms git_failure.failure_extractor_axioms container_failure.failure_extractor_axioms go_failure.failure_extractor_axioms javascript_failure.failure_extractor_axioms kubernetescloud_failure.failure_extractor_axioms packagemanager_failure.failure_extractor_axioms python_failure.failure_extractor_axioms rust_failure.failure_extractor_axioms
    by (auto simp: failure_extractors_def failure_limits)
  then have "8192 < length out \<Longrightarrow> extractor out = Inl tooLarge"
    and "length out \<le> 8192 \<Longrightarrow> \<exists>es. extractor out = Inr es \<and> sorted_wrt evidence_less es \<and> set es = evidence_of patterns out"
    by (simp_all add: failure_extractor_def)
  then show ?thesis using evidence_of_clean [of _ patterns out] by blast
qed

definition demo_failure :: string where
  "demo_failure = ''git: '' @ [CHR 0x27] @ ''stauts'' @ [CHR 0x27] @ '' is not a git command''"

theorem failure_evidence_exact_witness:
  "ExtractGitFailureEvidence demo_failure = Inr [\<lparr>ev_Kind = ''git-unknown-subcommand'', ev_Value = ''stauts''\<rparr>] \<and>
   \<lparr>ev_Kind = ''git-unknown-subcommand'', ev_Value = ''stauts''\<rparr> \<in> evidence_of gitFailurePatterns demo_failure"
proof -
  have e: "ExtractGitFailureEvidence demo_failure = Inr [\<lparr>ev_Kind = ''git-unknown-subcommand'', ev_Value = ''stauts''\<rparr>]"
    by code_simp
  moreover have "length demo_failure \<le> 8192" by (simp add: demo_failure_def)
  moreover have "(ExtractGitFailureEvidence, gitFailurePatterns, ErrGitFailureOutputTooLarge) \<in> set failure_extractors"
    by (simp add: failure_extractors_def)
  ultimately show ?thesis using failure_evidence_exact by fastforce
qed

end
