(* ===== verification/EngineProps.thy ===== *)
theory EngineProps
  imports Engine
begin

section \<open>Properties of the diagnosis engine\<close>

text \<open>
  What every decision of \<open>CheckShellContext\<close> satisfies. The decisions that the resolvers can
  produce are characterised once (\<open>resolved\<close>), then what \<open>engine_finish\<close> makes of them
  (\<open>finished\<close>); the properties follow from these two facts.
\<close>

subsection \<open>What the resolvers produce\<close>

text \<open>A repair of word \<open>p\<close> by the nearest of some candidates.\<close>

definition near_repair :: "string \<Rightarrow> string \<Rightarrow> string list \<Rightarrow> nat \<Rightarrow> string \<Rightarrow> string list \<Rightarrow> (string \<Rightarrow> string) \<Rightarrow> Decision \<Rightarrow> bool" where
  "near_repair class resolver words p target candidates place d \<longleftrightarrow> p < length words \<and>
     (\<exists>best distance. nearest target candidates = (best, distance) \<and> best \<noteq> [] \<and> distance \<le> maxDistance target \<and>
        meetsConfidenceThreshold class (confidence target best) \<and>
        d = repair_decision class resolver words p (place best) distance (confidence target best))"

definition command_repair :: "engine_env \<Rightarrow> string list \<Rightarrow> string list \<Rightarrow> Decision \<Rightarrow> bool" where
  "command_repair env candidates words d \<longleftrightarrow> (\<exists>p \<in> set (commandPositions words).
     \<not> isPathQualified (words ! p) (os_GOOS (ee_os env)) \<and>
     near_repair RepairClassCommand ''path'' words p (words ! p) candidates (\<lambda>best. best) d)"

definition semantic_repair :: "Options \<Rightarrow> string \<Rightarrow> string list \<Rightarrow> Decision \<Rightarrow> bool" where
  "semantic_repair opt shellName words d \<longleftrightarrow> (\<exists>match suggestedWords.
     (\<exists>resolve polls. o_SemanticResolver opt = Some resolve \<and> fst (resolve words polls) = Inr (Some match)) \<and> validRisk (sm_Risk match) \<and>
     tokenizeForShell shellName (sm_Suggestion match) = Inr suggestedWords \<and>
     \<not> hasUnsupportedShellSyntax suggestedWords \<and> d = semantic_decision_of match suggestedWords)"

definition file_repair :: "Options \<Rightarrow> engine_env \<Rightarrow> string list \<Rightarrow> Decision \<Rightarrow> bool" where
  "file_repair opt env words d \<longleftrightarrow> (\<exists>p dir base entries. filepath_Split (words ! p) = (dir, base) \<and>
     limitedReadDir (ee_os env) (filepath_Join [o_CWD opt, dir]) = Some entries \<and>
     os_Stat (ee_os env) (filepath_Join [o_CWD opt, words ! p]) = None \<and>
     near_repair RepairClassPath ''filesystem'' words p base (map de_Name entries) (\<lambda>best. filepath_Join [dir, best]) d)"

lemma zero_suggestion [simp]: "d_Suggestion zeroDecision = []"
  by (simp add: zeroDecision_def)

lemma commandPositions_length: "p \<in> set (commandPositions words) \<Longrightarrow> p < length words"
  using command_positions_from_ge by (fastforce simp: commandPositions_def)

lemma command_loop_repair:
  assumes "fst (command_loop opt env words candidates ps s) = Inr d" and "d_Suggestion d \<noteq> []"
    and "set ps \<subseteq> set (commandPositions words)"
  shows "command_repair env candidates words d"
  using assms
proof (induction ps arbitrary: s)
  case Nil
  then show ?case by auto
next
  case (Cons p ps)
  obtain best distance where n: "nearest (words ! p) candidates = (best, distance)" by fastforce
  have "p < length words" using Cons.prems(3) commandPositions_length by simp
  with Cons n show ?case
    by (auto simp: command_repair_def near_repair_def ctx_Err_def not_less split: option.splits prod.splits if_splits)
qed

lemma commandDecision_repair:
  assumes "fst (commandDecision opt env words s) = Inr d" and "d_Suggestion d \<noteq> []"
  shows "command_repair env
    (fst (executableNamesFor (ee_os env) (o_Path opt) (os_GOOS (ee_os env)) (os_PATHEXT (ee_os env)) (st_cache s))) words d"
  using assms command_loop_repair [OF _ assms(2), of opt env words]
  by (auto simp: commandDecision_def ctx_Err_def split: option.splits prod.splits)

lemma semanticDecision_repair:
  "fst (semanticDecision opt env shellName words s) = Inr d \<Longrightarrow> d_Suggestion d \<noteq> [] \<Longrightarrow> semantic_repair opt shellName words d"
  by (auto simp: semanticDecision_def ctx_Err_def semantic_repair_def zeroDecision_def
      split: option.splits prod.splits sum.splits if_splits) (metis fst_conv)+

lemma path_loop_repair:
  assumes "fst (path_loop opt env words is s) = Inr d" and "d_Suggestion d \<noteq> []" and "set is \<subseteq> {..<length words}"
  shows "file_repair opt env words d"
  using assms
proof (induction "is" arbitrary: s)
  case Nil
  then show ?case by auto
next
  case (Cons p ps)
  have "file_repair opt env words d" if "path_repair opt env words p = Some d"
    using that Cons.prems(3)
    by (auto simp: path_repair_def file_repair_def near_repair_def not_less split: if_splits prod.splits option.splits) blast
  with Cons show ?case by (auto simp: ctx_Err_def split: option.splits)
qed

lemma pathDecision_repair:
  "fst (pathDecision opt env words s) = Inr d \<Longrightarrow> d_Suggestion d \<noteq> [] \<Longrightarrow> file_repair opt env words d"
  by (auto simp: pathDecision_def intro: path_loop_repair)

subsection \<open>What finishing makes of a decision\<close>

definition finished :: "Options \<Rightarrow> Decision \<Rightarrow> string \<Rightarrow> string \<Rightarrow> string \<Rightarrow> Decision \<Rightarrow> bool" where
  "finished opt d0 shellName line stage d \<longleftrightarrow> decisionOutputSize d \<le> l_OutputBytes (engine_limits opt) \<and>
     (case applyMode opt d0 stage of d1 \<Rightarrow>
        d_Action d1 \<noteq> ''rewrite'' \<and> d = d1
        \<or> d_Action d1 = ''rewrite'' \<and> \<not> rewriteCompatible shellName line \<and> d = d1\<lparr>d_Action := ''hint''\<rparr>
        \<or> d_Action d1 = ''rewrite'' \<and> rewriteCompatible shellName line \<and> (d_original d1 = [] \<or> d_replacement d1 = []) \<and> d = d1
        \<or> d_Action d1 = ''rewrite'' \<and> rewriteCompatible shellName line \<and>
            (\<exists>buffer. replaceTokenOccurrence line (d_original d1) (d_replacement d1) (d_occurrence d1) = Some buffer \<and>
               d = d1\<lparr>d_Suggestion := buffer\<rparr>))"

lemma applyMode_size: "decisionOutputSize (applyMode opt d stage) = decisionOutputSize d"
  by (simp add: applyMode_def evaluateRewriteBuffer_def decisionOutputSize_def Let_def)

lemma size_action [simp]: "decisionOutputSize (d\<lparr>d_Action := a\<rparr>) = decisionOutputSize d"
  by (simp add: decisionOutputSize_def)

lemma engine_finish_cases:
  assumes "fst (engine_finish opt env d0 shellName line stage started s) = (d, err)"
  shows "d = noDecision \<or> err = None \<and> finished opt d0 shellName line stage d"
  using assms
  by (auto simp: engine_finish_def finished_def ctx_Err_def now_def applyMode_size not_less
      split: option.splits if_splits)

lemma engine_finish_error: "fst (engine_finish opt env d0 shellName line stage started s) = (d, Some e) \<Longrightarrow> d = noDecision"
  by (auto simp: engine_finish_def ctx_Err_def now_def split: option.splits if_splits)

definition resolved :: "Options \<Rightarrow> engine_env \<Rightarrow> string \<Rightarrow> string list \<Rightarrow> Cache \<Rightarrow> Decision \<Rightarrow> bool" where
  "resolved opt env shellName words c d \<longleftrightarrow> d_Suggestion d \<noteq> [] \<and>
     (command_repair env (fst (executableNamesFor (ee_os env) (o_Path opt) (os_GOOS (ee_os env)) (os_PATHEXT (ee_os env))
         c)) words d
      \<or> semantic_repair opt shellName words d \<or> file_repair opt env words d)"

lemma resolve_then_cases:
  assumes "fst (resolve_then opt env shellName line stage started answer otherwise) = (d, err)"
  obtains "d = noDecision" "err \<noteq> None"
  | d0 where "fst answer = Inr d0" "d_Suggestion d0 \<noteq> []" "d = noDecision \<or> err = None \<and> finished opt d0 shellName line stage d"
  | "fst (otherwise (snd answer)) = (d, err)"
  using assms engine_finish_cases [of opt env _ shellName line stage started "snd answer" d err]
  by (auto simp: resolve_then_def split: prod.splits sum.splits if_splits)

lemma check_words_cases:
  assumes "fst (check_words opt env shellName line stage started words s) = (d, err)"
  shows "d = noDecision \<or> err = None \<and>
    (\<exists>d0. resolved opt env shellName words (st_cache s) d0 \<and> finished opt d0 shellName line stage d)"
  using assms unfolding check_words_def
proof (elim resolve_then_cases, goal_cases)
  case (2 d0) then show ?case using commandDecision_repair by (auto simp: resolved_def)
next
  case (4 d0) then show ?case using semanticDecision_repair by (auto simp: resolved_def)
next
  case (6 d0) then show ?case using pathDecision_repair by (auto simp: resolved_def)
qed (auto simp: ctx_Err_def now_def split: option.splits if_splits)

lemma CheckShellContext_cases:
  assumes "fst (CheckShellContext opt env shellName line stage s) = (d, err)"
  shows "d = noDecision \<or> (\<exists>b. d = noDecision\<lparr>d_Incomplete := b\<rparr> \<and> err = None) \<or>
    err = None \<and> \<not> HasRuleException (o_Config opt) line \<and> cf_Mode (o_Config opt) \<noteq> ''off'' \<and>
    (\<exists>words d0. tokenizeForShell shellName line = Inr words \<and> \<not> hasUnsupportedShellSyntax words \<and>
       resolved opt env shellName words (st_cache s) d0 \<and> finished opt d0 shellName line stage d)"
proof -
  have words: "d = noDecision \<or> err = None \<and>
      (\<exists>d0. resolved opt env shellName words (st_cache s') d0 \<and> finished opt d0 shellName line stage d)"
    if "fst (check_words opt env shellName line stage started words s') = (d, err)" for words s' started
    using that by (rule check_words_cases)
  show ?thesis using assms
    by (auto simp: CheckShellContext_def ctx_Err_def now_def split: option.splits sum.splits if_splits dest!: words) (fastforce+)?
qed

subsection \<open>Mode policy\<close>

lemma applyMode_fields:
  "d_Risk (applyMode opt d stage) = d_Risk d" "d_Class (applyMode opt d stage) = d_Class d"
  "d_Confidence (applyMode opt d stage) = d_Confidence d" "d_Version (applyMode opt d stage) = d_Version d"
  "d_Suggestion (applyMode opt d stage) = d_Suggestion d" "d_original (applyMode opt d stage) = d_original d"
  "d_replacement (applyMode opt d stage) = d_replacement d" "d_occurrence (applyMode opt d stage) = d_occurrence d"
  "d_Evidence (applyMode opt d stage) = d_Evidence d" "d_Incomplete (applyMode opt d stage) = d_Incomplete d"
  by (simp_all add: applyMode_def evaluateRewriteBuffer_def Let_def)

lemma applyMode_action:
  "d_Action (applyMode opt d stage) = (if stage = ''pre'' \<and> safeAutoApply opt d then ''rewrite''
     else if shouldInterrupt opt d stage then ''interrupt'' else ''hint'')"
  by (simp add: applyMode_def evaluateRewriteBuffer_def safeAutoApply_def intrinsicRewriteEligible_def
      semanticRewriteAllowed_def shouldInterrupt_def Let_def)

text \<open>The fields in which a finished decision agrees with the resolver's.\<close>

lemma finished_fields:
  assumes "finished opt d0 shellName line stage d"
  shows "d_Risk d = d_Risk d0" "d_Class d = d_Class d0" "d_Confidence d = d_Confidence d0"
    "d_Version d = d_Version d0" "d_Evidence d = d_Evidence d0" "d_Incomplete d = d_Incomplete d0"
    "d_original d = d_original d0" "d_replacement d = d_replacement d0"
  using assms by (auto simp: finished_def applyMode_fields)

lemma finished_action:
  assumes "finished opt d0 shellName line stage d"
  shows "d_Action d = ''hint''
    \<or> d_Action d = ''interrupt'' \<and> shouldInterrupt opt d0 stage \<and> d_Suggestion d = d_Suggestion d0
    \<or> d_Action d = ''rewrite'' \<and> stage = ''pre'' \<and> safeAutoApply opt d0 \<and> rewriteCompatible shellName line"
  using assms by (auto simp: finished_def applyMode_action applyMode_fields split: if_splits)

lemma repair_decision_fields:
  "d_Version (repair_decision class resolver words p r n conf) = AdapterProtocolVersion"
  "d_Confidence (repair_decision class resolver words p r n conf) = conf"
  "d_Class (repair_decision class resolver words p r n conf) = class"
  "d_original (repair_decision class resolver words p r n conf) = words ! p"
  "d_replacement (repair_decision class resolver words p r n conf) = r"
  "d_occurrence (repair_decision class resolver words p r n conf) = int (tokenOccurrence words p)"
  "d_Risk (repair_decision class resolver words p r n conf)
     = ra_risk (assessRisk (words[p := r]) (snd (redact_Command (words[p := r]))))"
  "d_Suggestion (repair_decision class resolver words p r n conf) = fst (redact_Command (words[p := r]))"
  by (simp_all add: repair_decision_def Let_def zeroDecision_def split: prod.split)

text \<open>A concrete machine: one executable, \<open>which\<close>, on the path.\<close>

definition demo_env :: engine_env where
  "demo_env = \<lparr>ee_os = \<lparr>os_GOOS = ''linux'', os_PATHEXT = [], os_Stat = (\<lambda>_. None),
       os_ReadDir = (\<lambda>_. Some [\<lparr>de_Name = ''which'', de_IsDir = False, de_Mode = Some 73\<rparr>])\<rparr>,
     ee_ctx = (\<lambda>_. None), ee_clock = (\<lambda>_. 0)\<rparr>"

definition demo_options :: "string \<Rightarrow> Options" where
  "demo_options mode = \<lparr>o_Config = Default\<lparr>cf_Mode := mode, cf_AutoApplySafe := True\<rparr>, o_Path = ''/b'', o_CWD = ''/'',
     o_SemanticResolver = None, o_Limits = \<lparr>l_InputBytes = 0, l_OutputBytes = 0, l_AnalysisTime = 0\<rparr>\<rparr>"

definition demo_state :: engine_state where
  "demo_state = \<lparr>st_polls = 0, st_ticks = 0, st_cache = NewCache\<rparr>"

lemma nearest_single: "nearest v [c] = (c, damerauLevenshtein v c)"
  by (simp add: nearest_def rankCandidates_def ranked_def dedup_def)

lemma demo_distance: "damerauLevenshtein ''whcih'' ''which'' = 1" by code_simp

lemma demo_facts:
  "runes ''whcih'' = [119, 104, 99, 105, 104]" "runes ''which'' = [119, 104, 105, 99, 104]"
  "tokenizeForShell [] ''whcih'' = Inr [''whcih'']" "hasUnsupportedShellSyntax [''whcih''] = False"
  "commandPositions [''whcih''] = [0]" "redact_Command [''which''] = (''which'', False)"
  "assessRisk [''which''] False = \<lparr>ra_risk = RiskSafe, ra_rationale = MessageRiskRecognizedSafe\<rparr>"
  "scan_path (ee_os demo_env) ''/b'' ''linux'' [] = [''which'']"
  "replaceTokenOccurrence ''whcih'' ''whcih'' ''which'' 1 = Some ''which''"
  "isPathQualified ''whcih'' ''linux'' = False"
  by code_simp+

lemma demo_thresholds: "fl64 (1 - fl64 (1 / 5)) = fl64 (4 / 5)" "fl64 (3 / 5) \<le> fl64 (4 / 5)"
  by code_simp+


definition demo_repair :: Decision where
  "demo_repair = repair_decision RepairClassCommand ''path'' [''whcih''] 0 ''which'' 1 (fl64 (4 / 5))"

lemma demo_command:
  assumes "st_cache s = NewCache"
  shows "\<exists>s'. commandDecision (demo_options mode) demo_env [''whcih''] s = (Inr demo_repair, s')"
proof -
  let ?os = "ee_os demo_env"
  have os: "os_GOOS ?os = ''linux''" "os_PATHEXT ?os = []" "ee_ctx demo_env n = None" for n by (simp_all add: demo_env_def)
  obtain c where names: "executableNamesFor ?os ''/b'' ''linux'' [] NewCache = ([''which''], c)"
    by (simp add: executableNamesFor_def NewCache_def Let_def demo_facts)
  have gone: "commandExistsFor ?os n p ''linux'' e c = (False, c)" for n p e c
    by (simp add: commandExistsFor_def executable_file_def demo_env_def list_ex_iff)
  have conf: "confidence ''whcih'' ''which'' = fl64 (4 / 5)"
    by (simp add: confidence_def confidence_of_def demo_distance demo_facts demo_thresholds)
  have meets: "meetsConfidenceThreshold RepairClassCommand (fl64 (4 / 5))"
    using demo_thresholds(2) by (simp add: meetsConfidenceThreshold_def isKnownRepairClass_def confidenceThreshold_def class_names)
  have path: "o_Path (demo_options mode) = ''/b''" by (simp add: demo_options_def)
  show ?thesis using assms
    by (simp add: commandDecision_def ctx_Err_def os names gone conf meets path nearest_single demo_distance demo_facts maxDistance_def demo_repair_def)
qed

lemma demo_finish:
  "\<exists>d s'. engine_finish (demo_options ''rewrite'') demo_env demo_repair [] ''whcih'' ''pre'' 0 s = ((d, None), s') \<and>
     d_Action d = ''rewrite'' \<and> d_Class d = RepairClassCommand \<and> d_replacement d = ''which''"
proof -
  have fields: "d_Suggestion demo_repair = ''which''" "d_Risk demo_repair = RiskSafe" "d_Confidence demo_repair = fl64 (4 / 5)"
    "d_Class demo_repair = RepairClassCommand" "d_Incomplete demo_repair = False" "d_original demo_repair = ''whcih''"
    "d_replacement demo_repair = ''which''" "d_occurrence demo_repair = 1"
    by (simp_all add: demo_repair_def repair_decision_def demo_facts zeroDecision_def tokenOccurrence_def Let_def)
  have "safeAutoApply (demo_options ''rewrite'') demo_repair"
    using demo_thresholds(2)
    by (simp add: safeAutoApply_def intrinsicRewriteEligible_def semanticRewriteAllowed_def fields demo_options_def
        meetsConfidenceThreshold_def isKnownRepairClass_def confidenceThreshold_def class_names)
  then have "applyMode (demo_options ''rewrite'') demo_repair ''pre'' = demo_repair\<lparr>d_RewriteEligible := True, d_Action := ''rewrite''\<rparr>"
    by (simp add: applyMode_def evaluateRewriteBuffer_def safeAutoApply_def intrinsicRewriteEligible_def semanticRewriteAllowed_def Let_def)
  moreover have size: "decisionOutputSize demo_repair \<le> 8192" by code_simp
  moreover have "decisionOutputSize (demo_repair\<lparr>d_RewriteEligible := b, d_Action := a, d_Suggestion := ''which''\<rparr>) \<le> 8192" for a b
    using size fields(1) by (simp add: decisionOutputSize_def)
  ultimately show ?thesis
    by (simp add: engine_finish_def ctx_Err_def now_def demo_env_def fields demo_facts engine_limits_def demo_options_def
       MaxOutputBytes_def MaxAnalysisDuration_def rewriteCompatible_def not_less)
qed
lemma demo_decision:
  "\<exists>d s'. CheckShellContext (demo_options ''rewrite'') demo_env [] ''whcih'' ''pre'' demo_state = ((d, None), s') \<and>
     d_Action d = ''rewrite'' \<and> d_Class d = RepairClassCommand \<and> d_replacement d = ''which''"
proof -
  have env: "ee_ctx demo_env n = None" "ee_clock demo_env n = 0" for n by (simp_all add: demo_env_def)
  have opt: "l_InputBytes (engine_limits (demo_options ''rewrite'')) = 8192"
      "cf_Mode (o_Config (demo_options ''rewrite'')) = ''rewrite''" "\<not> HasRuleException (o_Config (demo_options ''rewrite'')) line" for line
    by (simp_all add: demo_options_def engine_limits_def MaxInputBytes_def Default_def HasRuleException_def)
  let ?s = "\<lparr>st_polls = Suc (Suc 0), st_ticks = Suc 0, st_cache = NewCache\<rparr>"
  obtain s1 where s1: "commandDecision (demo_options ''rewrite'') demo_env [''whcih''] ?s = (Inr demo_repair, s1)"
    using demo_command [of ?s "''rewrite''"] by auto
  have "d_Suggestion demo_repair \<noteq> []" by (simp add: demo_repair_def repair_decision_fields demo_facts)
  with demo_finish [of s1] show ?thesis
    by (simp add: CheckShellContext_def check_words_def resolve_then_def ctx_Err_def now_def env opt demo_facts demo_state_def s1)
qed

text \<open>
  Property C2: the authority to act. Whatever the environment, the resolver and the line, a
  decision says rewrite only before execution, in mode rewrite with automatic application on,
  for a repair of risk safe with a confidence of at least 0.80 and its class's threshold that
  does not come from an installed pack, on a line without a rule exception that the rewriter
  handles; it says interrupt only before execution, in a mode that allows it and with a
  confidence of at least 0.90. After an error there is no decision.
\<close>

theorem engine_action_policy:
  assumes "fst (CheckShellContext opt env shellName line stage s) = (d, err)"
  shows "(d_Action d = ''rewrite'' \<longrightarrow> stage = ''pre'' \<and> cf_Mode (o_Config opt) = ''rewrite'' \<and> cf_AutoApplySafe (o_Config opt) \<and>
      \<not> HasRuleException (o_Config opt) line \<and> rewriteCompatible shellName line \<and> d_Risk d = RiskSafe \<and>
      fl64 (16 / 20) \<le> d_Confidence d \<and> meetsConfidenceThreshold (d_Class d) (d_Confidence d) \<and>
      \<not> (d_Class d = RepairClassSemantic \<and> \<lparr>ev_Kind = ''source'', ev_Value = ''installed''\<rparr> \<in> set (d_Evidence d))) \<and>
    (d_Action d = ''interrupt'' \<longrightarrow> stage = ''pre'' \<and> \<not> HasRuleException (o_Config opt) line \<and>
      (cf_Mode (o_Config opt) = ''interrupt'' \<or> cf_Mode (o_Config opt) = ''rewrite'' \<and> cf_RiskInterrupt (o_Config opt)) \<and>
      fl64 (18 / 20) \<le> d_Confidence d) \<and>
    (stage \<noteq> ''pre'' \<longrightarrow> d_Action d = ''none'' \<or> d_Action d = ''hint'') \<and>
    (err \<noteq> None \<longrightarrow> d = noDecision)"
proof -
  have none: "d_Action (noDecision\<lparr>d_Incomplete := b\<rparr>) = ''none''" "d_Action noDecision = ''none''" for b
    by (simp_all add: noDecision_def)
  consider "d = noDecision" | b where "d = noDecision\<lparr>d_Incomplete := b\<rparr>" "err = None"
    | d0 where "err = None" "\<not> HasRuleException (o_Config opt) line" "finished opt d0 shellName line stage d"
    using CheckShellContext_cases [OF assms] by blast
  then show ?thesis
  proof cases
    case (3 d0)
    from finished_action [OF 3(3)] finished_fields [OF 3(3)] 3(1,2) show ?thesis
      by (auto simp: safeAutoApply_def shouldInterrupt_def intrinsicRewriteEligible_def semanticRewriteAllowed_def list_ex_iff)
  qed (simp_all add: none)
qed

theorem engine_action_policy_witness:
  "\<exists>d. d_Action d = ''rewrite'' \<and> fst (fst (CheckShellContext (demo_options ''rewrite'') demo_env [] ''whcih'' ''pre'' demo_state)) = d \<and>
     d_Risk d = RiskSafe"
proof -
  obtain d s' where d: "CheckShellContext (demo_options ''rewrite'') demo_env [] ''whcih'' ''pre'' demo_state = ((d, None), s')"
    "d_Action d = ''rewrite''" using demo_decision by blast
  then have "fst (CheckShellContext (demo_options ''rewrite'') demo_env [] ''whcih'' ''pre'' demo_state) = (d, None)" by simp
  from engine_action_policy [OF this] d show ?thesis by auto
qed

text \<open>
  A silent engine. In mode off, or for a line with a rule exception, no action is
  taken and nothing is suggested.
\<close>

lemma engine_silent:
  assumes "cf_Mode (o_Config opt) = ''off'' \<or> HasRuleException (o_Config opt) line"
    and "fst (CheckShellContext opt env shellName line stage s) = (d, err)"
  shows "d_Action d = ''none'' \<and> d_Suggestion d = []"
  using CheckShellContext_cases [OF assms(2)] assms(1) by (auto simp: noDecision_def zeroDecision_def)

subsection \<open>Protocol and size\<close>

lemma runes_nonempty: "s \<noteq> [] \<Longrightarrow> runes s \<noteq> []"
  by (metis cells_string_cells cells_string_simps(1) list.map_disc_iff runes_def)

lemma assessRisk_valid: "validRisk (ra_risk (assessRisk words b))"
  by (simp add: assessRisk_def validRisk_def)

lemma validRisk_high: "validRisk (if b then RiskHigh else r) \<longleftrightarrow> b \<or> validRisk r"
  by (auto simp: validRisk_def)

lemma semantic_decision_fields:
  "d_Version (semantic_decision_of match words) = AdapterProtocolVersion"
  "d_Confidence (semantic_decision_of match words) = 1"
  "d_Class (semantic_decision_of match words) = RepairClassSemantic"
  "d_Risk (semantic_decision_of match words) = (if snd (redact_Command words) then RiskHigh else sm_Risk match)"
  by (simp_all add: semantic_decision_of_def Let_def zeroDecision_def split: prod.split)

lemma near_repair_protocol:
  "near_repair class resolver words p target candidates place d \<Longrightarrow>
     d_Version d = AdapterProtocolVersion \<and> validRisk (d_Risk d) \<and> 0 \<le> d_Confidence d \<and> d_Confidence d \<le> 1"
  using confidence_bounds runes_nonempty by (auto simp: near_repair_def repair_decision_fields assessRisk_valid)

lemma resolved_protocol:
  "resolved opt env shellName words c d \<Longrightarrow>
     d_Version d = AdapterProtocolVersion \<and> validRisk (d_Risk d) \<and> 0 \<le> d_Confidence d \<and> d_Confidence d \<le> 1"
  by (auto simp: resolved_def command_repair_def file_repair_def semantic_repair_def semantic_decision_fields validRisk_high
      dest!: near_repair_protocol)

lemma noDecision_protocol: "validateProtocol (noDecision\<lparr>d_Incomplete := b\<rparr>) = None"
  by (simp add: validateProtocol_def noDecision_def zeroDecision_def validAction_def validRisk_def)

lemma finished_protocol:
  "resolved opt env shellName words c d0 \<Longrightarrow> finished opt d0 shellName line stage d \<Longrightarrow> validateProtocol d = None"
  using resolved_protocol [of opt env shellName words c d0] finished_fields [of opt d0 shellName line stage d]
    finished_action [of opt d0 shellName line stage d]
  by (auto simp: validateProtocol_def validAction_def)

text \<open>
  Property C21: every decision the engine returns, with or without an error, passes its own
  protocol check, so it can always be recorded and inspected; and its rendered parts stay
  within the configured output limit (132 bytes if there is no suggestion).
\<close>

theorem engine_protocol_valid:
  "validateProtocol (fst (fst (CheckShellContext opt env shellName line stage s))) = None \<and>
   decisionOutputSize (fst (fst (CheckShellContext opt env shellName line stage s)))
     \<le> max 132 (l_OutputBytes (engine_limits opt))"
proof -
  obtain d err where r: "fst (CheckShellContext opt env shellName line stage s) = (d, err)" by fastforce
  have size: "decisionOutputSize (noDecision\<lparr>d_Incomplete := b\<rparr>) = 132" for b
    by (simp add: decisionOutputSize_def noDecision_def zeroDecision_def risk_names)
  have none: "noDecision = noDecision\<lparr>d_Incomplete := False\<rparr>" by (simp add: noDecision_def zeroDecision_def)
  consider b where "d = noDecision\<lparr>d_Incomplete := b\<rparr>"
    | words d0 where "resolved opt env shellName words (st_cache s) d0" "finished opt d0 shellName line stage d"
    using CheckShellContext_cases [OF r] none by metis
  then show ?thesis
  proof cases
    case 1
    with size noDecision_protocol show ?thesis by (simp add: r)
  next
    case 2
    then have "decisionOutputSize d \<le> l_OutputBytes (engine_limits opt)" by (simp add: finished_def)
    with finished_protocol [OF 2] show ?thesis by (simp add: r)
  qed
qed

subsection \<open>Rewrites from end to end\<close>

lemma damerauLevenshtein_Nil: "damerauLevenshtein [] t = length (runes t)"
  by (simp add: damerauLevenshtein_gdist)

lemma confident_nonempty:
  assumes "meetsConfidenceThreshold class (confidence a b)" and "b \<noteq> []"
  shows "a \<noteq> []"
proof
  assume a: "a = []"
  have "runes b \<noteq> []" using assms(2) by (rule runes_nonempty)
  then have "confidence a b = fl64 (1 - fl64 1)"
    by (simp add: a confidence_def confidence_of_def damerauLevenshtein_Nil)
  moreover have "fl64 (1 - fl64 1) = 0" "0 < fl64 (12 / 20)" "0 < fl64 (15 / 20)" "0 < fl64 (18 / 20)" by code_simp+
  ultimately show False
    using assms(1) by (auto simp: meetsConfidenceThreshold_def isKnownRepairClass_def confidenceThreshold_def split: if_splits)
qed

lemma filepath_Split_base: "filepath_Split w = (dir, base) \<Longrightarrow> base \<noteq> [] \<Longrightarrow> w \<noteq> []"
  using filepath_Split_append [of w] by auto

text \<open>A repair other than a semantic one replaces one nonempty word.\<close>

lemma resolved_word:
  assumes "resolved opt env shellName words c d" and "d_Class d \<noteq> RepairClassSemantic"
  shows "\<exists>p < length words. d_original d = words ! p \<and> words ! p \<noteq> [] \<and> d_occurrence d = int (tokenOccurrence words p) \<and>
    d_Risk d = ra_risk (assessRisk (words[p := d_replacement d]) (snd (redact_Command (words[p := d_replacement d])))) \<and>
    d_Suggestion d = fst (redact_Command (words[p := d_replacement d]))"
proof -
  consider "command_repair env (fst (executableNamesFor (ee_os env) (o_Path opt) (os_GOOS (ee_os env))
      (os_PATHEXT (ee_os env)) c)) words d" | "file_repair opt env words d"
    using assms by (auto simp: resolved_def semantic_repair_def semantic_decision_fields)
  then show ?thesis
  proof cases
    case 1
    then show ?thesis
      by (auto simp: command_repair_def near_repair_def repair_decision_fields dest: confident_nonempty)
  next
    case 2
    then show ?thesis
      by (auto simp: file_repair_def near_repair_def repair_decision_fields dest!: confident_nonempty filepath_Split_base)
  qed
qed



end
