(* ===== verification/LocalState.thy ===== *)
theory LocalState
  imports GoStrconv
begin

section \<open>The local learning store (internal/localstate: store.go, rules.go)\<close>

text \<open>
  The store keeps three tables: observations, drafts of learned rules and learned rules. The
  tables are lists of rows in the order of insertion; every SQL statement of the source is one
  definition on them, with the constraints its \<open>CREATE TABLE\<close> states. What the database engine
  adds is a parameter, \<open>sqlite\<close>: a statement may fail (\<open>sq_error\<close>, indexed by the number of
  statements executed so far), it chooses the id of a new row (\<open>sq_rowid\<close>), and \<open>time.Now\<close>
  is a clock indexed the same way. A store that is nil or closed is \<open>None\<close>. Times in Go values
  are nanoseconds, times in rows seconds.
\<close>

subsection \<open>Values\<close>

definition second :: int where "second = 1000000000"

text \<open>\<open>time.Time{}\<close>, the first of January of year 1, and the conversions to and from Unix time.\<close>

definition zero_time :: int where "zero_time = - 62135596800 * second"
definition time_Unix :: "int \<Rightarrow> int" where "time_Unix t = t div second"
definition unix_time :: "int \<Rightarrow> int" where "unix_time seconds = seconds * second"

record Observation =
  ob_ID :: int
  ob_Session :: string
  ob_FailedCommand :: string
  ob_CorrectedCommand :: string
  ob_FailureOutput :: string
  ob_CreatedAt :: int

record Draft =
  dr_ID :: int
  dr_NormalizedFailure :: string
  dr_NormalizedCorrection :: string
  dr_EvidenceCount :: int
  dr_CreatedAt :: int
  dr_UpdatedAt :: int

record LearnedRule =
  lr_ID :: int
  lr_DraftID :: int
  lr_Failure :: string
  lr_Correction :: string
  lr_Action :: string
  lr_Enabled :: bool
  lr_CreatedAt :: int
  lr_UpdatedAt :: int

definition DraftEvidenceThreshold :: int where "DraftEvidenceThreshold = 3"

definition validAction :: "string \<Rightarrow> bool" where
  "validAction action \<longleftrightarrow> action = ''off'' \<or> action = ''hint'' \<or> action = ''rewrite''"

subsection \<open>Tables\<close>

record observation_row =
  or_id :: int
  or_session :: string
  or_failed_command :: string
  or_corrected_command :: string
  or_failure_output :: string
  or_created_at :: int

record draft_row =
  w_id :: int
  w_failure :: string
  w_correction :: string
  w_evidence_count :: int
  w_created_at :: int
  w_updated_at :: int

record rule_row =
  u_id :: int
  u_draft_id :: int
  u_action :: string
  u_enabled :: int
  u_created_at :: int
  u_updated_at :: int

record tables =
  t_observations :: "observation_row list"
  t_drafts :: "draft_row list"
  t_rules :: "rule_row list"

text \<open>
  The database: its schema version, its tables (\<open>None\<close> before they are created), the id that
  \<open>LastInsertId\<close> reports for the connection, and the number of statements executed.
\<close>

record database =
  db_user_version :: int
  db_tables :: "tables option"
  db_last_insert :: int
  db_statements :: nat

record sqlite =
  sq_error :: "nat \<Rightarrow> go_error option"
  sq_rowid :: "int list \<Rightarrow> int"
  sq_now :: "nat \<Rightarrow> int"

type_synonym Store = "database option"

definition ErrStoreClosed :: go_error where "ErrStoreClosed = Err ''local state store is closed'' []"
definition ErrNilStore :: go_error where "ErrNilStore = Err ''nil pointer dereference'' []"
definition ErrNoRows :: go_error where "ErrNoRows = Err ''sql: no rows in result set'' []"
definition ErrNoTable :: go_error where "ErrNoTable = Err ''no such table'' []"
definition ErrUnique :: go_error where "ErrUnique = Err ''UNIQUE constraint failed'' []"
definition ErrForeignKey :: go_error where "ErrForeignKey = Err ''FOREIGN KEY constraint failed'' []"

text \<open>
  One statement: it fails with the engine's error, or because a constraint does, and then
  changes nothing; otherwise its effect on the tables is kept. A statement that inserts also
  sets the id that \<open>LastInsertId\<close> reports.
\<close>

definition run_statement :: "sqlite \<Rightarrow> (tables \<Rightarrow> ('a \<times> int option \<times> tables) result) \<Rightarrow> database \<Rightarrow> 'a result \<times> database" where
  "run_statement q stmt db =
     (case db\<lparr>db_statements := db_statements db + 1\<rparr> of db1 \<Rightarrow>
      case sq_error q (db_statements db) of Some e \<Rightarrow> (Inl e, db1) | None \<Rightarrow>
      case db_tables db of None \<Rightarrow> (Inl ErrNoTable, db1) | Some t \<Rightarrow>
      case stmt t of Inl e \<Rightarrow> (Inl e, db1)
      | Inr (a, inserted, t') \<Rightarrow> (Inr a, db1\<lparr>db_tables := Some t',
          db_last_insert := (case inserted of None \<Rightarrow> db_last_insert db | Some i \<Rightarrow> i)\<rparr>))"

text \<open>Beginning and committing a transaction are statements without an effect on the tables; an
  abandoned transaction restores the tables it began with.\<close>

definition no_effect :: "tables \<Rightarrow> (unit \<times> int option \<times> tables) result" where
  "no_effect t = Inr ((), None, t)"

definition rolled_back :: "database \<Rightarrow> database \<Rightarrow> database" where
  "rolled_back before db = db\<lparr>db_tables := db_tables before, db_user_version := db_user_version before\<rparr>"

definition transaction :: "sqlite \<Rightarrow> (database \<Rightarrow> 'a result \<times> database) \<Rightarrow> database \<Rightarrow> 'a result \<times> database" where
  "transaction q body db =
     (case run_statement q no_effect db of (b, db1) \<Rightarrow> case b of Inl e \<Rightarrow> (Inl e, db1) | Inr _ \<Rightarrow>
      (case body db1 of (r, db2) \<Rightarrow> case r of Inl e \<Rightarrow> (Inl e, rolled_back db1 db2) | Inr a \<Rightarrow>
       (case run_statement q no_effect db2 of (c, db3) \<Rightarrow> case c of Inl e \<Rightarrow> (Inl e, rolled_back db1 db3) | Inr _ \<Rightarrow> (Inr a, db3))))"

subsection \<open>Statements\<close>

definition insert_observation :: "sqlite \<Rightarrow> Observation \<Rightarrow> tables \<Rightarrow> (unit \<times> int option \<times> tables) result" where
  "insert_observation q ob t =
     (case sq_rowid q (map or_id (t_observations t)) of i \<Rightarrow>
      Inr ((), Some i, t\<lparr>t_observations := t_observations t @ [\<lparr>or_id = i, or_session = ob_Session ob,
        or_failed_command = ob_FailedCommand ob, or_corrected_command = ob_CorrectedCommand ob,
        or_failure_output = ob_FailureOutput ob, or_created_at = time_Unix (ob_CreatedAt ob)\<rparr>]\<rparr>))"

definition delete_observations :: "int \<Rightarrow> tables \<Rightarrow> (int \<times> int option \<times> tables) result" where
  "delete_observations cutoff t =
     (case partition (\<lambda>o'. or_created_at o' < cutoff) (t_observations t) of (gone, kept) \<Rightarrow>
      Inr (int (length gone), None, t\<lparr>t_observations := kept\<rparr>))"

definition select_draft :: "string \<Rightarrow> string \<Rightarrow> tables \<Rightarrow> (draft_row \<times> int option \<times> tables) result" where
  "select_draft failure correction t =
     (case find (\<lambda>w. w_failure w = failure \<and> w_correction w = correction) (t_drafts t) of
        None \<Rightarrow> Inl ErrNoRows | Some w \<Rightarrow> Inr (w, None, t))"

definition select_draft_id :: "int \<Rightarrow> tables \<Rightarrow> (draft_row \<times> int option \<times> tables) result" where
  "select_draft_id i t = (case find (\<lambda>w. w_id w = i) (t_drafts t) of None \<Rightarrow> Inl ErrNoRows | Some w \<Rightarrow> Inr (w, None, t))"

text \<open>\<open>UPDATE ... WHERE id = ?\<close> and \<open>DELETE ... WHERE id = ?\<close>, with the number of rows affected.\<close>

definition update_rows :: "('r \<Rightarrow> bool) \<Rightarrow> ('r \<Rightarrow> 'r) \<Rightarrow> 'r list \<Rightarrow> int \<times> 'r list" where
  "update_rows p f rows = (int (length (filter p rows)), map (\<lambda>r. if p r then f r else r) rows)"

definition update_evidence :: "int \<Rightarrow> int \<Rightarrow> int \<Rightarrow> tables \<Rightarrow> (int \<times> int option \<times> tables) result" where
  "update_evidence i evidence time t =
     (case update_rows (\<lambda>w. w_id w = i) (\<lambda>w. w\<lparr>w_evidence_count := evidence, w_updated_at := time\<rparr>) (t_drafts t) of (n, ws) \<Rightarrow>
      Inr (n, None, t\<lparr>t_drafts := ws\<rparr>))"

definition unique_pairs :: "draft_row list \<Rightarrow> bool" where
  "unique_pairs ws \<longleftrightarrow> distinct (map (\<lambda>w. (w_failure w, w_correction w)) ws)"

definition insert_draft :: "sqlite \<Rightarrow> string \<Rightarrow> string \<Rightarrow> int \<Rightarrow> tables \<Rightarrow> (unit \<times> int option \<times> tables) result" where
  "insert_draft q failure correction time t =
     (case sq_rowid q (map w_id (t_drafts t)) of i \<Rightarrow>
      case t_drafts t @ [\<lparr>w_id = i, w_failure = failure, w_correction = correction, w_evidence_count = 1,
        w_created_at = time, w_updated_at = time\<rparr>] of ws \<Rightarrow>
      if unique_pairs ws then Inr ((), Some i, t\<lparr>t_drafts := ws\<rparr>) else Inl ErrUnique)"

definition update_draft :: "int \<Rightarrow> string \<Rightarrow> string \<Rightarrow> int \<Rightarrow> tables \<Rightarrow> (int \<times> int option \<times> tables) result" where
  "update_draft i failure correction time t =
     (case update_rows (\<lambda>w. w_id w = i) (\<lambda>w. w\<lparr>w_failure := failure, w_correction := correction, w_updated_at := time\<rparr>) (t_drafts t)
      of (n, ws) \<Rightarrow> if unique_pairs ws then Inr (n, None, t\<lparr>t_drafts := ws\<rparr>) else Inl ErrUnique)"

text \<open>\<open>INSERT INTO learned_rules ... ON CONFLICT(draft_id) DO UPDATE\<close>\<close>

definition upsert_rule :: "sqlite \<Rightarrow> int \<Rightarrow> string \<Rightarrow> int \<Rightarrow> tables \<Rightarrow> (unit \<times> int option \<times> tables) result" where
  "upsert_rule q draftID action time t =
     (if draftID \<notin> w_id ` set (t_drafts t) then Inl ErrForeignKey
      else if draftID \<in> u_draft_id ` set (t_rules t) then
        Inr ((), None, t\<lparr>t_rules := snd (update_rows (\<lambda>u. u_draft_id u = draftID)
          (\<lambda>u. u\<lparr>u_action := action, u_enabled := 1, u_updated_at := time\<rparr>) (t_rules t))\<rparr>)
      else case sq_rowid q (map u_id (t_rules t)) of i \<Rightarrow>
        Inr ((), Some i, t\<lparr>t_rules := t_rules t @ [\<lparr>u_id = i, u_draft_id = draftID, u_action = action, u_enabled = 1,
          u_created_at = time, u_updated_at = time\<rparr>]\<rparr>))"

definition select_rule_id :: "int \<Rightarrow> tables \<Rightarrow> (int \<times> int option \<times> tables) result" where
  "select_rule_id draftID t =
     (case find (\<lambda>u. u_draft_id u = draftID) (t_rules t) of None \<Rightarrow> Inl ErrNoRows | Some u \<Rightarrow> Inr (u_id u, None, t))"

definition update_rule_action :: "int \<Rightarrow> string \<Rightarrow> int \<Rightarrow> tables \<Rightarrow> (int \<times> int option \<times> tables) result" where
  "update_rule_action i action time t =
     (case update_rows (\<lambda>u. u_id u = i) (\<lambda>u. u\<lparr>u_action := action, u_updated_at := time\<rparr>) (t_rules t) of (n, us) \<Rightarrow>
      Inr (n, None, t\<lparr>t_rules := us\<rparr>))"

definition update_rule_enabled :: "int \<Rightarrow> int \<Rightarrow> int \<Rightarrow> tables \<Rightarrow> (int \<times> int option \<times> tables) result" where
  "update_rule_enabled i value time t =
     (case update_rows (\<lambda>u. u_id u = i) (\<lambda>u. u\<lparr>u_enabled := value, u_updated_at := time\<rparr>) (t_rules t) of (n, us) \<Rightarrow>
      Inr (n, None, t\<lparr>t_rules := us\<rparr>))"

definition delete_rule :: "int \<Rightarrow> tables \<Rightarrow> (int \<times> int option \<times> tables) result" where
  "delete_rule i t =
     (case partition (\<lambda>u. u_id u = i) (t_rules t) of (gone, kept) \<Rightarrow> Inr (int (length gone), None, t\<lparr>t_rules := kept\<rparr>))"

text \<open>The two queries that list rows, with their order.\<close>

definition select_reviewable :: "tables \<Rightarrow> (Draft list \<times> int option \<times> tables) result" where
  "select_reviewable t = Inr (map (\<lambda>w. \<lparr>dr_ID = w_id w, dr_NormalizedFailure = w_failure w, dr_NormalizedCorrection = w_correction w,
       dr_EvidenceCount = w_evidence_count w, dr_CreatedAt = unix_time (w_created_at w), dr_UpdatedAt = unix_time (w_updated_at w)\<rparr>)
     (sort_key (\<lambda>w. (w_updated_at w, w_id w)) (filter (\<lambda>w. DraftEvidenceThreshold \<le> w_evidence_count w) (t_drafts t))), None, t)"

definition joined_rule :: "draft_row \<Rightarrow> rule_row \<Rightarrow> LearnedRule" where
  "joined_rule w u = \<lparr>lr_ID = u_id u, lr_DraftID = u_draft_id u, lr_Failure = w_failure w, lr_Correction = w_correction w,
     lr_Action = u_action u, lr_Enabled = (u_enabled u = 1), lr_CreatedAt = unix_time (u_created_at u), lr_UpdatedAt = unix_time (u_updated_at u)\<rparr>"

definition select_active :: "tables \<Rightarrow> (LearnedRule list \<times> int option \<times> tables) result" where
  "select_active t = Inr (concat (map (\<lambda>u. map (\<lambda>w. joined_rule w u) (filter (\<lambda>w. w_id w = u_draft_id u) (t_drafts t)))
     (sort_key u_id (filter (\<lambda>u. u_enabled u = 1) (t_rules t)))), None, t)"

definition delete_rules :: "tables \<Rightarrow> (unit \<times> int option \<times> tables) result" where
  "delete_rules t = Inr ((), None, t\<lparr>t_rules := []\<rparr>)"

definition delete_drafts :: "tables \<Rightarrow> (unit \<times> int option \<times> tables) result" where
  "delete_drafts t = (if u_draft_id ` set (t_rules t) \<inter> w_id ` set (t_drafts t) \<noteq> {} then Inl ErrForeignKey
     else Inr ((), None, t\<lparr>t_drafts := []\<rparr>))"

definition delete_all_observations :: "tables \<Rightarrow> (unit \<times> int option \<times> tables) result" where
  "delete_all_observations t = Inr ((), None, t\<lparr>t_observations := []\<rparr>)"

subsection \<open>Observations and drafts (store.go)\<close>

definition zeroDraft :: Draft where
  "zeroDraft = \<lparr>dr_ID = 0, dr_NormalizedFailure = [], dr_NormalizedCorrection = [], dr_EvidenceCount = 0,
     dr_CreatedAt = zero_time, dr_UpdatedAt = zero_time\<rparr>"

text \<open>\<open>time.Now().UTC()\<close> where the given time is zero.\<close>

definition or_now :: "sqlite \<Rightarrow> database \<Rightarrow> int \<Rightarrow> int" where
  "or_now q db t = (if t = zero_time then sq_now q (db_statements db) else t)"

definition RecordObservation :: "sqlite \<Rightarrow> Observation \<Rightarrow> Store \<Rightarrow> Observation result \<times> Store" where
  "RecordObservation q observation store =
     (case store of None \<Rightarrow> (Inl ErrStoreClosed, None) | Some db \<Rightarrow>
      if ob_Session observation = [] \<or> ob_FailedCommand observation = [] \<or> ob_CorrectedCommand observation = []
      then (Inl (Err ''learning observation requires session failed command and corrected command'' []), Some db)
      else case observation\<lparr>ob_CreatedAt := or_now q db (ob_CreatedAt observation)\<rparr> of ob \<Rightarrow>
        (case run_statement q (insert_observation q ob) db of (r, db1) \<Rightarrow>
         (map_sum (\<lambda>e. e) (\<lambda>_. ob\<lparr>ob_ID := db_last_insert db1\<rparr>) r, Some db1)))"

definition DeleteObservationsBefore :: "sqlite \<Rightarrow> int \<Rightarrow> Store \<Rightarrow> int result \<times> Store" where
  "DeleteObservationsBefore q cutoff store =
     (case store of None \<Rightarrow> (Inl ErrStoreClosed, None) | Some db \<Rightarrow>
      (case run_statement q (delete_observations (time_Unix cutoff)) db of (r, db1) \<Rightarrow> (r, Some db1)))"

text \<open>The body of the transaction of \<open>RecordLearningPair\<close>: count one more, or insert the draft.\<close>

definition record_draft :: "sqlite \<Rightarrow> Observation \<Rightarrow> int \<Rightarrow> database \<Rightarrow> Draft result \<times> database" where
  "record_draft q observation time db =
     (case run_statement q (select_draft (ob_FailedCommand observation) (ob_CorrectedCommand observation)) db of (r, db1) \<Rightarrow>
      case zeroDraft\<lparr>dr_NormalizedFailure := ob_FailedCommand observation, dr_NormalizedCorrection := ob_CorrectedCommand observation,
        dr_UpdatedAt := time\<rparr> of draft \<Rightarrow>
      case r of
        Inr w \<Rightarrow>
          (case run_statement q (update_evidence (w_id w) (w_evidence_count w + 1) (time_Unix time)) db1 of (x, db2) \<Rightarrow>
           (map_sum (\<lambda>e. e) (\<lambda>_. draft\<lparr>dr_ID := w_id w, dr_EvidenceCount := w_evidence_count w + 1,
              dr_CreatedAt := unix_time (w_created_at w)\<rparr>) x, db2))
      | Inl e \<Rightarrow> if e \<noteq> ErrNoRows then (Inl e, db1)
          else (case run_statement q (insert_draft q (ob_FailedCommand observation) (ob_CorrectedCommand observation) (time_Unix time)) db1
            of (x, db2) \<Rightarrow> (map_sum (\<lambda>e. e) (\<lambda>_. draft\<lparr>dr_ID := db_last_insert db2, dr_EvidenceCount := 1, dr_CreatedAt := time\<rparr>) x, db2)))"

definition RecordLearningPair :: "sqlite \<Rightarrow> Observation \<Rightarrow> Store \<Rightarrow> Draft result \<times> Store" where
  "RecordLearningPair q observation store =
     (case RecordObservation q observation store of (r, store1) \<Rightarrow>
      case r of Inl e \<Rightarrow> (Inl e, store1) | Inr _ \<Rightarrow>
      (case store1 of None \<Rightarrow> (Inl ErrNilStore, None) | Some db \<Rightarrow>
       (case transaction q (record_draft q observation (or_now q db (ob_CreatedAt observation))) db of (x, db1) \<Rightarrow> (x, Some db1))))"

definition DraftFor :: "sqlite \<Rightarrow> string \<Rightarrow> string \<Rightarrow> Store \<Rightarrow> Draft result \<times> Store" where
  "DraftFor q failure correction store =
     (case store of None \<Rightarrow> (Inl ErrStoreClosed, None) | Some db \<Rightarrow>
      (case run_statement q (select_draft failure correction) db of (r, db1) \<Rightarrow>
       (map_sum (\<lambda>e. e) (\<lambda>w. \<lparr>dr_ID = w_id w, dr_NormalizedFailure = failure, dr_NormalizedCorrection = correction,
          dr_EvidenceCount = w_evidence_count w, dr_CreatedAt = unix_time (w_created_at w), dr_UpdatedAt = unix_time (w_updated_at w)\<rparr>) r,
        Some db1)))"

text \<open>
  The migration: read \<open>PRAGMA user_version\<close>, and for a new database run the five schema
  statements in a transaction. The first \<open>CREATE TABLE\<close> fails when the table exists.
\<close>

definition statements_error :: "sqlite \<Rightarrow> nat \<Rightarrow> nat \<Rightarrow> go_error option" where
  "statements_error q n k = (case find (\<lambda>i. sq_error q i \<noteq> None) [n..<n + k] of None \<Rightarrow> None | Some i \<Rightarrow> sq_error q i)"

definition create_tables :: "sqlite \<Rightarrow> database \<Rightarrow> unit result \<times> database" where
  "create_tables q db =
     (case db\<lparr>db_statements := db_statements db + 7\<rparr> of db1 \<Rightarrow>
      case statements_error q (db_statements db) 2 of Some e \<Rightarrow> (Inl e, db1) | None \<Rightarrow>
      if db_tables db \<noteq> None then (Inl (Err ''table observations already exists'' []), db1)
      else case statements_error q (db_statements db + 2) 5 of Some e \<Rightarrow> (Inl e, db1) | None \<Rightarrow>
      (Inr (), db1\<lparr>db_user_version := 1, db_tables := Some \<lparr>t_observations = [], t_drafts = [], t_rules = []\<rparr>\<rparr>))"

definition store_migrate :: "sqlite \<Rightarrow> database \<Rightarrow> unit result \<times> database" where
  "store_migrate q db =
     (case db\<lparr>db_statements := db_statements db + 1\<rparr> of db1 \<Rightarrow>
      case sq_error q (db_statements db) of Some e \<Rightarrow> (Inl e, db1) | None \<Rightarrow>
      if 1 < db_user_version db then (Inl (Err ''unsupported local state schema version %d'' [itoa (db_user_version db)]), db1)
      else if db_user_version db = 1 then (Inr (), db1)
      else create_tables q db1)"

subsection \<open>Rules (rules.go)\<close>

definition ListReviewableDrafts :: "sqlite \<Rightarrow> Store \<Rightarrow> Draft list result \<times> Store" where
  "ListReviewableDrafts q store =
     (case store of None \<Rightarrow> (Inl ErrStoreClosed, None) | Some db \<Rightarrow>
      (case run_statement q select_reviewable db of (r, db1) \<Rightarrow> (r, Some db1)))"

text \<open>The body of the transaction of \<open>ActivateDraft\<close>.\<close>

definition activate_draft :: "sqlite \<Rightarrow> int \<Rightarrow> string \<Rightarrow> database \<Rightarrow> LearnedRule result \<times> database" where
  "activate_draft q draftID action db =
     (case run_statement q (select_draft_id draftID) db of (r, db1) \<Rightarrow> case r of
        Inl e \<Rightarrow> (Inl (if e = ErrNoRows then Err ''learned rule draft %d does not exist'' [itoa draftID] else e), db1)
      | Inr w \<Rightarrow>
         if w_evidence_count w < DraftEvidenceThreshold
         then (Inl (Err ''learned rule draft %d has insufficient evidence'' [itoa draftID]), db1)
         else case sq_now q (db_statements db1) of time \<Rightarrow>
           (case run_statement q (upsert_rule q draftID action (time_Unix time)) db1 of (x, db2) \<Rightarrow> case x of
              Inl e \<Rightarrow> (Inl e, db2)
            | Inr _ \<Rightarrow>
               (case (if db_last_insert db2 = 0 then run_statement q (select_rule_id draftID) db2 else (Inr (db_last_insert db2), db2))
                of (y, db3) \<Rightarrow>
                (map_sum (\<lambda>e. e) (\<lambda>i. \<lparr>lr_ID = i, lr_DraftID = draftID, lr_Failure = w_failure w, lr_Correction = w_correction w,
                   lr_Action = action, lr_Enabled = True, lr_CreatedAt = time, lr_UpdatedAt = time\<rparr>) y, db3))))"

definition ActivateDraft :: "sqlite \<Rightarrow> int \<Rightarrow> string \<Rightarrow> Store \<Rightarrow> LearnedRule result \<times> Store" where
  "ActivateDraft q draftID action store =
     (if \<not> validAction action then (Inl (Err ''learned rule action must be off, hint, or rewrite'' []), store)
      else if draftID < 1 then (Inl (Err ''learned rule draft id is invalid'' []), store)
      else case store of None \<Rightarrow> (Inl ErrNilStore, None) | Some db \<Rightarrow>
        (case transaction q (activate_draft q draftID action) db of (r, db1) \<Rightarrow> (r, Some db1)))"

definition ListActiveRules :: "sqlite \<Rightarrow> Store \<Rightarrow> LearnedRule list result \<times> Store" where
  "ListActiveRules q store =
     (case store of None \<Rightarrow> (Inl ErrStoreClosed, None) | Some db \<Rightarrow>
      (case run_statement q select_active db of (r, db1) \<Rightarrow> (r, Some db1)))"

text \<open>A statement that has to affect exactly one row.\<close>

definition must_change_one :: "string \<Rightarrow> int \<Rightarrow> int result \<times> database \<Rightarrow> unit result \<times> Store" where
  "must_change_one what i answer =
     (case answer of (r, db) \<Rightarrow>
      (case r of Inl e \<Rightarrow> Inl e | Inr changed \<Rightarrow> if changed \<noteq> 1 then Inl (Err what [itoa i]) else Inr (), Some db))"

definition UpdateDraft :: "sqlite \<Rightarrow> int \<Rightarrow> string \<Rightarrow> string \<Rightarrow> Store \<Rightarrow> Draft result \<times> Store" where
  "UpdateDraft q draftID failure correction store =
     (if draftID < 1 \<or> failure = [] \<or> correction = []
      then (Inl (Err ''learned rule draft id failure and correction are required'' []), store)
      else case store of None \<Rightarrow> (Inl ErrNilStore, None) | Some db \<Rightarrow>
        (case must_change_one ''learned rule draft %d does not exist'' draftID
            (run_statement q (update_draft draftID failure correction (time_Unix (sq_now q (db_statements db)))) db) of (r, store1) \<Rightarrow>
         case r of Inl e \<Rightarrow> (Inl e, store1) | Inr _ \<Rightarrow> DraftFor q failure correction store1))"

definition SetRuleAction :: "sqlite \<Rightarrow> int \<Rightarrow> string \<Rightarrow> Store \<Rightarrow> unit result \<times> Store" where
  "SetRuleAction q ruleID action store =
     (if ruleID < 1 \<or> \<not> validAction action then (Inl (Err ''learned rule id and action are invalid'' []), store)
      else case store of None \<Rightarrow> (Inl ErrNilStore, None) | Some db \<Rightarrow>
        must_change_one ''learned rule %d does not exist'' ruleID
          (run_statement q (update_rule_action ruleID action (time_Unix (sq_now q (db_statements db)))) db))"

definition SetRuleEnabled :: "sqlite \<Rightarrow> int \<Rightarrow> bool \<Rightarrow> Store \<Rightarrow> unit result \<times> Store" where
  "SetRuleEnabled q ruleID enabled store =
     (if ruleID < 1 then (Inl (Err ''learned rule id is invalid'' []), store)
      else case store of None \<Rightarrow> (Inl ErrNilStore, None) | Some db \<Rightarrow>
        must_change_one ''learned rule %d does not exist'' ruleID
          (run_statement q (update_rule_enabled ruleID (if enabled then 1 else 0) (time_Unix (sq_now q (db_statements db)))) db))"

definition DeleteRule :: "sqlite \<Rightarrow> int \<Rightarrow> Store \<Rightarrow> unit result \<times> Store" where
  "DeleteRule q ruleID store =
     (if ruleID < 1 then (Inl (Err ''learned rule id is invalid'' []), store)
      else case store of None \<Rightarrow> (Inl ErrNilStore, None) | Some db \<Rightarrow>
        must_change_one ''learned rule %d does not exist'' ruleID (run_statement q (delete_rule ruleID) db))"

definition purge_tables :: "sqlite \<Rightarrow> database \<Rightarrow> unit result \<times> database" where
  "purge_tables q db =
     (case run_statement q delete_rules db of (r1, db1) \<Rightarrow> case r1 of Inl e \<Rightarrow> (Inl e, db1) | Inr _ \<Rightarrow>
      (case run_statement q delete_drafts db1 of (r2, db2) \<Rightarrow> case r2 of Inl e \<Rightarrow> (Inl e, db2) | Inr _ \<Rightarrow>
       run_statement q delete_all_observations db2))"

definition PurgeLearning :: "sqlite \<Rightarrow> Store \<Rightarrow> unit result \<times> Store" where
  "PurgeLearning q store =
     (case store of None \<Rightarrow> (Inl ErrNilStore, None) | Some db \<Rightarrow>
      (case transaction q (purge_tables q) db of (r, db1) \<Rightarrow> (r, Some db1)))"

end
