(* ===== verification/GoHex.thy ===== *)
theory GoHex
  imports GoStrings
begin

section \<open>Hexadecimal text (package encoding/hex)\<close>

text \<open>
  \<open>EncodeToString\<close> writes two lower-case digits per byte; \<open>DecodeString\<close> accepts digits of
  either case and fails on a text of odd length or with another character.
\<close>

definition hex_digit :: "nat \<Rightarrow> char" where "hex_digit n = ''0123456789abcdef'' ! n"

definition hex_EncodeToString :: "string \<Rightarrow> string" where
  "hex_EncodeToString bytes = concat (map (\<lambda>b. [hex_digit (byte b div 16), hex_digit (byte b mod 16)]) bytes)"

definition hex_value :: "char \<Rightarrow> nat option" where
  "hex_value c = (let b = byte c in
     if 48 \<le> b \<and> b \<le> 57 then Some (b - 48)
     else if 97 \<le> b \<and> b \<le> 102 then Some (b - 87)
     else if 65 \<le> b \<and> b \<le> 70 then Some (b - 55)
     else None)"

fun hex_DecodeString :: "string \<Rightarrow> string option" where
  "hex_DecodeString [] = Some []"
| "hex_DecodeString [c] = None"
| "hex_DecodeString (c # d # s) =
    (case (hex_value c, hex_value d) of
       (Some a, Some b) \<Rightarrow> map_option (\<lambda>r. char_of (a * 16 + b) # r) (hex_DecodeString s)
     | _ \<Rightarrow> None)"

lemma hex_digits_ok: "list_all (\<lambda>n. hex_value (hex_digit n) = Some n \<and> 48 \<le> byte (hex_digit n) \<and> byte (hex_digit n) < 0x80) [0..<16]"
  by code_simp

lemma hex_value_digit [simp]: "n < 16 \<Longrightarrow> hex_value (hex_digit n) = Some n"
  using hex_digits_ok by (simp add: list_all_iff)

lemma hex_digit_graphic: "n < 16 \<Longrightarrow> 48 \<le> byte (hex_digit n) \<and> byte (hex_digit n) < 0x80"
  using hex_digits_ok by (simp add: list_all_iff)

lemma hex_value_less: "hex_value c = Some n \<Longrightarrow> n < 16"
  by (auto simp: hex_value_def Let_def split: if_splits)

lemma byte_div_16: "byte c div 16 < 16"
  by (rule less_mult_imp_div_less) simp

lemma length_hex [simp]: "length (hex_EncodeToString bytes) = 2 * length bytes"
  by (induction bytes) (simp_all add: hex_EncodeToString_def)

lemma hex_decode_encode [simp]: "hex_DecodeString (hex_EncodeToString bytes) = Some bytes"
  by (induction bytes) (simp_all add: hex_EncodeToString_def byte_div_16)

end
