(* ===== verification/Daemon.thy ===== *)
theory Daemon
  imports PackRuntime FailureEvidence EngineProps LocalState GoHex
begin

section \<open>The daemon (internal/daemon: protocol.go, service.go, state.go, runtime.go)\<close>

text \<open>
  The request and response records with their validation, and \<open>Service\<close>: what is fixed when the
  daemon starts (\<open>Service\<close>) and what its requests change (\<open>service_state\<close>: pending
  confirmations, pending undos, remembered failures, the engine's state and the learning pairs
  handed to the store). The clock of the service and \<open>rand.Read\<close> are parameters, indexed by the
  number of calls made so far; times are nanoseconds. Every method that takes the mutex is one
  definition on the state, so it is one atomic step; \<open>Handle\<close> composes them. The JSON on
  the wire is in theory \<open>Wire\<close>, the socket in \<open>Lifecycle\<close>, the store's database in \<open>LocalState\<close>.
\<close>

subsection \<open>Protocol (protocol.go)\<close>

definition daemon_ProtocolVersion :: int where "daemon_ProtocolVersion = 1"
definition MaxRequestBytes :: nat where "MaxRequestBytes = 65536"

definition HandshakeOperation :: string where "HandshakeOperation = ''handshake''"
definition StatusOperation :: string where "StatusOperation = ''status''"
definition PreSendOperation :: string where "PreSendOperation = ''pre-send''"
definition PostFailureOperation :: string where "PostFailureOperation = ''post-failure''"
definition PostSuccessOperation :: string where "PostSuccessOperation = ''post-success''"
definition UndoOperation :: string where "UndoOperation = ''undo''"
definition ConfirmOperation :: string where "ConfirmOperation = ''confirm''"
definition StopOperation :: string where "StopOperation = ''stop''"

lemmas operation_names = HandshakeOperation_def StatusOperation_def PreSendOperation_def PostFailureOperation_def
  PostSuccessOperation_def UndoOperation_def ConfirmOperation_def StopOperation_def

record Request =
  rq_Version :: int
  rq_Operation :: string
  rq_Shell :: string
  rq_Command :: string
  rq_FailureOutput :: string
  rq_Session :: string
  rq_Token :: string

record Response =
  rs_Version :: int
  rs_Action :: string
  rs_RewriteEligible :: bool
  rs_Suggestion :: string
  rs_Explanation :: string
  rs_Confidence :: string
  rs_Risk :: string
  rs_Source :: string
  rs_PackID :: string
  rs_RuleID :: string
  rs_Evidence :: "Evidence list"
  rs_ConfirmationToken :: string
  rs_UndoToken :: string
  rs_Error :: string

definition zeroResponse :: Response where
  "zeroResponse = \<lparr>rs_Version = 0, rs_Action = [], rs_RewriteEligible = False, rs_Suggestion = [], rs_Explanation = [],
     rs_Confidence = [], rs_Risk = [], rs_Source = [], rs_PackID = [], rs_RuleID = [], rs_Evidence = [],
     rs_ConfirmationToken = [], rs_UndoToken = [], rs_Error = []\<rparr>"

text \<open>\<open>Response{Version: ProtocolVersion, Action: action}\<close>\<close>

definition action_response :: "string \<Rightarrow> Response" where
  "action_response action = zeroResponse\<lparr>rs_Version := daemon_ProtocolVersion, rs_Action := action\<rparr>"

definition validOperation :: "string \<Rightarrow> bool" where
  "validOperation operation \<longleftrightarrow> operation \<in> set [HandshakeOperation, StatusOperation, PreSendOperation, PostFailureOperation,
     PostSuccessOperation, UndoOperation, ConfirmOperation, StopOperation]"

definition containsUnsafeControl :: "string \<Rightarrow> bool" where
  "containsUnsafeControl value \<longleftrightarrow> list_ex (\<lambda>r. unicode_IsControl r \<and> r \<noteq> 10 \<and> r \<noteq> 13 \<and> r \<noteq> 9) (runes value)"

definition request_Validate :: "Request \<Rightarrow> go_error option" where
  "request_Validate r =
     (if rq_Version r \<noteq> daemon_ProtocolVersion then Some (Err ''unsupported daemon protocol version %d'' [itoa (rq_Version r)])
      else if \<not> validOperation (rq_Operation r) then Some (Err ''unsupported daemon operation %q'' [rq_Operation r])
      else if MaxRequestBytes < length (rq_Command r) + length (rq_FailureOutput r) + length (rq_Session r) + length (rq_Token r)
      then Some (Err ''daemon request exceeds size limit'' [])
      else if CHR 0x00 \<in> set (rq_Session r) \<or> CHR 0x00 \<in> set (rq_Token r)
      then Some (Err ''daemon request contains invalid token data'' [])
      else if containsUnsafeControl (rq_FailureOutput r)
      then Some (Err ''daemon failure output contains control characters'' [])
      else None)"

definition response_Validate :: "Response \<Rightarrow> go_error option" where
  "response_Validate r =
     (if rs_Version r \<noteq> daemon_ProtocolVersion then Some (Err ''unsupported daemon response version %d'' [itoa (rs_Version r)])
      else if rs_Action r = [] then Some (Err ''daemon response action is required'' [])
      else None)"

subsection \<open>Directories (state.go, runtime.go)\<close>

text \<open>The lookups may be missing (\<open>nil\<close>), and the home directory lookup may fail.\<close>

definition StateDirectory :: "string result option \<Rightarrow> (string \<Rightarrow> string) option \<Rightarrow> string result" where
  "StateDirectory home environment =
     (case environment of None \<Rightarrow> Inl (Err ''state environment lookup is required'' []) | Some getenv \<Rightarrow>
      if filepath_IsAbs (getenv ''XDG_STATE_HOME'') then Inr (filepath_Join [getenv ''XDG_STATE_HOME'', ''solomon''])
      else case home of None \<Rightarrow> Inl (Err ''home directory lookup is required'' []) | Some r \<Rightarrow>
        (case r of Inl e \<Rightarrow> Inl e | Inr value \<Rightarrow>
           if value = [] \<or> \<not> filepath_IsAbs value then Inl (Err ''home directory must be absolute'' [])
           else Inr (filepath_Join [value, ''.local'', ''state'', ''solomon''])))"

definition RuntimeDirectory :: "string result option \<Rightarrow> (string \<Rightarrow> string) option \<Rightarrow> string result" where
  "RuntimeDirectory home environment =
     (case environment of None \<Rightarrow> Inl (Err ''runtime environment lookup is required'' []) | Some getenv \<Rightarrow>
      if filepath_IsAbs (getenv ''XDG_RUNTIME_DIR'') then Inr (filepath_Join [getenv ''XDG_RUNTIME_DIR'', ''solomon''])
      else case home of None \<Rightarrow> Inl (Err ''home directory lookup is required'' []) | Some r \<Rightarrow>
        (case r of Inl e \<Rightarrow> Inl e | Inr value \<Rightarrow>
           if value = [] \<or> \<not> filepath_IsAbs value then Inl (Err ''home directory must be absolute'' [])
           else Inr (filepath_Join [value, ''.cache'', ''solomon'', ''runtime''])))"

subsection \<open>The service and its state (service.go)\<close>

record confirmation =
  cn_command :: string
  cn_token :: string
  cn_expires :: int

record failure =
  fl_command :: string
  fl_output :: string
  fl_created :: int

record pendingUndo =
  pu_session :: string
  pu_command :: string
  pu_expires :: int

record Service =
  sc_Engine :: Options
  sc_Config :: Config
  sc_Packs :: RuntimeResolver
  sc_HasStore :: bool
  sc_LearnedRules :: "LearnedRule list"

record service_env =
  se_engine :: engine_env
  se_now :: "nat \<Rightarrow> int"
  se_rand :: "nat \<Rightarrow> string result"

record service_state =
  sv_confirmations :: "string \<rightharpoonup> confirmation"
  sv_undos :: "string \<rightharpoonup> pendingUndo"
  sv_failures :: "string \<rightharpoonup> failure"
  sv_engine :: engine_state
  sv_calls :: nat
  sv_rands :: nat
  sv_recorded :: "Observation list"

definition maxFailureOutputBytes :: nat where "maxFailureOutputBytes = 8192"
definition learningPairWindow :: int where "learningPairWindow = 5 * 60 * second"

definition currentTime :: "service_env \<Rightarrow> service_state \<Rightarrow> int \<times> service_state" where
  "currentTime env s = (se_now env (sv_calls s), s\<lparr>sv_calls := sv_calls s + 1\<rparr>)"

text \<open>\<open>rand.Read\<close> fills sixteen bytes or fails.\<close>

definition newConfirmationToken :: "service_env \<Rightarrow> service_state \<Rightarrow> string result \<times> service_state" where
  "newConfirmationToken env s =
     (map_sum (\<lambda>e. e) hex_EncodeToString (se_rand env (sv_rands s)), s\<lparr>sv_rands := sv_rands s + 1\<rparr>)"

text \<open>Deleting the entries of a map that satisfy a condition, in any order.\<close>

definition delete_where :: "('v \<Rightarrow> bool) \<Rightarrow> (string \<rightharpoonup> 'v) \<Rightarrow> (string \<rightharpoonup> 'v)" where
  "delete_where p m = (\<lambda>k. case m k of None \<Rightarrow> None | Some v \<Rightarrow> if p v then None else Some v)"

subsection \<open>Confirmations and undos\<close>

definition consumeConfirmation :: "service_env \<Rightarrow> string \<Rightarrow> string \<Rightarrow> service_state \<Rightarrow> bool \<times> service_state" where
  "consumeConfirmation env session command s =
     (case sv_confirmations s session of
        None \<Rightarrow> (False, s)
      | Some pending \<Rightarrow>
         (case s\<lparr>sv_confirmations := (sv_confirmations s)(session := None)\<rparr> of s1 \<Rightarrow>
          if cn_command pending \<noteq> command then (False, s1)
          else case currentTime env s1 of (time, s2) \<Rightarrow> (time < cn_expires pending, s2)))"

definition consumeConfirmationToken :: "service_env \<Rightarrow> string \<Rightarrow> string \<Rightarrow> string \<Rightarrow> service_state \<Rightarrow> bool \<times> service_state" where
  "consumeConfirmationToken env session command token s =
     (if session = [] \<or> command = [] \<or> token = [] then (False, s)
      else case sv_confirmations s session of
        None \<Rightarrow> (False, s)
      | Some pending \<Rightarrow>
         (case currentTime env s of (time, s1) \<Rightarrow>
          if \<not> time < cn_expires pending then (False, s1\<lparr>sv_confirmations := (sv_confirmations s1)(session := None)\<rparr>)
          else if cn_command pending \<noteq> command \<or> cn_token pending \<noteq> token then (False, s1)
          else (True, s1\<lparr>sv_confirmations := (sv_confirmations s1)(session := None)\<rparr>)))"

definition storeConfirmation :: "service_env \<Rightarrow> string \<Rightarrow> string \<Rightarrow> string \<Rightarrow> service_state \<Rightarrow> service_state" where
  "storeConfirmation env session command token s =
     (case currentTime env s of (time, s1) \<Rightarrow>
        s1\<lparr>sv_confirmations := (sv_confirmations s1)(session \<mapsto> \<lparr>cn_command = command, cn_token = token, cn_expires = time + 5 * second\<rparr>)\<rparr>)"

definition removeExpiredUndos :: "int \<Rightarrow> service_state \<Rightarrow> service_state" where
  "removeExpiredUndos time s = s\<lparr>sv_undos := delete_where (\<lambda>p. \<not> time < pu_expires p) (sv_undos s)\<rparr>"

definition clear_session_undos :: "string \<Rightarrow> service_state \<Rightarrow> service_state" where
  "clear_session_undos session s = s\<lparr>sv_undos := delete_where (\<lambda>p. pu_session p = session) (sv_undos s)\<rparr>"

definition storeUndoToken :: "Service \<Rightarrow> service_env \<Rightarrow> string \<Rightarrow> string \<Rightarrow> string \<Rightarrow> service_state \<Rightarrow> service_state" where
  "storeUndoToken svc env token session command s =
     (case currentTime env s of (time, s1) \<Rightarrow>
      case clear_session_undos session (removeExpiredUndos time s1) of s2 \<Rightarrow>
        s2\<lparr>sv_undos := (sv_undos s2)(token \<mapsto> \<lparr>pu_session = session, pu_command = command,
          pu_expires = time + cf_UndoTTLSeconds (sc_Config svc) * second\<rparr>)\<rparr>)"

definition consumeUndoToken :: "service_env \<Rightarrow> string \<Rightarrow> string \<Rightarrow> service_state \<Rightarrow> pendingUndo option \<times> service_state" where
  "consumeUndoToken env session token s =
     (if session = [] \<or> token = [] then (None, s)
      else case currentTime env s of (time, s1) \<Rightarrow>
        (case removeExpiredUndos time s1 of s2 \<Rightarrow>
         case sv_undos s2 token of
           None \<Rightarrow> (None, s2)
         | Some pending \<Rightarrow> if pu_session pending \<noteq> session then (None, s2)
             else (Some pending, s2\<lparr>sv_undos := (sv_undos s2)(token := None)\<rparr>)))"

definition clearPendingUndo :: "string \<Rightarrow> service_state \<Rightarrow> service_state" where
  "clearPendingUndo session s = (if session = [] then s else clear_session_undos session s)"

subsection \<open>Learning\<close>

definition normalizedLearningCommand :: "string \<Rightarrow> string \<times> bool" where
  "normalizedLearningCommand command =
     (if length command = 0 \<or> 8192 < length command then ([], False)
      else case strings_Fields command of words \<Rightarrow>
        if words = [] then ([], False)
        else case redact_Command words of (value, containsSecret) \<Rightarrow> (value, \<not> containsSecret))"

definition learned_levels :: "(string \<times> nat) list" where
  "learned_levels = [(''off'', 0), (''hint'', 1), (''rewrite'', 2)]"

text \<open>The levels are distinct, so the loop over the map finds the same action in every order.\<close>

definition limitedLearnedAction :: "string \<Rightarrow> string \<Rightarrow> string" where
  "limitedLearnedAction ruleAction maximum =
     (case (map_of learned_levels ruleAction, map_of learned_levels maximum) of
        (Some ruleLevel, Some ceilingLevel) \<Rightarrow>
          (case find (\<lambda>(action, level). level = (if ceilingLevel < ruleLevel then ceilingLevel else ruleLevel)) learned_levels of
             Some (action, _) \<Rightarrow> action | None \<Rightarrow> ''off'')
      | _ \<Rightarrow> ''off'')"

definition learned_response :: "string \<Rightarrow> LearnedRule \<Rightarrow> Response" where
  "learned_response action rule = zeroResponse\<lparr>rs_Version := daemon_ProtocolVersion, rs_Action := action,
     rs_Suggestion := lr_Correction rule, rs_Explanation := ''local learned repair'', rs_Confidence := ''high'',
     rs_Risk := RiskSafe, rs_Source := ''learned'', rs_RuleID := itoa (lr_ID rule)\<rparr>"

definition learnedDecision :: "Service \<Rightarrow> string \<Rightarrow> string \<Rightarrow> Response option" where
  "learnedDecision svc command stage =
     (if stage \<noteq> ''pre'' \<or> \<not> cf_LocalLearningEnabled (sc_Config svc) then None
      else case normalizedLearningCommand command of (fail, ok) \<Rightarrow>
        if \<not> ok then None
        else case find (\<lambda>rule. lr_Enabled rule \<and> lr_Failure rule = fail) (sc_LearnedRules svc) of
          None \<Rightarrow> None
        | Some rule \<Rightarrow>
           (case limitedLearnedAction (lr_Action rule) (cf_LearnedRuleActionCeiling (sc_Config svc)) of action \<Rightarrow>
            if action = ''off'' then None else Some (learned_response action rule)))"

definition safeFailureOutput :: "string \<Rightarrow> string" where
  "safeFailureOutput output =
     (case fst (redact_Text output) of out \<Rightarrow> if maxFailureOutputBytes < length out then take maxFailureOutputBytes out else out)"

definition failureKey :: "string \<Rightarrow> string \<Rightarrow> string" where
  "failureKey session token = session @ [CHR 0x00] @ token"

definition removeExpiredFailures :: "int \<Rightarrow> service_state \<Rightarrow> service_state" where
  "removeExpiredFailures time s = s\<lparr>sv_failures := delete_where (\<lambda>p. fl_created p + learningPairWindow < time) (sv_failures s)\<rparr>"

definition rememberFailure :: "Service \<Rightarrow> service_env \<Rightarrow> Request \<Rightarrow> service_state \<Rightarrow> service_state" where
  "rememberFailure svc env request s =
     (if \<not> cf_LocalLearningEnabled (sc_Config svc) \<or> \<not> sc_HasStore svc \<or> rq_Session request = [] then s
      else case normalizedLearningCommand (rq_Command request) of (command, ok) \<Rightarrow>
        if \<not> ok then s
        else case currentTime env s of (time, s1) \<Rightarrow>
          (case removeExpiredFailures time s1 of s2 \<Rightarrow>
           s2\<lparr>sv_failures := (sv_failures s2)(failureKey (rq_Session request) (rq_Token request) \<mapsto>
             \<lparr>fl_command = command, fl_output = safeFailureOutput (rq_FailureOutput request), fl_created = time\<rparr>)\<rparr>))"

text \<open>\<open>Store.RecordLearningPair\<close> is called with an observation; the calls are recorded.\<close>

definition recordSuccess :: "Service \<Rightarrow> service_env \<Rightarrow> Request \<Rightarrow> service_state \<Rightarrow> service_state" where
  "recordSuccess svc env request s =
     (if \<not> cf_LocalLearningEnabled (sc_Config svc) \<or> \<not> sc_HasStore svc \<or> rq_Session request = [] then s
      else case normalizedLearningCommand (rq_Command request) of (correction, ok) \<Rightarrow>
        if \<not> ok then s
        else case currentTime env s of (time, s1) \<Rightarrow>
          (case removeExpiredFailures time s1 of s2 \<Rightarrow>
           case failureKey (rq_Session request) (rq_Token request) of key \<Rightarrow>
           case sv_failures s2 key of
             None \<Rightarrow> s2
           | Some pending \<Rightarrow>
              (case s2\<lparr>sv_failures := (sv_failures s2)(key := None)\<rparr> of s3 \<Rightarrow>
               if fl_command pending = correction then s3
               else s3\<lparr>sv_recorded := sv_recorded s3 @ [\<lparr>ob_ID = 0, ob_Session = rq_Session request,
                 ob_FailedCommand = fl_command pending, ob_CorrectedCommand = correction,
                 ob_FailureOutput = fl_output pending, ob_CreatedAt = time\<rparr>]\<rparr>)))"

subsection \<open>Failure evidence\<close>

definition firstCommandWord :: "string \<Rightarrow> string" where
  "firstCommandWord command = (case strings_Fields command of [] \<Rightarrow> [] | w # _ \<Rightarrow> w)"

definition isPackageManagerCommand :: "string \<Rightarrow> bool" where
  "isPackageManagerCommand c \<longleftrightarrow> c \<in> set [''brew'', ''npm'', ''pnpm'', ''yarn'']"
definition isJavaScriptCommand :: "string \<Rightarrow> bool" where
  "isJavaScriptCommand c \<longleftrightarrow> c \<in> set [''bun'', ''deno'', ''node'']"
definition isPythonCommand :: "string \<Rightarrow> bool" where
  "isPythonCommand c \<longleftrightarrow> c \<in> set [''pip'', ''pytest'', ''python'', ''uv'']"
definition isRustCommand :: "string \<Rightarrow> bool" where
  "isRustCommand c \<longleftrightarrow> c \<in> set [''cargo'', ''rustc'', ''rustup'']"
definition isGoCommand :: "string \<Rightarrow> bool" where
  "isGoCommand c \<longleftrightarrow> c \<in> set [''go'', ''gofmt'']"
definition isContainerCommand :: "string \<Rightarrow> bool" where
  "isContainerCommand c \<longleftrightarrow> c \<in> set [''docker'', ''podman'']"
definition isKubernetesCloudCommand :: "string \<Rightarrow> bool" where
  "isKubernetesCloudCommand c \<longleftrightarrow> c \<in> set [''aws'', ''helm'', ''kubectl'', ''terraform'']"

text \<open>The eight methods \<open>attach...FailureEvidence\<close> differ in the commands and the extractor.\<close>

definition attach_evidence :: "(string \<Rightarrow> bool) \<Rightarrow> (string \<Rightarrow> Evidence list result) \<Rightarrow> Request \<Rightarrow> Response \<Rightarrow> Response" where
  "attach_evidence command_class extractor request response =
     (if rs_Action response = ''none'' \<or> rs_Suggestion response = [] \<or> \<not> command_class (firstCommandWord (rq_Command request))
      then response
      else case extractor (safeFailureOutput (rq_FailureOutput request)) of
        Inl _ \<Rightarrow> response
      | Inr evidence \<Rightarrow> response\<lparr>rs_Evidence := evidence\<rparr>)"

definition attachGitFailureEvidence :: "Request \<Rightarrow> Response \<Rightarrow> Response" where
  "attachGitFailureEvidence = attach_evidence (\<lambda>c. c = ''git'') ExtractGitFailureEvidence"
definition attachPackageManagerFailureEvidence :: "Request \<Rightarrow> Response \<Rightarrow> Response" where
  "attachPackageManagerFailureEvidence = attach_evidence isPackageManagerCommand ExtractPackageManagerFailureEvidence"
definition attachJavaScriptFailureEvidence :: "Request \<Rightarrow> Response \<Rightarrow> Response" where
  "attachJavaScriptFailureEvidence = attach_evidence isJavaScriptCommand ExtractJavaScriptFailureEvidence"
definition attachPythonFailureEvidence :: "Request \<Rightarrow> Response \<Rightarrow> Response" where
  "attachPythonFailureEvidence = attach_evidence isPythonCommand ExtractPythonFailureEvidence"
definition attachRustFailureEvidence :: "Request \<Rightarrow> Response \<Rightarrow> Response" where
  "attachRustFailureEvidence = attach_evidence isRustCommand ExtractRustFailureEvidence"
definition attachGoFailureEvidence :: "Request \<Rightarrow> Response \<Rightarrow> Response" where
  "attachGoFailureEvidence = attach_evidence isGoCommand ExtractGoFailureEvidence"
definition attachContainerFailureEvidence :: "Request \<Rightarrow> Response \<Rightarrow> Response" where
  "attachContainerFailureEvidence = attach_evidence isContainerCommand ExtractContainerFailureEvidence"
definition attachKubernetesCloudFailureEvidence :: "Request \<Rightarrow> Response \<Rightarrow> Response" where
  "attachKubernetesCloudFailureEvidence = attach_evidence isKubernetesCloudCommand ExtractKubernetesCloudFailureEvidence"

definition attach_all :: "Request \<Rightarrow> Response \<Rightarrow> Response" where
  "attach_all request response =
     attachKubernetesCloudFailureEvidence request (attachContainerFailureEvidence request (attachGoFailureEvidence request
       (attachRustFailureEvidence request (attachPythonFailureEvidence request (attachJavaScriptFailureEvidence request
         (attachPackageManagerFailureEvidence request (attachGitFailureEvidence request response)))))))"

subsection \<open>Decisions\<close>

definition evidence_field :: "Evidence \<Rightarrow> Response \<Rightarrow> Response" where
  "evidence_field e response =
     (if ev_Kind e = ''pack'' then response\<lparr>rs_PackID := ev_Value e\<rparr>
      else if ev_Kind e = ''rule'' then response\<lparr>rs_RuleID := ev_Value e\<rparr>
      else if ev_Kind e = ''source'' \<and> ev_Value e = ''installed'' then response\<lparr>rs_Source := ''installed-pack''\<rparr>
      else response)"

definition decision_response :: "Decision \<Rightarrow> Response" where
  "decision_response d =
     (case zeroResponse\<lparr>rs_Version := daemon_ProtocolVersion, rs_Action := d_Action d, rs_RewriteEligible := d_RewriteEligible d,
         rs_Suggestion := d_Suggestion d, rs_Explanation := d_Cause d, rs_Confidence := format_f2 (d_Confidence d),
         rs_Risk := d_Risk d, rs_Source := ''heuristic''\<rparr> of r0 \<Rightarrow>
      case (if d_Class d = RepairClassSemantic then fold evidence_field (d_Evidence d) (r0\<lparr>rs_Source := ''curated''\<rparr>) else r0) of r1 \<Rightarrow>
      if rs_Action r1 = [] then r1\<lparr>rs_Action := ''none''\<rparr> else r1)"

definition service_decision :: "Service \<Rightarrow> service_env \<Rightarrow> string \<Rightarrow> string \<Rightarrow> string \<Rightarrow> service_state \<Rightarrow> Response result \<times> service_state" where
  "service_decision svc env shellName command stage s =
     (case CheckShellContext (sc_Engine svc) (se_engine env) shellName command stage (sv_engine s) of ((d, err), e) \<Rightarrow>
      case err of
        Some x \<Rightarrow> (Inl x, s\<lparr>sv_engine := e\<rparr>)
      | None \<Rightarrow> (Inr (decision_response d), s\<lparr>sv_engine := e\<rparr>))"

text \<open>A match of a pack as a response, before the mode policy; the mode policy decides whether it interrupts.\<close>

definition curated_response :: "RuntimeMatch \<Rightarrow> Response" where
  "curated_response match =
     (case redact_Command (strings_Fields (rm_Suggestion match)) of (suggestion, containsSecret) \<Rightarrow>
      case (if containsSecret then RiskHigh else rm_Risk match) of risk \<Rightarrow>
      zeroResponse\<lparr>rs_Version := daemon_ProtocolVersion, rs_Action := ''hint'',
        rs_RewriteEligible := rm_Source match \<noteq> ''installed'' \<and> suggestion \<noteq> [] \<and> risk = RiskSafe,
        rs_Suggestion := suggestion, rs_Explanation := rm_Cause match, rs_Confidence := ''high'', rs_Risk := risk,
        rs_Source := (if rm_Source match = ''installed'' then ''installed-pack'' else ''curated''),
        rs_PackID := rm_PackID match, rs_RuleID := rm_RuleID match\<rparr>)"

definition curated_interrupts :: "Service \<Rightarrow> string \<Rightarrow> Response \<Rightarrow> bool" where
  "curated_interrupts svc stage response \<longleftrightarrow> stage = ''pre'' \<and> rs_Risk response = RiskHigh \<and>
     (cf_Mode (sc_Config svc) = ''interrupt'' \<or> cf_Mode (sc_Config svc) = ''rewrite'' \<and> cf_RiskInterrupt (sc_Config svc))"

text \<open>
  Asking for a confirmation: a pending one is consumed and the command submitted, otherwise a
  new token is stored and returned with the interrupt.
\<close>

definition confirm_or_interrupt :: "service_env \<Rightarrow> string \<Rightarrow> string \<Rightarrow> Response \<Rightarrow> service_state \<Rightarrow> Response result \<times> service_state" where
  "confirm_or_interrupt env session command response s =
     (case consumeConfirmation env session command s of (confirmed, s1) \<Rightarrow>
      if confirmed then (Inr (response\<lparr>rs_Action := ''submit''\<rparr>), s1)
      else case newConfirmationToken env s1 of (r, s2) \<Rightarrow>
        (case r of
           Inl e \<Rightarrow> (Inl e, s2)
         | Inr token \<Rightarrow> (Inr (response\<lparr>rs_Action := ''interrupt'', rs_ConfirmationToken := token\<rparr>),
             storeConfirmation env session command token s2)))"

definition curatedDecision :: "Service \<Rightarrow> service_env \<Rightarrow> string \<Rightarrow> string \<Rightarrow> string \<Rightarrow> string \<Rightarrow> service_state
    \<Rightarrow> Response option result \<times> service_state" where
  "curatedDecision svc env shellName command session stage s =
     (if \<not> ShellCommandSupported shellName command then (Inr None, s)
      else case MatchLineContext (ee_ctx (se_engine env)) (sc_Packs svc) command (st_polls (sv_engine s)) of (answer, polls) \<Rightarrow>
        (case s\<lparr>sv_engine := (sv_engine s)\<lparr>st_polls := polls\<rparr>\<rparr> of s1 \<Rightarrow>
         case answer of
           Inl e \<Rightarrow> (Inl e, s1)
         | Inr None \<Rightarrow> (Inr None, s1)
         | Inr (Some match) \<Rightarrow>
            if \<not> ShellCommandSupported shellName (rm_Suggestion match) then (Inr None, s1)
            else (case curated_response match of response \<Rightarrow>
              if curated_interrupts svc stage response then
                (if session = [] then (Inr (Some response), s1)
                 else case confirm_or_interrupt env session command response s1 of (r, s2) \<Rightarrow> (map_sum (\<lambda>e. e) Some r, s2))
              else if stage = ''pre'' \<and> rs_RewriteEligible response \<and> cf_Mode (sc_Config svc) = ''rewrite'' \<and> cf_AutoApplySafe (sc_Config svc)
              then (Inr (Some (response\<lparr>rs_Action := ''rewrite''\<rparr>)), s1)
              else (Inr (Some response), s1))))"

definition preSend :: "Service \<Rightarrow> service_env \<Rightarrow> Request \<Rightarrow> service_state \<Rightarrow> Response result \<times> service_state" where
  "preSend svc env request s =
     (if \<not> ShellCommandSupported (rq_Shell request) (rq_Command request) then (Inr (action_response ''none''), s)
      else case curatedDecision svc env (rq_Shell request) (rq_Command request) (rq_Session request) ''pre'' s of (curated, s1) \<Rightarrow>
        (case curated of
           Inl e \<Rightarrow> (Inl e, s1)
         | Inr (Some response) \<Rightarrow> (Inr response, s1)
         | Inr None \<Rightarrow>
            (case learnedDecision svc (rq_Command request) ''pre'' of
               Some response \<Rightarrow> (Inr response, s1)
             | None \<Rightarrow>
                (case service_decision svc env (rq_Shell request) (rq_Command request) ''pre'' s1 of (r, s2) \<Rightarrow>
                 case r of
                   Inl e \<Rightarrow> (Inl e, s2)
                 | Inr response \<Rightarrow>
                     if rs_Action response \<noteq> ''interrupt'' \<or> rq_Session request = [] then (Inr response, s2)
                     else confirm_or_interrupt env (rq_Session request) (rq_Command request) response s2))))"

definition issueUndoToken :: "Service \<Rightarrow> service_env \<Rightarrow> Request \<Rightarrow> Response \<Rightarrow> service_state \<Rightarrow> Response \<times> service_state" where
  "issueUndoToken svc env request response s =
     (if \<not> cf_UndoEnabled (sc_Config svc) \<or> rs_Action response \<noteq> ''rewrite'' \<or> rq_Session request = [] \<or> rq_Command request = []
      then (response, s)
      else case newConfirmationToken env s of (r, s1) \<Rightarrow>
        (case r of
           Inl e \<Rightarrow> (response, s1)
         | Inr token \<Rightarrow> (response\<lparr>rs_UndoToken := token\<rparr>, storeUndoToken svc env token (rq_Session request) (rq_Command request) s1)))"

definition undo_response :: "string \<Rightarrow> Response" where
  "undo_response command = zeroResponse\<lparr>rs_Version := daemon_ProtocolVersion, rs_Action := ''edit-in-buffer'',
     rs_Suggestion := command, rs_Risk := RiskSafe, rs_Source := ''undo''\<rparr>"

definition handle_post_failure :: "Service \<Rightarrow> service_env \<Rightarrow> Request \<Rightarrow> service_state \<Rightarrow> Response result \<times> service_state" where
  "handle_post_failure svc env request s =
     (case rememberFailure svc env request (clearPendingUndo (rq_Session request) s) of s1 \<Rightarrow>
      case curatedDecision svc env (rq_Shell request) (rq_Command request) (rq_Session request) ''post'' s1 of (curated, s2) \<Rightarrow>
      case curated of
        Inl e \<Rightarrow> (Inl e, s2)
      | Inr (Some response) \<Rightarrow> (Inr (attach_all request response), s2)
      | Inr None \<Rightarrow>
         (case service_decision svc env (rq_Shell request) (rq_Command request) ''post'' s2 of (r, s3) \<Rightarrow>
          (map_sum (\<lambda>e. e) (attach_all request) r, s3)))"

definition Handle :: "Service \<Rightarrow> service_env \<Rightarrow> Request \<Rightarrow> service_state \<Rightarrow> Response result \<times> service_state" where
  "Handle svc env request s =
     (if rq_Operation request = HandshakeOperation then (Inr (action_response ''ready''), s)
      else if rq_Operation request = StatusOperation then (Inr (action_response ''ready''), s)
      else if rq_Operation request = PreSendOperation then
        (case preSend svc env request (clearPendingUndo (rq_Session request) s) of (r, s1) \<Rightarrow>
         case r of Inl e \<Rightarrow> (Inl e, s1)
         | Inr response \<Rightarrow> (case issueUndoToken svc env request response s1 of (response', s2) \<Rightarrow> (Inr response', s2)))
      else if rq_Operation request = PostFailureOperation then handle_post_failure svc env request s
      else if rq_Operation request = PostSuccessOperation then
        (Inr (action_response ''none''), recordSuccess svc env request (clearPendingUndo (rq_Session request) s))
      else if rq_Operation request = ConfirmOperation then
        (case consumeConfirmationToken env (rq_Session request) (rq_Command request) (rq_Token request) s of (ok, s1) \<Rightarrow>
         (Inr (action_response (if ok then ''submit'' else ''none'')), s1))
      else if rq_Operation request = UndoOperation then
        (if \<not> cf_UndoEnabled (sc_Config svc) then (Inr (action_response ''none''), s)
         else case consumeUndoToken env (rq_Session request) (rq_Token request) s of (pending, s1) \<Rightarrow>
           (case pending of None \<Rightarrow> (Inr (action_response ''none''), s1)
            | Some p \<Rightarrow> (Inr (undo_response (pu_command p)), s1)))
      else if rq_Operation request = StopOperation then (Inr (action_response ''stopping''), s)
      else (Inl (Err ''unsupported daemon operation %q'' [rq_Operation request]), s))"

end
