(* ===== verification/ServiceProps.thy ===== *)
theory ServiceProps
  imports Daemon
begin

section \<open>Properties of the daemon service\<close>

text \<open>
  Requests are served by concurrent goroutines; the methods that take the mutex are atomic.
  \<open>token_run\<close> is the transition system of those atomic methods in any interleaving, with any
  other activity of the service in between, and a history of what was called and when.
  \<open>Handle_run\<close> shows that every call of \<open>Handle\<close> is a sequence of such steps. The invariant of
  the system says which call stored each pending confirmation and undo and that it was not
  used since; the properties about confirming and undoing follow from it.
\<close>

subsection \<open>The atomic operations\<close>

datatype token_op =
    StoreConfirm string string string    \<comment> \<open>session, command, token\<close>
  | ConsumeConfirm string string         \<comment> \<open>session, command\<close>
  | ConsumeToken string string string    \<comment> \<open>session, command, token\<close>
  | StoreUndo string string string       \<comment> \<open>token, session, command\<close>
  | ConsumeUndo string string            \<comment> \<open>session, token\<close>
  | ClearUndo string                     \<comment> \<open>session\<close>

fun op_step :: "Service \<Rightarrow> service_env \<Rightarrow> token_op \<Rightarrow> service_state \<Rightarrow> bool \<times> service_state" where
  "op_step svc env (StoreConfirm session command token) s = (True, storeConfirmation env session command token s)"
| "op_step svc env (ConsumeConfirm session command) s = consumeConfirmation env session command s"
| "op_step svc env (ConsumeToken session command token) s = consumeConfirmationToken env session command token s"
| "op_step svc env (StoreUndo token session command) s = (True, storeUndoToken svc env token session command s)"
| "op_step svc env (ConsumeUndo session token) s =
     (case consumeUndoToken env session token s of (p, s') \<Rightarrow> (p \<noteq> None, s'))"
| "op_step svc env (ClearUndo session) s = (True, clearPendingUndo session s)"

text \<open>An entry of the history: the operation, whether it succeeded, and the clock call it began at.\<close>

type_synonym history = "(token_op \<times> bool \<times> nat) list"

inductive token_run :: "Service \<Rightarrow> service_env \<Rightarrow> history \<Rightarrow> service_state \<Rightarrow> bool" where
  run_start: "sv_confirmations s = Map.empty \<Longrightarrow> sv_undos s = Map.empty \<Longrightarrow> token_run svc env [] s"
| run_op: "token_run svc env h s \<Longrightarrow> op_step svc env op s = (ok, s') \<Longrightarrow> token_run svc env ((op, ok, sv_calls s) # h) s'"
| run_elsewhere: "token_run svc env h s \<Longrightarrow> sv_confirmations s' = sv_confirmations s \<Longrightarrow> sv_undos s' = sv_undos s \<Longrightarrow>
    token_run svc env h s'"

text \<open>The calls after which a stored confirmation of a session, or a stored undo, is gone.\<close>

fun ends_confirmation :: "string \<Rightarrow> token_op \<times> bool \<times> nat \<Rightarrow> bool" where
  "ends_confirmation session (StoreConfirm s c t, ok, n) \<longleftrightarrow> s = session"
| "ends_confirmation session (ConsumeConfirm s c, ok, n) \<longleftrightarrow> s = session"
| "ends_confirmation session (ConsumeToken s c t, ok, n) \<longleftrightarrow> s = session \<and> ok"
| "ends_confirmation session _ \<longleftrightarrow> False"

fun ends_undo :: "string \<Rightarrow> string \<Rightarrow> token_op \<times> bool \<times> nat \<Rightarrow> bool" where
  "ends_undo session token (StoreUndo t s c, ok, n) \<longleftrightarrow> s = session \<or> t = token"
| "ends_undo session token (ConsumeUndo s t, ok, n) \<longleftrightarrow> s = session \<and> t = token \<and> ok"
| "ends_undo session token (ClearUndo s, ok, n) \<longleftrightarrow> s = session \<and> s \<noteq> []"
| "ends_undo session token _ \<longleftrightarrow> False"

definition stored_since :: "history \<Rightarrow> token_op \<Rightarrow> nat \<Rightarrow> (token_op \<times> bool \<times> nat \<Rightarrow> bool) \<Rightarrow> bool" where
  "stored_since h op n ends \<longleftrightarrow> (\<exists>h1 h2. h = h1 @ (op, True, n) # h2 \<and> list_all (\<lambda>x. \<not> ends x) h1)"

lemma stored_since_now: "stored_since ((op, True, n) # h) op n ends"
  unfolding stored_since_def by (rule exI [of _ "[]"], rule exI [of _ h]) simp

lemma stored_since_step: "stored_since h op n ends \<Longrightarrow> \<not> ends x \<Longrightarrow> stored_since (x # h) op n ends"
  unfolding stored_since_def by (metis append_Cons list.pred_inject(2))

definition confirmations_ok :: "service_env \<Rightarrow> history \<Rightarrow> service_state \<Rightarrow> bool" where
  "confirmations_ok env h s \<longleftrightarrow> (\<forall>session c. sv_confirmations s session = Some c \<longrightarrow>
     (\<exists>n. stored_since h (StoreConfirm session (cn_command c) (cn_token c)) n (ends_confirmation session) \<and>
        cn_expires c = se_now env n + 5 * second))"

definition undos_ok :: "Service \<Rightarrow> service_env \<Rightarrow> history \<Rightarrow> service_state \<Rightarrow> bool" where
  "undos_ok svc env h s \<longleftrightarrow> (\<forall>token p. sv_undos s token = Some p \<longrightarrow>
     (\<exists>n. stored_since h (StoreUndo token (pu_session p) (pu_command p)) n (ends_undo (pu_session p) token) \<and>
        pu_expires p = se_now env n + cf_UndoTTLSeconds (sc_Config svc) * second))"

lemmas service_ops = storeConfirmation_def consumeConfirmation_def consumeConfirmationToken_def storeUndoToken_def
  consumeUndoToken_def clearPendingUndo_def clear_session_undos_def removeExpiredUndos_def currentTime_def

lemma delete_where_Some: "delete_where p m k = Some v \<longleftrightarrow> m k = Some v \<and> \<not> p v"
  by (auto simp: delete_where_def split: option.splits)

text \<open>Every pending confirmation after a step is new, or was pending and is not ended by the step.\<close>

lemma step_confirmation:
  assumes "op_step svc env op s = (ok, s')" "sv_confirmations s' session = Some c"
  shows "op = StoreConfirm session (cn_command c) (cn_token c) \<and> ok \<and> cn_expires c = se_now env (sv_calls s) + 5 * second
    \<or> sv_confirmations s session = Some c \<and> \<not> ends_confirmation session (op, ok, sv_calls s)"
  using assms by (cases op) (auto simp: service_ops split: option.splits if_splits prod.splits)

lemma step_undo:
  assumes "op_step svc env op s = (ok, s')" "sv_undos s' token = Some p"
  shows "op = StoreUndo token (pu_session p) (pu_command p) \<and> ok \<and>
      pu_expires p = se_now env (sv_calls s) + cf_UndoTTLSeconds (sc_Config svc) * second
    \<or> sv_undos s token = Some p \<and> \<not> ends_undo (pu_session p) token (op, ok, sv_calls s)"
  using assms by (cases op; cases p) (auto simp: service_ops delete_where_Some split: option.splits if_splits prod.splits)

lemma token_run_confirmations: "token_run svc env h s \<Longrightarrow> confirmations_ok env h s"
proof (induction rule: token_run.induct)
  case (run_op svc env h s op ok s')
  show ?case unfolding confirmations_ok_def
  proof (intro allI impI)
    fix session c assume "sv_confirmations s' session = Some c"
    from step_confirmation [OF run_op.hyps(2) this] run_op.IH
    show "\<exists>n. stored_since ((op, ok, sv_calls s) # h) (StoreConfirm session (cn_command c) (cn_token c)) n (ends_confirmation session) \<and>
        cn_expires c = se_now env n + 5 * second"
      unfolding confirmations_ok_def using stored_since_now stored_since_step by metis
  qed
qed (simp_all add: confirmations_ok_def)

lemma token_run_undos: "token_run svc env h s \<Longrightarrow> undos_ok svc env h s"
proof (induction rule: token_run.induct)
  case (run_op svc env h s op ok s')
  show ?case unfolding undos_ok_def
  proof (intro allI impI)
    fix token p assume "sv_undos s' token = Some p"
    from step_undo [OF run_op.hyps(2) this] run_op.IH
    show "\<exists>n. stored_since ((op, ok, sv_calls s) # h) (StoreUndo token (pu_session p) (pu_command p)) n (ends_undo (pu_session p) token) \<and>
        pu_expires p = se_now env n + cf_UndoTTLSeconds (sc_Config svc) * second"
      unfolding undos_ok_def using stored_since_now stored_since_step by metis
  qed
qed (simp_all add: undos_ok_def)

subsection \<open>Handling a request is a sequence of atomic steps\<close>

definition extends :: "Service \<Rightarrow> service_env \<Rightarrow> history \<Rightarrow> service_state \<Rightarrow> bool" where
  "extends svc env h s \<longleftrightarrow> (\<exists>h'. token_run svc env (h' @ h) s)"

lemma extends_start: "token_run svc env h s \<Longrightarrow> extends svc env h s"
  unfolding extends_def by (intro exI [of _ "[]"]) simp

lemma extends_op: "extends svc env h s \<Longrightarrow> op_step svc env op s = (ok, s') \<Longrightarrow> extends svc env h s'"
  unfolding extends_def using run_op by (metis append_Cons)

lemma extends_elsewhere:
  "extends svc env h s \<Longrightarrow> sv_confirmations s' = sv_confirmations s \<Longrightarrow> sv_undos s' = sv_undos s \<Longrightarrow> extends svc env h s'"
  unfolding extends_def using run_elsewhere by blast

lemma extends_clear: "extends svc env h s \<Longrightarrow> extends svc env h (clearPendingUndo session s)"
  using extends_op [of svc env h s "ClearUndo session"] by simp

lemma confirm_or_interrupt_run:
  assumes "extends svc env h s" "confirm_or_interrupt env session command response s = (r, s')"
  shows "extends svc env h s'"
proof -
  obtain ok s1 where c: "consumeConfirmation env session command s = (ok, s1)" by (meson prod.exhaust)
  then have e1: "extends svc env h s1" using extends_op [OF assms(1), of "ConsumeConfirm session command"] by simp
  obtain x s2 where n: "newConfirmationToken env s1 = (x, s2)" by (meson prod.exhaust)
  then have e2: "extends svc env h s2" using extends_elsewhere [OF e1, of s2] by (auto simp: newConfirmationToken_def)
  have e3: "extends svc env h (storeConfirmation env session command token s2)" for token
    using extends_op [OF e2, of "StoreConfirm session command token"] by simp
  show ?thesis using assms(2) e1 e2 e3 by (auto simp: confirm_or_interrupt_def c n split: if_splits sum.splits)
qed

lemma curatedDecision_run:
  assumes "extends svc env h s" "curatedDecision svc env shellName command session stage s = (r, s')"
  shows "extends svc env h s'"
proof -
  obtain answer polls where m: "MatchLineContext (ee_ctx (se_engine env)) (sc_Packs svc) command (st_polls (sv_engine s)) = (answer, polls)"
    by (meson prod.exhaust)
  define s1 where "s1 = s\<lparr>sv_engine := (sv_engine s)\<lparr>st_polls := polls\<rparr>\<rparr>"
  have e1: "extends svc env h s1" using extends_elsewhere [OF assms(1), of s1] by (simp add: s1_def)
  note conf = confirm_or_interrupt_run [OF e1]
  show ?thesis using assms e1
    by (auto simp: curatedDecision_def m s1_def [symmetric] split: if_splits sum.splits option.splits prod.splits dest: conf)
qed

lemma service_decision_run:
  "extends svc env h s \<Longrightarrow> service_decision svc env shellName command stage s = (r, s') \<Longrightarrow> extends svc env h s'"
  by (auto simp: service_decision_def split: prod.splits option.splits elim!: extends_elsewhere)

lemma preSend_run:
  assumes "extends svc env h s" "preSend svc env request s = (r, s')"
  shows "extends svc env h s'"
proof -
  obtain c s1 where c: "curatedDecision svc env (rq_Shell request) (rq_Command request) (rq_Session request) ''pre'' s = (c, s1)"
    by (meson prod.exhaust)
  note e1 = curatedDecision_run [OF assms(1) c]
  obtain x s2 where d: "service_decision svc env (rq_Shell request) (rq_Command request) ''pre'' s1 = (x, s2)" by (meson prod.exhaust)
  note e2 = service_decision_run [OF e1 d]
  show ?thesis using assms e1 e2
    by (auto simp: preSend_def c d split: if_splits sum.splits option.splits dest: confirm_or_interrupt_run [OF e2])
qed

lemma issueUndoToken_run:
  assumes "extends svc env h s" "issueUndoToken svc env request response s = (r, s')"
  shows "extends svc env h s'"
proof -
  obtain x s1 where n: "newConfirmationToken env s = (x, s1)" by (meson prod.exhaust)
  then have e1: "extends svc env h s1" using extends_elsewhere [OF assms(1), of s1] by (auto simp: newConfirmationToken_def)
  have "extends svc env h (storeUndoToken svc env token session command s1)" for token session command
    using extends_op [OF e1, of "StoreUndo token session command"] by simp
  with assms e1 show ?thesis by (auto simp: issueUndoToken_def n split: if_splits sum.splits)
qed

lemma learning_run:
  "extends svc env h s \<Longrightarrow> extends svc env h (rememberFailure svc env request s)"
  "extends svc env h s \<Longrightarrow> extends svc env h (recordSuccess svc env request s)"
  by (erule extends_elsewhere; simp add: rememberFailure_def recordSuccess_def removeExpiredFailures_def currentTime_def
      split: prod.splits option.splits)+

lemma Handle_run:
  assumes "token_run svc env h s" "Handle svc env request s = (r, s')"
  shows "\<exists>h'. token_run svc env (h' @ h) s'"
proof -
  note e0 = extends_start [OF assms(1)]
  note e1 = extends_clear [OF e0, of "rq_Session request"]
  have pre: "extends svc env h s2" if "preSend svc env request (clearPendingUndo (rq_Session request) s) = (Inr x, s1)"
      "issueUndoToken svc env request x s1 = (y, s2)" for x y s1 s2
    using issueUndoToken_run [OF preSend_run [OF e1 that(1)] that(2)] .
  have post: "extends svc env h s'" if "handle_post_failure svc env request s = (r, s')"
    using that curatedDecision_run [OF learning_run(1) [OF e1]] service_decision_run
    by (fastforce simp: handle_post_failure_def split: prod.splits sum.splits option.splits)
  have undo: "consumeUndoToken env session token s = (p, s1) \<Longrightarrow> extends svc env h s1" for session token p s1
    using extends_op [OF e0, of "ConsumeUndo session token"] by simp
  have confirm: "consumeConfirmationToken env session command token s = (ok, s1) \<Longrightarrow> extends svc env h s1" for session command token ok s1
    using extends_op [OF e0, of "ConsumeToken session command token"] by simp
  show ?thesis
    using assms(2) e0 learning_run(2) [OF e1] unfolding extends_def [symmetric]
    by (auto simp: Handle_def split: if_splits prod.splits sum.splits option.splits
        intro: pre post undo confirm preSend_run [OF e1])
qed

subsection \<open>Confirming and undoing\<close>

text \<open>
  Property C7: a confirmation is bound to its command, used once and expires. In every state the
  daemon can reach, under any interleaving of its operations, a confirm request is answered with
  submit only if the same token was stored for the same session and the same command less than
  five seconds before, and since then no operation has stored or used a confirmation of that
  session; the same request is refused when it is repeated.
\<close>

theorem confirmation_once:
  assumes "token_run svc env h s" and "rq_Operation request = ConfirmOperation"
    and "Handle svc env request s = (Inr response, s')" and "rs_Action response = ''submit''"
  shows "(\<exists>n. stored_since h (StoreConfirm (rq_Session request) (rq_Command request) (rq_Token request)) n
            (ends_confirmation (rq_Session request)) \<and>
          se_now env (sv_calls s) < se_now env n + 5 * second) \<and>
    fst (Handle svc env request s') = Inr (action_response ''none'')"
proof -
  have "consumeConfirmationToken env (rq_Session request) (rq_Command request) (rq_Token request) s = (True, s')"
    using assms(2-4) by (auto simp: Handle_def operation_names action_response_def zeroResponse_def split: prod.splits if_splits)
  then obtain c where c: "sv_confirmations s (rq_Session request) = Some c" "cn_command c = rq_Command request" "cn_token c = rq_Token request"
      "se_now env (sv_calls s) < cn_expires c" and gone: "sv_confirmations s' (rq_Session request) = None"
    by (auto simp: consumeConfirmationToken_def currentTime_def split: if_splits option.splits)
  have "fst (Handle svc env request s') = Inr (action_response ''none'')"
    using assms(2) gone by (auto simp: Handle_def operation_names consumeConfirmationToken_def)
  with token_run_confirmations [OF assms(1)] c show ?thesis unfolding confirmations_ok_def by metis
qed

text \<open>
  Property C8: an undo restores the command of the last rewrite. In every state the daemon can
  reach, an undo request is answered with a command to edit only if undo is enabled and the same
  token was stored for the same session with that command, within the configured time to live,
  and since then no operation has stored another undo of the session, cleared the session's
  undos (as every command sent, failed or succeeded does) or used the token.
\<close>

theorem undo_restores_last_rewrite:
  assumes "token_run svc env h s" and "rq_Operation request = UndoOperation"
    and "Handle svc env request s = (Inr response, s')" and "rs_Action response = ''edit-in-buffer''"
  shows "cf_UndoEnabled (sc_Config svc) \<and>
    (\<exists>n. stored_since h (StoreUndo (rq_Token request) (rq_Session request) (rs_Suggestion response)) n
          (ends_undo (rq_Session request) (rq_Token request)) \<and>
        se_now env (sv_calls s) < se_now env n + cf_UndoTTLSeconds (sc_Config svc) * second) \<and>
    fst (Handle svc env request s') = Inr (action_response ''none'')"
proof -
  have en: "cf_UndoEnabled (sc_Config svc)"
    using assms(2-4) by (auto simp: Handle_def operation_names action_response_def zeroResponse_def split: prod.splits if_splits option.splits)
  then obtain p where p: "consumeUndoToken env (rq_Session request) (rq_Token request) s = (Some p, s')" "rs_Suggestion response = pu_command p"
    using assms(2-4) by (auto simp: Handle_def operation_names action_response_def undo_response_def zeroResponse_def
        split: prod.splits if_splits option.splits)
  then have u: "sv_undos s (rq_Token request) = Some p" "pu_session p = rq_Session request" "se_now env (sv_calls s) < pu_expires p"
      and gone: "sv_undos s' (rq_Token request) = None"
    by (auto simp: consumeUndoToken_def currentTime_def removeExpiredUndos_def delete_where_Some split: if_splits option.splits)
  have "delete_where q (sv_undos s') (rq_Token request) = None" for q using gone by (simp add: delete_where_def)
  then have "fst (Handle svc env request s') = Inr (action_response ''none'')"
    using assms(2) en by (auto simp: Handle_def operation_names consumeUndoToken_def currentTime_def removeExpiredUndos_def)
  with token_run_undos [OF assms(1)] u en p(2) show ?thesis unfolding undos_ok_def by metis
qed

text \<open>A concrete service: no packs, no rules; an empty state; one pending confirmation.\<close>

definition demo_service :: Service where
  "demo_service = \<lparr>sc_Engine = demo_options ''rewrite'', sc_Config = Default\<lparr>cf_UndoEnabled := True\<rparr>, sc_Packs = \<lparr>rr_packs = []\<rparr>,
     sc_HasStore = False, sc_LearnedRules = []\<rparr>"

definition demo_service_env :: service_env where
  "demo_service_env = \<lparr>se_engine = demo_env, se_now = (\<lambda>n. int n), se_rand = (\<lambda>n. Inr (replicate 16 (CHR ''r'')))\<rparr>"

definition demo_service_state :: service_state where
  "demo_service_state = \<lparr>sv_confirmations = Map.empty, sv_undos = Map.empty, sv_failures = Map.empty, sv_engine = demo_state,
     sv_calls = 0, sv_rands = 0, sv_recorded = []\<rparr>"

definition demo_request :: "string \<Rightarrow> Request" where
  "demo_request operation = \<lparr>rq_Version = 1, rq_Operation = operation, rq_Shell = [], rq_Command = ''c'', rq_FailureOutput = [],
     rq_Session = ''s'', rq_Token = ''t''\<rparr>"

lemma demo_run: "token_run demo_service demo_service_env [] demo_service_state"
  by (rule run_start) (simp_all add: demo_service_state_def)

theorem confirmation_once_witness:
  "\<exists>h s response s'. token_run demo_service demo_service_env h s \<and>
     Handle demo_service demo_service_env (demo_request ConfirmOperation) s = (Inr response, s') \<and> rs_Action response = ''submit'' \<and>
     fst (Handle demo_service demo_service_env (demo_request ConfirmOperation) s') = Inr (action_response ''none'')"
proof -
  let ?op = "StoreConfirm ''s'' ''c'' ''t''" let ?s = "storeConfirmation demo_service_env ''s'' ''c'' ''t'' demo_service_state"
  have run: "token_run demo_service demo_service_env [(?op, True, sv_calls demo_service_state)] ?s"
    by (rule run_op [OF demo_run]) simp
  obtain response s' where r: "Handle demo_service demo_service_env (demo_request ConfirmOperation) ?s = (Inr response, s')"
      "rs_Action response = ''submit''"
    by (simp add: Handle_def operation_names demo_request_def service_ops demo_service_env_def demo_service_state_def second_def
        action_response_def zeroResponse_def)
  have "rq_Operation (demo_request ConfirmOperation) = ConfirmOperation" by (simp add: demo_request_def)
  from confirmation_once [OF run this r] run r show ?thesis by blast
qed

theorem undo_restores_last_rewrite_witness:
  "\<exists>h s response s'. token_run demo_service demo_service_env h s \<and>
     Handle demo_service demo_service_env (demo_request UndoOperation) s = (Inr response, s') \<and> rs_Suggestion response = ''c'' \<and>
     fst (Handle demo_service demo_service_env (demo_request UndoOperation) s') = Inr (action_response ''none'')"
proof -
  let ?op = "StoreUndo ''t'' ''s'' ''c''" let ?s = "storeUndoToken demo_service demo_service_env ''t'' ''s'' ''c'' demo_service_state"
  have run: "token_run demo_service demo_service_env [(?op, True, sv_calls demo_service_state)] ?s"
    by (rule run_op [OF demo_run]) simp
  obtain response s' where r: "Handle demo_service demo_service_env (demo_request UndoOperation) ?s = (Inr response, s')"
      "rs_Action response = ''edit-in-buffer''" and sug: "rs_Suggestion response = ''c''"
    by (simp add: Handle_def operation_names demo_request_def service_ops demo_service_env_def demo_service_state_def second_def
        demo_service_def Default_def defaultUndoTTLSeconds_def undo_response_def zeroResponse_def delete_where_def)
  have "rq_Operation (demo_request UndoOperation) = UndoOperation" by (simp add: demo_request_def)
  from undo_restores_last_rewrite [OF run this r] run r sug show ?thesis by blast
qed

end
