(* ===== verification/RuntimeProps.thy ===== *)
theory RuntimeProps
  imports PackRuntime EngineProps
begin

section \<open>Packs and the engine together\<close>

text \<open>
  The resolver of packs is the engine's semantic resolver. The first part states what the
  engine needs of a resolver with respect to cancellation (locale \<open>context_resolver\<close>),
  interprets it on \<open>MatchWordsContext\<close> and derives that the engine honours cancellation. The
  second part follows an automatic rewrite back to the rule it comes from.
\<close>

subsection \<open>Cancellation\<close>

text \<open>No observation between two numbers of calls saw an error; the last observation saw it.\<close>

definition quiet :: "context_errs \<Rightarrow> nat \<Rightarrow> nat \<Rightarrow> bool" where
  "quiet ctx m n \<longleftrightarrow> m \<le> n \<and> (\<forall>k. m \<le> k \<and> k < n \<longrightarrow> ctx k = None)"

definition stopped :: "context_errs \<Rightarrow> go_error \<Rightarrow> nat \<Rightarrow> nat \<Rightarrow> bool" where
  "stopped ctx e m n \<longleftrightarrow> (\<exists>k. n = Suc k \<and> quiet ctx m k \<and> ctx k = Some e)"

lemma quiet_refl [simp]: "quiet ctx n n"
  by (auto simp: quiet_def)

lemma quiet_Suc: "ctx n = None \<Longrightarrow> quiet ctx n (Suc n)"
  by (auto simp: quiet_def le_less_Suc_eq)

lemma quiet_trans: "quiet ctx l m \<Longrightarrow> quiet ctx m n \<Longrightarrow> quiet ctx l n"
  unfolding quiet_def by (metis le_trans not_le)

lemma quiet_stopped: "quiet ctx l m \<Longrightarrow> stopped ctx e m n \<Longrightarrow> stopped ctx e l n"
  unfolding stopped_def using quiet_trans by blast

lemma stopped_now: "ctx n = Some e \<Longrightarrow> stopped ctx e n (Suc n)"
  by (simp add: stopped_def)

text \<open>The same for an answer: observations were quiet, or the last one is the error returned.\<close>

definition observes :: "context_errs \<Rightarrow> nat \<Rightarrow> 'a result \<times> nat \<Rightarrow> bool" where
  "observes ctx m r \<longleftrightarrow> (case r of (Inr _, n) \<Rightarrow> quiet ctx m n | (Inl e, n) \<Rightarrow> stopped ctx e m n)"

lemma observes_simps [simp]:
  "observes ctx m (Inr x, n) = quiet ctx m n" "observes ctx m (Inl e, n) = stopped ctx e m n"
  by (simp_all add: observes_def)

lemma observes_trans: "quiet ctx l m \<Longrightarrow> observes ctx m r \<Longrightarrow> observes ctx l r"
  unfolding observes_def by (auto split: prod.splits sum.splits intro: quiet_trans quiet_stopped)

lemma observes_step:
  "(ctx n = None \<Longrightarrow> observes ctx (Suc n) r) \<Longrightarrow>
   observes ctx n (case ctx n of Some e \<Rightarrow> (Inl e, Suc n) | None \<Rightarrow> r)"
  by (cases "ctx n") (auto intro: observes_trans [OF quiet_Suc] stopped_now)

locale context_resolver =
  fixes ctx :: context_errs and resolve :: SemanticResolver
  assumes observed: "observes ctx n (resolve words n)"
begin

lemma resolve_quiet: "resolve words n = (Inr x, m) \<Longrightarrow> quiet ctx n m"
  using observed [of n words] by simp

lemma resolve_stopped: "resolve words n = (Inl e, m) \<Longrightarrow> stopped ctx e n m"
  using observed [of n words] by simp

end

lemma match_pack_rules_observes: "observes ctx n (match_pack_rules ctx pack rules words n)"
proof (induction rules arbitrary: n)
  case (Cons rule rules)
  show ?case
    unfolding match_pack_rules.simps Suc_eq_plus1 [symmetric]
    by (rule observes_step) (auto simp: Cons.IH split: option.splits)
qed simp

lemma match_packs_observes: "observes ctx n (match_packs ctx packs words n)"
proof (induction packs arbitrary: n)
  case (Cons pack packs)
  have "observes ctx (Suc n) (case match_pack_rules ctx pack (cp_Rules (rp_compiled pack)) words (Suc n) of (answer, polls') \<Rightarrow>
      case answer of Inr None \<Rightarrow> match_packs ctx packs words polls' | _ \<Rightarrow> (answer, polls'))"
    using match_pack_rules_observes [of ctx "Suc n" pack "cp_Rules (rp_compiled pack)" words]
    by (auto split: prod.splits sum.splits option.splits intro: observes_trans [OF _ Cons.IH])
  then show ?case
    unfolding match_packs.simps Suc_eq_plus1 [symmetric] by (rule observes_step)
qed simp

interpretation runtime: context_resolver ctx "MatchWordsContext ctx r" for ctx r
proof
  fix n words
  show "observes ctx n (MatchWordsContext ctx r words n)"
    unfolding MatchWordsContext_def Suc_eq_plus1 [symmetric]
    by (rule observes_step) (simp add: match_packs_observes)
qed

text \<open>The engine's state carries the number of observations.\<close>

definition observes_state :: "engine_env \<Rightarrow> engine_state \<Rightarrow> 'a result \<times> engine_state \<Rightarrow> bool" where
  "observes_state env s r \<longleftrightarrow> observes (ee_ctx env) (st_polls s) (fst r, st_polls (snd r))"

definition honours :: "engine_env \<Rightarrow> engine_state \<Rightarrow> check_result \<Rightarrow> bool" where
  "honours env s r \<longleftrightarrow>
     (case r of ((d, err), s') \<Rightarrow>
        case err of
          None \<Rightarrow> quiet (ee_ctx env) (st_polls s) (st_polls s')
        | Some e \<Rightarrow> d = noDecision \<and>
            (stopped (ee_ctx env) e (st_polls s) (st_polls s') \<or>
             e \<in> {ErrInputLimit, ErrOutputLimit, ErrAnalysisLimit} \<and> quiet (ee_ctx env) (st_polls s) (st_polls s')))"

lemma honours_simps:
  "honours env s ((d, None), s') = quiet (ee_ctx env) (st_polls s) (st_polls s')"
  "honours env s ((d, Some e), s') = (d = noDecision \<and> (stopped (ee_ctx env) e (st_polls s) (st_polls s') \<or>
     e \<in> {ErrInputLimit, ErrOutputLimit, ErrAnalysisLimit} \<and> quiet (ee_ctx env) (st_polls s) (st_polls s')))"
  by (simp_all add: honours_def)

lemma observes_state_simps [simp]:
  "observes_state env s (Inr x, s') = quiet (ee_ctx env) (st_polls s) (st_polls s')"
  "observes_state env s (Inl e, s') = stopped (ee_ctx env) e (st_polls s) (st_polls s')"
  by (simp_all add: observes_state_def)

lemma observes_state_eq: "st_polls s1 = st_polls s2 \<Longrightarrow> observes_state env s1 r = observes_state env s2 r"
  by (simp add: observes_state_def)

lemma honours_trans: "quiet (ee_ctx env) (st_polls s) (st_polls s1) \<Longrightarrow> honours env s1 r \<Longrightarrow> honours env s r"
  unfolding honours_def by (auto split: prod.splits option.splits intro: quiet_trans quiet_stopped)

text \<open>\<open>if err := ctx.Err(); err != nil { return err }\<close>\<close>

lemma observes_ctx_Err:
  assumes "\<And>s1. s1 = s\<lparr>st_polls := Suc (st_polls s)\<rparr> \<Longrightarrow> ee_ctx env (st_polls s) = None \<Longrightarrow> observes_state env s1 (r s1)"
  shows "observes_state env s (case ctx_Err env s of (err, s1) \<Rightarrow> case err of Some e \<Rightarrow> (Inl e, s1) | None \<Rightarrow> r s1)"
proof (cases "ee_ctx env (st_polls s)")
  case None
  with assms [OF refl] show ?thesis
    by (auto simp: ctx_Err_def observes_state_def intro: observes_trans [OF quiet_Suc])
qed (simp add: ctx_Err_def stopped_now)

lemma honours_ctx_Err:
  assumes "\<And>s1. s1 = s\<lparr>st_polls := Suc (st_polls s)\<rparr> \<Longrightarrow> ee_ctx env (st_polls s) = None \<Longrightarrow> honours env s1 (r s1)"
  shows "honours env s (case ctx_Err env s of (err, s1) \<Rightarrow> case err of Some e \<Rightarrow> ((noDecision, Some e), s1) | None \<Rightarrow> r s1)"
proof (cases "ee_ctx env (st_polls s)")
  case None
  with assms [OF refl] show ?thesis
    using honours_trans [of env s "s\<lparr>st_polls := Suc (st_polls s)\<rparr>"] quiet_Suc [of "ee_ctx env" "st_polls s"]
    by (simp add: ctx_Err_def)
qed (simp add: ctx_Err_def honours_def stopped_now)

lemma command_loop_observes: "observes_state env s (command_loop opt env words candidates ps s)"
proof (induction ps arbitrary: s)
  case (Cons p ps)
  show ?case
    unfolding command_loop.simps
    by (rule observes_ctx_Err) (auto split: prod.splits intro: Cons.IH [THEN observes_state_eq [THEN iffD1, rotated]])
qed simp

lemma observes_state_cache: "observes_state env (s\<lparr>st_cache := c\<rparr>) r = observes_state env s r"
  by (rule observes_state_eq) simp

lemma commandDecision_observes: "observes_state env s (commandDecision opt env words s)"
  unfolding commandDecision_def
proof (rule observes_ctx_Err, goal_cases)
  case (1 s1)
  obtain names cache where n: "executableNamesFor (ee_os env) (o_Path opt) (os_GOOS (ee_os env)) (os_PATHEXT (ee_os env)) (st_cache s1)
      = (names, cache)" by (meson prod.exhaust)
  show ?case
    unfolding n prod.case
    by (subst observes_state_cache [of env cache s1, symmetric], rule observes_ctx_Err) (rule command_loop_observes)
qed

lemma path_loop_observes: "observes_state env s (path_loop opt env words is s)"
proof (induction "is" arbitrary: s)
  case (Cons i "is")
  show ?case unfolding path_loop.simps by (rule observes_ctx_Err) (auto simp: Cons.IH split: option.splits)
qed simp

text \<open>What the engine needs of its resolver, if it has one.\<close>

definition resolver_observes :: "Options \<Rightarrow> engine_env \<Rightarrow> bool" where
  "resolver_observes opt env \<longleftrightarrow> (\<forall>resolve. o_SemanticResolver opt = Some resolve \<longrightarrow> context_resolver (ee_ctx env) resolve)"

lemma semanticDecision_observes:
  assumes "resolver_observes opt env"
  shows "observes_state env s (semanticDecision opt env shellName words s)"
  unfolding semanticDecision_def
proof (rule observes_ctx_Err, goal_cases)
  case (1 s1)
  show ?case
  proof (cases "o_SemanticResolver opt")
    case (Some resolve)
    then have c: "context_resolver (ee_ctx env) resolve" using assms by (simp add: resolver_observes_def)
    obtain answer polls where a: "resolve words (st_polls s1) = (answer, polls)" by (meson prod.exhaust)
    show ?thesis
    proof (cases answer)
      case (Inl e)
      with a Some context_resolver.resolve_stopped [OF c] show ?thesis by simp
    next
      case (Inr found)
      have q: "quiet (ee_ctx env) (st_polls s1) polls" using a Inr context_resolver.resolve_quiet [OF c] by simp
      have trans: "observes_state env (s1\<lparr>st_polls := polls\<rparr>) r \<Longrightarrow> observes_state env s1 r" for r :: "Decision checked"
        using observes_trans [OF q] by (simp add: observes_state_def)
      show ?thesis
        by (simp add: Some a Inr, rule trans, rule observes_ctx_Err) (simp split: option.splits sum.splits)
    qed
  qed simp
qed

lemma pathDecision_observes: "observes_state env s (pathDecision opt env words s)"
  by (simp add: pathDecision_def path_loop_observes)

lemma engine_finish_honours: "honours env s (engine_finish opt env d shellName line stage started s)"
  unfolding engine_finish_def
proof (rule honours_ctx_Err, goal_cases)
  case (1 s1)
  obtain time s2 where n: "now env s1 = (time, s2)" "st_polls s2 = st_polls s1" by (auto simp: now_def)
  show ?case unfolding n(1) prod.case
    by (auto simp: honours_def n(2) split: option.splits)
qed

lemma resolve_then_honours:
  assumes "observes_state env s answer" "\<And>s1. honours env s1 (otherwise s1)"
  shows "honours env s (resolve_then opt env shellName line stage started answer otherwise)"
proof -
  obtain r s1 where a: "answer = (r, s1)" by (meson prod.exhaust)
  show ?thesis
  proof (cases r)
    case (Inl e)
    with assms(1) a show ?thesis by (simp add: resolve_then_def honours_def)
  next
    case (Inr d)
    with assms(1) a have "quiet (ee_ctx env) (st_polls s) (st_polls s1)" by simp
    then show ?thesis
      using honours_trans [of env s s1] engine_finish_honours [of env s1] assms(2) [of s1] by (simp add: resolve_then_def a Inr)
  qed
qed

lemma check_words_honours:
  assumes "resolver_observes opt env"
  shows "honours env s (check_words opt env shellName line stage started words s)"
  unfolding check_words_def
proof (intro resolve_then_honours commandDecision_observes semanticDecision_observes [OF assms] pathDecision_observes honours_ctx_Err, goal_cases)
  case (1 s1 s2 s3 s4)
  obtain time s5 where n: "now env s4 = (time, s5)" "st_polls s5 = st_polls s4" by (auto simp: now_def)
  show ?case unfolding n(1) prod.case by (simp add: honours_def n(2))
qed

lemma honours_polls: "st_polls s1 = st_polls s2 \<Longrightarrow> honours env s1 r = honours env s2 r"
  unfolding honours_def by (auto split: prod.splits option.splits)

lemma CheckShellContext_honours:
  assumes "resolver_observes opt env"
  shows "honours env s (CheckShellContext opt env shellName line stage s)"
  unfolding CheckShellContext_def
proof (rule honours_ctx_Err, goal_cases)
  case (1 s1)
  obtain started s2 where n: "now env s1 = (started, s2)" "st_polls s2 = st_polls s1" by (auto simp: now_def)
  have "honours env s2 (case tokenizeForShell shellName line of
      Inl e \<Rightarrow> ((noDecision\<lparr>d_Incomplete := (e = errIncompleteShellInput)\<rparr>, None), s2)
    | Inr words \<Rightarrow> (case ctx_Err env s2 of (err, s3) \<Rightarrow> case err of Some e \<Rightarrow> ((noDecision, Some e), s3) | None \<Rightarrow>
         if words = [] \<or> cf_Mode (o_Config opt) = ''off'' then ((noDecision, None), s3)
         else if hasUnsupportedShellSyntax words then ((noDecision, None), s3)
         else check_words opt env shellName line stage started words s3))"
  proof (cases "tokenizeForShell shellName line")
    case (Inr words)
    show ?thesis unfolding Inr sum.case
      by (rule honours_ctx_Err) (auto simp: check_words_honours [OF assms], auto simp: honours_def)
  qed (simp add: honours_def)
  then show ?case unfolding n(1) prod.case honours_polls [OF n(2)] by (auto simp: honours_simps)
qed



subsection \<open>Where an automatic rewrite comes from\<close>

text \<open>A match of a rule on the first \<open>argc\<close> arguments; the rest is the tail.\<close>

definition rule_matches :: "CompiledRule \<Rightarrow> string list \<Rightarrow> nat \<Rightarrow> string \<Rightarrow> (nat \<times> nat) option list \<Rightarrow> bool" where
  "rule_matches rule words argc value indices \<longleftrightarrow> 0 < argc \<and> argc < length words \<and>
     value = strings_Join (take argc (tl words)) '' '' \<and>
     re_FindStringSubmatchIndex (cr_pattern rule) value = Some indices \<and> indices \<noteq> [] \<and> hd indices = Some (0, length value) \<and>
     (Suc argc < length words \<longrightarrow> r_PreserveTail (cr_Rule rule) \<and> safeTail (drop (Suc argc) words))"

lemma match_arguments_Some:
  "match_arguments pack rule words n = Some m \<Longrightarrow> n < length words \<Longrightarrow>
   \<exists>argc value indices. rule_matches rule words argc value indices \<and>
     m = runtimeSemanticMatch pack rule words value indices (drop (Suc argc) words)"
proof (induction n)
  case (Suc n)
  define tail where "tail = drop (Suc (Suc n)) words"
  define v where "v = strings_Join (take (Suc n) (tl words)) '' ''"
  have "(if Suc n \<noteq> length words - 1 \<and> \<not> r_PreserveTail (cr_Rule rule) then None
      else if tail \<noteq> [] \<and> \<not> safeTail tail then match_arguments pack rule words n
      else case re_FindStringSubmatchIndex (cr_pattern rule) v of
          None \<Rightarrow> match_arguments pack rule words n
        | Some indices \<Rightarrow> if indices = [] \<or> hd indices \<noteq> Some (0, length v) then match_arguments pack rule words n
            else Some (runtimeSemanticMatch pack rule words v indices tail)) = Some m"
    using Suc.prems(1) by (simp only: match_arguments.simps tail_def v_def)
  then consider "match_arguments pack rule words n = Some m"
    | indices where "Suc n \<noteq> length words - 1 \<Longrightarrow> r_PreserveTail (cr_Rule rule)" "tail = [] \<or> safeTail tail"
      "re_FindStringSubmatchIndex (cr_pattern rule) v = Some indices" "indices \<noteq> []" "hd indices = Some (0, length v)"
      "m = runtimeSemanticMatch pack rule words v indices tail"
    by (auto split: if_splits option.splits)
  then show ?case
  proof cases
    case (2 indices)
    have "rule_matches rule words (Suc n) v indices"
      unfolding rule_matches_def using 2 Suc.prems(2) by (auto simp: v_def tail_def)
    with 2(6) show ?thesis unfolding tail_def by blast
  qed (use Suc in simp)
qed simp

lemma match_pack_rules_Some:
  "match_pack_rules ctx pack rules words n = (Inr (Some m), k) \<Longrightarrow>
   \<exists>rule \<in> set rules. r_Command (cr_Rule rule) = words ! 0 \<and> match_arguments pack rule words (length words - 1) = Some m"
  by (induction rules arbitrary: n) (auto split: option.splits if_splits)

lemma match_packs_Some:
  "match_packs ctx packs words n = (Inr (Some m), k) \<Longrightarrow>
   \<exists>pack \<in> set packs. \<exists>rule \<in> set (cp_Rules (rp_compiled pack)). r_Command (cr_Rule rule) = words ! 0 \<and>
     match_arguments pack rule words (length words - 1) = Some m"
proof (induction packs arbitrary: n)
  case (Cons pack packs)
  then show ?case
    by (auto split: option.splits prod.splits sum.splits if_splits dest!: match_pack_rules_Some)
qed simp

lemma MatchWordsContext_Some:
  assumes "fst (MatchWordsContext ctx r words n) = Inr (Some m)"
  shows "\<exists>pack \<in> set (rr_packs r). \<exists>rule \<in> set (cp_Rules (rp_compiled pack)). \<exists>argc value indices.
    r_Command (cr_Rule rule) = words ! 0 \<and> rule_matches rule words argc value indices \<and>
    m = runtimeSemanticMatch pack rule words value indices (drop (Suc argc) words)"
proof -
  obtain k where "match_packs ctx (rr_packs r) words (n + 1) = (Inr (Some m), k)" and len: "\<not> length words < 2"
    using assms by (auto simp: MatchWordsContext_def split: option.splits if_splits) (metis surjective_pairing)
  from match_packs_Some [OF this(1)] match_arguments_Some [of _ _ words "length words - 1" m] len show ?thesis
    by fastforce
qed

lemma runtime_fields:
  "sm_PackID (runtimeSemanticMatch pack rule words value indices tail) = p_ID (cp_Pack (rp_compiled pack))"
  "sm_RuleID (runtimeSemanticMatch pack rule words value indices tail) = r_ID (cr_Rule rule)"
  "sm_Source (runtimeSemanticMatch pack rule words value indices tail) = rp_source pack"
  "sm_Risk (runtimeSemanticMatch pack rule words value indices tail) = r_Risk (cr_Rule rule)"
  by (simp_all add: runtimeSemanticMatch_def)

lemma runtime_pack_source:
  assumes "NewRuntimeResolverWithInstalled re bundled installed = Inr r" "pack \<in> set (rr_packs r)"
  shows "\<exists>p \<in> set (bundled @ installed). Compile re p = Inr (rp_compiled pack) \<and>
    rp_source pack = (if p_ID p \<in> p_ID ` set installed then ''installed'' else ''bundled'')"
proof -
  obtain cs where cs: "Resolve re (bundled @ installed) = Inr cs"
    and r: "rr_packs r = map (\<lambda>pack. \<lparr>rp_compiled = pack,
          rp_source = (if p_ID (cp_Pack pack) \<in> set (map p_ID installed) then ''installed'' else ''bundled'')\<rparr>) cs"
    using assms(1) by (auto simp: NewRuntimeResolverWithInstalled_def split: sum.splits)
  from cs have all: "list_all2 (\<lambda>p c. Compile re p = Inr c) (sort_key p_ID (bundled @ installed)) cs"
    using Resolve_iff by blast
  from assms(2) r obtain c where c: "c \<in> set cs" "rp_compiled pack = c"
    "rp_source pack = (if p_ID (cp_Pack c) \<in> set (map p_ID installed) then ''installed'' else ''bundled'')" by auto
  obtain p where p: "p \<in> set (sort_key p_ID (bundled @ installed))" "Compile re p = Inr c"
    using all c(1) unfolding list_all2_conv_all_nth in_set_conv_nth by metis
  then show ?thesis using c(2,3) Compile_iff [of re p c] p by auto
qed

lemma compiled_rule:
  assumes "Compile re p = Inr c" "cr \<in> set (cp_Rules c)"
  shows "cr_Rule cr \<in> set (p_Rules p) \<and> re (r_Pattern (cr_Rule cr)) = Inr (cr_pattern cr) \<and> rule_ok re (cr_Rule cr)"
proof -
  have "list_all2 (\<lambda>rule cr. cr_Rule cr = rule \<and> re (r_Pattern rule) = Inr (cr_pattern cr)) (p_Rules p) (cp_Rules c)"
    and ok: "pack_ok re p" using assms(1) Compile_iff by blast+
  with assms(2) have "cr_Rule cr \<in> set (p_Rules p)" "re (r_Pattern (cr_Rule cr)) = Inr (cr_pattern cr)"
    unfolding list_all2_conv_all_nth in_set_conv_nth by metis+
  with ok show ?thesis by (simp add: pack_ok_def)
qed

lemma semantic_evidence_source:
  "sm_Source m = ''installed'' \<Longrightarrow> \<not> semanticRewriteAllowed (semantic_decision_of m words)"
  by (simp add: semanticRewriteAllowed_def semantic_decision_of_def Let_def split: prod.split)

text \<open>
  Property C19: the origin of an automatic semantic rewrite. If the engine, with the packs of
  \<open>NewRuntimeResolverWithInstalled\<close> as its resolver, rewrites a line by a pack rule, then the rule
  is a well-formed rule of risk safe of a bundled pack whose identifier no installed pack has,
  it was written for the command of the line, it does not keep a tail, and its pattern matches
  all arguments of the line from the first to the last byte. So neither an installed pack nor a
  rule that copies unchecked arguments ever edits a command line.
\<close>

theorem automatic_rewrite_origin:
  assumes "NewRuntimeResolverWithInstalled re_Compile bundled installed = Inr r"
    and "o_SemanticResolver opt = Some (MatchWordsContext ctx r)"
    and "fst (CheckShellContext opt env shellName line stage s) = (d, err)"
    and "d_Action d = ''rewrite''" and "d_Class d = RepairClassSemantic"
  shows "\<exists>words p rule pattern value indices. tokenizeForShell shellName line = Inr words \<and>
    p \<in> set bundled \<and> p_ID p \<notin> p_ID ` set installed \<and> rule \<in> set (p_Rules p) \<and>
    rule_ok re_Compile rule \<and> r_Risk rule = RiskSafe \<and> \<not> r_PreserveTail rule \<and> r_Command rule = words ! 0 \<and>
    re_Compile (r_Pattern rule) = Inr pattern \<and> value = strings_Join (tl words) '' '' \<and>
    re_FindStringSubmatchIndex pattern value = Some indices \<and> hd indices = Some (0, length value)"
proof -
  have "d \<noteq> noDecision\<lparr>d_Incomplete := b\<rparr>" "d \<noteq> noDecision" for b
    using assms(4) by (auto simp: noDecision_def)
  then obtain words d0 where w: "tokenizeForShell shellName line = Inr words"
    and d0: "resolved opt env shellName words (st_cache s) d0" and fin: "finished opt d0 shellName line stage d"
    using CheckShellContext_cases [OF assms(3)] by blast
  have cls: "d_Class d0 = RepairClassSemantic" using finished_fields(2) [OF fin] assms(5) by simp
  have "semantic_repair opt shellName words d0"
    using d0 cls by (auto simp: resolved_def command_repair_def file_repair_def near_repair_def repair_decision_fields class_names)
  then obtain m ws n where m: "fst (MatchWordsContext ctx r words n) = Inr (Some m)" and dm: "d0 = semantic_decision_of m ws"
    using assms(2) by (auto simp: semantic_repair_def)
  have auto: "safeAutoApply opt d0" using finished_action [OF fin] assms(4) by auto
  obtain pack cr argc v indices where pack: "pack \<in> set (rr_packs r)" "cr \<in> set (cp_Rules (rp_compiled pack))"
    and cmd: "r_Command (cr_Rule cr) = words ! 0" and match: "rule_matches cr words argc v indices"
    and mm: "m = runtimeSemanticMatch pack cr words v indices (drop (Suc argc) words)"
    using MatchWordsContext_Some [OF m] by blast
  obtain p where p: "p \<in> set (bundled @ installed)" "Compile re_Compile p = Inr (rp_compiled pack)"
    and src: "rp_source pack = (if p_ID p \<in> p_ID ` set installed then ''installed'' else ''bundled'')"
    using runtime_pack_source [OF assms(1) pack(1)] by blast
  note rule = compiled_rule [OF p(2) pack(2)]
  have risk: "r_Risk (cr_Rule cr) = RiskSafe"
    using auto by (auto simp: safeAutoApply_def intrinsicRewriteEligible_def dm semantic_decision_fields mm runtime_fields risk_names
        split: if_splits)
  have keep: "\<not> r_PreserveTail (cr_Rule cr)" using rule risk by (auto simp: rule_ok_def risk_names)
  have "sm_Source m \<noteq> ''installed''"
    using auto semantic_evidence_source [of m ws] by (auto simp: safeAutoApply_def intrinsicRewriteEligible_def dm)
  then have inst: "p_ID p \<notin> p_ID ` set installed" using src by (auto simp: mm runtime_fields split: if_splits)
  then have "p \<in> set bundled" using p(1) by auto
  moreover have "argc = length words - 1" using match keep by (auto simp: rule_matches_def)
  then have "v = strings_Join (tl words) '' ''" using match by (simp add: rule_matches_def)
  ultimately show ?thesis using w inst rule risk keep cmd match unfolding rule_matches_def by blast
qed

text \<open>A pack with one safe rule, on a machine where its command exists.\<close>

definition demo_regexp :: regexp_Compile where
  "demo_regexp pattern = (if pattern = ''^-v$''
     then Inr \<lparr>re_SubexpNames = [[]], re_FindStringSubmatchIndex = (\<lambda>v. if v = ''-v'' then Some [Some (0, 2)] else None)\<rparr>
     else Inl (Err ''unsupported pattern'' []))"

definition demo_pack :: Pack where
  "demo_pack = \<lparr>p_SchemaVersion = 1, p_ID = ''a'', p_Version = ''1.0.0'', p_Publisher = ''b'', p_MinEngineVersion = [],
     p_Capabilities = [], p_Rules = [\<lparr>r_ID = ''c'', r_Command = ''which'', r_Pattern = ''^-v$'', r_Replacement = ''-a'',
       r_PreserveTail = False, r_Cause = ''typo'', r_Risk = RiskSafe, r_RiskRationale = ''query''\<rparr>]\<rparr>"

definition demo_resolver :: RuntimeResolver where
  "demo_resolver = (case NewRuntimeResolverWithInstalled demo_regexp [demo_pack] [] of Inl _ \<Rightarrow> \<lparr>rr_packs = []\<rparr> | Inr r \<Rightarrow> r)"

definition demo_which :: engine_env where
  "demo_which = \<lparr>ee_os = \<lparr>os_GOOS = ''linux'', os_PATHEXT = [],
       os_Stat = (\<lambda>_. Some \<lparr>fi_IsDir = False, fi_IsRegular = True, fi_Mode = 73, fi_ModTime = 0, fi_Size = 0\<rparr>),
       os_ReadDir = (\<lambda>_. None)\<rparr>, ee_ctx = (\<lambda>_. None), ee_clock = (\<lambda>_. 0)\<rparr>"

definition demo_pack_options :: Options where
  "demo_pack_options = (demo_options ''rewrite'')\<lparr>o_SemanticResolver := Some (MatchWordsContext (\<lambda>_. None) demo_resolver)\<rparr>"

definition demo_pack_decision :: Decision where
  "demo_pack_decision = fst (fst (CheckShellContext demo_pack_options demo_which [] ''which -v'' ''pre'' demo_state))"

lemma demo_pack_resolves: "\<not> isl (NewRuntimeResolverWithInstalled demo_regexp [demo_pack] [])"
  by code_simp

definition demo_match :: SemanticMatch where
  "demo_match = \<lparr>sm_PackID = ''a'', sm_RuleID = ''c'', sm_Source = ''bundled'', sm_Suggestion = ''which -a'', sm_Cause = ''typo'',
     sm_Risk = RiskSafe, sm_Rationale = ''query'', sm_Original = ''-v'', sm_Replacement = ''-a'', sm_Occurrence = 1\<rparr>"

lemma demo_pack_facts:
  "MatchWordsContext (\<lambda>_. None) demo_resolver [''which'', ''-v''] 6 = (Inr (Some demo_match), 9)"
  "redact_Command [''which'', ''-a''] = (''which -a'', False)" "meetsConfidenceThreshold RepairClassSemantic 1"
  "tokenizeForShell [] ''which -v'' = Inr [''which'', ''-v'']" "tokenizeForShell [] ''which -a'' = Inr [''which'', ''-a'']"
  "hasUnsupportedShellSyntax [''which'', ''-v''] = False" "hasUnsupportedShellSyntax [''which'', ''-a''] = False"
  "replaceTokenOccurrence ''which -v'' ''-v'' ''-a'' 1 = Some ''which -a''" "rewriteCompatible [] ''which -v''"
  "fl64 (4 / 5) \<le> 1"
  by code_simp+

lemma demo_pack_command:
  "\<exists>d s'. commandDecision demo_pack_options demo_which [''which'', ''-v''] \<lparr>st_polls = 2, st_ticks = 1, st_cache = NewCache\<rparr> = (Inr d, s') \<and>
     d_Suggestion d = [] \<and> st_polls s' = 5"
proof -
  have "case commandDecision demo_pack_options demo_which [''which'', ''-v''] \<lparr>st_polls = 2, st_ticks = 1, st_cache = NewCache\<rparr> of
      (Inr d, s') \<Rightarrow> d_Suggestion d = [] \<and> st_polls s' = 5 | _ \<Rightarrow> False" by code_simp
  then show ?thesis by (auto split: prod.splits sum.splits)
qed

definition demo_pack_repair :: Decision where
  "demo_pack_repair = semantic_decision_of demo_match [''which'', ''-a'']"

lemma demo_pack_repair_fields:
  "d_Suggestion demo_pack_repair = ''which -a''" "d_Risk demo_pack_repair = RiskSafe" "d_Confidence demo_pack_repair = 1"
  "d_Class demo_pack_repair = RepairClassSemantic" "\<not> d_Incomplete demo_pack_repair" "d_original demo_pack_repair = ''-v''"
  "d_replacement demo_pack_repair = ''-a''" "d_occurrence demo_pack_repair = 1" "semanticRewriteAllowed demo_pack_repair"
  "decisionOutputSize demo_pack_repair \<le> 8192"
  by (simp_all add: demo_pack_repair_def semantic_decision_of_def demo_match_def demo_pack_facts(2) zeroDecision_def
      semanticRewriteAllowed_def decisionOutputSize_def risk_names class_names)

lemma demo_pack_finish:
  "\<exists>d s'. engine_finish demo_pack_options demo_which demo_pack_repair [] ''which -v'' ''pre'' 0 s = ((d, None), s') \<and>
     d_Action d = ''rewrite'' \<and> d_Class d = RepairClassSemantic"
proof -
  note f = demo_pack_repair_fields
  have "safeAutoApply demo_pack_options demo_pack_repair"
    by (simp add: safeAutoApply_def intrinsicRewriteEligible_def f demo_pack_facts demo_pack_options_def demo_options_def)
  then have mode: "applyMode demo_pack_options demo_pack_repair ''pre'' = demo_pack_repair\<lparr>d_RewriteEligible := True, d_Action := ''rewrite''\<rparr>"
    by (simp add: applyMode_def evaluateRewriteBuffer_def safeAutoApply_def intrinsicRewriteEligible_def
        semanticRewriteAllowed_def Let_def)
  have lim: "l_OutputBytes (engine_limits demo_pack_options) = 8192" "0 < l_AnalysisTime (engine_limits demo_pack_options)"
    by (simp_all add: engine_limits_def demo_pack_options_def demo_options_def MaxOutputBytes_def MaxAnalysisDuration_def)
  have size: "decisionOutputSize (demo_pack_repair\<lparr>d_RewriteEligible := True, d_Action := ''rewrite'', d_Suggestion := ''which -a''\<rparr>) \<le> 8192"
    using f(1,10) by (simp add: decisionOutputSize_def)
  show ?thesis
    using f size lim by (simp add: engine_finish_def ctx_Err_def now_def demo_which_def mode demo_pack_facts not_less)
qed

lemma demo_pack_rewrites: "d_Action demo_pack_decision = ''rewrite''" "d_Class demo_pack_decision = RepairClassSemantic"
proof -
  have env: "ee_ctx demo_which n = None" "ee_clock demo_which n = 0" for n by (simp_all add: demo_which_def)
  have opt: "l_InputBytes (engine_limits demo_pack_options) = 8192" "cf_Mode (o_Config demo_pack_options) = ''rewrite''"
    "\<not> HasRuleException (o_Config demo_pack_options) line"
    "o_SemanticResolver demo_pack_options = Some (MatchWordsContext (\<lambda>_. None) demo_resolver)" for line
    by (simp_all add: demo_pack_options_def demo_options_def engine_limits_def MaxInputBytes_def HasRuleException_def Default_def)
  obtain d s3 where c: "commandDecision demo_pack_options demo_which [''which'', ''-v'']
      \<lparr>st_polls = Suc (Suc 0), st_ticks = Suc 0, st_cache = NewCache\<rparr> = (Inr d, s3)" "d_Suggestion d = []" "st_polls s3 = 5"
    using demo_pack_command by (auto simp: numeral_2_eq_2)
  obtain s4 where sem: "semanticDecision demo_pack_options demo_which [] [''which'', ''-v''] s3 = (Inr demo_pack_repair, s4)"
    using demo_pack_facts
    by (simp add: semanticDecision_def ctx_Err_def env opt c(3) demo_match_def demo_pack_repair_def validRisk_def)
  show "d_Action demo_pack_decision = ''rewrite''" "d_Class demo_pack_decision = RepairClassSemantic"
    using demo_pack_finish [of s4] c sem
    by (auto simp: demo_pack_decision_def CheckShellContext_def check_words_def resolve_then_def ctx_Err_def now_def env opt
        demo_pack_facts demo_state_def demo_pack_repair_fields)
qed

theorem automatic_rewrite_origin_witness:
  "\<exists>words. tokenizeForShell [] ''which -v'' = Inr words \<and> words ! 0 = ''which''"
proof -
  have "NewRuntimeResolverWithInstalled demo_regexp [demo_pack] [] = Inr demo_resolver"
    using demo_pack_resolves by (auto simp: demo_resolver_def split: sum.splits)
  moreover have "o_SemanticResolver demo_pack_options = Some (MatchWordsContext (\<lambda>_. None) demo_resolver)"
    by (simp add: demo_pack_options_def)
  moreover obtain err where "fst (CheckShellContext demo_pack_options demo_which [] ''which -v'' ''pre'' demo_state) = (demo_pack_decision, err)"
    by (metis demo_pack_decision_def prod.collapse)
  ultimately obtain words p rule where "tokenizeForShell [] ''which -v'' = Inr words" "p \<in> set [demo_pack]" "rule \<in> set (p_Rules p)"
    "r_Command rule = words ! 0"
    using automatic_rewrite_origin [of demo_regexp "[demo_pack]" "[]" demo_resolver demo_pack_options "\<lambda>_. None" demo_which
        "[]" "''which -v''" "''pre''" demo_state demo_pack_decision] demo_pack_rewrites(1,2) by blast
  then show ?thesis by (auto simp: demo_pack_def)
qed

text \<open>
  A capture reference that is followed by a letter, a digit of another script or an
  underscore. The validation of templates reads \<open>$1x\<close> as group 1 followed by \<open>x\<close> and accepts it for a
  pattern with one group, but \<open>Expand\<close> reads the group name \<open>1x\<close>: unless the pattern has a group
  of that name, the reference and the letter vanish from the suggestion.
\<close>

lemma capture_before_letter_lost:
  assumes "''1x'' \<notin> set names"
  shows "validateTransformationTemplate ''$1x'' 1 = None \<and> regexp_Expand names ''$1x'' src match = []"
proof -
  have v: "validateTransformationTemplate ''$1x'' 1 = None" by code_simp
  have c: "strings_Cut ''$1x'' CHR ''$'' = ([], ''1x'', True)" "expand_name ''1x'' = Some (''1x'', None, [])"
    "strings_Cut [] CHR ''$'' = ([], [], False)" by code_simp+
  have "named_group names match ''1x'' = None"
    using assms by (auto simp: named_group_def find_None_iff in_set_conv_nth)
  then have "regexp_Expand names ''$1x'' src match = regexp_Expand names [] src match"
    by (subst regexp_Expand.simps) (simp add: c)
  also have "\<dots> = []" by (subst regexp_Expand.simps) (simp add: c)
  finally show ?thesis using v by blast
qed

end
