(* ===== verification/ServicePolicy.thy ===== *)
theory ServicePolicy
  imports ServiceProps RuntimeProps
begin

section \<open>Policy of the daemon service\<close>

text \<open>
  What a response of \<open>Handle\<close> may say: which authority lies behind an automatic rewrite
  (a pack, a learned rule or the engine), that a rewrite can be undone and an interrupt
  confirmed with the token the response carries, and which evidence a response to a failed
  command carries.
\<close>

subsection \<open>The authorities behind a rewrite\<close>

definition rewrite_by_pack :: "Service \<Rightarrow> service_env \<Rightarrow> Request \<Rightarrow> service_state \<Rightarrow> Response \<Rightarrow> bool" where
  "rewrite_by_pack svc env request s response \<longleftrightarrow> cf_Mode (sc_Config svc) = ''rewrite'' \<and> cf_AutoApplySafe (sc_Config svc) \<and>
     rs_Source response = ''curated'' \<and>
     (\<exists>match polls. MatchLineContext (ee_ctx (se_engine env)) (sc_Packs svc) (rq_Command request) (st_polls (sv_engine s)) = (Inr (Some match), polls) \<and>
        rm_Source match \<noteq> ''installed'' \<and> rm_Risk match = RiskSafe \<and> ShellCommandSupported (rq_Shell request) (rm_Suggestion match) \<and>
        redact_Command (strings_Fields (rm_Suggestion match)) = (rs_Suggestion response, False) \<and>
        rs_PackID response = rm_PackID match \<and> rs_RuleID response = rm_RuleID match)"

definition rewrite_by_learning :: "Service \<Rightarrow> Request \<Rightarrow> Response \<Rightarrow> bool" where
  "rewrite_by_learning svc request response \<longleftrightarrow> cf_LocalLearningEnabled (sc_Config svc) \<and>
     cf_LearnedRuleActionCeiling (sc_Config svc) = ''rewrite'' \<and> rs_Source response = ''learned'' \<and>
     (\<exists>rule\<in>set (sc_LearnedRules svc). lr_Enabled rule \<and> lr_Action rule = ''rewrite'' \<and>
        normalizedLearningCommand (rq_Command request) = (lr_Failure rule, True) \<and>
        rs_Suggestion response = lr_Correction rule \<and> rs_RuleID response = itoa (lr_ID rule))"

definition rewrite_by_engine :: "Service \<Rightarrow> Request \<Rightarrow> Response \<Rightarrow> bool" where
  "rewrite_by_engine svc request response \<longleftrightarrow> cf_Mode (o_Config (sc_Engine svc)) = ''rewrite'' \<and>
     cf_AutoApplySafe (o_Config (sc_Engine svc)) \<and> \<not> HasRuleException (o_Config (sc_Engine svc)) (rq_Command request) \<and>
     rewriteCompatible (rq_Shell request) (rq_Command request) \<and> rs_Source response \<in> {''heuristic'', ''curated''}"

lemma limited_rewrite: "limitedLearnedAction a c = ''rewrite'' \<longleftrightarrow> a = ''rewrite'' \<and> c = ''rewrite''"
  by (auto simp: limitedLearnedAction_def learned_levels_def)

lemma learned_rewrite:
  assumes "learnedDecision svc (rq_Command request) ''pre'' = Some response" "rs_Action response = ''rewrite''"
  shows "rewrite_by_learning svc request response" "rs_Risk response = RiskSafe"
  using assms
  by (auto simp: learnedDecision_def rewrite_by_learning_def learned_response_def limited_rewrite find_Some_iff
      split: if_splits option.splits prod.splits intro: nth_mem)

lemma risk_names: "RiskHigh \<noteq> RiskSafe" "RiskSafe \<noteq> RiskHigh" by (simp_all add: RiskHigh_def RiskSafe_def)

lemma curated_rewrite:
  assumes "curatedDecision svc env (rq_Shell request) (rq_Command request) session stage s = (Inr (Some response), s')"
    and "rs_Action response = ''rewrite''"
  shows "stage = ''pre'' \<and> rewrite_by_pack svc env request s response \<and> rs_Risk response = RiskSafe"
  using assms
  by (auto simp: curatedDecision_def rewrite_by_pack_def curated_response_def confirm_or_interrupt_def zeroResponse_def
      risk_names split: if_splits option.splits prod.splits sum.splits)

text \<open>The fields of an engine decision in the response.\<close>

lemma evidence_fields:
  "rs_Action (fold evidence_field es r) = rs_Action r" "rs_Risk (fold evidence_field es r) = rs_Risk r"
  "rs_Suggestion (fold evidence_field es r) = rs_Suggestion r" "rs_ConfirmationToken (fold evidence_field es r) = rs_ConfirmationToken r"
  "rs_UndoToken (fold evidence_field es r) = rs_UndoToken r" "rs_Evidence (fold evidence_field es r) = rs_Evidence r"
  by (induction es arbitrary: r) (simp_all add: evidence_field_def)

lemma evidence_source:
  "rs_Source (fold evidence_field es r) =
     (if \<lparr>ev_Kind = ''source'', ev_Value = ''installed''\<rparr> \<in> set es then ''installed-pack'' else rs_Source r)"
  by (induction es arbitrary: r) (auto simp: evidence_field_def)

lemma decision_response_fields:
  "rs_Action (decision_response d) = (if d_Action d = [] then ''none'' else d_Action d)"
  "rs_Risk (decision_response d) = d_Risk d" "rs_Suggestion (decision_response d) = d_Suggestion d"
  "rs_ConfirmationToken (decision_response d) = []" "rs_UndoToken (decision_response d) = []" "rs_Evidence (decision_response d) = []"
  "rs_Source (decision_response d) = (if d_Class d \<noteq> RepairClassSemantic then ''heuristic''
     else if \<lparr>ev_Kind = ''source'', ev_Value = ''installed''\<rparr> \<in> set (d_Evidence d) then ''installed-pack'' else ''curated'')"
  by (simp_all add: decision_response_def evidence_fields evidence_source zeroResponse_def)

lemma service_decision_rewrite:
  assumes "service_decision svc env (rq_Shell request) (rq_Command request) stage s = (Inr response, s')"
    and "rs_Action response = ''rewrite''"
  shows "stage = ''pre'' \<and> rewrite_by_engine svc request response \<and> rs_Risk response = RiskSafe"
proof -
  obtain d where d: "response = decision_response d"
      "fst (CheckShellContext (sc_Engine svc) (se_engine env) (rq_Shell request) (rq_Command request) stage (sv_engine s)) = (d, None)"
    using assms(1) by (auto simp: service_decision_def split: prod.splits option.splits)
  then have "d_Action d = ''rewrite''" using assms(2) by (auto simp: decision_response_fields split: if_splits)
  then obtain d0 where ok: "\<not> HasRuleException (o_Config (sc_Engine svc)) (rq_Command request)"
      "finished (sc_Engine svc) d0 (rq_Shell request) (rq_Command request) stage d"
    using CheckShellContext_cases [OF d(2)] by (auto simp: noDecision_def)
  from finished_action [OF ok(2)] finished_fields [OF ok(2)] \<open>d_Action d = ''rewrite''\<close> ok(1) d(1) show ?thesis
    by (auto simp: rewrite_by_engine_def decision_response_fields safeAutoApply_def intrinsicRewriteEligible_def
        semanticRewriteAllowed_def list_ex_iff)
qed

lemma preSend_rewrite:
  assumes "preSend svc env request s = (Inr response, s')" "rs_Action response = ''rewrite''"
  shows "ShellCommandSupported (rq_Shell request) (rq_Command request) \<and> rs_Risk response = RiskSafe \<and>
    (rewrite_by_pack svc env request s response \<or> rewrite_by_learning svc request response \<or> rewrite_by_engine svc request response)"
  using assms
  by (auto simp: preSend_def action_response_def zeroResponse_def confirm_or_interrupt_def
      split: if_splits option.splits prod.splits sum.splits
      dest: learned_rewrite curated_rewrite service_decision_rewrite)

lemma attach_evidence_fields:
  "rs_Action (attach_evidence p f request r) = rs_Action r" "rs_Suggestion (attach_evidence p f request r) = rs_Suggestion r"
  "rs_UndoToken (attach_evidence p f request r) = rs_UndoToken r"
  "rs_ConfirmationToken (attach_evidence p f request r) = rs_ConfirmationToken r"
  by (simp_all add: attach_evidence_def split: sum.splits)

lemmas attach_defs = attach_all_def attachGitFailureEvidence_def attachPackageManagerFailureEvidence_def
  attachJavaScriptFailureEvidence_def attachPythonFailureEvidence_def attachRustFailureEvidence_def
  attachGoFailureEvidence_def attachContainerFailureEvidence_def attachKubernetesCloudFailureEvidence_def

lemma attach_all_fields:
  "rs_Action (attach_all request r) = rs_Action r" "rs_Suggestion (attach_all request r) = rs_Suggestion r"
  "rs_UndoToken (attach_all request r) = rs_UndoToken r" "rs_ConfirmationToken (attach_all request r) = rs_ConfirmationToken r"
  by (simp_all add: attach_defs attach_evidence_fields)

text \<open>A response to a failed command is a decision of stage post with evidence attached.\<close>

lemma handle_post_failure_cases:
  assumes "handle_post_failure svc env request s = (Inr response, s')"
  obtains r s1 where "curatedDecision svc env (rq_Shell request) (rq_Command request) (rq_Session request) ''post''
      (rememberFailure svc env request (clearPendingUndo (rq_Session request) s)) = (Inr (Some r), s1)" "response = attach_all request r"
  | r s1 s2 where "service_decision svc env (rq_Shell request) (rq_Command request) ''post'' s1 = (Inr r, s2)" "response = attach_all request r"
proof -
  obtain c s1 where c: "curatedDecision svc env (rq_Shell request) (rq_Command request) (rq_Session request) ''post''
      (rememberFailure svc env request (clearPendingUndo (rq_Session request) s)) = (c, s1)" by (meson prod.exhaust)
  obtain d s2 where d: "service_decision svc env (rq_Shell request) (rq_Command request) ''post'' s1 = (d, s2)" by (meson prod.exhaust)
  show thesis using assms that c d by (cases d) (auto simp: handle_post_failure_def split: sum.splits option.splits)
qed

lemma post_failure_no_rewrite:
  assumes "handle_post_failure svc env request s = (Inr response, s')"
  shows "rs_Action response \<noteq> ''rewrite''"
  using assms
proof (cases rule: handle_post_failure_cases)
  case (1 r s1) then show ?thesis using curated_rewrite [OF 1(1)] by (auto simp: attach_all_fields)
next
  case (2 r s1 s2) then show ?thesis using service_decision_rewrite [OF 2(1)] by (auto simp: attach_all_fields)
qed

lemma Handle_rewrite:
  assumes "Handle svc env request s = (Inr response, s')" and "rs_Action response = ''rewrite''"
  shows "rq_Operation request = PreSendOperation \<and> ShellCommandSupported (rq_Shell request) (rq_Command request) \<and>
    rs_Risk response = RiskSafe \<and>
    (rewrite_by_pack svc env request s response \<or> rewrite_by_learning svc request response \<or> rewrite_by_engine svc request response)"
proof -
  have op: "rq_Operation request = PreSendOperation"
    using assms post_failure_no_rewrite [of svc env request s response s']
    by (auto simp: Handle_def action_response_def undo_response_def zeroResponse_def split: if_splits prod.splits option.splits)
  then obtain r s1 where r: "preSend svc env request (clearPendingUndo (rq_Session request) s) = (Inr r, s1)"
      "issueUndoToken svc env request r s1 = (response, s')"
    using assms(1) by (auto simp: Handle_def operation_names split: prod.splits sum.splits)
  have same: "rewrite_by_pack svc env request (clearPendingUndo (rq_Session request) s) x = rewrite_by_pack svc env request s x" for x
    by (simp add: rewrite_by_pack_def clearPendingUndo_def clear_session_undos_def)
  obtain t where t: "response = r \<or> response = r\<lparr>rs_UndoToken := t\<rparr>" using r(2)
    by (auto simp: issueUndoToken_def split: if_splits prod.splits sum.splits)
  with assms(2) have "rs_Action r = ''rewrite''" by auto
  from preSend_rewrite [OF r(1) this] t op show ?thesis
    unfolding same by (auto simp: rewrite_by_pack_def rewrite_by_learning_def rewrite_by_engine_def)
qed

text \<open>
  Property C4: who may rewrite. A response that says rewrite answers a pre-send request for a
  command line the shell integration supports, has risk safe, and rests on one of three
  authorities: a match of a pack that is not an installed one, whose suggestion is safe and
  contains no secret, in mode rewrite with automatic application on; an enabled learned rule
  with action rewrite for exactly this command, under a ceiling of rewrite with learning on,
  whose correction is the suggestion; or the engine, in mode rewrite with automatic application
  on and no rule exception for the line.
\<close>

theorem service_rewrite_authority:
  assumes "Handle svc env request s = (Inr response, s')" and "rs_Action response = ''rewrite''"
  shows "rq_Operation request = PreSendOperation \<and> ShellCommandSupported (rq_Shell request) (rq_Command request) \<and>
    rs_Risk response = RiskSafe \<and>
    (rewrite_by_pack svc env request s response \<or> rewrite_by_learning svc request response \<or> rewrite_by_engine svc request response)"
  by (rule Handle_rewrite [OF assms])

subsection \<open>Tokens of a response\<close>

lemma hex_nonempty: "length bytes = 16 \<Longrightarrow> hex_EncodeToString bytes \<noteq> []"
  by (cases bytes) (simp_all add: hex_EncodeToString_def)

text \<open>The token of an interrupt is stored for the session and the command until five seconds after the last look at the clock.\<close>

definition interrupt_stored :: "service_env \<Rightarrow> string \<Rightarrow> string \<Rightarrow> Response \<Rightarrow> service_state \<Rightarrow> bool" where
  "interrupt_stored env session command r s \<longleftrightarrow>
     (\<exists>n bytes. se_rand env n = Inr bytes \<and> rs_ConfirmationToken r = hex_EncodeToString bytes) \<and>
     sv_confirmations s session = Some \<lparr>cn_command = command, cn_token = rs_ConfirmationToken r,
       cn_expires = se_now env (sv_calls s - 1) + 5 * second\<rparr>"

lemma curated_response_fields:
  "rs_Action (curated_response match) = ''hint''" "rs_UndoToken (curated_response match) = []"
  "rs_ConfirmationToken (curated_response match) = []" "rs_Evidence (curated_response match) = []"
  by (simp_all add: curated_response_def zeroResponse_def split: prod.splits)

lemma confirm_or_interrupt_stores:
  assumes "confirm_or_interrupt env session command response s = (Inr r, s')" "rs_Action r = ''interrupt''"
  shows "interrupt_stored env session command r s'"
  using assms
  by (auto simp: confirm_or_interrupt_def interrupt_stored_def storeConfirmation_def currentTime_def newConfirmationToken_def
      map_sum_Inr split: prod.splits if_splits sum.splits) blast

lemma curated_interrupt_stores:
  assumes "curatedDecision svc env shellName command session stage s = (Inr (Some r), s')" "rs_Action r = ''interrupt''"
  shows "interrupt_stored env session command r s'"
  using assms
  by (auto simp: curatedDecision_def curated_response_fields map_sum_Inr split: prod.splits if_splits sum.splits option.splits
      dest: confirm_or_interrupt_stores)

lemma learned_no_interrupt: "learnedDecision svc command stage = Some r \<Longrightarrow> rs_Action r \<noteq> ''interrupt''"
  by (auto simp: learnedDecision_def learned_response_def limitedLearnedAction_def learned_levels_def
      split: if_splits prod.splits option.splits)

lemma preSend_interrupt_stores:
  assumes "preSend svc env request s = (Inr r, s')" "rs_Action r = ''interrupt''" "rq_Session request \<noteq> []"
  shows "interrupt_stored env (rq_Session request) (rq_Command request) r s'"
  using assms
  by (auto simp: preSend_def action_response_def zeroResponse_def split: prod.splits if_splits sum.splits option.splits
      dest: confirm_or_interrupt_stores curated_interrupt_stores learned_no_interrupt)

lemma post_failure_no_interrupt:
  assumes "handle_post_failure svc env request s = (Inr response, s')"
  shows "rs_Action response \<noteq> ''interrupt''"
  using assms
proof (cases rule: handle_post_failure_cases)
  case (1 r s1) then show ?thesis
    by (auto simp: attach_all_fields curatedDecision_def curated_interrupts_def curated_response_fields
        split: prod.splits if_splits sum.splits option.splits)
next
  case (2 r s1 s2)
  then obtain d where d: "r = decision_response d" "fst (CheckShellContext (sc_Engine svc) (se_engine env) (rq_Shell request)
      (rq_Command request) ''post'' (sv_engine s1)) = (d, None)"
    by (auto simp: service_decision_def split: prod.splits option.splits)
  have "d_Action d \<noteq> ''interrupt''"
    using CheckShellContext_cases [OF d(2)] finished_action by (fastforce simp: noDecision_def shouldInterrupt_def)
  then show ?thesis using 2(2) d(1) by (simp add: attach_all_fields decision_response_fields)
qed

lemma confirm_or_interrupt_no_undo:
  "confirm_or_interrupt env session command response s = (Inr r, s') \<Longrightarrow> rs_UndoToken r = rs_UndoToken response"
  by (auto simp: confirm_or_interrupt_def split: prod.splits if_splits sum.splits)

lemma curated_no_undo:
  "curatedDecision svc env shellName command session stage s = (Inr (Some r), s') \<Longrightarrow> rs_UndoToken r = []"
  by (auto simp: curatedDecision_def curated_response_fields map_sum_Inr split: prod.splits if_splits sum.splits option.splits
      dest: confirm_or_interrupt_no_undo)

lemma service_decision_no_undo:
  "service_decision svc env shellName command stage s = (Inr r, s') \<Longrightarrow> rs_UndoToken r = []"
  by (auto simp: service_decision_def decision_response_fields split: prod.splits option.splits)

lemma preSend_no_undo: "preSend svc env request s = (Inr r, s') \<Longrightarrow> rs_UndoToken r = []"
  by (auto simp: preSend_def action_response_def learnedDecision_def learned_response_def zeroResponse_def
      split: prod.splits if_splits sum.splits option.splits
      dest!: curated_no_undo service_decision_no_undo confirm_or_interrupt_no_undo)

lemma Handle_pre_cases:
  assumes "Handle svc env request s = (Inr response, s')" "rs_Action response = ''interrupt'' \<or> rs_UndoToken response \<noteq> []"
  obtains r s1 where "preSend svc env request (clearPendingUndo (rq_Session request) s) = (Inr r, s1)"
    "issueUndoToken svc env request r s1 = (response, s')" "rq_Operation request = PreSendOperation"
proof -
  have "rq_Operation request = PreSendOperation" if post: "handle_post_failure svc env request s = (Inr response, s')"
    using post
  proof (cases rule: handle_post_failure_cases)
    case (1 r s1) then show ?thesis using assms(2) post_failure_no_interrupt [OF post] curated_no_undo [OF 1(1)] by (simp add: attach_all_fields)
  next
    case (2 r s1 s2) then show ?thesis using assms(2) post_failure_no_interrupt [OF post] service_decision_no_undo [OF 2(1)] by (simp add: attach_all_fields)
  qed
  then have "rq_Operation request = PreSendOperation" using assms
    by (auto simp: Handle_def action_response_def undo_response_def zeroResponse_def split: if_splits prod.splits option.splits)
  then show thesis using assms(1) that by (auto simp: Handle_def operation_names split: prod.splits sum.splits)
qed

text \<open>
  Property C5: an interrupted command can be confirmed. When the daemon interrupts a command of
  a session, the confirm request of that session for the same command with the token of the
  response is answered with submit, if it comes before the five seconds are over. The random
  source is assumed to fill its sixteen bytes when it does not fail.
\<close>

theorem interrupt_confirmable:
  assumes "\<And>n bytes. se_rand env n = Inr bytes \<Longrightarrow> length bytes = 16"
    and "Handle svc env request s = (Inr response, s1)" and "rs_Action response = ''interrupt''"
    and "rq_Session request \<noteq> []" and "rq_Command request \<noteq> []"
    and "se_now env (sv_calls s1) < se_now env (sv_calls s1 - 1) + 5 * second"
  shows "fst (Handle svc env (request\<lparr>rq_Operation := ConfirmOperation, rq_Token := rs_ConfirmationToken response\<rparr>) s1)
    = Inr (action_response ''submit'')"
proof -
  obtain r s0 where r: "preSend svc env request (clearPendingUndo (rq_Session request) s) = (Inr r, s0)"
      "issueUndoToken svc env request r s0 = (response, s1)"
    using Handle_pre_cases [OF assms(2)] assms(3) by metis
  then have "response = r" "s1 = s0" using assms(3) by (auto simp: issueUndoToken_def split: if_splits prod.splits sum.splits)
  then have st: "interrupt_stored env (rq_Session request) (rq_Command request) response s1"
    using preSend_interrupt_stores [OF r(1)] assms(3,4) by simp
  then have "rs_ConfirmationToken response \<noteq> []" using assms(1) hex_nonempty by (fastforce simp: interrupt_stored_def)
  then show ?thesis using st assms(4-6)
    by (simp add: Handle_def operation_names consumeConfirmationToken_def currentTime_def interrupt_stored_def)
qed

text \<open>
  Property C6: an automatic rewrite can be undone. When a response carries an undo token, the
  undo request of the same session with that token gives back the command as it was typed, if
  it comes within the configured lifetime, and with it the token is spent: asking again gives
  nothing.
\<close>

theorem rewrite_undoable:
  assumes "Handle svc env request s = (Inr response, s1)" and "rs_UndoToken response \<noteq> []"
    and "se_now env (sv_calls s1) < se_now env (sv_calls s1 - 1) + cf_UndoTTLSeconds (sc_Config svc) * second"
  defines "undo \<equiv> request\<lparr>rq_Operation := UndoOperation, rq_Token := rs_UndoToken response\<rparr>"
  shows "rs_Action response = ''rewrite'' \<and> rq_Operation request = PreSendOperation \<and>
    fst (Handle svc env undo s1) = Inr (undo_response (rq_Command request)) \<and>
    fst (Handle svc env undo (snd (Handle svc env undo s1))) = Inr (action_response ''none'')"
proof -
  obtain r s0 where r: "preSend svc env request (clearPendingUndo (rq_Session request) s) = (Inr r, s0)"
      "issueUndoToken svc env request r s0 = (response, s1)" and op: "rq_Operation request = PreSendOperation"
    using Handle_pre_cases [OF assms(1)] assms(2) by metis
  from r(2) assms(2) preSend_no_undo [OF r(1)] obtain s2 where s1: "s1 = storeUndoToken svc env (rs_UndoToken response) (rq_Session request) (rq_Command request) s2"
      and g: "cf_UndoEnabled (sc_Config svc)" "rs_Action response = ''rewrite''" "rq_Session request \<noteq> []"
    by (auto simp: issueUndoToken_def split: if_splits prod.splits sum.splits)
  let ?p = "\<lparr>pu_session = rq_Session request, pu_command = rq_Command request,
    pu_expires = se_now env (sv_calls s1 - 1) + cf_UndoTTLSeconds (sc_Config svc) * second\<rparr>"
  have st: "sv_undos s1 (rs_UndoToken response) = Some ?p" by (simp add: s1 storeUndoToken_def currentTime_def removeExpiredUndos_def clear_session_undos_def)
  obtain s3 where u: "consumeUndoToken env (rq_Session request) (rs_UndoToken response) s1 = (Some ?p, s3)" "sv_undos s3 (rs_UndoToken response) = None"
    using st g(3) assms(2,3) by (simp add: consumeUndoToken_def currentTime_def removeExpiredUndos_def delete_where_def)
  have "fst (consumeUndoToken env (rq_Session request) (rs_UndoToken response) s3) = None"
    using u(2) by (auto simp: consumeUndoToken_def currentTime_def removeExpiredUndos_def delete_where_def)
  with u g op show ?thesis
    by (auto simp: undo_def Handle_def operation_names split: prod.splits)
qed

subsection \<open>Evidence of a failed command\<close>

text \<open>Which patterns the daemon searches the output of a failed command for, by its first word.\<close>

definition tool_patterns :: "string \<Rightarrow> failure_patterns" where
  "tool_patterns word = (case map_of
     [(''git'', gitFailurePatterns), (''brew'', packageManagerFailurePatterns), (''npm'', packageManagerFailurePatterns),
      (''pnpm'', packageManagerFailurePatterns), (''yarn'', packageManagerFailurePatterns), (''bun'', javaScriptFailurePatterns),
      (''deno'', javaScriptFailurePatterns), (''node'', javaScriptFailurePatterns), (''pip'', pythonFailurePatterns),
      (''pytest'', pythonFailurePatterns), (''python'', pythonFailurePatterns), (''uv'', pythonFailurePatterns),
      (''cargo'', rustFailurePatterns), (''rustc'', rustFailurePatterns), (''rustup'', rustFailurePatterns),
      (''go'', goFailurePatterns), (''gofmt'', goFailurePatterns), (''docker'', containerFailurePatterns),
      (''podman'', containerFailurePatterns), (''aws'', kubernetesCloudFailurePatterns), (''helm'', kubernetesCloudFailurePatterns),
      (''kubectl'', kubernetesCloudFailurePatterns), (''terraform'', kubernetesCloudFailurePatterns)] word of
     None \<Rightarrow> [] | Some patterns \<Rightarrow> patterns)"

lemma safeFailureOutput_length: "length (safeFailureOutput output) \<le> 8192"
  by (simp add: safeFailureOutput_def maxFailureOutputBytes_def)

lemma attach_skip: "\<not> p (firstCommandWord (rq_Command request)) \<Longrightarrow> attach_evidence p f request r = r"
  by (simp add: attach_evidence_def)

lemma attach_silent: "rs_Action r = ''none'' \<or> rs_Suggestion r = [] \<Longrightarrow> attach_evidence p f request r = r"
  by (auto simp: attach_evidence_def)

definition evidence_attached :: "failure_patterns \<Rightarrow> Request \<Rightarrow> Response \<Rightarrow> Response \<Rightarrow> bool" where
  "evidence_attached patterns request r r' \<longleftrightarrow> (\<exists>es. r' = r\<lparr>rs_Evidence := es\<rparr> \<and> sorted_wrt evidence_less es \<and>
     set es = evidence_of patterns (safeFailureOutput (rq_FailureOutput request)))"

lemma attach_hit:
  assumes "failure_extractor f patterns 8192 tooLarge" "p (firstCommandWord (rq_Command request))"
    and "rs_Action r \<noteq> ''none''" "rs_Suggestion r \<noteq> []"
  shows "evidence_attached patterns request r (attach_evidence p f request r)"
proof -
  from assms(1) obtain es where "f (safeFailureOutput (rq_FailureOutput request)) = Inr es" "sorted_wrt evidence_less es"
      "set es = evidence_of patterns (safeFailureOutput (rq_FailureOutput request))"
    using safeFailureOutput_length by (fastforce simp: failure_extractor_def)
  with assms show ?thesis by (auto simp: attach_evidence_def evidence_attached_def)
qed

lemmas extractors_ok = git_failure.failure_extractor_axioms container_failure.failure_extractor_axioms
  go_failure.failure_extractor_axioms javascript_failure.failure_extractor_axioms
  kubernetescloud_failure.failure_extractor_axioms packagemanager_failure.failure_extractor_axioms
  python_failure.failure_extractor_axioms rust_failure.failure_extractor_axioms

lemmas command_words = isPackageManagerCommand_def isJavaScriptCommand_def isPythonCommand_def isRustCommand_def
  isGoCommand_def isContainerCommand_def isKubernetesCloudCommand_def

lemma attach_all_evidence:
  assumes "rs_Action r \<noteq> ''none''" "rs_Suggestion r \<noteq> []" "rs_Evidence r = []"
  shows "evidence_attached (tool_patterns (firstCommandWord (rq_Command request))) request r (attach_all request r)"
proof -
  let ?w = "firstCommandWord (rq_Command request)"
  note hit = extractors_ok [unfolded failure_limits, THEN attach_hit, OF _ assms(1,2)]
  consider "?w = ''git''" | "isPackageManagerCommand ?w" | "isJavaScriptCommand ?w" | "isPythonCommand ?w" | "isRustCommand ?w"
    | "isGoCommand ?w" | "isContainerCommand ?w" | "isKubernetesCloudCommand ?w"
    | "?w \<noteq> ''git''" "\<not> isPackageManagerCommand ?w" "\<not> isJavaScriptCommand ?w" "\<not> isPythonCommand ?w" "\<not> isRustCommand ?w"
      "\<not> isGoCommand ?w" "\<not> isContainerCommand ?w" "\<not> isKubernetesCloudCommand ?w" by blast
  then show ?thesis
  proof cases
    case 9
    then have "tool_patterns ?w = []" by (auto simp: tool_patterns_def command_words split: option.splits dest!: map_of_SomeD)
    then show ?thesis using 9 assms(3) by (auto simp: attach_defs attach_skip evidence_attached_def evidence_of_def intro: exI [of _ "[]"])
  qed (auto simp: attach_defs attach_skip tool_patterns_def command_words intro: hit)
qed

lemma attach_all_silent:
  "rs_Action r = ''none'' \<or> rs_Suggestion r = [] \<Longrightarrow> attach_all request r = r"
  by (auto simp: attach_defs attach_silent)

lemma decision_no_evidence:
  "curatedDecision svc env shellName command session ''post'' s = (Inr (Some r), s') \<Longrightarrow> rs_Evidence r = []"
  "service_decision svc env shellName command stage s = (Inr r, s') \<Longrightarrow> rs_Evidence r = []"
  by (auto simp: curatedDecision_def curated_interrupts_def curated_response_fields service_decision_def decision_response_fields
      split: prod.splits if_splits sum.splits option.splits)

text \<open>
  Property C32: the evidence of a failed command. A response to a post-failure request that
  suggests something carries exactly the evidence that the patterns of the command's tool find
  in the redacted first 8192 bytes of the failure output, sorted and without duplicates; for
  other commands, and for a response that suggests nothing, there is none. The response never
  asks the shell to rewrite or interrupt.
\<close>

theorem post_failure_evidence:
  assumes "Handle svc env request s = (Inr response, s')" and "rq_Operation request = PostFailureOperation"
  shows "set (rs_Evidence response) = (if rs_Action response = ''none'' \<or> rs_Suggestion response = [] then {}
      else evidence_of (tool_patterns (firstCommandWord (rq_Command request))) (safeFailureOutput (rq_FailureOutput request))) \<and>
    sorted_wrt evidence_less (rs_Evidence response) \<and> length (safeFailureOutput (rq_FailureOutput request)) \<le> 8192 \<and>
    rs_Action response \<noteq> ''rewrite'' \<and> rs_Action response \<noteq> ''interrupt''"
proof -
  have post: "handle_post_failure svc env request s = (Inr response, s')" using assms by (simp add: Handle_def operation_names)
  then obtain r where r: "response = attach_all request r" "rs_Evidence r = []"
    by (cases rule: handle_post_failure_cases) (auto dest: decision_no_evidence)
  show ?thesis
  proof (cases "rs_Action r = ''none'' \<or> rs_Suggestion r = []")
    case True
    then show ?thesis using r safeFailureOutput_length post_failure_no_rewrite [OF post] post_failure_no_interrupt [OF post]
      by (auto simp: attach_all_silent)
  next
    case False
    then have "evidence_attached (tool_patterns (firstCommandWord (rq_Command request))) request r response"
      using attach_all_evidence [of r request] r by simp
    then show ?thesis using False safeFailureOutput_length post_failure_no_rewrite [OF post] post_failure_no_interrupt [OF post]
      by (auto simp: evidence_attached_def)
  qed
qed

subsection \<open>A concrete service\<close>

text \<open>One bundled pack with one rule, whose risk is chosen, under a chosen mode.\<close>

definition policy_pack :: "string \<Rightarrow> Pack" where
  "policy_pack risk = demo_pack\<lparr>p_Rules := [\<lparr>r_ID = ''c'', r_Command = ''git'', r_Pattern = ''^-v$'', r_Replacement = ''-a'',
     r_PreserveTail = False, r_Cause = ''typo'', r_Risk = risk, r_RiskRationale = ''query''\<rparr>]\<rparr>"

definition policy_resolver :: "string \<Rightarrow> RuntimeResolver" where
  "policy_resolver risk =
     (case NewRuntimeResolverWithInstalled demo_regexp [policy_pack risk] [] of Inl _ \<Rightarrow> \<lparr>rr_packs = []\<rparr> | Inr r \<Rightarrow> r)"

definition policy_service :: "string \<Rightarrow> string \<Rightarrow> Service" where
  "policy_service mode risk = demo_service\<lparr>sc_Config := Default\<lparr>cf_Mode := mode, cf_AutoApplySafe := True, cf_UndoEnabled := True\<rparr>,
     sc_Packs := policy_resolver risk\<rparr>"

definition policy_request :: "string \<Rightarrow> Request" where
  "policy_request operation = demo_request operation\<lparr>rq_Command := ''git -v'', rq_FailureOutput := demo_failure\<rparr>"

definition policy_match :: "string \<Rightarrow> RuntimeMatch" where
  "policy_match risk = \<lparr>rm_PackID = ''a'', rm_RuleID = ''c'', rm_Source = ''bundled'', rm_Suggestion = ''git -a'', rm_Cause = ''typo'',
     rm_Risk = risk, rm_Rationale = ''query''\<rparr>"

lemma policy_facts:
  "MatchLineContext (\<lambda>_. None) (policy_resolver RiskSafe) ''git -v'' 0 = (Inr (Some (policy_match RiskSafe)), 4)"
  "MatchLineContext (\<lambda>_. None) (policy_resolver RiskHigh) ''git -v'' 0 = (Inr (Some (policy_match RiskHigh)), 4)"
  "ShellCommandSupported [] ''git -v''" "ShellCommandSupported [] ''git -a''"
  "redact_Command (strings_Fields ''git -a'') = (''git -a'', False)" "firstCommandWord ''git -v'' = ''git''"
  by code_simp+

lemma policy_curated:
  "ee_ctx (se_engine demo_service_env) = (\<lambda>_. None)" "st_polls (sv_engine demo_service_state) = 0"
  "sv_confirmations demo_service_state = Map.empty" "sv_undos demo_service_state = Map.empty" "sv_calls demo_service_state = 0"
  "rq_Shell (policy_request operation) = []" "rq_Command (policy_request operation) = ''git -v''" "rq_Session (policy_request operation) = ''s''"
  "rq_Operation (policy_request operation) = operation" "rq_FailureOutput (policy_request operation) = demo_failure"
  "sc_Packs (policy_service mode risk) = policy_resolver risk" "sc_HasStore (policy_service mode risk) = False"
  "cf_UndoEnabled (sc_Config (policy_service mode risk))" "cf_Mode (sc_Config (policy_service mode risk)) = mode"
  "cf_AutoApplySafe (sc_Config (policy_service mode risk))" "cf_UndoTTLSeconds (sc_Config (policy_service mode risk)) = 30"
  "rm_Suggestion (policy_match risk) = ''git -a''"
  "clearPendingUndo session demo_service_state = demo_service_state" "second = 1000000000" "se_now demo_service_env n = int n"
  "se_rand demo_service_env n = Inr (replicate 16 (CHR ''r''))"
  by (simp_all add: demo_service_env_def demo_env_def demo_service_state_def demo_state_def policy_request_def demo_request_def
      policy_service_def demo_service_def Default_def policy_match_def second_def
      clearPendingUndo_def clear_session_undos_def delete_where_def defaultUndoTTLSeconds_def)

lemma policy_response:
  "rs_Risk (curated_response (policy_match risk)) = risk" "rs_RewriteEligible (curated_response (policy_match risk)) = (risk = RiskSafe)"
  "rs_Suggestion (curated_response (policy_match risk)) = ''git -a''"
  by (simp_all add: curated_response_def policy_facts policy_match_def)

lemma policy_rewrite:
  "\<exists>response s'. Handle (policy_service ''rewrite'' RiskSafe) demo_service_env (policy_request PreSendOperation) demo_service_state
     = (Inr response, s') \<and> rs_Action response = ''rewrite'' \<and> rs_UndoToken response \<noteq> [] \<and> sv_calls s' = 1"
  by (simp add: Handle_def operation_names preSend_def policy_facts curatedDecision_def policy_curated policy_response curated_interrupts_def
      risk_names issueUndoToken_def newConfirmationToken_def storeUndoToken_def currentTime_def clear_session_undos_def removeExpiredUndos_def
      hex_nonempty)

lemma policy_interrupt:
  "\<exists>response s'. Handle (policy_service ''interrupt'' RiskHigh) demo_service_env (policy_request PreSendOperation) demo_service_state
     = (Inr response, s') \<and> rs_Action response = ''interrupt'' \<and> sv_calls s' = 1"
  by (simp add: Handle_def operation_names preSend_def policy_facts curatedDecision_def policy_curated policy_response curated_interrupts_def
      risk_names issueUndoToken_def confirm_or_interrupt_def consumeConfirmation_def newConfirmationToken_def storeConfirmation_def currentTime_def)

lemma policy_failure:
  "\<exists>response s'. Handle (policy_service ''rewrite'' RiskSafe) demo_service_env (policy_request PostFailureOperation) demo_service_state
     = (Inr response, s') \<and> rs_Action response = ''hint'' \<and> rs_Suggestion response = ''git -a''"
  by (simp add: Handle_def operation_names handle_post_failure_def rememberFailure_def policy_facts curatedDecision_def policy_curated
     policy_response curated_interrupts_def attach_all_fields curated_response_fields)

theorem service_rewrite_authority_witness:
  "\<exists>response s'. Handle (policy_service ''rewrite'' RiskSafe) demo_service_env (policy_request PreSendOperation) demo_service_state
     = (Inr response, s') \<and> rs_Action response = ''rewrite'' \<and> rs_Risk response = RiskSafe"
  using policy_rewrite service_rewrite_authority by blast

theorem interrupt_confirmable_witness:
  "\<exists>response s'. Handle (policy_service ''interrupt'' RiskHigh) demo_service_env (policy_request PreSendOperation) demo_service_state
     = (Inr response, s') \<and> rs_Action response = ''interrupt'' \<and>
     fst (Handle (policy_service ''interrupt'' RiskHigh) demo_service_env
       (policy_request PreSendOperation\<lparr>rq_Operation := ConfirmOperation, rq_Token := rs_ConfirmationToken response\<rparr>) s')
     = Inr (action_response ''submit'')"
proof -
  obtain response s' where r: "Handle (policy_service ''interrupt'' RiskHigh) demo_service_env (policy_request PreSendOperation) demo_service_state
     = (Inr response, s')" "rs_Action response = ''interrupt''" "sv_calls s' = 1"
    using policy_interrupt by blast
  from interrupt_confirmable [OF _ r(1,2)] r show ?thesis by (simp add: policy_curated)
qed

theorem rewrite_undoable_witness:
  "\<exists>response s'. Handle (policy_service ''rewrite'' RiskSafe) demo_service_env (policy_request PreSendOperation) demo_service_state
     = (Inr response, s') \<and> rs_Action response = ''rewrite'' \<and>
     fst (Handle (policy_service ''rewrite'' RiskSafe) demo_service_env
       (policy_request PreSendOperation\<lparr>rq_Operation := UndoOperation, rq_Token := rs_UndoToken response\<rparr>) s')
     = Inr (undo_response ''git -v'')"
proof -
  obtain response s' where r: "Handle (policy_service ''rewrite'' RiskSafe) demo_service_env (policy_request PreSendOperation) demo_service_state
     = (Inr response, s')" "rs_UndoToken response \<noteq> []" "sv_calls s' = 1"
    using policy_rewrite by blast
  from rewrite_undoable [OF r(1,2)] r show ?thesis by (simp add: policy_curated)
qed

theorem post_failure_evidence_witness:
  "\<exists>response s'. Handle (policy_service ''rewrite'' RiskSafe) demo_service_env (policy_request PostFailureOperation) demo_service_state
     = (Inr response, s') \<and> set (rs_Evidence response) = evidence_of gitFailurePatterns (safeFailureOutput demo_failure)"
proof -
  obtain response s' where r: "Handle (policy_service ''rewrite'' RiskSafe) demo_service_env (policy_request PostFailureOperation) demo_service_state
     = (Inr response, s')" "rs_Action response = ''hint''" "rs_Suggestion response = ''git -a''"
    using policy_failure by blast
  from post_failure_evidence [OF r(1)] r show ?thesis by (simp add: policy_curated policy_facts tool_patterns_def)
qed

end
