(* ===== verification/GoJSON.thy ===== *)
theory GoJSON
  imports GoHex GoStrconv Prelude
begin

section \<open>JSON (package encoding/json)\<close>

text \<open>
  What the program uses of \<open>encoding/json\<close>, at the level of JSON values: \<open>json_compact\<close> is the
  text of \<open>Marshal\<close> and of an \<open>Encoder\<close>, \<open>json_indented\<close> that of \<open>MarshalIndent\<close> with an indent of
  two spaces, \<open>decode_first\<close> reads the first value of an input as \<open>Decoder.Decode\<close> does,
  \<open>json_Unmarshal\<close> requires that only white space follows it. Like the scanner of the package, the
  parser keeps a stack of the open arrays and objects, of at most 10000 entries. A number is kept
  as its text. \<open>decode_fields\<close> is the decoding of an object into a struct.
\<close>

datatype json =
    JNull
  | JBool bool
  | JNumber string
  | JString string
  | JArray "json list"
  | JObject "(string \<times> json) list"

subsection \<open>Printing\<close>

definition BSLASH :: char where "BSLASH = CHR 0x5C"
definition DQUOTE :: char where "DQUOTE = CHR 0x22"

definition unicode_escape :: "nat \<Rightarrow> string" where
  "unicode_escape r = [BSLASH, CHR ''u'', hex_digit (r div 4096), hex_digit (r div 256 mod 16), hex_digit (r div 16 mod 16), hex_digit (r mod 16)]"

definition short_escape :: "rune \<Rightarrow> char option" where
  "short_escape r = map_of [(0x22, CHR 0x22), (0x5C, CHR 0x5C), (8, CHR ''b''), (0xC, CHR ''f''), (0xA, CHR ''n''), (0xD, CHR ''r''), (9, CHR ''t'')] r"

definition json_escape :: "cell \<Rightarrow> string" where
  "json_escape = (\<lambda>(r, bytes).
     case short_escape r of
       Some e \<Rightarrow> [BSLASH, e]
     | None \<Rightarrow>
        if r < 0x20 \<or> r \<in> {0x3C, 0x3E, 0x26} \<or> r = RuneError \<and> length bytes = 1 \<or> r \<in> {0x2028, 0x2029} then unicode_escape r
        else bytes)"

definition json_quote :: "string \<Rightarrow> string" where
  "json_quote s = DQUOTE # concat (map json_escape (cells s)) @ [DQUOTE]"

text \<open>The text of a value, for the line breaks \<open>nl d\<close> at depth \<open>d\<close> and the text after a colon.\<close>

fun json_text :: "(nat \<Rightarrow> string) \<Rightarrow> string \<Rightarrow> nat \<Rightarrow> json \<Rightarrow> string" where
  "json_text nl sp d JNull = ''null''"
| "json_text nl sp d (JBool b) = (if b then ''true'' else ''false'')"
| "json_text nl sp d (JNumber n) = n"
| "json_text nl sp d (JString s) = json_quote s"
| "json_text nl sp d (JArray vs) =
    (if vs = [] then ''[]''
     else ''['' @ nl (d + 1) @ strings_Join (map (json_text nl sp (d + 1)) vs) (CHR '','' # nl (d + 1)) @ nl d @ '']'')"
| "json_text nl sp d (JObject kvs) =
    (if kvs = [] then ''{}''
     else ''{'' @ nl (d + 1)
       @ strings_Join (map (\<lambda>(k, v). json_quote k @ CHR '':'' # sp @ json_text nl sp (d + 1) v) kvs) (CHR '','' # nl (d + 1)) @ nl d @ ''}'')"

definition json_compact :: "json \<Rightarrow> string" where
  "json_compact v = json_text (\<lambda>_. []) [] 0 v"

definition json_indented :: "json \<Rightarrow> string" where
  "json_indented v = json_text (\<lambda>d. CHR 0x0A # replicate (2 * d) (CHR '' '')) '' '' 0 v"

subsection \<open>Scanning strings and numbers\<close>

definition is_hex :: "char \<Rightarrow> bool" where
  "is_hex c \<longleftrightarrow> hex_value c \<noteq> None"

definition simple_escapes :: "(char \<times> char) list" where
  "simple_escapes = [(CHR 0x22, CHR 0x22), (CHR 0x5C, CHR 0x5C), (CHR ''/'', CHR ''/''), (CHR ''b'', CHR 8),
     (CHR ''f'', CHR 0xC), (CHR ''n'', CHR 0xA), (CHR ''r'', CHR 0xD), (CHR ''t'', CHR 9)]"

text \<open>The body of a string up to its closing quote, and the input after it.\<close>

fun scan_string :: "string \<Rightarrow> (string \<times> string) option" where
  "scan_string [] = None"
| "scan_string (c # s) =
    (if c = DQUOTE then Some ([], s)
     else if c = BSLASH then
       (case s of
          [] \<Rightarrow> None
        | e # s' \<Rightarrow>
           if e = CHR ''u'' then
             (if 4 \<le> length s' \<and> list_all is_hex (take 4 s')
              then map_option (\<lambda>(b, r). (c # e # take 4 s' @ b, r)) (scan_string (drop 4 s')) else None)
           else if e \<in> fst ` set simple_escapes then map_option (\<lambda>(b, r). (c # e # b, r)) (scan_string s')
           else None)
     else if byte c < 0x20 then None
     else map_option (\<lambda>(b, r). (c # b, r)) (scan_string s))"

definition getu4 :: "string \<Rightarrow> nat" where
  "getu4 s = foldl (\<lambda>n c. n * 16 + (case hex_value c of Some v \<Rightarrow> v | None \<Rightarrow> 0)) 0 (take 4 s)"

definition is_surrogate :: "nat \<Rightarrow> bool" where
  "is_surrogate r \<longleftrightarrow> 0xD800 \<le> r \<and> r < 0xE000"

definition utf16_DecodeRune :: "nat \<Rightarrow> nat \<Rightarrow> rune" where
  "utf16_DecodeRune r1 r2 =
     (if 0xD800 \<le> r1 \<and> r1 < 0xDC00 \<and> 0xDC00 \<le> r2 \<and> r2 < 0xE000 then (r1 - 0xD800) * 1024 + (r2 - 0xDC00) + 0x10000 else RuneError)"

function json_unquote :: "string \<Rightarrow> string" where
  "json_unquote [] = []"
| "json_unquote (c # s) =
    (if c = BSLASH then
       (case s of
          [] \<Rightarrow> []
        | e # s' \<Rightarrow>
           if e = CHR ''u'' then
             (let r = getu4 s'; s'' = drop 4 s';
                  pair = utf16_DecodeRune r (if take 2 s'' = [BSLASH, CHR ''u''] then getu4 (drop 2 s'') else 0) in
              if is_surrogate r \<and> pair \<noteq> RuneError then utf8_encode pair @ json_unquote (drop 6 s'')
              else utf8_encode r @ json_unquote s'')
           else (case map_of simple_escapes e of Some v \<Rightarrow> v | None \<Rightarrow> e) # json_unquote s')
     else let (r, n) = decodeRune (c # s) in utf8_encode r @ json_unquote (drop n (c # s)))"
  by pat_completeness auto
termination
proof (relation "measure length")
  fix c :: char and s x r n
  assume "x = decodeRune (c # s)" "(r, n) = x"
  then have "1 \<le> n" using decodeRune_size [of "c # s"] by (metis list.distinct(1) snd_conv)
  then show "(drop n (c # s), c # s) \<in> measure length" by simp
qed simp_all

definition starts_number :: "char \<Rightarrow> bool" where
  "starts_number c \<longleftrightarrow> is_digit c \<or> c = CHR ''-''"

definition scan_exponent :: "string \<Rightarrow> string \<Rightarrow> (string \<times> string) option" where
  "scan_exponent acc s =
     (case s of
        e # r \<Rightarrow>
          if e = CHR ''e'' \<or> e = CHR ''E'' then
            (let (sign, r') = (case r of c # q \<Rightarrow> if c = CHR ''+'' \<or> c = CHR ''-'' then ([c], q) else ([], r) | [] \<Rightarrow> ([], r)) in
             if takeWhile is_digit r' = [] then None else Some (acc @ e # sign @ takeWhile is_digit r', dropWhile is_digit r'))
          else Some (acc, s)
      | [] \<Rightarrow> Some (acc, s))"

definition scan_fraction :: "string \<Rightarrow> string \<Rightarrow> (string \<times> string) option" where
  "scan_fraction acc s =
     (case s of
        c # r \<Rightarrow>
          if c = CHR ''.'' then
            (if takeWhile is_digit r = [] then None else scan_exponent (acc @ c # takeWhile is_digit r) (dropWhile is_digit r))
          else scan_exponent acc s
      | [] \<Rightarrow> Some (acc, s))"

definition scan_unsigned :: "string \<Rightarrow> string \<Rightarrow> (string \<times> string) option" where
  "scan_unsigned acc s =
     (case s of
        c # r \<Rightarrow>
          if c = CHR ''0'' then scan_fraction (acc @ [c]) r
          else if is_digit c then scan_fraction (acc @ c # takeWhile is_digit r) (dropWhile is_digit r)
          else None
      | [] \<Rightarrow> None)"

definition scan_number :: "string \<Rightarrow> (string \<times> string) option" where
  "scan_number s = (case s of c # r \<Rightarrow> if c = CHR ''-'' then scan_unsigned [c] r else scan_unsigned [] s | [] \<Rightarrow> None)"

subsection \<open>The parser\<close>

definition json_space :: "char \<Rightarrow> bool" where
  "json_space c \<longleftrightarrow> byte c \<in> {0x20, 0x09, 0x0A, 0x0D}"

definition skip_space :: "string \<Rightarrow> string" where
  "skip_space s = dropWhile json_space s"

text \<open>An open array with its elements so far, or an open object with its members so far and the key of the next.\<close>

datatype frame = FArray "json list" | FObject "(string \<times> json) list" string

definition max_nesting :: nat where "max_nesting = 10000"

lemma length_skip_space: "length (skip_space s) \<le> length s"
  by (simp add: skip_space_def length_dropWhile_le)

lemma skip_space_shorter: "skip_space s = c # r \<Longrightarrow> length r < length s"
  using length_skip_space [of s] by simp

lemma scan_string_shorter: "scan_string s = Some (b, r) \<Longrightarrow> length r < length s"
proof (induction s arbitrary: b r rule: scan_string.induct)
  case (2 c s)
  show ?case
  proof (cases "c = DQUOTE \<or> c \<noteq> BSLASH")
    case True
    with "2.prems" "2.IH"(3) show ?thesis by (force split: if_splits)
  next
    case False
    with "2.prems" obtain e s' where s: "s = e # s'" by (auto split: list.splits)
    show ?thesis
    proof (cases "e = CHR ''u''")
      case True
      with "2.prems" False s obtain b' where "4 \<le> length s'" "scan_string (drop 4 s') = Some (b', r)" "list_all is_hex (take 4 s')"
        by (auto split: if_splits)
      with "2.IH"(1) [of e s' b' r] False s True show ?thesis by auto
    next
      case F: False
      with "2.prems" False s obtain b' where "scan_string s' = Some (b', r)" "e \<in> fst ` set simple_escapes"
        by (auto split: if_splits)
      with "2.IH"(2) [of e s' b' r] False s F show ?thesis by auto
    qed
  qed
qed simp

lemma scan_exponent_shorter: "scan_exponent acc s = Some (n, r) \<Longrightarrow> length r \<le> length s"
  using length_dropWhile_le [of is_digit]
  by (auto simp: scan_exponent_def split: list.splits if_splits prod.splits) (metis le_SucI length_dropWhile_le)+

lemma scan_fraction_shorter: "scan_fraction acc s = Some (n, r) \<Longrightarrow> length r \<le> length s"
  by (auto simp: scan_fraction_def split: list.splits if_splits dest!: scan_exponent_shorter)
    (meson le_SucI le_trans length_dropWhile_le)

lemma scan_unsigned_shorter: "scan_unsigned acc s = Some (n, r) \<Longrightarrow> length r < length s"
  by (auto simp: scan_unsigned_def less_Suc_eq_le split: list.splits if_splits dest!: scan_fraction_shorter)
    (meson le_trans length_dropWhile_le)

lemma scan_number_shorter: "scan_number s = Some (n, r) \<Longrightarrow> length r < length s"
  by (auto simp: scan_number_def split: list.splits if_splits dest!: scan_unsigned_shorter)

text \<open>The key of a member with its colon, and the input after it.\<close>

definition scan_key :: "string \<Rightarrow> (string \<times> string) option" where
  "scan_key s =
     (case skip_space s of
        c # r \<Rightarrow>
          if c = DQUOTE then
            (case scan_string r of
               Some (body, r') \<Rightarrow>
                 (case skip_space r' of d # r'' \<Rightarrow> if d = CHR '':'' then Some (json_unquote body, r'') else None | [] \<Rightarrow> None)
             | None \<Rightarrow> None)
          else None
      | [] \<Rightarrow> None)"

lemma scan_key_shorter: "scan_key s = Some (k, r) \<Longrightarrow> length r < length s"
  by (auto simp: scan_key_def split: list.splits if_splits option.splits dest!: skip_space_shorter scan_string_shorter)

text \<open>A literal, string or number at the head of the input, and the input after it.\<close>

definition scan_scalar :: "string \<Rightarrow> (json \<times> string) option" where
  "scan_scalar s =
     (if hasPrefix s ''null'' then Some (JNull, drop 4 s)
      else if hasPrefix s ''true'' then Some (JBool True, drop 4 s)
      else if hasPrefix s ''false'' then Some (JBool False, drop 5 s)
      else case s of
        c # r \<Rightarrow>
          if c = DQUOTE then map_option (map_prod (JString \<circ> json_unquote) id) (scan_string r)
          else map_option (map_prod JNumber id) (scan_number s)
      | [] \<Rightarrow> None)"

lemma scan_scalar_shorter: "scan_scalar s = Some (v, r) \<Longrightarrow> length r < length s"
  by (cases s) (auto simp: scan_scalar_def hasPrefix_def split: if_splits dest!: scan_string_shorter scan_number_shorter)

function run_begin :: "frame list \<Rightarrow> string \<Rightarrow> (json \<times> string) option"
  and run_end :: "json \<Rightarrow> frame list \<Rightarrow> string \<Rightarrow> (json \<times> string) option" where
  "run_begin stack s =
     (case skip_space s of
        [] \<Rightarrow> None
      | c # r \<Rightarrow>
         if c = CHR ''['' then
           (if max_nesting \<le> length stack then None
            else case skip_space r of
              [] \<Rightarrow> None
            | d # q \<Rightarrow> if d = CHR '']'' then run_end (JArray []) stack q else run_begin (FArray [] # stack) r)
         else if c = CHR ''{'' then
           (if max_nesting \<le> length stack then None
            else case skip_space r of
              [] \<Rightarrow> None
            | d # q \<Rightarrow>
               if d = CHR ''}'' then run_end (JObject []) stack q
               else case scan_key r of None \<Rightarrow> None | Some (k, p) \<Rightarrow> run_begin (FObject [] k # stack) p)
         else case scan_scalar (c # r) of None \<Rightarrow> None | Some (v, p) \<Rightarrow> run_end v stack p)"
| "run_end v [] s = Some (v, s)"
| "run_end v (FArray vs # stack) s =
     (case skip_space s of
        [] \<Rightarrow> None
      | c # r \<Rightarrow>
         if c = CHR '','' then run_begin (FArray (vs @ [v]) # stack) r
         else if c = CHR '']'' then run_end (JArray (vs @ [v])) stack r
         else None)"
| "run_end v (FObject kvs k # stack) s =
     (case skip_space s of
        [] \<Rightarrow> None
      | c # r \<Rightarrow>
         if c = CHR '','' then
           (case scan_key r of None \<Rightarrow> None | Some (k', p) \<Rightarrow> run_begin (FObject (kvs @ [(k, v)]) k' # stack) p)
         else if c = CHR ''}'' then run_end (JObject (kvs @ [(k, v)])) stack r
         else None)"
  by pat_completeness auto
termination
  by (relation "measure (\<lambda>x. case x of Inl (_, s) \<Rightarrow> length s | Inr (_, _, s) \<Rightarrow> length s)")
    (auto dest!: skip_space_shorter scan_key_shorter scan_scalar_shorter)

declare run_begin.simps [simp del] run_end.simps [simp del]

definition decode_first :: "string \<Rightarrow> (json \<times> string) option" where
  "decode_first s = run_begin [] s"

definition json_Unmarshal :: "string \<Rightarrow> json option" where
  "json_Unmarshal s = (case decode_first s of Some (v, r) \<Rightarrow> if list_all json_space r then Some v else None | None \<Rightarrow> None)"

subsection \<open>Decoding an object into a struct\<close>

text \<open>
  A struct is described by its fields: the JSON name of each and what a value for it does to the
  struct, \<open>None\<close> being an error of type. A key selects the field of exactly its name, or else
  the first whose name is equal under case folding. \<open>null\<close> changes nothing. In the strict form
  (\<open>DisallowUnknownFields\<close>) an unknown key is an error. An array is decoded into the elements that
  the slice already has, then into zero values (the memory beyond the length of the slice, which
  only a key that is repeated three times could expose, counts as zero).
\<close>

type_synonym 'r field = "string \<times> (json \<Rightarrow> 'r \<Rightarrow> 'r option)"

definition find_field :: "'r field list \<Rightarrow> string \<Rightarrow> (json \<Rightarrow> 'r \<Rightarrow> 'r option) option" where
  "find_field fields key =
     (case map_of fields key of
        Some f \<Rightarrow> Some f
      | None \<Rightarrow> map_option snd (find (\<lambda>(name, f). equalFold name key) fields))"

fun decode_fields :: "bool \<Rightarrow> 'r field list \<Rightarrow> (string \<times> json) list \<Rightarrow> 'r \<Rightarrow> 'r option" where
  "decode_fields strict fields [] r = Some r"
| "decode_fields strict fields ((key, v) # members) r =
    (case find_field fields key of
       None \<Rightarrow> if strict then None else decode_fields strict fields members r
     | Some f \<Rightarrow> (case f v r of None \<Rightarrow> None | Some r' \<Rightarrow> decode_fields strict fields members r'))"

definition decode_struct :: "bool \<Rightarrow> 'r field list \<Rightarrow> json \<Rightarrow> 'r \<Rightarrow> 'r option" where
  "decode_struct strict fields v r =
     (case v of JObject members \<Rightarrow> decode_fields strict fields members r | JNull \<Rightarrow> Some r | _ \<Rightarrow> None)"

definition string_field :: "(string \<Rightarrow> 'r \<Rightarrow> 'r) \<Rightarrow> json \<Rightarrow> 'r \<Rightarrow> 'r option" where
  "string_field upd v r = (case v of JString s \<Rightarrow> Some (upd s r) | JNull \<Rightarrow> Some r | _ \<Rightarrow> None)"

definition bool_field :: "(bool \<Rightarrow> 'r \<Rightarrow> 'r) \<Rightarrow> json \<Rightarrow> 'r \<Rightarrow> 'r option" where
  "bool_field upd v r = (case v of JBool b \<Rightarrow> Some (upd b r) | JNull \<Rightarrow> Some r | _ \<Rightarrow> None)"

definition int_field :: "(int \<Rightarrow> 'r \<Rightarrow> 'r) \<Rightarrow> json \<Rightarrow> 'r \<Rightarrow> 'r option" where
  "int_field upd v r =
     (case v of JNumber n \<Rightarrow> (case atoi n of (i, ok) \<Rightarrow> if ok then Some (upd i r) else None) | JNull \<Rightarrow> Some r | _ \<Rightarrow> None)"

fun decode_elements :: "(json \<Rightarrow> 'e \<Rightarrow> 'e option) \<Rightarrow> 'e \<Rightarrow> json list \<Rightarrow> 'e list \<Rightarrow> 'e list option" where
  "decode_elements f zero [] old = Some []"
| "decode_elements f zero (v # vs) old =
    (case f v (case old of e # _ \<Rightarrow> e | [] \<Rightarrow> zero) of
       None \<Rightarrow> None
     | Some e \<Rightarrow> map_option ((#) e) (decode_elements f zero vs (tl old)))"

definition slice_field ::
  "(json \<Rightarrow> 'e \<Rightarrow> 'e option) \<Rightarrow> 'e \<Rightarrow> ('r \<Rightarrow> 'e list) \<Rightarrow> ('e list \<Rightarrow> 'r \<Rightarrow> 'r) \<Rightarrow> json \<Rightarrow> 'r \<Rightarrow> 'r option" where
  "slice_field f zero get upd v r =
     (case v of
        JArray vs \<Rightarrow> map_option (\<lambda>es. upd es r) (decode_elements f zero vs (get r))
      | JNull \<Rightarrow> Some (upd [] r)
      | _ \<Rightarrow> None)"

text \<open>The members of an object for a field that is left out when empty.\<close>

definition opt_string :: "string \<Rightarrow> string \<Rightarrow> (string \<times> json) list" where
  "opt_string key s = (if s = [] then [] else [(key, JString s)])"

end
