(* ===== verification/JSONProps.thy ===== *)
theory JSONProps
  imports GoJSON
begin

section \<open>Round trips of JSON texts\<close>

text \<open>
  Whatever value is printed, compactly or indented, the parser reads it back: the strings as they
  were, except that bytes that are not UTF-8 come back as \<open>U+FFFD\<close> (\<open>valid_text\<close>), numbers as their
  text. The proof follows the stack of the parser: \<open>reads_back\<close> says that the text of a value, met
  with any stack of open arrays and objects, has the effect of delivering that value.
\<close>

subsection \<open>What is printed is read back\<close>

declare scan_string.simps(2) [simp del] json_unquote.simps(2) [simp del]

definition prepend :: "string \<Rightarrow> (string \<times> string) option \<Rightarrow> (string \<times> string) option" where
  "prepend p = map_option (map_prod ((@) p) id)"

lemma prepend_simps [simp]:
  "prepend p None = None" "prepend p (Some (b, r)) = Some (p @ b, r)" "prepend p (prepend q x) = prepend (p @ q) x" "prepend [] x = x"
  by (cases x; auto simp: prepend_def)+

lemma prepend_map_option: "map_option (\<lambda>(b, r). (c # b, r)) x = prepend [c] x"
    "map_option (\<lambda>(b, r). (c # e # b, r)) x = prepend [c, e] x" "map_option (\<lambda>(b, r). (c # e # p @ b, r)) x = prepend (c # e # p) x"
  by (cases x; auto simp: prepend_def)+

lemma quote_chars [simp]: "DQUOTE \<noteq> BSLASH" "BSLASH \<noteq> DQUOTE" "byte DQUOTE = 0x22" "byte BSLASH = 0x5C"
  by (simp_all add: DQUOTE_def BSLASH_def)

lemma scan_string_char:
  "c \<noteq> DQUOTE \<Longrightarrow> c \<noteq> BSLASH \<Longrightarrow> 0x20 \<le> byte c \<Longrightarrow> scan_string (c # s) = prepend [c] (scan_string s)"
  by (simp add: scan_string.simps(2) prepend_map_option)

lemma scan_string_escape:
  "e \<noteq> CHR ''u'' \<Longrightarrow> e \<in> fst ` set simple_escapes \<Longrightarrow> scan_string (BSLASH # e # s) = prepend [BSLASH, e] (scan_string s)"
  by (simp add: scan_string.simps(2) prepend_map_option)

lemma scan_string_quote [simp]: "scan_string (DQUOTE # s) = Some ([], s)"
  by (simp add: scan_string.simps(2))

lemma scan_string_unicode:
  "length p = 4 \<Longrightarrow> list_all is_hex p \<Longrightarrow> scan_string (BSLASH # CHR ''u'' # p @ s) = prepend (BSLASH # CHR ''u'' # p) (scan_string s)"
  by (simp add: scan_string.simps(2) prepend_map_option)

lemma unquote_char: "c \<noteq> BSLASH \<Longrightarrow> decodeRune (c # s) = (r, n) \<Longrightarrow> json_unquote (c # s) = utf8_encode r @ json_unquote (drop n (c # s))"
  by (simp add: json_unquote.simps(2))

lemma unquote_escape:
  "e \<noteq> CHR ''u'' \<Longrightarrow> map_of simple_escapes e = Some v \<Longrightarrow> json_unquote (BSLASH # e # s) = v # json_unquote s"
  by (simp add: json_unquote.simps(2))

lemma unquote_unicode:
  "length p = 4 \<Longrightarrow> \<not> is_surrogate (getu4 p) \<Longrightarrow> json_unquote (BSLASH # CHR ''u'' # p @ s) = utf8_encode (getu4 p) @ json_unquote s"
  by (simp add: json_unquote.simps(2) getu4_def Let_def)

lemma scan_plain:
  "list_all (\<lambda>c. 0x20 \<le> byte c \<and> c \<noteq> DQUOTE \<and> c \<noteq> BSLASH) bs \<Longrightarrow> scan_string (bs @ t) = prepend bs (scan_string t)"
  by (induction bs) (simp_all add: scan_string_char)

definition four_digits :: "nat \<Rightarrow> string" where
  "four_digits r = [hex_digit (r div 4096), hex_digit (r div 256 mod 16), hex_digit (r div 16 mod 16), hex_digit (r mod 16)]"

lemma unicode_escape_digits: "unicode_escape r @ t = BSLASH # CHR ''u'' # four_digits r @ t" "length (four_digits r) = 4"
  by (simp_all add: unicode_escape_def four_digits_def)

lemma list_all_hex_digits: "r < 65536 \<Longrightarrow> list_all is_hex (four_digits r)"
  by (simp add: is_hex_def four_digits_def less_mult_imp_div_less)

lemma getu4_digits: "r < 65536 \<Longrightarrow> getu4 (four_digits r) = r"
proof -
  assume r: "r < 65536"
  have d: "r div 256 = r div 16 div 16" "r div 4096 = r div 16 div 16 div 16" by (simp_all add: div_mult2_eq [symmetric])
  have "((r div 16 div 16 div 16 * 16 + r div 16 div 16 mod 16) * 16 + r div 16 mod 16) * 16 + r mod 16 = r"
    by simp
  with r show ?thesis by (simp add: getu4_def four_digits_def less_mult_imp_div_less d del: div_mult2_eq)
qed

lemma scan_unicode_escape: "r < 65536 \<Longrightarrow> scan_string (unicode_escape r @ t) = prepend (unicode_escape r) (scan_string t)"
  using scan_string_unicode [OF unicode_escape_digits(2) list_all_hex_digits] unicode_escape_digits(1) [of r "[]"]
  by (simp add: unicode_escape_digits(1))

lemma unquote_unicode_escape:
  "r < 65536 \<Longrightarrow> \<not> is_surrogate r \<Longrightarrow> json_unquote (unicode_escape r @ t) = utf8_encode r @ json_unquote t"
  using unquote_unicode [OF unicode_escape_digits(2), of r t] by (simp add: unicode_escape_digits(1) getu4_digits)

definition short_escapes :: "(rune \<times> char) list" where
  "short_escapes = [(0x22, CHR 0x22), (0x5C, CHR 0x5C), (8, CHR ''b''), (0xC, CHR ''f''), (0xA, CHR ''n''), (0xD, CHR ''r''), (9, CHR ''t'')]"

lemma short_escapes_ok:
  "list_all (\<lambda>(r, e). e \<noteq> CHR ''u'' \<and> map_of simple_escapes e = Some (char_of r) \<and> r < 0x80) short_escapes"
  by code_simp

lemma short_escape_ok:
  assumes "short_escape r = Some e"
  shows "scan_string (BSLASH # e # t) = prepend [BSLASH, e] (scan_string t)" "json_unquote (BSLASH # e # t) = utf8_encode r @ json_unquote t"
proof -
  have "(r, e) \<in> set short_escapes"
    using assms map_of_SomeD unfolding short_escape_def short_escapes_def by fastforce
  with short_escapes_ok have e: "e \<noteq> CHR ''u''" "map_of simple_escapes e = Some (char_of r)" "r < 0x80" by (auto simp: list_all_iff)
  from e(2) have "e \<in> fst ` set simple_escapes" by (metis map_of_eq_None_iff option.distinct(1))
  with e show "scan_string (BSLASH # e # t) = prepend [BSLASH, e] (scan_string t)" "json_unquote (BSLASH # e # t) = utf8_encode r @ json_unquote t"
    by (simp_all add: scan_string_escape unquote_escape)
qed

lemma utf8_encode_scans:
  assumes "valid_rune r" "short_escape r = None" "\<not> r < 0x20"
  shows "scan_string (utf8_encode r @ t) = prepend (utf8_encode r) (scan_string t)"
    "json_unquote (utf8_encode r @ t) = utf8_encode r @ json_unquote t"
proof -
  have r: "r \<noteq> 0x22" "r \<noteq> 0x5C" using assms(2) by (auto simp: short_escape_def)
  have "0x20 \<le> byte c \<and> byte c \<noteq> 0x22 \<and> byte c \<noteq> 0x5C" if "c \<in> set (utf8_encode r)" for c
    using that utf8_encode_high [of r c] assms(3) r by (cases "r < 0x80") auto
  then have ok: "0x20 \<le> byte c \<and> c \<noteq> DQUOTE \<and> c \<noteq> BSLASH" if "c \<in> set (utf8_encode r)" for c
    using that by force
  then show "scan_string (utf8_encode r @ t) = prepend (utf8_encode r) (scan_string t)"
    by (intro scan_plain) (simp add: list_all_iff)
  obtain c u where cu: "utf8_encode r = c # u" by (cases "utf8_encode r") auto
  with ok have "c \<noteq> BSLASH" by simp
  with decodeRune_encode [OF assms(1), of t] cu show "json_unquote (utf8_encode r @ t) = utf8_encode r @ json_unquote t"
    using unquote_char [of c "u @ t" r "length (utf8_encode r)"] by simp
qed

lemma escape_cell:
  assumes "c \<in> set (cells s)"
  shows "scan_string (json_escape c @ t) = prepend (json_escape c) (scan_string t) \<and>
    json_unquote (json_escape c @ t) = utf8_encode (fst c) @ json_unquote t"
proof -
  obtain r bs where c: "c = (r, bs)" by (cases c)
  with cell_shape assms have v: "valid_rune r" and b: "bs = utf8_encode r \<or> r = RuneError \<and> length bs = 1" by auto
  let ?u = "r < 0x20 \<or> r \<in> {0x3C, 0x3E, 0x26} \<or> r = RuneError \<and> length bs = 1 \<or> r \<in> {0x2028, 0x2029}"
  consider (short) e where "short_escape r = Some e" | (unicode) "short_escape r = None" "?u" | (plain) "short_escape r = None" "\<not> ?u" by blast
  then show ?thesis
  proof cases
    case short
    with short_escape_ok [OF short] show ?thesis by (simp add: c json_escape_def)
  next
    case unicode
    then have "r < 65536" "\<not> is_surrogate r" by (auto simp: RuneError_def is_surrogate_def)
    moreover have "json_escape c = unicode_escape r" using unicode by (simp add: c json_escape_def)
    ultimately show ?thesis by (simp add: c scan_unicode_escape unquote_unicode_escape)
  next
    case plain
    with b have "json_escape c = utf8_encode r" by (auto simp: c json_escape_def)
    with utf8_encode_scans [OF v plain(1)] plain(2) show ?thesis by (simp add: c)
  qed
qed

lemma escape_cells:
  "set cs \<subseteq> set (cells s) \<Longrightarrow> scan_string (concat (map json_escape cs) @ t) = prepend (concat (map json_escape cs)) (scan_string t) \<and>
    json_unquote (concat (map json_escape cs) @ t) = string_of_runes (map fst cs) @ json_unquote t"
proof (induction cs)
  case (Cons c cs)
  then have "c \<in> set (cells s)" "set cs \<subseteq> set (cells s)" by simp_all
  with Cons.IH escape_cell [OF this(1)] show ?case by simp
qed simp

text \<open>A printed string is read back as it was, each byte that is no UTF-8 as \<open>U+FFFD\<close>.\<close>

lemma scan_quoted:
  "scan_string (concat (map json_escape (cells s)) @ DQUOTE # t) = Some (concat (map json_escape (cells s)), t)"
  using escape_cells [of "cells s" s "DQUOTE # t"] by simp

lemma unquote_quoted: "json_unquote (concat (map json_escape (cells s))) = string_of_runes (runes s)"
  using escape_cells [of "cells s" s "[]"] by (simp add: runes_def)

subsection \<open>Numbers\<close>

text \<open>What may follow a number.\<close>

definition ends_value :: "string \<Rightarrow> bool" where
  "ends_value s = (case s of [] \<Rightarrow> True | c # _ \<Rightarrow> json_space c \<or> c \<in> {CHR '','', CHR '']'', CHR ''}''})"

lemma ends_value_simps [simp]:
  "ends_value []" "ends_value (CHR '','' # s)" "ends_value (CHR '']'' # s)" "ends_value (CHR ''}'' # s)" "json_space c \<Longrightarrow> ends_value (c # s)"
  by (simp_all add: ends_value_def)

lemma ends_value_no_digit:
  assumes "ends_value (c # s)"
  shows "\<not> is_digit c \<and> c \<noteq> CHR ''.'' \<and> c \<noteq> CHR ''e'' \<and> c \<noteq> CHR ''E''"
  using assms by (auto simp: ends_value_def is_digit_def json_space_def)

lemma ends_value_digits: "ends_value s \<Longrightarrow> takeWhile is_digit s = [] \<and> dropWhile is_digit s = s"
  by (cases s) (auto dest: ends_value_no_digit)

lemma scan_fraction_end: "ends_value s \<Longrightarrow> scan_fraction acc s = Some (acc, s)"
  by (cases s) (auto simp: scan_fraction_def scan_exponent_def dest: ends_value_no_digit)

lemma digits_rev_digits: "list_all is_digit (digits_rev n)"
proof (induction n rule: digits_rev.induct)
  case (1 n)
  have d: "is_digit (char_of (48 + m))" if "m < 10" for m :: nat
    using that by (auto simp: is_digit_def)
  show ?case
  proof (cases "n < 10")
    case True
    then show ?thesis using d by (subst digits_rev.simps) simp
  next
    case False
    with 1 d [of "n mod 10"] show ?thesis by (subst digits_rev.simps) simp
  qed
qed

lemma last_digits_rev: "0 < n \<Longrightarrow> last (digits_rev n) \<noteq> CHR ''0''"
proof (induction n rule: digits_rev.induct)
  case (1 n)
  show ?case
  proof (cases "n < 10")
    case True
    have "byte (char_of (48 + n)) \<noteq> byte (CHR ''0'')" using True "1.prems" by simp
    then have "char_of (48 + n) \<noteq> CHR ''0''" by metis
    with True show ?thesis by (subst digits_rev.simps) simp
  next
    case False
    then have "0 < n div 10" by simp
    with 1 False show ?thesis by (subst digits_rev.simps) simp
  qed
qed

lemma itoa_nat_shape:
  "\<exists>c ds. itoa_nat n = c # ds \<and> is_digit c \<and> list_all is_digit ds \<and> (c = CHR ''0'' \<longrightarrow> ds = [])"
proof (cases "n = 0")
  case True
  have "itoa_nat 0 = ''0''" by code_simp
  with True show ?thesis by (simp add: is_digit_def)
next
  case False
  have "itoa_nat n \<noteq> []" by simp
  then obtain c ds where cds: "itoa_nat n = c # ds" by (cases "itoa_nat n") auto
  have "c = last (digits_rev n)" using cds by (metis hd_rev itoa_nat_def list.sel(1))
  moreover have "list_all is_digit (c # ds)" using cds digits_rev_digits [of n] by (metis itoa_nat_def list_all_rev)
  ultimately show ?thesis using cds last_digits_rev [of n] False by auto
qed

lemma scan_itoa_nat: "ends_value s \<Longrightarrow> scan_unsigned acc (itoa_nat n @ s) = Some (acc @ itoa_nat n, s)"
proof -
  assume s: "ends_value s"
  obtain c ds where n: "itoa_nat n = c # ds" "is_digit c" "list_all is_digit ds" "c = CHR ''0'' \<longrightarrow> ds = []" using itoa_nat_shape by blast
  then have "takeWhile is_digit (ds @ s) = ds" "dropWhile is_digit (ds @ s) = s"
    using ends_value_digits [OF s] by (simp_all add: list_all_iff)
  with n s show ?thesis by (auto simp: scan_unsigned_def scan_fraction_end)
qed

lemma scan_itoa: "ends_value s \<Longrightarrow> scan_number (itoa i @ s) = Some (itoa i, s)"
proof -
  assume s: "ends_value s"
  obtain c ds where n: "itoa_nat (nat i) = c # ds" "is_digit c" using itoa_nat_shape by blast
  then have "c \<noteq> CHR ''-''" by (auto simp: is_digit_def)
  with n scan_itoa_nat [OF s, of "[]" "nat i"] scan_itoa_nat [OF s, of "''-''" "nat (- i)"] show ?thesis
    by (auto simp: itoa_def scan_number_def)
qed

lemma itoa_first: "\<exists>c ds. itoa i = c # ds \<and> (is_digit c \<or> c = CHR ''-'')"
  using itoa_nat_shape [of "nat i"] by (auto simp: itoa_def)

subsection \<open>Values\<close>

text \<open>The value that is read back: the same, with its strings made valid.\<close>

definition valid_text :: "string \<Rightarrow> string" where
  "valid_text s = string_of_runes (runes s)"

fun json_norm :: "json \<Rightarrow> json" where
  "json_norm (JString s) = JString (valid_text s)"
| "json_norm (JArray vs) = JArray (map json_norm vs)"
| "json_norm (JObject kvs) = JObject (map (\<lambda>(k, v). (valid_text k, json_norm v)) kvs)"
| "json_norm v = v"

fun json_depth :: "json \<Rightarrow> nat" where
  "json_depth (JArray vs) = Suc (Max (set (0 # map json_depth vs)))"
| "json_depth (JObject kvs) = Suc (Max (set (0 # map (json_depth \<circ> snd) kvs)))"
| "json_depth v = 0"

text \<open>The values the program prints have integers as numbers.\<close>

fun json_integers :: "json \<Rightarrow> bool" where
  "json_integers (JNumber n) \<longleftrightarrow> (\<exists>i. n = itoa i)"
| "json_integers (JArray vs) \<longleftrightarrow> (\<forall>v\<in>set vs. json_integers v)"
| "json_integers (JObject kvs) \<longleftrightarrow> (\<forall>(k, v)\<in>set kvs. json_integers v)"
| "json_integers v \<longleftrightarrow> True"

lemma skip_spaces [simp]: "list_all json_space p \<Longrightarrow> skip_space (p @ s) = skip_space s"
  by (simp add: skip_space_def list_all_iff dropWhile_append)

lemma skip_space_char [simp]: "\<not> json_space c \<Longrightarrow> skip_space (c # s) = c # s"
  by (simp add: skip_space_def)

lemma not_spaces [simp]:
  "\<not> json_space (CHR ''['')" "\<not> json_space (CHR '']'')" "\<not> json_space (CHR ''{'')" "\<not> json_space (CHR ''}'')"
  "\<not> json_space (CHR '','')" "\<not> json_space (CHR '':'')" "\<not> json_space DQUOTE" "\<not> json_space (CHR ''n'')" "\<not> json_space (CHR ''t'')"
  "\<not> json_space (CHR ''f'')" "\<not> json_space (CHR ''-'')"
  by (simp_all add: json_space_def)

lemma run_begin_spaces: "list_all json_space p \<Longrightarrow> run_begin stack (p @ s) = run_begin stack s"
  by (simp add: run_begin.simps [of stack "p @ s"] run_begin.simps [of stack s])

lemma run_begin_scalar:
  assumes "scan_scalar (c # s) = Some (v, r)" "\<not> json_space c" "c \<noteq> CHR ''[''" "c \<noteq> CHR ''{''"
  shows "run_begin stack (c # s) = run_end v stack r"
  using assms by (simp add: run_begin.simps)

lemma dquote_letters [simp]: "DQUOTE \<noteq> CHR ''n''" "DQUOTE \<noteq> CHR ''t''" "DQUOTE \<noteq> CHR ''f''" "DQUOTE \<noteq> CHR ''[''" "DQUOTE \<noteq> CHR ''{''"
    "DQUOTE \<noteq> CHR '']''" "DQUOTE \<noteq> CHR ''}''"
  by (simp_all add: DQUOTE_def)

lemma scan_scalar_quote: "scan_scalar (json_quote s @ t) = Some (JString (valid_text s), t)"
  by (simp add: scan_scalar_def json_quote_def hasPrefix_def scan_quoted unquote_quoted valid_text_def)

lemma scan_key_quote: "list_all json_space p \<Longrightarrow> scan_key (p @ json_quote k @ CHR '':'' # t) = Some (valid_text k, t)"
  by (simp add: scan_key_def json_quote_def scan_quoted unquote_quoted valid_text_def)

lemma scan_scalar_number: "ends_value s \<Longrightarrow> scan_scalar (itoa i @ s) = Some (JNumber (itoa i), s)"
proof -
  assume s: "ends_value s"
  obtain c ds where i: "itoa i = c # ds" "is_digit c \<or> c = CHR ''-''" using itoa_first by blast
  then have "c \<noteq> DQUOTE" "c \<noteq> CHR ''n''" "c \<noteq> CHR ''t''" "c \<noteq> CHR ''f''" by (auto simp: is_digit_def DQUOTE_def)
  with i scan_itoa [OF s, of i] show ?thesis by (simp add: scan_scalar_def hasPrefix_def)
qed

lemma scan_scalar_literals: "scan_scalar (''null'' @ s) = Some (JNull, s)" "scan_scalar (''true'' @ s) = Some (JBool True, s)"
    "scan_scalar (''false'' @ s) = Some (JBool False, s)"
  by (simp_all add: scan_scalar_def hasPrefix_def)

text \<open>The head of a printed value is no white space and closes nothing.\<close>

lemma json_text_head:
  assumes "json_integers v"
  shows "\<exists>c r. json_text nl sp d v = c # r \<and> \<not> json_space c \<and> c \<noteq> CHR '']''"
proof (cases v)
  case (JNumber n)
  with assms itoa_first show ?thesis by (fastforce simp: is_digit_def json_space_def)
next
  case (JBool b)
  then show ?thesis by (cases b) auto
qed (auto simp: json_quote_def)

lemma Max_depth: "x \<in> set xs \<Longrightarrow> f x \<le> Max (set (0 # map f xs))"
  by (intro Max_ge) auto

text \<open>A printed value is read back wherever it stands.\<close>

definition reads_back :: "(nat \<Rightarrow> string) \<Rightarrow> string \<Rightarrow> json \<Rightarrow> bool" where
  "reads_back nl sp v \<longleftrightarrow> (\<forall>d stack s. length stack + json_depth v \<le> max_nesting \<longrightarrow> ends_value s \<longrightarrow>
     run_begin stack (json_text nl sp d v @ s) = run_end (json_norm v) stack s)"

lemma read_elements:
  assumes "\<forall>v\<in>set (v # vs). reads_back nl sp v" "list_all json_space p" "list_all json_space e"
    and "\<forall>v\<in>set (v # vs). Suc (length stack) + json_depth v \<le> max_nesting"
  shows "run_begin (FArray acc # stack) (strings_Join (map (json_text nl sp d) (v # vs)) (CHR '','' # p) @ e @ CHR '']'' # s)
    = run_end (JArray (acc @ map json_norm (v # vs))) stack s"
  using assms(1,4)
proof (induction vs arbitrary: v acc)
  case Nil
  have "ends_value (e @ CHR '']'' # s)" using assms(3) by (cases e) auto
  with Nil show ?case by (simp add: reads_back_def run_end.simps assms(3))
next
  case (Cons w vs)
  then have "reads_back nl sp v" "Suc (length stack) + json_depth v \<le> max_nesting" by simp_all
  with Cons.IH [of w "acc @ [json_norm v]"] Cons.prems show ?case
    by (simp add: reads_back_def run_end.simps run_begin_spaces assms(2))
qed

lemma read_members:
  assumes "\<forall>(k, v)\<in>set kvs. reads_back nl sp v" "list_all json_space p" "list_all json_space e" "list_all json_space sp"
    and "\<forall>(k, v)\<in>set kvs. Suc (length stack) + json_depth v \<le> max_nesting"
    and "reads_back nl sp v" "Suc (length stack) + json_depth v \<le> max_nesting"
  shows "run_begin (FObject acc k # stack) (json_text nl sp d v @
      concat (map (\<lambda>(k, v). CHR '','' # p @ json_quote k @ CHR '':'' # sp @ json_text nl sp d v) kvs) @ e @ CHR ''}'' # s)
    = run_end (JObject (acc @ (k, json_norm v) # map (\<lambda>(k, v). (valid_text k, json_norm v)) kvs)) stack s"
  using assms(1,5-7)
proof (induction kvs arbitrary: k v acc)
  case Nil
  have "ends_value (e @ CHR ''}'' # s)" using assms(3) by (cases e) auto
  with Nil show ?case by (simp add: reads_back_def run_end.simps assms(3))
next
  case (Cons kv kvs)
  obtain k' v' where kv: "kv = (k', v')" by (cases kv)
  from Cons.prems kv have v: "reads_back nl sp v" "reads_back nl sp v'" "Suc (length stack) + json_depth v' \<le> max_nesting" by auto
  with Cons.IH [of v' "acc @ [(k, json_norm v)]" "valid_text k'"] Cons.prems kv show ?case
    by (simp add: reads_back_def run_end.simps scan_key_quote run_begin_spaces assms(2,4))
qed

lemma run_begin_object:
  assumes "list_all json_space p" "length stack < max_nesting"
  shows "run_begin stack (CHR ''{'' # p @ json_quote k @ CHR '':'' # t) = run_begin (FObject [] (valid_text k) # stack) t"
proof -
  have "\<exists>r. skip_space (p @ json_quote k @ CHR '':'' # t) = DQUOTE # r" using assms(1) by (simp add: json_quote_def)
  then obtain r where "skip_space (p @ json_quote k @ CHR '':'' # t) = DQUOTE # r" ..
  with scan_key_quote [OF assms(1), of k t] assms(2) show ?thesis by (simp add: run_begin.simps [of stack])
qed

lemma Join_concat: "strings_Join (w # ws) sep = w @ concat (map (\<lambda>v. sep @ v) ws)"
  by (induction ws arbitrary: w) simp_all

lemma json_reads_back:
  assumes "\<And>d. list_all json_space (nl d)" "list_all json_space sp"
  shows "json_integers v \<Longrightarrow> reads_back nl sp v"
proof (induction v)
  case (JArray vs)
  show ?case unfolding reads_back_def
  proof (intro allI impI)
    fix d and stack :: "frame list" and s assume depth: "length stack + json_depth (JArray vs) \<le> max_nesting" and s: "ends_value s"
    show "run_begin stack (json_text nl sp d (JArray vs) @ s) = run_end (json_norm (JArray vs)) stack s"
    proof (cases vs)
      case Nil
      with depth show ?thesis by (simp add: run_begin.simps)
    next
      case (Cons w ws)
      have b: "\<forall>v\<in>set (w # ws). reads_back nl sp v" using JArray Cons by auto
      have n: "\<forall>v\<in>set (w # ws). Suc (length stack) + json_depth v \<le> max_nesting" using depth Max_depth [of _ vs json_depth] Cons by fastforce
      have l: "\<not> max_nesting \<le> length stack" using depth by simp
      from JArray.prems Cons obtain c r where h: "json_text nl sp (d + 1) w = c # r" "\<not> json_space c" "c \<noteq> CHR '']''"
        using json_text_head [of w nl sp "d + 1"] by auto
      let ?e = "strings_Join (map (json_text nl sp (d + 1)) (w # ws)) (CHR '','' # nl (d + 1)) @ nl d @ CHR '']'' # s"
      obtain r' where e: "?e = c # r'" using h(1) by (simp only: list.map Join_concat) simp
      have "run_begin stack (CHR ''['' # nl (d + 1) @ ?e) = run_begin (FArray [] # stack) (nl (d + 1) @ ?e)"
        using h(2,3) l by (simp only: e) (simp add: run_begin.simps [of stack] assms)
      also have "\<dots> = run_end (JArray (map json_norm (w # ws))) stack s"
        using read_elements [OF b assms(1) assms(1) n, of "[]" "d + 1" "d + 1" d s] by (simp only: run_begin_spaces [OF assms(1)] append_Nil)
      finally show ?thesis using Cons by simp
    qed
  qed
next
  case (JObject kvs)
  show ?case unfolding reads_back_def
  proof (intro allI impI)
    fix d and stack :: "frame list" and s assume depth: "length stack + json_depth (JObject kvs) \<le> max_nesting" and s: "ends_value s"
    show "run_begin stack (json_text nl sp d (JObject kvs) @ s) = run_end (json_norm (JObject kvs)) stack s"
    proof (cases kvs)
      case Nil
      with depth show ?thesis by (simp add: run_begin.simps)
    next
      case (Cons kv rest)
      obtain k v where kv: "kv = (k, v)" by (cases kv)
      have b: "\<forall>(k, v)\<in>set kvs. reads_back nl sp v" using JObject by (fastforce simp: snds.simps)
      have n: "\<forall>(k, v)\<in>set kvs. Suc (length stack) + json_depth v \<le> max_nesting" using depth Max_depth [of _ kvs "json_depth \<circ> snd"] by fastforce
      have l: "\<not> max_nesting \<le> length stack" using depth by simp
      let ?m = "concat (map (\<lambda>(k, v). CHR '','' # nl (d + 1) @ json_quote k @ CHR '':'' # sp @ json_text nl sp (d + 1) v) rest) @ nl d @ CHR ''}'' # s"
      have t: "json_text nl sp d (JObject kvs) @ s
          = CHR ''{'' # nl (d + 1) @ json_quote k @ CHR '':'' # sp @ json_text nl sp (d + 1) v @ ?m"
        by (simp only: Cons kv json_text.simps list.map Join_concat) (simp add: case_prod_unfold comp_def)
      have "run_begin stack (json_text nl sp d (JObject kvs) @ s) = run_begin (FObject [] (valid_text k) # stack) (sp @ json_text nl sp (d + 1) v @ ?m)"
        unfolding t using l by (intro run_begin_object assms) simp
      also have "\<dots> = run_end (JObject ((valid_text k, json_norm v) # map (\<lambda>(k, v). (valid_text k, json_norm v)) rest)) stack s"
        using read_members [of rest nl sp "nl (d + 1)" "nl d" stack v "[]" "valid_text k" "d + 1" s] b n kv Cons assms
        by (simp add: run_begin_spaces)
      finally show ?thesis using Cons kv by simp
    qed
  qed
next
  case (JNumber n)
  then obtain i where n: "n = itoa i" by auto
  obtain c ds where i: "itoa i = c # ds" "is_digit c \<or> c = CHR ''-''" using itoa_first by blast
  then have "\<not> json_space c" "c \<noteq> CHR ''[''" "c \<noteq> CHR ''{''" by (auto simp: is_digit_def json_space_def)
  with scan_scalar_number [of _ i] i n show ?case by (auto simp: reads_back_def intro: run_begin_scalar)
next
  case (JString s)
  have "run_begin stack (json_quote s @ t) = run_end (JString (valid_text s)) stack t" for stack t
    using run_begin_scalar [of DQUOTE] scan_scalar_quote [of s t] by (simp add: json_quote_def)
  then show ?case by (simp add: reads_back_def)
next
  case (JBool b)
  show ?case using scan_scalar_literals(2,3) by (cases b) (auto simp: reads_back_def intro!: run_begin_scalar)
next
  case JNull
  show ?case using scan_scalar_literals(1) by (auto simp: reads_back_def intro!: run_begin_scalar)
qed

text \<open>The texts of \<open>Marshal\<close> and \<open>MarshalIndent\<close> are read back by both readers.\<close>

lemma decode_compact:
  "json_integers v \<Longrightarrow> json_depth v \<le> max_nesting \<Longrightarrow> ends_value s \<Longrightarrow> decode_first (json_compact v @ s) = Some (json_norm v, s)"
  using json_reads_back [of "\<lambda>_. []" "[]" v]
  by (simp add: reads_back_def decode_first_def json_compact_def run_end.simps)

lemma decode_indented:
  assumes "json_integers v" "json_depth v \<le> max_nesting" "list_all json_space s"
  shows "decode_first (json_indented v @ s) = Some (json_norm v, s)"
proof -
  have "reads_back (\<lambda>d. CHR 0x0A # replicate (2 * d) (CHR '' '')) '' '' v"
    using assms(1) by (intro json_reads_back) (auto simp: json_space_def list_all_iff)
  moreover have "ends_value s" using assms(3) by (cases s) auto
  ultimately show ?thesis
    using assms(2) unfolding reads_back_def decode_first_def json_indented_def by (metis add_0 list.size(3) run_end.simps(1))
qed

lemma unmarshal_indented:
  "json_integers v \<Longrightarrow> json_depth v \<le> max_nesting \<Longrightarrow> list_all json_space s \<Longrightarrow> json_Unmarshal (json_indented v @ s) = Some (json_norm v)"
  by (simp add: json_Unmarshal_def decode_indented)

subsection \<open>Texts and numbers of fields\<close>

lemma decode_fields_append:
  "decode_fields strict fields (a @ b) r = (case decode_fields strict fields a r of None \<Rightarrow> None | Some r' \<Rightarrow> decode_fields strict fields b r')"
  by (induction a arbitrary: r) (auto split: option.split)

lemma valid_text_Nil [simp]: "valid_text [] = []"
  by (simp add: valid_text_def)

lemma valid_text_empty [simp]: "valid_text s = [] \<longleftrightarrow> s = []"
proof
  assume "valid_text s = []"
  then have "runes s = []" by (cases "runes s") (auto simp: valid_text_def)
  then show "s = []" using cells_string_cells [of s] by (simp add: runes_def)
qed simp

lemma valid_text_valid: "valid_utf8 s \<Longrightarrow> valid_text s = s"
  by (simp add: valid_text_def string_of_valid_runes)

lemma list_all_valid_runes: "list_all valid_rune (runes s)"
  using cell_shape by (fastforce simp: runes_def list_all_iff)

lemma valid_text_idem [simp]: "valid_text (valid_text s) = valid_text s"
  by (simp add: valid_text_def runes_string_of_runes list_all_valid_runes)

lemma valid_text_ascii: "list_all (\<lambda>c. byte c < 0x80) s \<Longrightarrow> valid_text s = s"
  by (induction s) (simp_all add: valid_text_def)

lemma valid_text_low: "list_all (\<lambda>r. r < 0x80) (runes s) \<Longrightarrow> valid_text s = s"
proof -
  assume low: "list_all (\<lambda>r. r < 0x80) (runes s)"
  have "(utf8_encode \<circ> fst) c = snd c" if "c \<in> set (cells s)" for c
    using that low cells_low [of "fst c" "snd c" s] by (auto simp: runes_def list_all_iff)
  then have "map (utf8_encode \<circ> fst) (cells s) = map snd (cells s)" by (intro map_cong) auto
  then have "string_of_runes (runes s) = cells_string (cells s)" by (simp only: string_of_runes_def runes_def cells_string_def map_map)
  then show ?thesis by (simp add: valid_text_def)
qed

lemma dec_value_append: "dec_value (ds @ [d]) = dec_value ds * 10 + digit_value d"
  by (simp add: dec_value_def)

lemma dec_value_itoa: "dec_value (itoa_nat n) = n"
proof (induction n rule: digits_rev.induct)
  case (1 n)
  have d: "digit_value (char_of (48 + m)) = m" if "m < 10" for m :: nat using that by (simp add: digit_value_def)
  show ?case
  proof (cases "n < 10")
    case True
    then show ?thesis using d by (simp add: itoa_nat_def digits_rev.simps [of n] dec_value_def)
  next
    case False
    then have "itoa_nat n = itoa_nat (n div 10) @ [char_of (48 + n mod 10)]" by (simp add: itoa_nat_def digits_rev.simps [of n])
    with 1 False d [of "n mod 10"] show ?thesis by (simp add: dec_value_append)
  qed
qed

lemma atoi_itoa: "- MaxInt - 1 \<le> i \<Longrightarrow> i \<le> MaxInt \<Longrightarrow> atoi (itoa i) = (i, True)"
proof -
  assume i: "- MaxInt - 1 \<le> i" "i \<le> MaxInt"
  have d: "list_all is_digit (itoa_nat n)" "itoa_nat n \<noteq> []" for n
    using digits_rev_digits [of n] by (simp_all add: itoa_nat_def)
  obtain c ds where n: "itoa_nat (nat i) = c # ds" "is_digit c" using itoa_nat_shape by blast
  then have "c \<noteq> CHR ''-''" "c \<noteq> CHR ''+''" by (auto simp: is_digit_def)
  with i n d [of "nat i"] d [of "nat (- i)"] dec_value_itoa [of "nat i"] dec_value_itoa [of "nat (- i)"] show ?thesis
    by (auto simp: itoa_def atoi_def)
qed

end
