(* ===== verification/Wire.thy ===== *)
theory Wire
  imports ServicePolicy JSONProps
begin

section \<open>Client and server of the daemon (internal/daemon: client.go, server.go)\<close>

text \<open>
  One exchange over the socket. \<open>encode_request\<close> and \<open>encode_response\<close> are what the JSON encoder
  writes for the two structs, \<open>decode_request\<close> and \<open>decode_response\<close> what the decoder reads.
  \<open>serveConnection\<close> takes the bytes that arrive within the deadline and a handler, and gives the
  response that is written and whether the server is then closed; \<open>client_Request\<close> is the client,
  for a connection whose dialling, deadline and writing may fail and which returns some bytes.
  The text of an error (\<open>err.Error()\<close>) is a parameter. The listener is in theory
  \<open>Lifecycle\<close>. Goroutines are not modelled: the handler's steps are atomic, so connections interleave as
  sequences of requests, which is how the properties of the service are stated.
\<close>

subsection \<open>The structs as JSON\<close>

definition encode_request :: "Request \<Rightarrow> json" where
  "encode_request r = JObject ([(''version'', JNumber (itoa (rq_Version r))), (''operation'', JString (rq_Operation r))]
     @ opt_string ''shell'' (rq_Shell r) @ opt_string ''command'' (rq_Command r) @ opt_string ''failure_output'' (rq_FailureOutput r)
     @ opt_string ''session'' (rq_Session r) @ opt_string ''token'' (rq_Token r))"

definition request_struct :: "Request field list" where
  "request_struct =
    [(''version'', int_field (\<lambda>i r. r\<lparr>rq_Version := i\<rparr>)),
     (''operation'', string_field (\<lambda>s r. r\<lparr>rq_Operation := s\<rparr>)),
     (''shell'', string_field (\<lambda>s r. r\<lparr>rq_Shell := s\<rparr>)),
     (''command'', string_field (\<lambda>s r. r\<lparr>rq_Command := s\<rparr>)),
     (''failure_output'', string_field (\<lambda>s r. r\<lparr>rq_FailureOutput := s\<rparr>)),
     (''session'', string_field (\<lambda>s r. r\<lparr>rq_Session := s\<rparr>)),
     (''token'', string_field (\<lambda>s r. r\<lparr>rq_Token := s\<rparr>))]"

definition zeroRequest :: Request where
  "zeroRequest = \<lparr>rq_Version = 0, rq_Operation = [], rq_Shell = [], rq_Command = [], rq_FailureOutput = [], rq_Session = [], rq_Token = []\<rparr>"

definition encode_evidence :: "Evidence \<Rightarrow> json" where
  "encode_evidence e = JObject [(''kind'', JString (ev_Kind e)), (''value'', JString (ev_Value e))]"

definition evidence_struct :: "Evidence field list" where
  "evidence_struct = [(''kind'', string_field (\<lambda>s e. e\<lparr>ev_Kind := s\<rparr>)), (''value'', string_field (\<lambda>s e. e\<lparr>ev_Value := s\<rparr>))]"

definition zeroEvidence :: Evidence where
  "zeroEvidence = \<lparr>ev_Kind = [], ev_Value = []\<rparr>"

definition encode_response :: "Response \<Rightarrow> json" where
  "encode_response r = JObject ([(''version'', JNumber (itoa (rs_Version r))), (''action'', JString (rs_Action r)),
      (''rewrite_eligible'', JBool (rs_RewriteEligible r))]
     @ opt_string ''suggestion'' (rs_Suggestion r) @ opt_string ''explanation'' (rs_Explanation r)
     @ opt_string ''confidence'' (rs_Confidence r) @ opt_string ''risk'' (rs_Risk r) @ opt_string ''source'' (rs_Source r)
     @ opt_string ''pack_id'' (rs_PackID r) @ opt_string ''rule_id'' (rs_RuleID r)
     @ (if rs_Evidence r = [] then [] else [(''evidence'', JArray (map encode_evidence (rs_Evidence r)))])
     @ opt_string ''confirmation_token'' (rs_ConfirmationToken r) @ opt_string ''undo_token'' (rs_UndoToken r)
     @ opt_string ''error'' (rs_Error r))"

definition response_struct :: "Response field list" where
  "response_struct =
    [(''version'', int_field (\<lambda>i r. r\<lparr>rs_Version := i\<rparr>)),
     (''action'', string_field (\<lambda>s r. r\<lparr>rs_Action := s\<rparr>)),
     (''rewrite_eligible'', bool_field (\<lambda>b r. r\<lparr>rs_RewriteEligible := b\<rparr>)),
     (''suggestion'', string_field (\<lambda>s r. r\<lparr>rs_Suggestion := s\<rparr>)),
     (''explanation'', string_field (\<lambda>s r. r\<lparr>rs_Explanation := s\<rparr>)),
     (''confidence'', string_field (\<lambda>s r. r\<lparr>rs_Confidence := s\<rparr>)),
     (''risk'', string_field (\<lambda>s r. r\<lparr>rs_Risk := s\<rparr>)),
     (''source'', string_field (\<lambda>s r. r\<lparr>rs_Source := s\<rparr>)),
     (''pack_id'', string_field (\<lambda>s r. r\<lparr>rs_PackID := s\<rparr>)),
     (''rule_id'', string_field (\<lambda>s r. r\<lparr>rs_RuleID := s\<rparr>)),
     (''evidence'', slice_field (decode_struct False evidence_struct) zeroEvidence rs_Evidence (\<lambda>es r. r\<lparr>rs_Evidence := es\<rparr>)),
     (''confirmation_token'', string_field (\<lambda>s r. r\<lparr>rs_ConfirmationToken := s\<rparr>)),
     (''undo_token'', string_field (\<lambda>s r. r\<lparr>rs_UndoToken := s\<rparr>)),
     (''error'', string_field (\<lambda>s r. r\<lparr>rs_Error := s\<rparr>))]"

text \<open>\<open>json.NewEncoder(w).Encode(v)\<close> writes the text and a line feed; \<open>json.NewDecoder(r).Decode(&v)\<close> reads one value into a zero struct.\<close>

definition encoder_text :: "json \<Rightarrow> string" where
  "encoder_text v = json_compact v @ [CHR 0x0A]"

definition decode_into :: "'r field list \<Rightarrow> 'r \<Rightarrow> string \<Rightarrow> 'r option" where
  "decode_into fs zero bytes =
     (case decode_first bytes of Some (v, rest) \<Rightarrow> decode_struct False fs v zero | None \<Rightarrow> None)"

subsection \<open>The server and the client\<close>

definition error_response :: "string \<Rightarrow> Response" where
  "error_response failed = (action_response ''none'')\<lparr>rs_Error := failed\<rparr>"

definition serveConnection :: "(go_error \<Rightarrow> string) \<Rightarrow> (Request \<Rightarrow> 's \<Rightarrow> Response result \<times> 's) \<Rightarrow> string \<Rightarrow> 's \<Rightarrow> (Response \<times> bool) \<times> 's" where
  "serveConnection error_text handler bytes s =
     (case decode_into request_struct zeroRequest (take (MaxRequestBytes + 1) bytes) of
        None \<Rightarrow> ((error_response ''invalid daemon request'', False), s)
      | Some request \<Rightarrow>
         (case request_Validate request of
            Some e \<Rightarrow> ((error_response (error_text e), False), s)
          | None \<Rightarrow>
             (case handler request s of
                (Inl e, s') \<Rightarrow> ((error_response (error_text e), False), s')
              | (Inr response, s') \<Rightarrow>
                  (case response_Validate response of
                     Some e \<Rightarrow> ((error_response (error_text (Wrap ''invalid daemon response: %v'' [] e)), False), s')
                   | None \<Rightarrow> ((response, rq_Operation request = StopOperation), s')))))"

datatype client_error = Unavailable go_error | Failed go_error

record connection =
  cn_dial :: "go_error option"
  cn_deadline :: "go_error option"
  cn_write :: "go_error option"

definition client_Request :: "connection \<Rightarrow> (string \<Rightarrow> string) \<Rightarrow> Request \<Rightarrow> client_error + Response" where
  "client_Request c exchange request =
     (case request_Validate request of
        Some e \<Rightarrow> Inl (Failed e)
      | None \<Rightarrow>
         (case cn_dial c of Some e \<Rightarrow> Inl (Unavailable e) | None \<Rightarrow>
         (case cn_deadline c of Some e \<Rightarrow> Inl (Failed e) | None \<Rightarrow>
         (case cn_write c of Some e \<Rightarrow> Inl (Unavailable e) | None \<Rightarrow>
         (case decode_into response_struct zeroResponse (exchange (encoder_text (encode_request request))) of
            None \<Rightarrow> Inl (Unavailable (Err ''decode daemon response'' []))
          | Some response \<Rightarrow>
             (case response_Validate response of Some e \<Rightarrow> Inl (Failed e) | None \<Rightarrow> Inr response))))))"

subsection \<open>What arrives is what was sent\<close>

definition valid_request :: "Request \<Rightarrow> Request" where
  "valid_request r = r\<lparr>rq_Operation := valid_text (rq_Operation r), rq_Shell := valid_text (rq_Shell r), rq_Command := valid_text (rq_Command r),
     rq_FailureOutput := valid_text (rq_FailureOutput r), rq_Session := valid_text (rq_Session r), rq_Token := valid_text (rq_Token r)\<rparr>"

definition valid_evidence :: "Evidence \<Rightarrow> Evidence" where
  "valid_evidence e = \<lparr>ev_Kind = valid_text (ev_Kind e), ev_Value = valid_text (ev_Value e)\<rparr>"

definition valid_response :: "Response \<Rightarrow> Response" where
  "valid_response r = r\<lparr>rs_Action := valid_text (rs_Action r), rs_Suggestion := valid_text (rs_Suggestion r),
     rs_Explanation := valid_text (rs_Explanation r), rs_Confidence := valid_text (rs_Confidence r), rs_Risk := valid_text (rs_Risk r),
     rs_Source := valid_text (rs_Source r), rs_PackID := valid_text (rs_PackID r), rs_RuleID := valid_text (rs_RuleID r),
     rs_Evidence := map valid_evidence (rs_Evidence r), rs_ConfirmationToken := valid_text (rs_ConfirmationToken r),
     rs_UndoToken := valid_text (rs_UndoToken r), rs_Error := valid_text (rs_Error r)\<rparr>"

lemma valid_text_keys:
  "list_all (\<lambda>k. valid_text k = k) [''version'', ''operation'', ''shell'', ''command'', ''failure_output'', ''session'', ''token'', ''action'',
     ''rewrite_eligible'', ''suggestion'', ''explanation'', ''confidence'', ''risk'', ''source'', ''pack_id'', ''rule_id'', ''evidence'',
     ''confirmation_token'', ''undo_token'', ''error'', ''kind'', ''value'']"
  by (simp add: valid_text_ascii)

lemmas key_texts = valid_text_keys [simplified]

lemma norm_opt_string: "map (\<lambda>(k, v). (valid_text k, json_norm v)) (opt_string k s) = opt_string (valid_text k) (valid_text s)"
  by (simp add: opt_string_def)

lemma decode_opt_string:
  assumes "find_field fs k = Some (string_field upd)" "upd [] r = r"
  shows "decode_fields strict fs (opt_string k s) r = Some (upd s r)"
  using assms by (simp add: opt_string_def string_field_def)

lemma decode_request_object:
  assumes "- MaxInt - 1 \<le> rq_Version r" "rq_Version r \<le> MaxInt"
  shows "decode_struct False request_struct (json_norm (encode_request r)) zeroRequest = Some (valid_request r)"
proof -
  have f: "find_field request_struct ''version'' = Some (int_field (\<lambda>i r. r\<lparr>rq_Version := i\<rparr>))"
    "find_field request_struct ''operation'' = Some (string_field (\<lambda>s r. r\<lparr>rq_Operation := s\<rparr>))"
    "find_field request_struct ''shell'' = Some (string_field (\<lambda>s r. r\<lparr>rq_Shell := s\<rparr>))"
    "find_field request_struct ''command'' = Some (string_field (\<lambda>s r. r\<lparr>rq_Command := s\<rparr>))"
    "find_field request_struct ''failure_output'' = Some (string_field (\<lambda>s r. r\<lparr>rq_FailureOutput := s\<rparr>))"
    "find_field request_struct ''session'' = Some (string_field (\<lambda>s r. r\<lparr>rq_Session := s\<rparr>))"
    "find_field request_struct ''token'' = Some (string_field (\<lambda>s r. r\<lparr>rq_Token := s\<rparr>))"
    by (simp_all add: find_field_def request_struct_def)
  show ?thesis using assms
    by (simp add: encode_request_def decode_struct_def norm_opt_string key_texts f decode_fields_append decode_opt_string
        int_field_def atoi_itoa zeroRequest_def valid_request_def string_field_def)
qed

lemma decode_evidence_object:
  "decode_struct False evidence_struct (json_norm (encode_evidence e)) old = Some (valid_evidence e)"
  by (simp add: encode_evidence_def decode_struct_def evidence_struct_def find_field_def key_texts string_field_def valid_evidence_def)

lemma decode_evidence_list:
  "decode_elements (decode_struct False evidence_struct) zeroEvidence (map (json_norm \<circ> encode_evidence) es) old = Some (map valid_evidence es)"
  by (induction es arbitrary: old) (simp_all add: decode_evidence_object)

lemma decode_response_object:
  assumes "- MaxInt - 1 \<le> rs_Version r" "rs_Version r \<le> MaxInt"
  shows "decode_struct False response_struct (json_norm (encode_response r)) zeroResponse = Some (valid_response r)"
proof -
  have f: "find_field response_struct ''version'' = Some (int_field (\<lambda>i r. r\<lparr>rs_Version := i\<rparr>))"
    "find_field response_struct ''action'' = Some (string_field (\<lambda>s r. r\<lparr>rs_Action := s\<rparr>))"
    "find_field response_struct ''rewrite_eligible'' = Some (bool_field (\<lambda>b r. r\<lparr>rs_RewriteEligible := b\<rparr>))"
    "find_field response_struct ''suggestion'' = Some (string_field (\<lambda>s r. r\<lparr>rs_Suggestion := s\<rparr>))"
    "find_field response_struct ''explanation'' = Some (string_field (\<lambda>s r. r\<lparr>rs_Explanation := s\<rparr>))"
    "find_field response_struct ''confidence'' = Some (string_field (\<lambda>s r. r\<lparr>rs_Confidence := s\<rparr>))"
    "find_field response_struct ''risk'' = Some (string_field (\<lambda>s r. r\<lparr>rs_Risk := s\<rparr>))"
    "find_field response_struct ''source'' = Some (string_field (\<lambda>s r. r\<lparr>rs_Source := s\<rparr>))"
    "find_field response_struct ''pack_id'' = Some (string_field (\<lambda>s r. r\<lparr>rs_PackID := s\<rparr>))"
    "find_field response_struct ''rule_id'' = Some (string_field (\<lambda>s r. r\<lparr>rs_RuleID := s\<rparr>))"
    "find_field response_struct ''evidence'' = Some (slice_field (decode_struct False evidence_struct) zeroEvidence rs_Evidence (\<lambda>es r. r\<lparr>rs_Evidence := es\<rparr>))"
    "find_field response_struct ''confirmation_token'' = Some (string_field (\<lambda>s r. r\<lparr>rs_ConfirmationToken := s\<rparr>))"
    "find_field response_struct ''undo_token'' = Some (string_field (\<lambda>s r. r\<lparr>rs_UndoToken := s\<rparr>))"
    "find_field response_struct ''error'' = Some (string_field (\<lambda>s r. r\<lparr>rs_Error := s\<rparr>))"
    by (simp_all add: find_field_def response_struct_def)
  show ?thesis using assms
    by (simp add: encode_response_def decode_struct_def norm_opt_string key_texts f decode_fields_append decode_opt_string
        int_field_def bool_field_def slice_field_def decode_evidence_list atoi_itoa zeroResponse_def valid_response_def string_field_def)
qed

lemma encoded_ok:
  "json_integers (encode_request r)" "json_integers (encode_response q)"
  "json_depth (encode_request r) \<le> max_nesting" "json_depth (encode_response q) \<le> max_nesting"
  by (auto simp: encode_request_def encode_response_def encode_evidence_def opt_string_def max_nesting_def split: if_splits)

subsection \<open>What a handled request answers\<close>

text \<open>The actions that the operations answer with.\<close>

definition actions_of :: "string \<Rightarrow> string list" where
  "actions_of operation =
     (if operation = HandshakeOperation \<or> operation = StatusOperation then [''ready'']
      else if operation = PreSendOperation then [''none'', ''hint'', ''rewrite'', ''interrupt'', ''submit'']
      else if operation = PostFailureOperation then [''none'', ''hint'']
      else if operation = PostSuccessOperation then [''none'']
      else if operation = ConfirmOperation then [''submit'', ''none'']
      else if operation = UndoOperation then [''edit-in-buffer'', ''none'']
      else if operation = StopOperation then [''stopping'']
      else [])"

definition response_in :: "string list \<Rightarrow> Response \<Rightarrow> bool" where
  "response_in actions r \<longleftrightarrow> rs_Version r = daemon_ProtocolVersion \<and> rs_Action r \<in> set actions"

lemma engine_action: "fst (CheckShellContext opt env shellName line stage s) = (d, err) \<Longrightarrow>
    d_Action d = ''none'' \<or> d_Action d = ''hint'' \<or> (d_Action d = ''interrupt'' \<or> d_Action d = ''rewrite'') \<and> stage = ''pre''"
  using CheckShellContext_cases [of opt env shellName line stage s d err] finished_action
  by (fastforce simp: noDecision_def shouldInterrupt_def)

lemma evidence_version: "rs_Version (fold evidence_field es r) = rs_Version r"
  by (induction es arbitrary: r) (simp_all add: evidence_field_def)

lemma service_decision_typed:
  assumes "service_decision svc env shellName command stage s = (Inr r, s')"
  shows "response_in (if stage = ''pre'' then [''none'', ''hint'', ''interrupt'', ''rewrite''] else [''none'', ''hint'']) r"
proof -
  obtain d e where d: "CheckShellContext (sc_Engine svc) (se_engine env) shellName command stage (sv_engine s) = ((d, None), e)" "r = decision_response d"
    using assms by (auto simp: service_decision_def split: prod.splits option.splits)
  from d(2) have "rs_Version r = daemon_ProtocolVersion" by (simp add: decision_response_def evidence_version)
  moreover have a: "d_Action d = ''none'' \<or> d_Action d = ''hint'' \<or> (d_Action d = ''interrupt'' \<or> d_Action d = ''rewrite'') \<and> stage = ''pre''"
    using engine_action [of "sc_Engine svc" "se_engine env" shellName command stage "sv_engine s" d None] d(1) by simp
  moreover have "rs_Action r = d_Action d" using a d(2) by (auto simp: decision_response_fields)
  ultimately show ?thesis by (auto simp: response_in_def)
qed

lemma confirm_or_interrupt_typed:
  "confirm_or_interrupt env session command r0 s = (Inr r, s') \<Longrightarrow> rs_Version r0 = daemon_ProtocolVersion \<Longrightarrow> response_in [''submit'', ''interrupt''] r"
  by (auto simp: confirm_or_interrupt_def response_in_def split: prod.splits if_splits sum.splits)

lemma curated_version: "rs_Version (curated_response match) = daemon_ProtocolVersion" "rs_Action (curated_response match) = ''hint''"
  by (simp_all add: curated_response_def split: prod.split)

lemma curatedDecision_typed:
  assumes "curatedDecision svc env shellName command session stage s = (Inr (Some r), s')"
  shows "response_in (if stage = ''pre'' then [''hint'', ''interrupt'', ''rewrite'', ''submit''] else [''hint'']) r"
  using assms
  by (auto simp: curatedDecision_def map_sum_Inr curated_version response_in_def curated_interrupts_def
      split: prod.splits if_splits sum.splits option.splits dest!: confirm_or_interrupt_typed)

lemma learnedDecision_typed: "learnedDecision svc command stage = Some r \<Longrightarrow> response_in [''hint'', ''rewrite''] r"
  by (auto simp: learnedDecision_def learned_response_def limitedLearnedAction_def learned_levels_def response_in_def
      split: if_splits prod.splits option.splits)

lemma response_in_mono: "response_in a r \<Longrightarrow> set a \<subseteq> set b \<Longrightarrow> response_in b r"
  by (auto simp: response_in_def)

lemma response_in_version: "response_in a r \<Longrightarrow> rs_Version r = daemon_ProtocolVersion"
  by (simp add: response_in_def)

lemma preSend_typed:
  assumes "preSend svc env request s = (Inr r, s')"
  shows "response_in [''none'', ''hint'', ''rewrite'', ''interrupt'', ''submit''] r"
  using assms
  by (auto simp: preSend_def action_response_def split: prod.splits if_splits sum.splits option.splits
      dest!: curatedDecision_typed learnedDecision_typed service_decision_typed
      dest: response_in_version confirm_or_interrupt_typed intro: response_in_mono) (auto simp: response_in_def dest!: confirm_or_interrupt_typed)

lemma attach_evidence_version: "rs_Version (attach_evidence p f request r) = rs_Version r"
  by (simp add: attach_evidence_def split: sum.splits)

lemma attach_version: "rs_Version (attach_all request r) = rs_Version r"
  by (simp add: attach_defs attach_evidence_version)

lemma handle_post_failure_typed:
  assumes "handle_post_failure svc env request s = (Inr r, s')"
  shows "response_in [''none'', ''hint''] r"
  using assms
proof (cases rule: handle_post_failure_cases)
  case (1 q s1) then show ?thesis using curatedDecision_typed [OF 1(1)] by (simp add: response_in_def attach_all_fields attach_version)
next
  case (2 q s1 s2) then show ?thesis using service_decision_typed [OF 2(1)] by (simp add: response_in_def attach_all_fields attach_version)
qed

lemma Handle_typed:
  assumes "Handle svc env request s = (Inr r, s')"
  shows "response_in (actions_of (rq_Operation request)) r"
  using assms unfolding Handle_def actions_of_def
  by (auto simp: operation_names action_response_def undo_response_def issueUndoToken_def response_in_def
      split: prod.splits if_splits sum.splits option.splits dest!: preSend_typed handle_post_failure_typed)

text \<open>
  Property C22: every answer of the daemon is well-typed. A handled request gets a response of the
  protocol's version whose action is one the operation has: \<open>ready\<close> for handshake and status, the
  policy's action or \<open>submit\<close> before sending, \<open>none\<close> or \<open>hint\<close> after a failure, and so on; so the
  server never replaces it by an error about an invalid response.
\<close>

theorem handled_response_typed:
  assumes "Handle svc env request s = (Inr r, s')"
  shows "rs_Version r = daemon_ProtocolVersion \<and> rs_Action r \<in> set (actions_of (rq_Operation request)) \<and> response_Validate r = None"
proof -
  have "[] \<notin> set (actions_of (rq_Operation request))" by (simp add: actions_of_def)
  with Handle_typed [OF assms] show ?thesis by (auto simp: response_in_def response_Validate_def)
qed

subsection \<open>An exchange between client and server\<close>

lemma decode_encoded:
  assumes "json_integers v" "json_depth v \<le> max_nesting" "length (json_compact v) \<le> n"
  shows "decode_into fs zero (take n (encoder_text v)) = decode_struct False fs (json_norm v) zero"
proof -
  have "take n (encoder_text v) = json_compact v @ take (n - length (json_compact v)) [CHR 0x0A]"
    using assms(3) by (simp add: encoder_text_def)
  moreover have "ends_value (take k [CHR 0x0A])" for k by (cases k) (simp_all add: json_space_def)
  ultimately show ?thesis using assms(1,2) by (simp add: decode_into_def decode_compact)
qed

lemma validOperation_ascii: "validOperation operation \<Longrightarrow> valid_text operation = operation"
  by (auto simp: validOperation_def operation_names valid_text_ascii)

lemma valid_request_same:
  assumes "request_Validate r = None" "list_all valid_utf8 [rq_Shell r, rq_Command r, rq_FailureOutput r, rq_Session r, rq_Token r]"
  shows "valid_request r = r"
  using assms by (simp add: valid_request_def valid_text_valid validOperation_ascii request_Validate_def split: if_splits)

lemma decode_sent_request:
  assumes "request_Validate r = None" "list_all valid_utf8 [rq_Shell r, rq_Command r, rq_FailureOutput r, rq_Session r, rq_Token r]"
    and "length (json_compact (encode_request r)) \<le> n"
  shows "decode_into request_struct zeroRequest (take n (encoder_text (encode_request r))) = Some r"
proof -
  have "rq_Version r = 1" using assms(1) by (auto simp: request_Validate_def daemon_ProtocolVersion_def split: if_splits)
  then have "decode_struct False request_struct (json_norm (encode_request r)) zeroRequest = Some (valid_request r)"
    by (intro decode_request_object) (simp_all add: MaxInt_def)
  with decode_encoded [OF encoded_ok(1,3) assms(3), of request_struct zeroRequest] valid_request_same [OF assms(1,2)] show ?thesis by simp
qed

lemma decode_sent_response:
  assumes "rs_Version q = daemon_ProtocolVersion"
  shows "decode_into response_struct zeroResponse (encoder_text (encode_response q)) = Some (valid_response q)"
proof -
  have "decode_struct False response_struct (json_norm (encode_response q)) zeroResponse = Some (valid_response q)"
    using assms by (intro decode_response_object) (simp_all add: MaxInt_def daemon_ProtocolVersion_def)
  with decode_encoded [OF encoded_ok(2,4), of q "length (encoder_text (encode_response q))" response_struct zeroResponse] show ?thesis
    by (simp add: encoder_text_def)
qed

text \<open>The response that an answer of the handler becomes.\<close>

definition answer_response :: "(go_error \<Rightarrow> string) \<Rightarrow> Response result \<Rightarrow> Response" where
  "answer_response error_text answer = (case answer of Inl e \<Rightarrow> error_response (error_text e) | Inr q \<Rightarrow> q)"


theorem handled_response_typed_witness:
  "\<exists>r s'. Handle demo_service demo_service_env (demo_request StopOperation) demo_service_state = (Inr r, s') \<and> rs_Action r = ''stopping'' \<and>
     response_Validate r = None"
proof -
  have h: "Handle demo_service demo_service_env (demo_request StopOperation) demo_service_state = (Inr (action_response ''stopping''), demo_service_state)"
    by (simp add: Handle_def demo_request_def operation_names)
  from handled_response_typed [OF h] h show ?thesis by (simp add: action_response_def)
qed


end
