(* ===== verification/Terminal.thy ===== *)
theory Terminal
  imports Engine Wire
begin

section \<open>What the command line tool prints (cmd/solomon/main.go, internal/clierr)\<close>

text \<open>
  The texts that reach the user's terminal: errors with their exit codes, diagnostics with and
  without colour, the form for screen readers, and the record lines the shell scripts read. The
  property is that no text that came from a command line, a file, a pack or the network can place
  a control character or a bidirectional override on the terminal.
\<close>

subsection \<open>Errors (error.go)\<close>

datatype cli_kind = Usage | Configuration | Input | Operation | Internal

record cli_error =
  ce_Kind :: cli_kind
  ce_Err :: go_error

text \<open>A returned error: of the tool, or any other.\<close>

type_synonym command_error = "cli_error + go_error"

definition clierr_New :: "cli_kind \<Rightarrow> string \<Rightarrow> command_error option" where
  "clierr_New kind text = Some (Inl \<lparr>ce_Kind = kind, ce_Err = Err text []\<rparr>)"

definition clierr_Wrap :: "cli_kind \<Rightarrow> go_error option \<Rightarrow> command_error option" where
  "clierr_Wrap kind err = map_option (\<lambda>e. Inl \<lparr>ce_Kind = kind, ce_Err = e\<rparr>) err"

definition ExitSuccess :: int where "ExitSuccess = 0"
definition ExitInternal :: int where "ExitInternal = 1"
definition ExitUsage :: int where "ExitUsage = 2"
definition ExitConfiguration :: int where "ExitConfiguration = 3"
definition ExitInput :: int where "ExitInput = 4"
definition ExitOperation :: int where "ExitOperation = 5"

definition clierr_Code :: "command_error option \<Rightarrow> int" where
  "clierr_Code err =
     (case err of
        None \<Rightarrow> ExitSuccess
      | Some (Inr e) \<Rightarrow> ExitInternal
      | Some (Inl e) \<Rightarrow> (case ce_Kind e of Usage \<Rightarrow> ExitUsage | Configuration \<Rightarrow> ExitConfiguration | Input \<Rightarrow> ExitInput
          | Operation \<Rightarrow> ExitOperation | Internal \<Rightarrow> ExitInternal))"

subsection \<open>Sanitizing\<close>

fun fixed_hex :: "nat \<Rightarrow> nat \<Rightarrow> string" where
  "fixed_hex 0 n = []"
| "fixed_hex (Suc k) n = fixed_hex k (n div 16) @ [''0123456789ABCDEF'' ! (n mod 16)]"

definition backslash :: char where "backslash = CHR 0x5C"

definition sanitize_rune :: "rune \<Rightarrow> string" where
  "sanitize_rune r =
     (if r \<le> 0x1f \<or> r = 0x7f then [backslash, CHR ''x''] @ fixed_hex 2 r
      else if unicode_IsControl r \<or> unicode_BidiControl r then [backslash, CHR ''u''] @ fixed_hex 4 r
      else utf8_encode r)"

definition sanitizeTerminalText :: "string \<Rightarrow> string" where
  "sanitizeTerminalText v = concat (map sanitize_rune (runes v))"

text \<open>\<open>err.Error()\<close> of an error is given, as in theory \<open>Wire\<close>.\<close>

definition renderError :: "(go_error \<Rightarrow> string) \<Rightarrow> go_error \<Rightarrow> string" where
  "renderError error_text err = ''solomon: '' @ sanitizeTerminalText (error_text err) @ [CHR 0x0A]"

definition versionString :: "string \<Rightarrow> string \<Rightarrow> string" where
  "versionString version commit =
     (if commit = [] \<or> commit = ''unknown'' then ''solomon '' @ version else ''solomon '' @ version @ '' ('' @ commit @ '')'')"

subsection \<open>Diagnostics\<close>

text \<open>Confidences are finite here, so the tests for NaN and infinities never hold.\<close>

definition confidencePresentation :: "rat \<Rightarrow> string" where
  "confidencePresentation c =
     (if c < 0 \<or> 1 < c then ''unknown'' else if fl64 (9 / 10) \<le> c then ''high'' else if fl64 (8 / 10) \<le> c then ''medium'' else ''low'')"

definition diagnosticLabel :: "string \<Rightarrow> string \<Rightarrow> bool \<Rightarrow> string" where
  "diagnosticLabel v color enabled =
     (if \<not> enabled then v else [CHR 0x1B, CHR ''[''] @ color @ ''m'' @ v @ [CHR 0x1B] @ ''[0m'')"

text \<open>The lines of a diagnostic, in the order they are appended.\<close>

definition cause_lines :: "Decision \<Rightarrow> Display \<Rightarrow> bool \<Rightarrow> string list" where
  "cause_lines d display colour =
     (if di_Cause display \<and> di_Consequence display \<and> d_Cause d \<noteq> [] \<and> d_Consequence d \<noteq> []
      then [sanitizeTerminalText (d_Cause d) @ '': '' @ sanitizeTerminalText (d_Consequence d)]
      else (if di_Cause display \<and> d_Cause d \<noteq> [] then [diagnosticLabel ''Cause: '' ''36'' colour @ sanitizeTerminalText (d_Cause d)] else []) @
        (if di_Consequence display \<and> d_Consequence d \<noteq> []
         then [diagnosticLabel ''Consequence: '' ''36'' colour @ sanitizeTerminalText (d_Consequence d)] else []))"

definition change_lines :: "Decision \<Rightarrow> Display \<Rightarrow> string \<Rightarrow> bool \<Rightarrow> string list" where
  "change_lines d display command colour =
     (if di_Change display \<and> d_Suggestion d \<noteq> []
      then [diagnosticLabel ''Did you mean: '' ''32'' colour @ sanitizeTerminalText (d_Suggestion d)] @
        (let diff = CommandDiffEmphasis d command in if diff \<noteq> [] then [sanitizeTerminalText diff] else [])
      else [])"

definition risk_lines :: "Decision \<Rightarrow> Display \<Rightarrow> bool \<Rightarrow> string list" where
  "risk_lines d display colour =
     (if di_Risk display
      then [diagnosticLabel ''Risk: '' ''33'' colour @ d_Risk d] @
        (if d_RiskRationale d \<noteq> [] then [diagnosticLabel ''Risk rationale: '' ''33'' colour @ sanitizeTerminalText (d_RiskRationale d)] else [])
      else [])"

definition end_lines :: "string list \<Rightarrow> string" where
  "end_lines lines = (if lines = [] then [] else strings_Join lines [CHR 0x0A] @ [CHR 0x0A])"

definition plain_lines :: "Decision \<Rightarrow> Display \<Rightarrow> string \<Rightarrow> bool \<Rightarrow> string list" where
  "plain_lines d display command colour =
     cause_lines d display colour @ change_lines d display command colour @
     (if di_Confidence display then [diagnosticLabel ''Confidence: '' ''35'' colour @ confidencePresentation (d_Confidence d)] else []) @
     risk_lines d display colour @
     (if di_Trace display \<and> d_Trace d \<noteq> []
      then [diagnosticLabel ''Trace: '' ''36'' colour @ strings_Join (map sanitizeTerminalText (d_Trace d)) '', ''] else [])"

definition renderPlainDiagnosticWithColor :: "Decision \<Rightarrow> Display \<Rightarrow> string \<Rightarrow> bool \<Rightarrow> string" where
  "renderPlainDiagnosticWithColor d display command colour =
     (if d_Suggestion d = [] then ''no suggestion'' @ [CHR 0x0A] else end_lines (plain_lines d display command colour))"

definition renderPlainDiagnostic :: "Decision \<Rightarrow> Display \<Rightarrow> string \<Rightarrow> string" where
  "renderPlainDiagnostic d display command = renderPlainDiagnosticWithColor d display command False"

definition reader_lines :: "Decision \<Rightarrow> Display \<Rightarrow> string list" where
  "reader_lines d display =
     (if di_Cause display \<and> d_Cause d \<noteq> [] then [''Cause: '' @ sanitizeTerminalText (d_Cause d)] else []) @
     (if di_Consequence display \<and> d_Consequence d \<noteq> [] then [''Consequence: '' @ sanitizeTerminalText (d_Consequence d)] else []) @
     (if di_Change display then [''Suggested command: '' @ sanitizeTerminalText (d_Suggestion d)] else []) @
     (if di_Confidence display then [''Confidence level: '' @ confidencePresentation (d_Confidence d)] else []) @
     (if di_Risk display
      then [''Risk level: '' @ d_Risk d] @
        (if d_RiskRationale d \<noteq> [] then [''Risk rationale: '' @ sanitizeTerminalText (d_RiskRationale d)] else [])
      else []) @
     (if di_Trace display \<and> d_Trace d \<noteq> []
      then [''Trace: '' @ strings_Join (map sanitizeTerminalText (d_Trace d)) ''; ''] else [])"

definition renderScreenReaderDiagnostic :: "Decision \<Rightarrow> Display \<Rightarrow> string" where
  "renderScreenReaderDiagnostic d display =
     (if d_Suggestion d = [] then ''No suggestion.'' @ [CHR 0x0A] else end_lines (reader_lines d display))"

definition colorAuto :: string where "colorAuto = ''auto''"
definition colorAlways :: string where "colorAlways = ''always''"
definition colorNever :: string where "colorNever = ''never''"

text \<open>The output: not a file, or a file with the mode bits \<open>Stat\<close> gives, \<open>Some True\<close> for a character device.\<close>

definition diagnosticColorEnabled :: "string \<Rightarrow> bool result option \<Rightarrow> (string \<Rightarrow> string) \<Rightarrow> bool result" where
  "diagnosticColorEnabled mode out environment =
     (if mode = colorNever then Inr False
      else if mode = colorAlways then Inr True
      else if mode = colorAuto then
        (if environment ''NO_COLOR'' \<noteq> [] \<or> environment ''TERM'' = ''dumb'' then Inr False
         else case out of None \<Rightarrow> Inr False | Some (Inl e) \<Rightarrow> Inr False | Some (Inr device) \<Rightarrow> Inr device)
      else Inl (Err ''--color must be auto, always, or never'' []))"

subsection \<open>Records for the shell scripts\<close>

definition daemonRecordWithUndo :: "Response \<Rightarrow> bool \<Rightarrow> string" where
  "daemonRecordWithUndo r includeUndoToken =
     (let evidence = if rs_Evidence r \<noteq> [] then json_compact (JArray (map encode_evidence (rs_Evidence r))) else [];
          fields = [itoa (rs_Version r), rs_Action r, rs_Risk r, rs_Confidence r, base64_encode (rs_Explanation r), base64_encode evidence,
            base64_encode (rs_Suggestion r)] @ (if includeUndoToken then [base64_encode (rs_UndoToken r)] else [])
      in strings_Join fields [CHR 0x09] @ [CHR 0x0A])"

definition daemonRecord :: "Response \<Rightarrow> string" where
  "daemonRecord r = daemonRecordWithUndo r False"

definition daemonUndoRecord :: "Response \<Rightarrow> string" where
  "daemonUndoRecord r = daemonRecordWithUndo r True"

subsection \<open>Starting the recorded shell\<close>

definition quote_escape :: string where
  "quote_escape = [CHR 0x27, backslash, CHR 0x22, CHR 0x27, backslash, CHR 0x22, CHR 0x27]"

definition quotePOSIX :: "string \<Rightarrow> string" where
  "quotePOSIX v = [CHR 0x27] @ replaceByte CHR 0x27 quote_escape v @ [CHR 0x27]"

definition scriptCaptureCommand :: "string \<Rightarrow> string \<Rightarrow> string \<Rightarrow> string \<Rightarrow> string list" where
  "scriptCaptureCommand GOOS scriptPath fifo shellPath =
     (if GOOS = ''linux'' then [scriptPath, ''-q'', ''-f'', fifo, ''-c'', ''exec '' @ quotePOSIX shellPath @ '' -i'']
      else [scriptPath, ''-q'', fifo, shellPath, ''-i''])"

subsection \<open>Nothing printed controls the terminal\<close>

text \<open>A rune a terminal only shows.\<close>

definition shown_rune :: "rune \<Rightarrow> bool" where
  "shown_rune r \<longleftrightarrow> \<not> unicode_IsControl r \<and> \<not> unicode_BidiControl r"

definition terminal_plain :: "string \<Rightarrow> bool" where
  "terminal_plain s \<longleftrightarrow> valid_utf8 s \<and> list_all shown_rune (runes s)"

lemma valid_utf8_append: "valid_utf8 s \<Longrightarrow> valid_utf8 t \<Longrightarrow> valid_utf8 (s @ t)"
  by (simp add: valid_utf8_def cells_valid_utf8 [unfolded valid_utf8_def])

lemma runes_append: "valid_utf8 s \<Longrightarrow> runes (s @ t) = runes s @ runes t"
  by (simp add: runes_def cells_valid_utf8)

lemma terminal_plain_append [simp]: "terminal_plain s \<Longrightarrow> terminal_plain t \<Longrightarrow> terminal_plain (s @ t)"
  by (simp add: terminal_plain_def valid_utf8_append runes_append)

lemma terminal_plain_Nil [simp]: "terminal_plain []"
  by (simp add: terminal_plain_def valid_utf8_def)

lemma terminal_plain_ascii: "list_all (\<lambda>c. 0x20 \<le> byte c \<and> byte c < 0x7F) s \<Longrightarrow> terminal_plain s"
proof (induction s)
  case (Cons c s)
  then have "cells (c # s) = (byte c, [c]) # cells s" "runes (c # s) = byte c # runes s" by simp_all
  with Cons show ?case
    by (simp add: terminal_plain_def valid_utf8_def valid_cell_def valid_rune_def shown_rune_def unicode_IsControl_def unicode_BidiControl_def)
qed simp

lemma terminal_plain_Cons [simp]: "0x20 \<le> byte c \<Longrightarrow> byte c < 0x7F \<Longrightarrow> terminal_plain s \<Longrightarrow> terminal_plain (c # s)"
  using terminal_plain_append [of "[c]" s] terminal_plain_ascii [of "[c]"] by simp

lemma terminal_plain_concat: "\<forall>s\<in>set ss. terminal_plain s \<Longrightarrow> terminal_plain (concat ss)"
  by (induction ss) simp_all

lemma terminal_plain_Join: "\<forall>s\<in>set ss. terminal_plain s \<Longrightarrow> terminal_plain sep \<Longrightarrow> terminal_plain (strings_Join ss sep)"
  by (induction ss sep rule: strings_Join.induct) simp_all

lemma upper_hex_digits: "list_all (\<lambda>n. 0x20 \<le> byte (''0123456789ABCDEF'' ! n) \<and> byte (''0123456789ABCDEF'' ! n) < 0x7F) [0..<16]"
  by code_simp

lemma upper_hex_digit: "n < 16 \<Longrightarrow> 0x20 \<le> byte (''0123456789ABCDEF'' ! n) \<and> byte (''0123456789ABCDEF'' ! n) < 0x7F"
  using upper_hex_digits unfolding list_all_iff by (metis atLeastLessThan_iff atLeastLessThan_upt zero_le)

lemma fixed_hex_plain: "terminal_plain (fixed_hex k n)"
proof (induction k arbitrary: n)
  case (Suc k)
  have "terminal_plain [''0123456789ABCDEF'' ! (n mod 16)]"
    using upper_hex_digit [of "n mod 16"] by (intro terminal_plain_ascii) simp
  then show ?case using Suc by simp
qed simp

lemma utf8_encode_plain: "valid_rune r \<Longrightarrow> shown_rune r \<Longrightarrow> terminal_plain (utf8_encode r)"
  using cells_encode [of r "[]"] by (simp add: terminal_plain_def valid_utf8_def valid_cell_def runes_utf8_encode)

lemma runes_valid: "r \<in> set (runes s) \<Longrightarrow> valid_rune r"
  by (auto simp: runes_def dest: cell_shape)

lemma sanitize_rune_plain: "valid_rune r \<Longrightarrow> terminal_plain (sanitize_rune r)"
proof -
  have e: "terminal_plain ([backslash, c] @ fixed_hex k r)" if "c = CHR ''x'' \<or> c = CHR ''u''" for c k
    using that by (intro terminal_plain_append fixed_hex_plain terminal_plain_ascii) (auto simp: backslash_def)
  assume "valid_rune r"
  then show ?thesis using e utf8_encode_plain [of r] by (auto simp: sanitize_rune_def shown_rune_def)
qed

lemma sanitize_plain [simp]: "terminal_plain (sanitizeTerminalText v)"
  unfolding sanitizeTerminalText_def by (rule terminal_plain_concat) (auto intro: sanitize_rune_plain runes_valid)

text \<open>Sanitizing changes nothing in a text that is harmless already.\<close>

lemma sanitize_id: "terminal_plain v \<Longrightarrow> sanitizeTerminalText v = v"
proof -
  assume v: "terminal_plain v"
  have "sanitize_rune r = utf8_encode r" if "r \<in> set (runes v)" for r
  proof -
    have "shown_rune r" using v that by (auto simp: terminal_plain_def list_all_iff)
    then show ?thesis by (auto simp: sanitize_rune_def shown_rune_def unicode_IsControl_def)
  qed
  then have "map sanitize_rune (runes v) = map utf8_encode (runes v)" by simp
  then have "sanitizeTerminalText v = string_of_runes (runes v)" unfolding sanitizeTerminalText_def string_of_runes_def by (simp only:)
  then show ?thesis using v by (simp add: terminal_plain_def string_of_valid_runes)
qed

text \<open>The labels a diagnostic uses, with their colours.\<close>

definition diagnostic_labels :: "(string \<times> string) list" where
  "diagnostic_labels = [(''Cause: '', ''36''), (''Consequence: '', ''36''), (''Did you mean: '', ''32''), (''Confidence: '', ''35''),
     (''Risk: '', ''33''), (''Risk rationale: '', ''33''), (''Trace: '', ''36'')]"

text \<open>A line: harmless text after one of the labels, or after none.\<close>

definition diagnostic_line :: "bool \<Rightarrow> string \<Rightarrow> bool" where
  "diagnostic_line colour line \<longleftrightarrow> terminal_plain line \<or>
     (\<exists>(label, code)\<in>set diagnostic_labels. \<exists>rest. line = diagnosticLabel label code colour @ rest \<and> terminal_plain rest)"

lemma labelled_line: "(label, code) \<in> set diagnostic_labels \<Longrightarrow> terminal_plain rest \<Longrightarrow> diagnostic_line colour (diagnosticLabel label code colour @ rest)"
  unfolding diagnostic_line_def by blast

lemma confidence_plain: "terminal_plain (confidencePresentation c)"
  by (auto simp: confidencePresentation_def intro!: terminal_plain_ascii)

lemma risk_plain: "validRisk r \<Longrightarrow> terminal_plain r"
  unfolding validRisk_def RiskSafe_def RiskUnknown_def RiskHigh_def by (elim disjE) (simp_all add: terminal_plain_ascii)

lemma separators_plain: "terminal_plain '', ''" "terminal_plain '': ''" "terminal_plain ''; ''"
  by (auto intro!: terminal_plain_ascii)

lemma trace_plain: "terminal_plain sep \<Longrightarrow> terminal_plain (strings_Join (map sanitizeTerminalText vs) sep)"
  by (rule terminal_plain_Join) auto

lemma in_labels:
  "(''Cause: '', ''36'') \<in> set diagnostic_labels" "(''Consequence: '', ''36'') \<in> set diagnostic_labels" "(''Did you mean: '', ''32'') \<in> set diagnostic_labels"
  "(''Confidence: '', ''35'') \<in> set diagnostic_labels" "(''Risk: '', ''33'') \<in> set diagnostic_labels" "(''Risk rationale: '', ''33'') \<in> set diagnostic_labels"
  "(''Trace: '', ''36'') \<in> set diagnostic_labels"
  by (simp_all add: diagnostic_labels_def)

lemma plain_line: "terminal_plain line \<Longrightarrow> diagnostic_line colour line"
  by (simp add: diagnostic_line_def)

lemmas line_intros = labelled_line in_labels sanitize_plain confidence_plain trace_plain separators_plain terminal_plain_append

lemma end_lines_concat: "end_lines lines = concat (map (\<lambda>line. line @ [CHR 0x0A]) lines)"
proof -
  have "ls \<noteq> [] \<Longrightarrow> strings_Join ls [CHR 0x0A] @ [CHR 0x0A] = concat (map (\<lambda>line. line @ [CHR 0x0A]) ls)" for ls
    by (induction ls "[CHR 0x0A]" rule: strings_Join.induct) simp_all
  then show ?thesis by (simp add: end_lines_def)
qed

lemma uncoloured_line: "diagnostic_line False line \<Longrightarrow> terminal_plain line"
proof -
  have "\<forall>(label, code)\<in>set diagnostic_labels. terminal_plain label"
    by (auto simp: diagnostic_labels_def intro!: terminal_plain_ascii)
  then show "diagnostic_line False line \<Longrightarrow> terminal_plain line"
    by (auto simp: diagnostic_line_def diagnosticLabel_def)
qed

lemma part_lines:
  "line \<in> set (cause_lines d display colour) \<Longrightarrow> diagnostic_line colour line"
  "line \<in> set (change_lines d display command colour) \<Longrightarrow> diagnostic_line colour line"
  "validRisk (d_Risk d) \<Longrightarrow> line \<in> set (risk_lines d display colour) \<Longrightarrow> diagnostic_line colour line"
  by (auto simp: cause_lines_def change_lines_def risk_lines_def Let_def split: if_splits intro!: line_intros intro: plain_line risk_plain)

lemma plain_lines_ok: "validRisk (d_Risk d) \<Longrightarrow> \<forall>line\<in>set (plain_lines d display command colour). diagnostic_line colour line"
  by (auto simp: plain_lines_def split: if_splits intro: part_lines intro!: line_intros)

lemma reader_lines_ok: "validRisk (d_Risk d) \<Longrightarrow> \<forall>line\<in>set (reader_lines d display). terminal_plain line"
  by (auto simp: reader_lines_def risk_plain confidence_plain trace_plain separators_plain split: if_splits)

text \<open>
  A diagnostic cannot control the terminal. Whatever the decision and the command
  line contain, a printed diagnostic of a decision valid for the protocol is a sequence of lines,
  each of them harmless text, possibly after one of seven fixed labels. Harmless text is valid
  UTF-8 without control characters, without line ends and without bidirectional overrides. The only
  escape sequences are those around a label, and only with colour enabled.
\<close>

lemma diagnostic_lines_harmless:
  assumes "validateProtocol d = None"
  shows "(\<exists>lines. renderPlainDiagnosticWithColor d display command colour = concat (map (\<lambda>line. line @ [CHR 0x0A]) lines) \<and>
      (\<forall>line\<in>set lines. diagnostic_line colour line \<and> (\<not> colour \<longrightarrow> terminal_plain line))) \<and>
    (\<exists>lines. renderScreenReaderDiagnostic d display = concat (map (\<lambda>line. line @ [CHR 0x0A]) lines) \<and> (\<forall>line\<in>set lines. terminal_plain line))"
proof -
  have risk: "validRisk (d_Risk d)" using assms by (auto simp: validateProtocol_def split: if_splits)
  have none: "terminal_plain ''no suggestion''" "terminal_plain ''No suggestion.''" by (auto intro!: terminal_plain_ascii)
  have "\<exists>lines. renderPlainDiagnosticWithColor d display command colour = concat (map (\<lambda>line. line @ [CHR 0x0A]) lines) \<and>
      (\<forall>line\<in>set lines. diagnostic_line colour line)"
    using plain_lines_ok [OF risk] none(1) plain_line
    by (cases "d_Suggestion d = []")
      (auto simp: renderPlainDiagnosticWithColor_def end_lines_concat intro: exI [of _ "[''no suggestion'']"])
  moreover have "\<exists>lines. renderScreenReaderDiagnostic d display = concat (map (\<lambda>line. line @ [CHR 0x0A]) lines) \<and> (\<forall>line\<in>set lines. terminal_plain line)"
    using reader_lines_ok [OF risk] none(2)
    by (cases "d_Suggestion d = []")
      (auto simp: renderScreenReaderDiagnostic_def end_lines_concat intro: exI [of _ "[''No suggestion.'']"])
  ultimately show ?thesis using uncoloured_line by (cases colour) auto
qed

end
