(* ===== verification/Files.thy ===== *)
theory Files
  imports GoStrings Prelude
begin

section \<open>Files and atomic replacement (internal/filesystem, internal/securetemp)\<close>

text \<open>
  The part of the operating system the program uses to keep its files: a disk of regular files
  and other nodes, on which every system call may fail. The calls are numbered; \<open>sy_fail\<close> says
  which of them fail and how, so a theorem about all \<open>system\<close> values is one about all patterns of
  failure. A failing write may have written some of its bytes; \<open>os.CreateTemp\<close> picks a name with a
  random part and creates the file only if it does not exist. Then the capabilities of a platform
  and the temporary file of package \<open>securetemp\<close>, and the way every writer of the program
  replaces a file: create a temporary one beside it, write, commit by renaming, clean up.
\<close>

subsection \<open>System calls\<close>

datatype node = Regular string | Special

record disk =
  dk_files :: "string \<rightharpoonup> node"
  dk_calls :: nat

record system =
  sy_fail :: "nat \<Rightarrow> go_error option"
  sy_written :: "nat \<Rightarrow> nat"
  sy_random :: "nat \<Rightarrow> string"
  sy_special :: "string \<Rightarrow> string result"
  sy_GOOS :: string

definition ErrNotExist :: go_error where "ErrNotExist = Err ''file does not exist'' []"
definition ErrExist :: go_error where "ErrExist = Err ''file already exists'' []"
definition ErrClosed :: go_error where "ErrClosed = Err ''file already closed'' []"

definition os_call :: "system \<Rightarrow> (disk \<Rightarrow> 'a result \<times> (string \<rightharpoonup> node)) \<Rightarrow> disk \<Rightarrow> 'a result \<times> disk" where
  "os_call env f d =
     (let d1 = d\<lparr>dk_calls := dk_calls d + 1\<rparr> in
      case sy_fail env (dk_calls d) of
        Some e \<Rightarrow> (Inl e, d1)
      | None \<Rightarrow> (case f d of (r, files) \<Rightarrow> (r, d1\<lparr>dk_files := files\<rparr>)))"

definition os_ReadFile :: "system \<Rightarrow> string \<Rightarrow> disk \<Rightarrow> string result \<times> disk" where
  "os_ReadFile env path = os_call env (\<lambda>d.
     (case dk_files d path of None \<Rightarrow> Inl ErrNotExist | Some (Regular content) \<Rightarrow> Inr content | Some Special \<Rightarrow> sy_special env path, dk_files d))"

definition os_Lstat :: "system \<Rightarrow> string \<Rightarrow> disk \<Rightarrow> node result \<times> disk" where
  "os_Lstat env path = os_call env (\<lambda>d. (case dk_files d path of None \<Rightarrow> Inl ErrNotExist | Some n \<Rightarrow> Inr n, dk_files d))"

definition os_Remove :: "system \<Rightarrow> string \<Rightarrow> disk \<Rightarrow> unit result \<times> disk" where
  "os_Remove env path = os_call env (\<lambda>d.
     if dk_files d path = None then (Inl ErrNotExist, dk_files d) else (Inr (), (dk_files d)(path := None)))"

definition os_Rename :: "system \<Rightarrow> string \<Rightarrow> string \<Rightarrow> disk \<Rightarrow> unit result \<times> disk" where
  "os_Rename env old new = os_call env (\<lambda>d.
     case dk_files d old of None \<Rightarrow> (Inl ErrNotExist, dk_files d) | Some n \<Rightarrow> (Inr (), ((dk_files d)(old := None))(new \<mapsto> n)))"

text \<open>Calls without an effect on the files: \<open>MkdirAll\<close>, \<open>Chmod\<close> of a temporary file, \<open>Sync\<close>, \<open>Close\<close>.\<close>

definition os_other :: "system \<Rightarrow> disk \<Rightarrow> unit result \<times> disk" where
  "os_other env = os_call env (\<lambda>d. (Inr (), dk_files d))"

definition temp_name :: "string \<Rightarrow> string \<Rightarrow> string \<Rightarrow> string" where
  "temp_name dir pattern random =
     (let suffix = after_last (\<lambda>c. c = CHR ''*'') pattern in
      (if hasSuffix dir ''/'' then dir else dir @ ''/'') @ take (length pattern - length suffix - 1) pattern @ random @ suffix)"

definition os_CreateTemp :: "system \<Rightarrow> string \<Rightarrow> string \<Rightarrow> disk \<Rightarrow> string result \<times> disk" where
  "os_CreateTemp env dir pattern d = os_call env (\<lambda>d.
     let name = temp_name dir pattern (sy_random env (dk_calls d)) in
     if dk_files d name = None then (Inr name, (dk_files d)(name \<mapsto> Regular [])) else (Inl ErrExist, dk_files d)) d"

text \<open>Appending to an open file; a failing write may have appended a prefix of its data.\<close>

definition os_Write :: "system \<Rightarrow> string \<Rightarrow> string \<Rightarrow> disk \<Rightarrow> unit result \<times> disk" where
  "os_Write env path bytes d =
     (let d1 = d\<lparr>dk_calls := dk_calls d + 1\<rparr>;
          appended = (\<lambda>more. case dk_files d path of Some (Regular old) \<Rightarrow> (dk_files d)(path \<mapsto> Regular (old @ more)) | _ \<Rightarrow> dk_files d) in
      case sy_fail env (dk_calls d) of
        Some e \<Rightarrow> (Inl e, d1\<lparr>dk_files := appended (take (sy_written env (dk_calls d)) bytes)\<rparr>)
      | None \<Rightarrow> (Inr (), d1\<lparr>dk_files := appended bytes\<rparr>))"

subsection \<open>Sequencing\<close>

text \<open>
  The statement sequence of the Go functions: run a call on the disk and go on with its result,
  or return its error; \<open>io_error\<close> wraps the error of a call, \<open>failing\<close> is a call that returns only an error.
\<close>

definition io_bind :: "'a result \<times> disk \<Rightarrow> ('a \<Rightarrow> disk \<Rightarrow> 'b result \<times> disk) \<Rightarrow> 'b result \<times> disk" where
  "io_bind m f = (case m of (Inl e, d) \<Rightarrow> (Inl e, d) | (Inr x, d) \<Rightarrow> f x d)"

definition io_error :: "(go_error \<Rightarrow> go_error) \<Rightarrow> 'a result \<times> disk \<Rightarrow> 'a result \<times> disk" where
  "io_error wrap m = (map_sum wrap (\<lambda>x. x) (fst m), snd m)"

definition failing :: "go_error option \<Rightarrow> unit result" where
  "failing e = (case e of None \<Rightarrow> Inr () | Some e \<Rightarrow> Inl e)"

lemma io_bind_simps [simp]: "io_bind (Inl e, d) f = (Inl e, d)" "io_bind (Inr x, d) f = f x d"
  by (simp_all add: io_bind_def)

lemma io_bind_Inr: "io_bind m f = (Inr y, d') \<longleftrightarrow> (\<exists>x d. m = (Inr x, d) \<and> f x d = (Inr y, d'))"
  by (auto simp: io_bind_def split: prod.splits sum.splits)

lemma io_bind_cases: "io_bind m f = (r, d') \<longleftrightarrow> (\<exists>e. m = (Inl e, d') \<and> r = Inl e) \<or> (\<exists>x d. m = (Inr x, d) \<and> f x d = (r, d'))"
  by (auto simp: io_bind_def split: prod.splits sum.splits)

lemma io_error_Inr [simp]: "io_error wrap m = (Inr x, d) \<longleftrightarrow> m = (Inr x, d)"
  by (cases m; cases "fst m") (auto simp: io_error_def)

lemma failing_Inr [simp]: "failing e = Inr x \<longleftrightarrow> e = None"
  by (cases e) (simp_all add: failing_def)

lemma failing_Inl [simp]: "failing e = Inl x \<longleftrightarrow> e = Some x"
  by (cases e) (simp_all add: failing_def)

subsection \<open>Capabilities of a platform (capabilities.go)\<close>

definition AtomicReplace :: string where "AtomicReplace = ''atomic-replace''"
definition RestrictivePermissions :: string where "RestrictivePermissions = ''restrictive-permissions''"
definition OwnerVerification :: string where "OwnerVerification = ''owner-verification''"

record Capabilities =
  cp_Platform :: string
  cp_AtomicReplace :: bool
  cp_RestrictivePermissions :: bool
  cp_OwnerVerification :: bool

definition capabilities_For :: "string \<Rightarrow> Capabilities" where
  "capabilities_For platform =
     (let known = platform \<in> set [''aix'', ''darwin'', ''dragonfly'', ''freebsd'', ''illumos'', ''ios'', ''linux'', ''netbsd'', ''openbsd'', ''solaris'', ''windows'']
      in \<lparr>cp_Platform = platform, cp_AtomicReplace = known, cp_RestrictivePermissions = known, cp_OwnerVerification = known\<rparr>)"

definition Supports :: "Capabilities \<Rightarrow> string \<Rightarrow> bool" where
  "Supports c capability =
     (if capability = AtomicReplace then cp_AtomicReplace c
      else if capability = RestrictivePermissions then cp_RestrictivePermissions c
      else if capability = OwnerVerification then cp_OwnerVerification c
      else False)"

definition Require :: "Capabilities \<Rightarrow> string \<Rightarrow> go_error option" where
  "Require c capability = (if Supports c capability then None else Some (Err ''filesystem capability unavailable: %s'' [capability]))"

subsection \<open>Temporary files (file.go)\<close>

record File =
  tf_path :: string
  tf_closed :: bool
  tf_committed :: bool

definition temp_Create :: "system \<Rightarrow> string \<Rightarrow> string \<Rightarrow> disk \<Rightarrow> File result \<times> disk" where
  "temp_Create env dir pattern d =
     (case os_CreateTemp env dir pattern d of
        (Inl e, d1) \<Rightarrow> (Inl e, d1)
      | (Inr path, d1) \<Rightarrow>
         (case os_other env d1 of
            (Inl e, d2) \<Rightarrow> (Inl e, snd (os_Remove env path (snd (os_other env d2))))
          | (Inr _, d2) \<Rightarrow> (Inr \<lparr>tf_path = path, tf_closed = False, tf_committed = False\<rparr>, d2)))"

definition temp_Write :: "system \<Rightarrow> string \<Rightarrow> File \<Rightarrow> disk \<Rightarrow> unit result \<times> disk" where
  "temp_Write env bytes file d = (if tf_closed file then (Inl ErrClosed, d) else os_Write env (tf_path file) bytes d)"

text \<open>Flushing and closing an open file; a file is closed only after both succeeded.\<close>

definition sync_close :: "system \<Rightarrow> File \<Rightarrow> disk \<Rightarrow> (unit result \<times> File) \<times> disk" where
  "sync_close env file d =
     (if tf_closed file then ((Inr (), file), d)
      else case os_other env d of
        (Inl e, d1) \<Rightarrow> ((Inl e, file), d1)
      | (Inr _, d1) \<Rightarrow>
         (case os_other env d1 of
            (Inl e, d2) \<Rightarrow> ((Inl e, file), d2)
          | (Inr _, d2) \<Rightarrow> ((Inr (), file\<lparr>tf_closed := True\<rparr>), d2)))"

definition temp_Commit :: "system \<Rightarrow> string \<Rightarrow> File \<Rightarrow> disk \<Rightarrow> (unit result \<times> File) \<times> disk" where
  "temp_Commit env path file d =
     (case Require (capabilities_For (sy_GOOS env)) AtomicReplace of
        Some e \<Rightarrow> ((Inl e, file), d)
      | None \<Rightarrow>
         if tf_committed file then ((Inl (Err ''temporary file already committed'' []), file), d)
         else case sync_close env file d of
           ((Inl e, file1), d1) \<Rightarrow> ((Inl e, file1), d1)
         | ((Inr _, file1), d1) \<Rightarrow>
            (case os_Rename env (tf_path file1) path d1 of
               (Inl e, d2) \<Rightarrow> ((Inl e, file1), d2)
             | (Inr _, d2) \<Rightarrow> ((Inr (), file1\<lparr>tf_committed := True\<rparr>), d2)))"

definition temp_Cleanup :: "system \<Rightarrow> File \<Rightarrow> disk \<Rightarrow> unit result \<times> disk" where
  "temp_Cleanup env file d =
     (case (if tf_closed file then (Inr (), d) else os_other env d) of (shut, d1) \<Rightarrow>
      if tf_committed file then (shut, d1)
      else case os_Remove env (tf_path file) d1 of
        (Inr _, d2) \<Rightarrow> (shut, d2)
      | (Inl e, d2) \<Rightarrow> (if e \<noteq> ErrNotExist \<and> shut = Inr () then Inl e else shut, d2))"

text \<open>
  Replacing a file: what \<open>config.Write\<close>, \<open>WriteKeyring\<close>, \<open>WriteState\<close> and \<open>writeInstalledFile\<close> do
  with their data, the deferred clean-up included. Of two errors joined by \<open>errors.Join\<close> the model
  keeps the first.
\<close>

definition errors_Join :: "unit result \<Rightarrow> unit result \<Rightarrow> unit result" where
  "errors_Join a b = (case a of Inl e \<Rightarrow> Inl e | Inr _ \<Rightarrow> b)"

definition replace_file :: "system \<Rightarrow> string \<Rightarrow> string \<Rightarrow> string \<Rightarrow> string \<Rightarrow> disk \<Rightarrow> unit result \<times> disk" where
  "replace_file env dir pattern path bytes d =
     (case temp_Create env dir pattern d of
        (Inl e, d1) \<Rightarrow> (Inl e, d1)
      | (Inr file, d1) \<Rightarrow>
         (case temp_Write env bytes file d1 of
            (Inl e, d2) \<Rightarrow> (case temp_Cleanup env file d2 of (r, d3) \<Rightarrow> (errors_Join (Inl e) r, d3))
          | (Inr _, d2) \<Rightarrow>
             (case temp_Commit env path file d2 of ((committed, file1), d3) \<Rightarrow>
              case temp_Cleanup env file1 d3 of (r, d4) \<Rightarrow> (errors_Join committed r, d4))))"

definition filepath_Base :: "string \<Rightarrow> string" where
  "filepath_Base path =
     (if path = [] then ''.''
      else let stripped = rev (dropWhile (\<lambda>c. c = slash) (rev path)); base = after_last (\<lambda>c. c = slash) stripped in
        if base = [] then ''/'' else base)"

definition filepath_Dir :: "string \<Rightarrow> string" where
  "filepath_Dir path = filepath_Clean (fst (filepath_Split path))"

definition temp_pattern :: "string \<Rightarrow> string" where
  "temp_pattern path = ''.'' @ filepath_Base path @ ''.tmp-*''"

subsection \<open>Replacing a file is atomic\<close>

lemma os_call_cases:
  assumes "os_call env f d = (r, d')"
  obtains e where "sy_fail env (dk_calls d) = Some e" "r = Inl e" "dk_files d' = dk_files d" "dk_calls d' = Suc (dk_calls d)"
  | "sy_fail env (dk_calls d) = None" "f d = (r, dk_files d')" "dk_calls d' = Suc (dk_calls d)"
  using assms by (auto simp: os_call_def Let_def split: option.splits prod.splits)

lemma os_other_files: "os_other env d = (r, d') \<Longrightarrow> dk_files d' = dk_files d"
  by (auto simp: os_other_def elim!: os_call_cases)

lemma os_Remove_files: "os_Remove env path d = (r, d') \<Longrightarrow>
    dk_files d' = (if r = Inr () then (dk_files d)(path := None) else dk_files d)"
  by (auto simp: os_Remove_def elim!: os_call_cases split: if_splits)

lemma os_Rename_files: "os_Rename env old new d = (r, d') \<Longrightarrow>
    if r = Inr () then \<exists>n. dk_files d old = Some n \<and> dk_files d' = ((dk_files d)(old := None))(new \<mapsto> n) else dk_files d' = dk_files d"
  by (auto simp: os_Rename_def elim!: os_call_cases split: option.splits)

lemma os_CreateTemp_files: "os_CreateTemp env dir pattern d = (r, d') \<Longrightarrow>
    case r of Inl e \<Rightarrow> dk_files d' = dk_files d
    | Inr name \<Rightarrow> name = temp_name dir pattern (sy_random env (dk_calls d)) \<and> dk_files d name = None \<and> dk_files d' = (dk_files d)(name \<mapsto> Regular [])"
  by (auto simp: os_CreateTemp_def Let_def elim!: os_call_cases split: if_splits)

lemma os_Write_files: "os_Write env path bytes d = (r, d') \<Longrightarrow> dk_files d path = Some (Regular old) \<Longrightarrow>
    \<exists>more. dk_files d' = (dk_files d)(path \<mapsto> Regular (old @ more)) \<and> (r = Inr () \<longrightarrow> more = bytes)"
  by (auto simp: os_Write_def Let_def split: option.splits)

text \<open>The state of the disk while a temporary file exists: as before, plus that file.\<close>

definition with_temp :: "disk \<Rightarrow> string \<Rightarrow> string \<Rightarrow> disk \<Rightarrow> bool" where
  "with_temp d name content d' \<longleftrightarrow> dk_files d name = None \<and> dk_files d' = (dk_files d)(name \<mapsto> Regular content)"

text \<open>What is left after a failure: nothing, or the temporary file that could not be removed.\<close>

definition left_behind :: "disk \<Rightarrow> string \<Rightarrow> disk \<Rightarrow> bool" where
  "left_behind d name d' \<longleftrightarrow> dk_files d' = dk_files d \<or> (\<exists>content. with_temp d name content d')"

lemma remove_with_temp: "with_temp d name content d1 \<Longrightarrow> os_Remove env name d1 = (r, d2) \<Longrightarrow> left_behind d name d2"
  using os_Remove_files [of env name d1 r d2] by (auto simp: with_temp_def left_behind_def fun_upd_idem split: if_splits)

lemma other_with_temp: "with_temp d name content d1 \<Longrightarrow> os_other env d1 = (r, d2) \<Longrightarrow> with_temp d name content d2"
  using os_other_files [of env d1 r d2] by (simp add: with_temp_def)

lemma temp_Create_files:
  assumes "temp_Create env dir pattern d = (r, d')"
  defines "name \<equiv> temp_name dir pattern (sy_random env (dk_calls d))"
  shows "case r of Inl e \<Rightarrow> left_behind d name d'
    | Inr file \<Rightarrow> file = \<lparr>tf_path = name, tf_closed = False, tf_committed = False\<rparr> \<and> with_temp d name [] d'"
proof -
  obtain r1 d1 where c: "os_CreateTemp env dir pattern d = (r1, d1)" by (meson prod.exhaust)
  note f = os_CreateTemp_files [OF c]
  show ?thesis
  proof (cases r1)
    case (Inl e)
    with assms c f show ?thesis by (auto simp: temp_Create_def left_behind_def)
  next
    case (Inr path)
    with f have t: "path = name" "with_temp d name [] d1" by (auto simp: name_def with_temp_def)
    obtain r2 d2 where o: "os_other env d1 = (r2, d2)" by (meson prod.exhaust)
    note t2 = other_with_temp [OF t(2) o]
    obtain r3 d3 where o3: "os_other env d2 = (r3, d3)" by (meson prod.exhaust)
    obtain r4 d4 where m: "os_Remove env name d3 = (r4, d4)" by (meson prod.exhaust)
    from remove_with_temp [OF other_with_temp [OF t2 o3] m] t t2 Inr c o o3 m assms(1) show ?thesis
      by (auto simp: temp_Create_def split: sum.splits)
  qed
qed

lemma temp_Cleanup_removes:
  assumes "with_temp d (tf_path file) content d1" "\<not> tf_committed file" "temp_Cleanup env file d1 = (r, d2)"
  shows "left_behind d (tf_path file) d2"
proof -
  obtain c d0 where c: "(if tf_closed file then (Inr (), d1) else os_other env d1) = (c, d0)" by (meson prod.exhaust)
  then have "with_temp d (tf_path file) content d0" using assms(1) other_with_temp by (auto split: if_splits)
  moreover obtain q d3 where m: "os_Remove env (tf_path file) d0 = (q, d3)" by (meson prod.exhaust)
  ultimately have "left_behind d (tf_path file) d3" by (rule remove_with_temp)
  moreover have "d2 = d3" using assms(2,3) m by (simp add: temp_Cleanup_def c split: sum.splits)
  ultimately show ?thesis by simp
qed

lemma temp_Commit_files:
  assumes "with_temp d (tf_path file) content d1" "\<not> tf_committed file" "temp_Commit env path file d1 = ((r, file1), d2)"
  shows "tf_path file1 = tf_path file \<and>
    (if r = Inr () then tf_committed file1 \<and> tf_closed file1 \<and> dk_files d2 = ((dk_files d)(path \<mapsto> Regular content)) (tf_path file := if tf_path file = path then Some (Regular content) else None)
     else \<not> tf_committed file1 \<and> with_temp d (tf_path file) content d2)"
proof -
  obtain q f2 d3 where c: "sync_close env file d1 = ((q, f2), d3)" by (metis surj_pair)
  have f2: "tf_path f2 = tf_path file" "\<not> tf_committed f2" "q = Inr () \<longrightarrow> tf_closed f2"
    using c assms(2) by (auto simp: sync_close_def split: if_splits prod.splits sum.splits)
  have t: "with_temp d (tf_path file) content d3"
    using c assms(1) by (auto simp: sync_close_def split: if_splits prod.splits sum.splits dest!: os_other_files simp: with_temp_def)
  obtain p d4 where n: "os_Rename env (tf_path f2) path d3 = (p, d4)" by (meson prod.exhaust)
  note os_Rename_files [OF n]
  with assms c f2 t n show ?thesis
    by (cases p) (auto simp: temp_Commit_def with_temp_def fun_upd_twist split: option.splits if_splits sum.splits)
qed

text \<open>
  Replacing a file either succeeds, and then exactly that file changed and has exactly the new
  content, or fails, and then no file changed; at most the temporary file is left behind.
\<close>

lemma replace_file_atomic:
  assumes "replace_file env dir pattern path bytes d = (r, d')"
  defines "name \<equiv> temp_name dir pattern (sy_random env (dk_calls d))"
  assumes "name \<noteq> path"
  shows "if r = Inr () then dk_files d' = (dk_files d)(path \<mapsto> Regular bytes) else left_behind d name d'"
proof -
  obtain r1 d1 where c: "temp_Create env dir pattern d = (r1, d1)" by (meson prod.exhaust)
  note created = temp_Create_files [OF c, folded name_def]
  show ?thesis
  proof (cases r1)
    case (Inl e)
    with assms(1) c created show ?thesis by (auto simp: replace_file_def)
  next
    case (Inr tmp)
    with created have f: "tf_path tmp = name" "\<not> tf_committed tmp" "\<not> tf_closed tmp" and t: "with_temp d (tf_path tmp) [] d1" by auto
    obtain w d2 where w: "temp_Write env bytes tmp d1 = (w, d2)" by (meson prod.exhaust)
    then obtain more where m: "with_temp d (tf_path tmp) more d2" "w = Inr () \<longrightarrow> more = bytes"
      using os_Write_files [of env name bytes d1 w d2 "[]"] t f by (auto simp: temp_Write_def with_temp_def)
    obtain x d3 where x: "temp_Cleanup env tmp d2 = (x, d3)" by (meson prod.exhaust)
    show ?thesis
    proof (cases w)
      case (Inl e)
      with temp_Cleanup_removes [OF m(1) f(2) x] assms(1) c Inr w x f(1) show ?thesis
        by (auto simp: replace_file_def errors_Join_def)
    next
      case w': (Inr u)
      obtain q tmp1 d4 where q: "temp_Commit env path tmp d2 = ((q, tmp1), d4)" by (metis surj_pair)
      note k = temp_Commit_files [OF m(1) f(2) q]
      obtain y d5 where y: "temp_Cleanup env tmp1 d4 = (y, d5)" by (meson prod.exhaust)
      have r: "r = errors_Join q y" "d' = d5" using assms(1) c Inr w w' q y by (simp_all add: replace_file_def)
      show ?thesis
      proof (cases q)
        case (Inr v)
        with k y have "y = Inr ()" "d5 = d4" by (auto simp: temp_Cleanup_def)
        moreover have "more = bytes" using m(2) w' by simp
        moreover have "dk_files d name = None" using m(1) f(1) by (simp add: with_temp_def)
        ultimately show ?thesis using k r Inr f(1) assms(3) by (auto simp: errors_Join_def fun_eq_iff)
      next
        case (Inl e)
        with k temp_Cleanup_removes [of d tmp1 more d4 env y d5] y f(1) r show ?thesis by (auto simp: errors_Join_def)
      qed
    qed
  qed
qed

text \<open>A temporary tmp never has the name of the tmp it is to replace.\<close>

definition plain_random :: "system \<Rightarrow> bool" where
  "plain_random env \<longleftrightarrow> (\<forall>n. slash \<notin> set (sy_random env n))"

lemma after_last_append: "\<forall>c\<in>set v. \<not> p c \<Longrightarrow> after_last p (u @ v) = after_last p u @ v"
  using takeWhile_append2 [of "rev v" "\<lambda>c. \<not> p c" "rev u"] by (simp add: after_last_def)

lemma after_last_split: "p c \<Longrightarrow> \<forall>c\<in>set v. \<not> p c \<Longrightarrow> after_last p (u @ c # v) = v"
  using after_last_append [of v p "u @ [c]"] by (simp add: after_last_def)

lemma base_of_path: "length (after_last (\<lambda>c. c = slash) path) \<le> length (filepath_Base path)"
    "slash \<in> set (filepath_Base path) \<Longrightarrow> after_last (\<lambda>c. c = slash) path = []"
proof -
  let ?strip = "rev (dropWhile (\<lambda>c. c = slash) (rev path))"
  have ends: "after_last (\<lambda>c. c = slash) path = [] \<or> ?strip = path"
    by (cases "rev path") (auto simp: after_last_def rev_swap)
  have free: "slash \<notin> set (after_last (\<lambda>c. c = slash) s)" for s using after_last_free [of "\<lambda>c. c = slash" s] by auto
  show "length (after_last (\<lambda>c. c = slash) path) \<le> length (filepath_Base path)"
  proof (cases "after_last (\<lambda>c. c = slash) path = []")
    case False
    with ends have "?strip = path" "path \<noteq> []" by (auto simp: after_last_def)
    then show ?thesis using False by (simp add: filepath_Base_def Let_def)
  qed simp
  show "after_last (\<lambda>c. c = slash) path = []" if "slash \<in> set (filepath_Base path)"
  proof (rule ccontr)
    assume n: "after_last (\<lambda>c. c = slash) path \<noteq> []"
    then have "path \<noteq> []" by (auto simp: after_last_def)
    with n ends that free show False by (auto simp: filepath_Base_def Let_def split: if_splits)
  qed
qed

lemma temp_name_pattern:
  "temp_name dir (temp_pattern path) random = (if hasSuffix dir ''/'' then dir else dir @ ''/'') @ ''.'' @ filepath_Base path @ ''.tmp-'' @ random"
proof -
  have "after_last (\<lambda>c. c = CHR ''*'') (temp_pattern path) = []" by (simp add: after_last_def temp_pattern_def)
  moreover have "temp_pattern path = (''.'' @ filepath_Base path @ ''.tmp-'') @ ''*''" by (simp add: temp_pattern_def)
  ultimately show ?thesis by (simp add: temp_name_def Let_def)
qed

lemma temp_name_longer:
  assumes "plain_random env" "slash \<notin> set (filepath_Base path)" "length (after_last (\<lambda>c. c = slash) q) \<le> length (filepath_Base path)"
  shows "temp_name dir (temp_pattern path) (sy_random env n) \<noteq> q"
proof -
  let ?a = "after_last (\<lambda>c. c = slash)" let ?r = "''.'' @ filepath_Base path @ ''.tmp-'' @ sy_random env n"
  have r: "\<forall>c\<in>set ?r. c \<noteq> slash" using assms(1,2) by (auto simp: plain_random_def slash_def)
  obtain u where "(if hasSuffix dir ''/'' then dir else dir @ ''/'') = u @ [slash]"
    by (auto simp: hasSuffix_def slash_def split: if_splits) (metis append_take_drop_id)
  then have "?a (temp_name dir (temp_pattern path) (sy_random env n)) = ?r"
    using after_last_split [of "\<lambda>c. c = slash" slash ?r u] r by (simp add: temp_name_pattern)
  then show ?thesis using assms(3) by fastforce
qed

lemma temp_name_other:
  assumes "plain_random env"
  shows "temp_name dir (temp_pattern path) (sy_random env n) \<noteq> path"
proof (cases "slash \<in> set (filepath_Base path)")
  case True
  let ?a = "after_last (\<lambda>c. c = slash)"
  have r: "\<forall>c\<in>set (''.tmp-'' @ sy_random env n). c \<noteq> slash" using assms by (auto simp: plain_random_def slash_def)
  have "?a (temp_name dir (temp_pattern path) (sy_random env n)) \<noteq> []"
    using after_last_append [OF r, of "(if hasSuffix dir ''/'' then dir else dir @ ''/'') @ ''.'' @ filepath_Base path"] by (simp add: temp_name_pattern)
  with base_of_path(2) [OF True] show ?thesis by metis
next
  case False
  then show ?thesis using temp_name_longer [OF assms _ base_of_path(1)] by blast
qed

end
