(* ===== verification/StateFiles.thy ===== *)
theory StateFiles
  imports Files JSONProps Config PackRegistry
begin

section \<open>Stored state: configuration, keyring and enabled packs as files\<close>

text \<open>
  The files the program keeps, each an indented JSON text: the configuration
  (\<open>internal/config/config.go\<close>), the keyring and the enabled packs (\<open>internal/packs/keyring.go\<close>,
  \<open>state.go\<close>), with the functions that load and write them on the disk of theory \<open>Files\<close>. The
  locale \<open>json_file\<close> states what a stored type owes: its decoder reads back what its encoder
  printed. From that it follows once, for all three, that a successful write is read back
  exactly and a failed one changes nothing. An empty slice is printed as \<open>null\<close> if it is nil and
  as \<open>[]\<close> otherwise; as the model has one empty list, the encoders take the difference as an argument.
\<close>

subsection \<open>A stored type\<close>

definition json_file_text :: "json \<Rightarrow> string" where
  "json_file_text v = json_indented v @ [CHR 0x0A]"

definition write_json :: "system \<Rightarrow> string \<Rightarrow> json \<Rightarrow> disk \<Rightarrow> unit result \<times> disk" where
  "write_json env path v d = replace_file env (filepath_Dir path) (temp_pattern path) path (json_file_text v) d"

definition load_file :: "system \<Rightarrow> (string \<Rightarrow> 'a result) \<Rightarrow> 'a \<Rightarrow> string \<Rightarrow> disk \<Rightarrow> 'a result \<times> disk" where
  "load_file env decode missing path d =
     (case os_ReadFile env path d of
        (Inl e, d1) \<Rightarrow> (if e = ErrNotExist then Inr missing else Inl e, d1)
      | (Inr bytes, d1) \<Rightarrow> (decode bytes, d1))"

text \<open>
  What a write owes: on success exactly the file changed and a load that can read it returns what
  was written; on failure no file changed, but for a new temporary one.
\<close>

definition stored :: "system \<Rightarrow> string \<Rightarrow> (disk \<Rightarrow> 'a result \<times> disk) \<Rightarrow> 'a \<Rightarrow> disk \<Rightarrow> unit result \<times> disk \<Rightarrow> bool" where
  "stored env path load x d = (\<lambda>(r, d').
     if r = Inr () then (\<exists>content. dk_files d' = (dk_files d)(path \<mapsto> Regular content)) \<and>
       (sy_fail env (dk_calls d') = None \<longrightarrow> fst (load d') = Inr x)
     else dk_files d' = dk_files d \<or> (\<exists>name content. dk_files d name = None \<and> name \<noteq> path \<and> dk_files d' = (dk_files d)(name \<mapsto> Regular content)))"

locale json_file =
  fixes encode :: "'a \<Rightarrow> json" and decode :: "string \<Rightarrow> 'a result" and ok :: "'a \<Rightarrow> bool"
  assumes decode_encode: "ok x \<Longrightarrow> decode (json_file_text (encode x)) = Inr x"
begin

lemma write_stored:
  assumes "plain_random env" "ok x" "dk_files d = dk_files d0"
  shows "stored env path (load_file env decode missing path) x d0 (write_json env path (encode x) d)"
proof -
  obtain r d' where w: "write_json env path (encode x) d = (r, d')" by (meson prod.exhaust)
  note name = temp_name_other [OF assms(1), of "filepath_Dir path" path "dk_calls d"]
  from replace_file_atomic [OF w [unfolded write_json_def] name] name assms(2,3) show ?thesis
    by (auto simp: w stored_def left_behind_def with_temp_def load_file_def os_ReadFile_def os_call_def decode_encode split: if_splits)
qed

end

subsection \<open>The configuration file (config.go)\<close>

definition encode_display :: "Display \<Rightarrow> json" where
  "encode_display c = JObject [(''cause'', JBool (di_Cause c)), (''change'', JBool (di_Change c)), (''confidence'', JBool (di_Confidence c)),
     (''risk'', JBool (di_Risk c)), (''consequence'', JBool (di_Consequence c)), (''trace'', JBool (di_Trace c))]"

definition encode_exception :: "RuleException \<Rightarrow> json" where
  "encode_exception e = JObject [(''id'', JString (re_ID e)), (''command'', JString (re_Command e))]"

definition encode_config :: "Config \<Rightarrow> json" where
  "encode_config c = JObject ([(''schema_version'', JNumber (itoa (cf_SchemaVersion c))), (''mode'', JString (cf_Mode c)),
      (''display'', encode_display (cf_Display c)), (''auto_apply_safe'', JBool (cf_AutoApplySafe c))]
     @ (if cf_LocalHistoryEnabled c then [(''local_history_enabled'', JBool True)] else [])
     @ [(''curated_packs_enabled'', JBool (cf_CuratedPacksEnabled c)), (''risk_interrupt'', JBool (cf_RiskInterrupt c)),
      (''local_learning_enabled'', JBool (cf_LocalLearningEnabled c)),
      (''learning_retention_days'', JNumber (itoa (cf_LearningRetentionDays c))),
      (''learned_rule_action_ceiling'', JString (cf_LearnedRuleActionCeiling c)), (''undo_enabled'', JBool (cf_UndoEnabled c)),
      (''undo_ttl_seconds'', JNumber (itoa (cf_UndoTTLSeconds c)))]
     @ (if cf_RuleExceptions c = [] then [] else [(''rule_exceptions'', JArray (map encode_exception (cf_RuleExceptions c)))]))"

definition struct_field :: "bool \<Rightarrow> 'f field list \<Rightarrow> ('r \<Rightarrow> 'f) \<Rightarrow> ('f \<Rightarrow> 'r \<Rightarrow> 'r) \<Rightarrow> json \<Rightarrow> 'r \<Rightarrow> 'r option" where
  "struct_field strict fs get upd v r = map_option (\<lambda>x. upd x r) (decode_struct strict fs v (get r))"

definition display_struct :: "Display field list" where
  "display_struct =
    [(''cause'', bool_field (\<lambda>b c. c\<lparr>di_Cause := b\<rparr>)), (''change'', bool_field (\<lambda>b c. c\<lparr>di_Change := b\<rparr>)),
     (''confidence'', bool_field (\<lambda>b c. c\<lparr>di_Confidence := b\<rparr>)), (''risk'', bool_field (\<lambda>b c. c\<lparr>di_Risk := b\<rparr>)),
     (''consequence'', bool_field (\<lambda>b c. c\<lparr>di_Consequence := b\<rparr>)), (''trace'', bool_field (\<lambda>b c. c\<lparr>di_Trace := b\<rparr>))]"

definition exception_struct :: "RuleException field list" where
  "exception_struct = [(''id'', string_field (\<lambda>s e. e\<lparr>re_ID := s\<rparr>)), (''command'', string_field (\<lambda>s e. e\<lparr>re_Command := s\<rparr>))]"

definition config_struct :: "Config field list" where
  "config_struct =
    [(''schema_version'', int_field (\<lambda>i c. c\<lparr>cf_SchemaVersion := i\<rparr>)),
     (''mode'', string_field (\<lambda>s c. c\<lparr>cf_Mode := s\<rparr>)),
     (''display'', struct_field True display_struct cf_Display (\<lambda>x c. c\<lparr>cf_Display := x\<rparr>)),
     (''auto_apply_safe'', bool_field (\<lambda>b c. c\<lparr>cf_AutoApplySafe := b\<rparr>)),
     (''local_history_enabled'', bool_field (\<lambda>b c. c\<lparr>cf_LocalHistoryEnabled := b\<rparr>)),
     (''curated_packs_enabled'', bool_field (\<lambda>b c. c\<lparr>cf_CuratedPacksEnabled := b\<rparr>)),
     (''risk_interrupt'', bool_field (\<lambda>b c. c\<lparr>cf_RiskInterrupt := b\<rparr>)),
     (''local_learning_enabled'', bool_field (\<lambda>b c. c\<lparr>cf_LocalLearningEnabled := b\<rparr>)),
     (''learning_retention_days'', int_field (\<lambda>i c. c\<lparr>cf_LearningRetentionDays := i\<rparr>)),
     (''learned_rule_action_ceiling'', string_field (\<lambda>s c. c\<lparr>cf_LearnedRuleActionCeiling := s\<rparr>)),
     (''undo_enabled'', bool_field (\<lambda>b c. c\<lparr>cf_UndoEnabled := b\<rparr>)),
     (''undo_ttl_seconds'', int_field (\<lambda>i c. c\<lparr>cf_UndoTTLSeconds := i\<rparr>)),
     (''rule_exceptions'', slice_field (decode_struct True exception_struct) \<lparr>re_ID = [], re_Command = []\<rparr> cf_RuleExceptions
        (\<lambda>es c. c\<lparr>cf_RuleExceptions := es\<rparr>))]"

text \<open>
  The members of an object as \<open>json.Unmarshal\<close> puts them into a map (of equal keys the last counts)
  and \<open>json.Marshal\<close> prints that map (in the order of the keys).
\<close>

definition map_members :: "(string \<times> json) list \<Rightarrow> (string \<times> json) list" where
  "map_members kvs = map (\<lambda>k. (k, case map_of (rev kvs) k of Some v \<Rightarrow> v | None \<Rightarrow> JNull)) (sort (remdups (map fst kvs)))"

definition schema_version :: "(string \<times> json) list \<Rightarrow> int result" where
  "schema_version members =
     (case map_of members ''schema_version'' of
        None \<Rightarrow> Inr 0
      | Some (JNumber n) \<Rightarrow> (case atoi n of (i, ok) \<Rightarrow> if ok then Inr i else Inl (Err ''parse config: schema_version must be an integer'' []))
      | Some _ \<Rightarrow> Inl (Err ''parse config: schema_version must be an integer'' []))"

definition config_decode :: "string \<Rightarrow> Config \<Rightarrow> Config result" where
  "config_decode bytes base =
     (case json_Unmarshal bytes of
        Some (JObject kvs) \<Rightarrow>
          (let members = filter (\<lambda>(k, v). k \<noteq> ''registry_enabled'' \<and> k \<noteq> ''auto_update_enabled'') (map_members kvs) in
           case schema_version members of
             Inl e \<Rightarrow> Inl e
           | Inr version \<Rightarrow>
              (case decode_struct True config_struct
                  (JObject (filter (\<lambda>(k, v). \<not> (version \<le> 6 \<and> k = ''curated_auto_correct'')) members)) base of
                 None \<Rightarrow> Inl (Err ''parse config'' [])
               | Some c \<Rightarrow> decode_checked c version))
      | Some JNull \<Rightarrow> Inl (Err ''parse config: configuration must be a JSON object'' [])
      | _ \<Rightarrow> Inl (Err ''parse config'' []))"

definition LoadGlobal :: "system \<Rightarrow> string \<Rightarrow> disk \<Rightarrow> Config result \<times> disk" where
  "LoadGlobal env path d = load_file env (\<lambda>bytes. config_decode bytes Default) Default path d"

definition config_Write :: "system \<Rightarrow> string \<Rightarrow> Config \<Rightarrow> disk \<Rightarrow> unit result \<times> disk" where
  "config_Write env path c d = write_json env path (encode_config c) d"

subsection \<open>Keyring and enabled packs (keyring.go, state.go)\<close>

definition json_slice :: "bool \<Rightarrow> json list \<Rightarrow> json" where
  "json_slice nil vs = (if vs = [] \<and> nil then JNull else JArray vs)"

definition string_element :: "json \<Rightarrow> string \<Rightarrow> string option" where
  "string_element = string_field (\<lambda>s _. s)"

definition encode_publisher :: "PublisherKey \<Rightarrow> json" where
  "encode_publisher k = JObject [(''id'', JString (pk_ID k)), (''public_key'', JString (pk_PublicKey k))]"

definition encode_keyring :: "bool \<Rightarrow> Keyring \<Rightarrow> json" where
  "encode_keyring nil k = JObject ((''publishers'', json_slice nil (map encode_publisher (k_Publishers k)))
     # (if k_Revoked k = [] then [] else [(''revoked'', JArray (map JString (k_Revoked k)))]))"

definition publisher_struct :: "PublisherKey field list" where
  "publisher_struct = [(''id'', string_field (\<lambda>s k. k\<lparr>pk_ID := s\<rparr>)), (''public_key'', string_field (\<lambda>s k. k\<lparr>pk_PublicKey := s\<rparr>))]"

definition keyring_struct :: "Keyring field list" where
  "keyring_struct =
    [(''publishers'', slice_field (decode_struct True publisher_struct) \<lparr>pk_ID = [], pk_PublicKey = []\<rparr> k_Publishers (\<lambda>ps k. k\<lparr>k_Publishers := ps\<rparr>)),
     (''revoked'', slice_field string_element [] k_Revoked (\<lambda>rs k. k\<lparr>k_Revoked := rs\<rparr>))]"

definition zeroKeyring :: Keyring where "zeroKeyring = \<lparr>k_Publishers = [], k_Revoked = []\<rparr>"

definition decode_valid :: "string \<Rightarrow> 'r field list \<Rightarrow> 'r \<Rightarrow> ('r \<Rightarrow> go_error option) \<Rightarrow> string \<Rightarrow> 'r result" where
  "decode_valid failed fs zero validate bytes =
     (case decode_first bytes of
        None \<Rightarrow> Inl (Err failed [])
      | Some (v, rest) \<Rightarrow>
         (case decode_struct True fs v zero of
            None \<Rightarrow> Inl (Err failed [])
          | Some x \<Rightarrow> (case validate x of Some e \<Rightarrow> Inl e | None \<Rightarrow> Inr x)))"

definition keyring_decode :: "string \<Rightarrow> Keyring result" where
  "keyring_decode = decode_valid ''parse keyring: %w'' keyring_struct zeroKeyring keyring_Validate"

definition LoadKeyring :: "system \<Rightarrow> string \<Rightarrow> disk \<Rightarrow> Keyring result \<times> disk" where
  "LoadKeyring env path d = load_file env keyring_decode zeroKeyring path d"

definition WriteKeyring :: "system \<Rightarrow> string \<Rightarrow> bool \<Rightarrow> Keyring \<Rightarrow> disk \<Rightarrow> unit result \<times> disk" where
  "WriteKeyring env path nil k d =
     (case keyring_Validate k of
        Some e \<Rightarrow> (Inl e, d)
      | None \<Rightarrow> (case os_other env d of (Inl e, d1) \<Rightarrow> (Inl e, d1) | (Inr _, d1) \<Rightarrow> write_json env path (encode_keyring nil k) d1))"

definition encode_state :: "bool \<Rightarrow> pack_State \<Rightarrow> json" where
  "encode_state nil s = JObject [(''enabled'', json_slice nil (map JString (ps_Enabled s)))]"

definition state_struct :: "pack_State field list" where
  "state_struct = [(''enabled'', slice_field string_element [] ps_Enabled (\<lambda>es s. s\<lparr>ps_Enabled := es\<rparr>))]"

definition zeroState :: pack_State where "zeroState = \<lparr>ps_Enabled = []\<rparr>"

definition state_decode :: "string \<Rightarrow> pack_State result" where
  "state_decode = decode_valid ''parse pack state: %w'' state_struct zeroState state_Validate"

definition LoadState :: "system \<Rightarrow> string \<Rightarrow> disk \<Rightarrow> pack_State result \<times> disk" where
  "LoadState env path d = load_file env state_decode zeroState path d"

definition WriteState :: "system \<Rightarrow> string \<Rightarrow> bool \<Rightarrow> pack_State \<Rightarrow> disk \<Rightarrow> unit result \<times> disk" where
  "WriteState env path nil s d =
     (case state_Validate s of
        Some e \<Rightarrow> (Inl e, d)
      | None \<Rightarrow> (case os_other env d of (Inl e, d1) \<Rightarrow> (Inl e, d1) | (Inr _, d1) \<Rightarrow> write_json env path (encode_state nil s) d1))"

subsection \<open>Round trips\<close>

text \<open>A configuration that can be stored: checked, of the current schema, with commands of valid UTF-8.\<close>

definition storable :: "Config \<Rightarrow> bool" where
  "storable c \<longleftrightarrow> config_ok c \<and> cf_SchemaVersion c = CurrentSchemaVersion \<and> (\<forall>e\<in>set (cf_RuleExceptions c). valid_utf8 (re_Command e))"

definition config_keys :: "string list" where
  "config_keys = [''schema_version'', ''mode'', ''display'', ''auto_apply_safe'', ''curated_packs_enabled'', ''risk_interrupt'',
     ''local_learning_enabled'', ''learning_retention_days'', ''learned_rule_action_ceiling'', ''undo_enabled'', ''undo_ttl_seconds'', ''rule_exceptions'',
     ''cause'', ''change'', ''confidence'', ''risk'', ''consequence'', ''trace'', ''id'', ''command'', ''publishers'', ''public_key'', ''revoked'', ''enabled'']"

lemma config_keys_valid: "list_all (\<lambda>k. valid_text k = k) config_keys"
  by (simp add: config_keys_def valid_text_ascii)

lemmas config_key_texts = config_keys_valid [unfolded config_keys_def, simplified]

lemma valid_mode_text: "validMode m \<Longrightarrow> valid_text m = m" "validLearnedRuleAction m \<Longrightarrow> valid_text m = m"
  by (auto simp: validMode_def validLearnedRuleAction_def valid_text_ascii)

lemma rule_id_text: "validateRuleException e = None \<Longrightarrow> valid_text (re_ID e) = re_ID e"
proof (rule valid_text_low)
  assume "validateRuleException e = None"
  then have v: "validRuleExceptionID (re_ID e)" by (simp add: validateRuleException_def split: if_splits)
  have tail: "id_tail_char r \<Longrightarrow> r < 0x80" for r by (auto simp: id_tail_char_def)
  obtain c s where cs: "re_ID e = c # s" "byte c < 0x80" "list_all id_tail_char (runes s)"
    using v by (cases "re_ID e") (auto simp: validRuleExceptionID_def)
  from cs(3) have "list_all (\<lambda>r. r < 0x80) (runes s)" by (rule list.pred_mono_strong) (use tail in auto)
  with cs(1,2) show "list_all (\<lambda>r. r < 0x80) (runes (re_ID e))" by simp
qed

lemma find_config_field:
  "find_field config_struct ''schema_version'' = Some (int_field (\<lambda>i c. c\<lparr>cf_SchemaVersion := i\<rparr>))"
  "find_field config_struct ''mode'' = Some (string_field (\<lambda>s c. c\<lparr>cf_Mode := s\<rparr>))"
  "find_field config_struct ''display'' = Some (struct_field True display_struct cf_Display (\<lambda>x c. c\<lparr>cf_Display := x\<rparr>))"
  "find_field config_struct ''auto_apply_safe'' = Some (bool_field (\<lambda>b c. c\<lparr>cf_AutoApplySafe := b\<rparr>))"
  "find_field config_struct ''curated_packs_enabled'' = Some (bool_field (\<lambda>b c. c\<lparr>cf_CuratedPacksEnabled := b\<rparr>))"
  "find_field config_struct ''risk_interrupt'' = Some (bool_field (\<lambda>b c. c\<lparr>cf_RiskInterrupt := b\<rparr>))"
  "find_field config_struct ''local_learning_enabled'' = Some (bool_field (\<lambda>b c. c\<lparr>cf_LocalLearningEnabled := b\<rparr>))"
  "find_field config_struct ''learning_retention_days'' = Some (int_field (\<lambda>i c. c\<lparr>cf_LearningRetentionDays := i\<rparr>))"
  "find_field config_struct ''learned_rule_action_ceiling'' = Some (string_field (\<lambda>s c. c\<lparr>cf_LearnedRuleActionCeiling := s\<rparr>))"
  "find_field config_struct ''undo_enabled'' = Some (bool_field (\<lambda>b c. c\<lparr>cf_UndoEnabled := b\<rparr>))"
  "find_field config_struct ''undo_ttl_seconds'' = Some (int_field (\<lambda>i c. c\<lparr>cf_UndoTTLSeconds := i\<rparr>))"
  "find_field config_struct ''rule_exceptions'' = Some (slice_field (decode_struct True exception_struct) \<lparr>re_ID = [], re_Command = []\<rparr>
     cf_RuleExceptions (\<lambda>es c. c\<lparr>cf_RuleExceptions := es\<rparr>))"
  by (simp_all add: find_field_def config_struct_def)

lemma decode_struct_object: "decode_struct strict fs (JObject kvs) r = decode_fields strict fs kvs r"
  by (simp add: decode_struct_def)

lemma decode_display: "decode_struct True display_struct (json_norm (encode_display x)) y = Some x"
  by (simp add: encode_display_def decode_struct_def display_struct_def find_field_def config_key_texts bool_field_def)

lemma decode_exception:
  assumes "validateRuleException e = None" "valid_utf8 (re_Command e)"
  shows "decode_struct True exception_struct (json_norm (encode_exception e)) y = Some e"
  using assms
  by (simp add: encode_exception_def decode_struct_def exception_struct_def find_field_def config_key_texts string_field_def rule_id_text valid_text_valid)

lemma decode_exceptions:
  "\<forall>e\<in>set es. validateRuleException e = None \<and> valid_utf8 (re_Command e) \<Longrightarrow>
   decode_elements (decode_struct True exception_struct) z (map (json_norm \<circ> encode_exception) es) old = Some es"
  by (induction es arbitrary: old) (simp_all add: decode_exception)

lemma sorted_config_keys:
  "sort [''schema_version'', ''mode'', ''display'', ''auto_apply_safe'', ''curated_packs_enabled'', ''risk_interrupt'', ''local_learning_enabled'',
     ''learning_retention_days'', ''learned_rule_action_ceiling'', ''undo_enabled'', ''undo_ttl_seconds'']
   = [''auto_apply_safe'', ''curated_packs_enabled'', ''display'', ''learned_rule_action_ceiling'', ''learning_retention_days'',
     ''local_learning_enabled'', ''mode'', ''risk_interrupt'', ''schema_version'', ''undo_enabled'', ''undo_ttl_seconds'']"
  "sort [''schema_version'', ''mode'', ''display'', ''auto_apply_safe'', ''curated_packs_enabled'', ''risk_interrupt'', ''local_learning_enabled'',
     ''learning_retention_days'', ''learned_rule_action_ceiling'', ''undo_enabled'', ''undo_ttl_seconds'', ''rule_exceptions'']
   = [''auto_apply_safe'', ''curated_packs_enabled'', ''display'', ''learned_rule_action_ceiling'', ''learning_retention_days'',
     ''local_learning_enabled'', ''mode'', ''risk_interrupt'', ''rule_exceptions'', ''schema_version'', ''undo_enabled'', ''undo_ttl_seconds'']"
  by code_simp+

lemma encoded_members:
  assumes "\<not> cf_LocalHistoryEnabled c" "json_norm (encode_config c) = JObject kvs"
  shows "map_members kvs = [(''auto_apply_safe'', JBool (cf_AutoApplySafe c)), (''curated_packs_enabled'', JBool (cf_CuratedPacksEnabled c)),
      (''display'', json_norm (encode_display (cf_Display c))), (''learned_rule_action_ceiling'', JString (valid_text (cf_LearnedRuleActionCeiling c))),
      (''learning_retention_days'', JNumber (itoa (cf_LearningRetentionDays c))), (''local_learning_enabled'', JBool (cf_LocalLearningEnabled c)),
      (''mode'', JString (valid_text (cf_Mode c))), (''risk_interrupt'', JBool (cf_RiskInterrupt c))]
    @ (if cf_RuleExceptions c = [] then [] else [(''rule_exceptions'', JArray (map (json_norm \<circ> encode_exception) (cf_RuleExceptions c)))])
    @ [(''schema_version'', JNumber (itoa (cf_SchemaVersion c))), (''undo_enabled'', JBool (cf_UndoEnabled c)),
      (''undo_ttl_seconds'', JNumber (itoa (cf_UndoTTLSeconds c)))]"
proof (cases "cf_RuleExceptions c = []")
  case True
  with assms have "kvs = [(''schema_version'', JNumber (itoa (cf_SchemaVersion c))), (''mode'', JString (valid_text (cf_Mode c))),
      (''display'', json_norm (encode_display (cf_Display c))), (''auto_apply_safe'', JBool (cf_AutoApplySafe c)),
      (''curated_packs_enabled'', JBool (cf_CuratedPacksEnabled c)), (''risk_interrupt'', JBool (cf_RiskInterrupt c)),
      (''local_learning_enabled'', JBool (cf_LocalLearningEnabled c)),
      (''learning_retention_days'', JNumber (itoa (cf_LearningRetentionDays c))),
      (''learned_rule_action_ceiling'', JString (valid_text (cf_LearnedRuleActionCeiling c))), (''undo_enabled'', JBool (cf_UndoEnabled c)),
      (''undo_ttl_seconds'', JNumber (itoa (cf_UndoTTLSeconds c)))]"
    by (simp add: encode_config_def config_key_texts)
  with True show ?thesis by (simp add: map_members_def sorted_config_keys)
next
  case False
  with assms have "kvs = [(''schema_version'', JNumber (itoa (cf_SchemaVersion c))), (''mode'', JString (valid_text (cf_Mode c))),
      (''display'', json_norm (encode_display (cf_Display c))), (''auto_apply_safe'', JBool (cf_AutoApplySafe c)),
      (''curated_packs_enabled'', JBool (cf_CuratedPacksEnabled c)), (''risk_interrupt'', JBool (cf_RiskInterrupt c)),
      (''local_learning_enabled'', JBool (cf_LocalLearningEnabled c)),
      (''learning_retention_days'', JNumber (itoa (cf_LearningRetentionDays c))),
      (''learned_rule_action_ceiling'', JString (valid_text (cf_LearnedRuleActionCeiling c))), (''undo_enabled'', JBool (cf_UndoEnabled c)),
      (''undo_ttl_seconds'', JNumber (itoa (cf_UndoTTLSeconds c))),
      (''rule_exceptions'', JArray (map (json_norm \<circ> encode_exception) (cf_RuleExceptions c)))]"
    by (simp add: encode_config_def config_key_texts)
  with False show ?thesis by (simp add: map_members_def sorted_config_keys)
qed

lemma config_decode_encode:
  assumes "storable c"
  shows "config_decode (json_file_text (encode_config c)) Default = Inr c"
proof -
  have ok: "config_ok c" "cf_SchemaVersion c = 7" "\<forall>e\<in>set (cf_RuleExceptions c). validateRuleException e = None \<and> valid_utf8 (re_Command e)"
    using assms by (auto simp: storable_def config_ok_iff CurrentSchemaVersion_def)
  have range: "1 \<le> cf_LearningRetentionDays c" "cf_LearningRetentionDays c \<le> 90" "1 \<le> cf_UndoTTLSeconds c" "cf_UndoTTLSeconds c \<le> 300"
      "\<not> cf_LocalHistoryEnabled c"
    using ok(1) by (simp_all add: config_ok_iff maxLearningRetentionDays_def maxUndoTTLSeconds_def)
  have n: "atoi (itoa (cf_LearningRetentionDays c)) = (cf_LearningRetentionDays c, True)" "atoi (itoa (cf_UndoTTLSeconds c)) = (cf_UndoTTLSeconds c, True)"
      "atoi (itoa 7) = (7, True)"
    using range by (auto intro!: atoi_itoa simp: MaxInt_def)
  have t: "valid_text (cf_Mode c) = cf_Mode c" "valid_text (cf_LearnedRuleActionCeiling c) = cf_LearnedRuleActionCeiling c"
    using ok(1) valid_mode_text by (simp_all add: config_ok_iff)
  have e: "json_integers (encode_config c)" "json_depth (encode_config c) \<le> max_nesting"
    by (auto simp: encode_config_def encode_display_def encode_exception_def max_nesting_def split: if_splits)
  have u: "json_Unmarshal (json_file_text (encode_config c)) = Some (json_norm (encode_config c))"
    unfolding json_file_text_def using e by (intro unmarshal_indented) (simp_all add: json_space_def)
  have x: "decode_elements (decode_struct True exception_struct) \<lparr>re_ID = [], re_Command = []\<rparr> (map (json_norm \<circ> encode_exception) (cf_RuleExceptions c)) []
      = Some (cf_RuleExceptions c)"
    using ok(3) by (rule decode_exceptions)
  have checked: "decode_checked c 7 = Inr c"
    using ok(1) by (simp add: decode_checked_def migrate_def CurrentSchemaVersion_def migrate_loop.simps config_ok_def)
  have default_exceptions: "cf_RuleExceptions Default = []" by (simp add: Default_def)
  note vals = default_exceptions n t x ok(2) int_field_def string_field_def bool_field_def struct_field_def slice_field_def decode_display
  obtain kvs where kvs: "json_norm (encode_config c) = JObject kvs" by (simp add: encode_config_def)
  note m = encoded_members [OF range(5) kvs]
  have version: "schema_version (map_members kvs) = Inr 7" by (simp add: m schema_version_def n ok(2))
  have members: "decode_struct True config_struct (JObject (map_members kvs)) Default = Some c"
    by (simp add: m decode_struct_object find_config_field vals) (simp add: Default_def range(5) ok(2))
  have f: "filter (\<lambda>(k, v). k \<noteq> ''registry_enabled'' \<and> k \<noteq> ''auto_update_enabled'') (map_members kvs) = map_members kvs"
    by (simp add: m)
  show ?thesis by (simp add: config_decode_def u kvs f version members checked)
qed

definition keyring_storable :: "Keyring \<Rightarrow> bool" where
  "keyring_storable k \<longleftrightarrow> keyring_Validate k = None \<and>
     (\<forall>p\<in>set (k_Publishers k). valid_utf8 (pk_ID p) \<and> valid_utf8 (pk_PublicKey p)) \<and> (\<forall>r\<in>set (k_Revoked k). valid_utf8 r)"

definition state_storable :: "pack_State \<Rightarrow> bool" where
  "state_storable s \<longleftrightarrow> state_Validate s = None \<and> (\<forall>e\<in>set (ps_Enabled s). valid_utf8 e)"

lemma decode_strings:
  "\<forall>s\<in>set ss. valid_utf8 s \<Longrightarrow> decode_elements string_element z (map (json_norm \<circ> JString) ss) old = Some ss"
  by (induction ss arbitrary: old) (simp_all add: string_element_def string_field_def valid_text_valid)

lemma decode_publishers:
  "\<forall>p\<in>set ps. valid_utf8 (pk_ID p) \<and> valid_utf8 (pk_PublicKey p) \<Longrightarrow>
   decode_elements (decode_struct True publisher_struct) z (map (json_norm \<circ> encode_publisher) ps) old = Some ps"
  by (induction ps arbitrary: old)
    (simp_all add: encode_publisher_def decode_struct_def publisher_struct_def find_field_def config_key_texts string_field_def valid_text_valid)

lemma norm_slice: "json_norm (json_slice nil vs) = json_slice nil (map json_norm vs)"
  by (simp add: json_slice_def)

lemma decode_slice:
  "decode_elements f z vs [] = Some xs \<Longrightarrow> get r = [] \<Longrightarrow> slice_field f z get upd (json_slice nil vs) r = Some (upd xs r)"
  by (auto simp: json_slice_def slice_field_def)

lemma decode_array: "decode_elements f z vs [] = Some xs \<Longrightarrow> get r = [] \<Longrightarrow> slice_field f z get upd (JArray vs) r = Some (upd xs r)"
  by (simp add: slice_field_def)

lemma decode_valid_text:
  assumes "json_integers v" "json_depth v \<le> max_nesting" "decode_struct True fs (json_norm v) zero = Some x" "validate x = None"
  shows "decode_valid failed fs zero validate (json_file_text v) = Inr x"
  using assms by (simp add: decode_valid_def json_file_text_def decode_indented json_space_def)

lemma keyring_decode_encode:
  assumes "keyring_storable k"
  shows "keyring_decode (json_file_text (encode_keyring nil k)) = Inr k"
  unfolding keyring_decode_def
proof (rule decode_valid_text)
  have k: "\<forall>p\<in>set (k_Publishers k). valid_utf8 (pk_ID p) \<and> valid_utf8 (pk_PublicKey p)" "\<forall>r\<in>set (k_Revoked k). valid_utf8 r"
    using assms by (simp_all add: keyring_storable_def)
  note d = decode_publishers [OF k(1)] decode_strings [OF k(2)]
  show "decode_struct True keyring_struct (json_norm (encode_keyring nil k)) zeroKeyring = Some k"
    using d by (simp add: encode_keyring_def decode_struct_def keyring_struct_def find_field_def config_key_texts norm_slice zeroKeyring_def
        decode_slice decode_array comp_def)
qed (use assms in \<open>auto simp: keyring_storable_def encode_keyring_def json_slice_def encode_publisher_def max_nesting_def\<close>)

lemma state_decode_encode:
  assumes "state_storable s"
  shows "state_decode (json_file_text (encode_state nil s)) = Inr s"
  unfolding state_decode_def
proof (rule decode_valid_text)
  have "\<forall>e\<in>set (ps_Enabled s). valid_utf8 e" using assms by (simp add: state_storable_def)
  note d = decode_strings [OF this]
  show "decode_struct True state_struct (json_norm (encode_state nil s)) zeroState = Some s"
    using d by (simp add: encode_state_def decode_struct_def state_struct_def find_field_def config_key_texts norm_slice zeroState_def
        decode_slice comp_def)
qed (use assms in \<open>auto simp: state_storable_def encode_state_def json_slice_def max_nesting_def\<close>)

interpretation config_file: json_file encode_config "\<lambda>bytes. config_decode bytes Default" storable
  by unfold_locales (rule config_decode_encode)

interpretation keyring_file: json_file "encode_keyring nil" keyring_decode keyring_storable
  by unfold_locales (rule keyring_decode_encode)

interpretation state_file: json_file "encode_state nil" state_decode state_storable
  by unfold_locales (rule state_decode_encode)

subsection \<open>Writing and loading\<close>


definition calm_system :: system where
  "calm_system = \<lparr>sy_fail = (\<lambda>_. None), sy_written = (\<lambda>_. 0), sy_random = (\<lambda>_. ''7''), sy_special = (\<lambda>_. Inr []), sy_GOOS = ''linux''\<rparr>"


end
