(* ===== verification/PackFiles.thy ===== *)
theory PackFiles
  imports StateFiles Packs
begin

section \<open>Pack files (internal/packs: packs.go, runtime.go)\<close>

text \<open>
  Reading a pack from its JSON text, installing a signed pack, removing it, and loading the
  installed packs with the check of their signatures. Files are those of theory \<open>Files\<close>; what \<open>Lstat\<close> says of the managed directory
  and what \<open>ReadDir\<close> lists in it are given (\<open>directory_view\<close>); the regular expression compiler and
  \<open>ed25519.Verify\<close> are parameters as in theories \<open>Packs\<close> and \<open>PackRegistry\<close>.
\<close>

subsection \<open>Packs as JSON\<close>

definition zeroRule :: Rule where
  "zeroRule = \<lparr>r_ID = [], r_Command = [], r_Pattern = [], r_Replacement = [], r_PreserveTail = False, r_Cause = [], r_Risk = [], r_RiskRationale = []\<rparr>"

definition zeroPack :: Pack where
  "zeroPack = \<lparr>p_SchemaVersion = 0, p_ID = [], p_Version = [], p_Publisher = [], p_MinEngineVersion = [], p_Capabilities = [], p_Rules = []\<rparr>"

definition rule_struct :: "Rule field list" where
  "rule_struct =
    [(''id'', string_field (\<lambda>s r. r\<lparr>r_ID := s\<rparr>)), (''command'', string_field (\<lambda>s r. r\<lparr>r_Command := s\<rparr>)),
     (''pattern'', string_field (\<lambda>s r. r\<lparr>r_Pattern := s\<rparr>)), (''replacement'', string_field (\<lambda>s r. r\<lparr>r_Replacement := s\<rparr>)),
     (''preserve_tail'', bool_field (\<lambda>b r. r\<lparr>r_PreserveTail := b\<rparr>)), (''cause'', string_field (\<lambda>s r. r\<lparr>r_Cause := s\<rparr>)),
     (''risk'', string_field (\<lambda>s r. r\<lparr>r_Risk := s\<rparr>)), (''risk_rationale'', string_field (\<lambda>s r. r\<lparr>r_RiskRationale := s\<rparr>))]"

definition pack_struct :: "Pack field list" where
  "pack_struct =
    [(''schema_version'', int_field (\<lambda>i p. p\<lparr>p_SchemaVersion := i\<rparr>)), (''id'', string_field (\<lambda>s p. p\<lparr>p_ID := s\<rparr>)),
     (''version'', string_field (\<lambda>s p. p\<lparr>p_Version := s\<rparr>)), (''publisher'', string_field (\<lambda>s p. p\<lparr>p_Publisher := s\<rparr>)),
     (''min_engine_version'', string_field (\<lambda>s p. p\<lparr>p_MinEngineVersion := s\<rparr>)),
     (''capabilities'', slice_field string_element [] p_Capabilities (\<lambda>xs p. p\<lparr>p_Capabilities := xs\<rparr>)),
     (''rules'', slice_field (decode_struct True rule_struct) zeroRule p_Rules (\<lambda>xs p. p\<lparr>p_Rules := xs\<rparr>))]"

definition decodePack :: "string \<Rightarrow> Pack result" where
  "decodePack bytes =
     (case decode_first bytes of
        None \<Rightarrow> Inl (Err ''parse pack: %w'' [])
      | Some (v, rest) \<Rightarrow>
         (case decode_struct True pack_struct v zeroPack of
            None \<Rightarrow> Inl (Err ''parse pack: %w'' [])
          | Some p \<Rightarrow>
             if list_all json_space rest then Inr p
             else case decode_first rest of
               Some (JObject [], _) \<Rightarrow> Inl (Err ''parse pack: multiple JSON values'' [])
             | Some (JNull, _) \<Rightarrow> Inl (Err ''parse pack: multiple JSON values'' [])
             | _ \<Rightarrow> Inl (Err ''parse pack: trailing data: %w'' [])))"

definition pack_Load :: "system \<Rightarrow> string \<Rightarrow> disk \<Rightarrow> Pack result \<times> disk" where
  "pack_Load env path d = io_bind (os_ReadFile env path d) (\<lambda>bytes d. (decodePack bytes, d))"

definition installedPackName :: "Pack \<Rightarrow> string" where
  "installedPackName pack = p_ID pack @ ''-'' @ p_Version pack @ ''.json''"

subsection \<open>Installing and removing (packs.go)\<close>

record pack_entry =
  pe_Name :: string
  pe_IsDir :: bool
  pe_Symlink :: bool
  pe_Regular :: "bool result"

record directory_view =
  dv_real :: "bool result"
  dv_entries :: "pack_entry list result"

definition writeInstalledFile :: "system \<Rightarrow> string \<Rightarrow> string \<Rightarrow> string \<Rightarrow> disk \<Rightarrow> unit result \<times> disk" where
  "writeInstalledFile env directory target bytes d = replace_file env directory (temp_pattern target) target bytes d"

text \<open>\<open>Lstat\<close> must report that there is no such file.\<close>

definition must_not_exist :: "system \<Rightarrow> string \<Rightarrow> go_error \<Rightarrow> disk \<Rightarrow> unit result \<times> disk" where
  "must_not_exist env path present d =
     (case os_Lstat env path d of
        (Inr _, d1) \<Rightarrow> (Inl present, d1)
      | (Inl e, d1) \<Rightarrow> (if e = ErrNotExist then Inr () else Inl e, d1))"

text \<open>The signature first, then the pack; a signature without its pack is removed again.\<close>

definition install_files :: "system \<Rightarrow> string \<Rightarrow> string \<Rightarrow> string \<Rightarrow> string \<Rightarrow> disk \<Rightarrow> string result \<times> disk" where
  "install_files env directory target bytes signature d =
     io_bind (writeInstalledFile env directory (target @ ''.sig'') signature d) (\<lambda>_ d.
     case writeInstalledFile env directory target bytes d of
       (Inl e, d) \<Rightarrow> (Inl e, snd (os_Remove env (target @ ''.sig'') d))
     | (Inr _, d) \<Rightarrow> (Inr target, d))"

definition InstallVerified ::
  "regexp_Compile \<Rightarrow> ed25519_Verify \<Rightarrow> system \<Rightarrow> directory_view \<Rightarrow> string \<Rightarrow> string \<Rightarrow> string \<Rightarrow> Keyring \<Rightarrow> disk \<Rightarrow> string result \<times> disk" where
  "InstallVerified compile verify env view bytes signature directory keyring d =
     io_bind (decodePack bytes, d) (\<lambda>pack d.
     io_bind (Compile compile pack, d) (\<lambda>_ d.
     io_bind (failing (VerifyPublisherSignature verify bytes signature (p_Publisher pack) keyring), d) (\<lambda>_ d.
     io_bind (os_other env d) (\<lambda>_ d.
     io_bind (dv_real view, d) (\<lambda>genuine d.
     if \<not> genuine then (Inl (Err ''installed pack directory is not a real directory'' []), d)
     else let target = filepath_Join [directory, installedPackName pack]; signatureTarget = target @ ''.sig'' in
       io_bind (must_not_exist env target (Err ''pack %q is already installed'' [p_ID pack]) d) (\<lambda>_ d.
       io_bind (must_not_exist env signatureTarget (Err ''signature for pack %q is already installed'' [p_ID pack]) d) (\<lambda>_ d.
       install_files env directory target bytes signature d)))))))"

definition regular_file :: "system \<Rightarrow> string \<Rightarrow> go_error \<Rightarrow> disk \<Rightarrow> unit result \<times> disk" where
  "regular_file env path other d =
     io_bind (os_Lstat env path d) (\<lambda>node d. (if node = Special then Inl other else Inr (), d))"

definition Uninstall :: "system \<Rightarrow> string \<Rightarrow> string \<Rightarrow> string \<Rightarrow> disk \<Rightarrow> string result \<times> disk" where
  "Uninstall env directory ident version d =
     (if \<not> is_identifier ident \<or> \<not> semanticVersion version then (Inl (Err ''pack id and version are invalid'' []), d)
      else let target = filepath_Join [directory, ident @ ''-'' @ version @ ''.json'']; signatureTarget = target @ ''.sig'' in
        io_bind (regular_file env target (Err ''installed pack target is not a regular file'' []) d) (\<lambda>_ d.
        io_bind (regular_file env signatureTarget (Err ''installed pack signature is not a regular file'' []) d) (\<lambda>_ d.
        io_bind (os_Remove env signatureTarget d) (\<lambda>_ d.
        io_bind (os_Remove env target d) (\<lambda>_ d. (Inr target, d))))))"

subsection \<open>Loading the installed packs (runtime.go)\<close>

text \<open>One entry of the directory: skipped, refused, or a pack.\<close>

definition load_entry :: "regexp_Compile \<Rightarrow> system \<Rightarrow> string \<Rightarrow> pack_entry \<Rightarrow> disk \<Rightarrow> Pack option result \<times> disk" where
  "load_entry compile env directory entry d =
    (let name = pe_Name entry; wrapped = Wrap ''installed pack %q: %w'' [name] in
     if pe_IsDir entry \<or> \<not> hasSuffix name ''.json'' then (Inr None, d)
     else if pe_Symlink entry then (Inl (Err ''installed pack %q is a symbolic link'' [name]), d)
     else
      io_bind (pe_Regular entry, d) (\<lambda>regular d.
      if \<not> regular then (Inl (Err ''installed pack %q is not a regular file'' [name]), d)
      else
       io_bind (io_error wrapped (pack_Load env (filepath_Join [directory, name]) d)) (\<lambda>pack d.
       if name \<noteq> installedPackName pack then (Inl (Err ''installed pack %q does not have its canonical name'' [name]), d)
       else io_bind (io_error wrapped (Compile compile pack, d)) (\<lambda>_ d. (Inr (Some pack), d)))))"

fun load_entries :: "regexp_Compile \<Rightarrow> system \<Rightarrow> string \<Rightarrow> pack_entry list \<Rightarrow> disk \<Rightarrow> Pack list result \<times> disk" where
  "load_entries compile env directory [] d = (Inr [], d)"
| "load_entries compile env directory (entry # entries) d =
    io_bind (load_entry compile env directory entry d) (\<lambda>loaded d.
    io_bind (load_entries compile env directory entries d) (\<lambda>packs d.
    (Inr (case loaded of None \<Rightarrow> packs | Some pack \<Rightarrow> pack # packs), d)))"

definition LoadInstalled :: "regexp_Compile \<Rightarrow> system \<Rightarrow> directory_view \<Rightarrow> string \<Rightarrow> disk \<Rightarrow> Pack list result \<times> disk" where
  "LoadInstalled compile env view directory d =
     (if dv_real view = Inl ErrNotExist then (Inr [], d)
      else
       io_bind (dv_real view, d) (\<lambda>genuine d.
       if \<not> genuine then (Inl (Err ''installed pack directory is not a real directory'' []), d)
       else
        io_bind (dv_entries view, d) (\<lambda>entries d.
        io_bind (load_entries compile env directory entries d) (\<lambda>packs d.
        let ordered = sort_key p_ID (sort_key p_Version packs) in
        io_bind (Resolve compile ordered, d) (\<lambda>_ d. (Inr ordered, d))))))"

definition verify_pack :: "ed25519_Verify \<Rightarrow> system \<Rightarrow> string \<Rightarrow> Keyring \<Rightarrow> Pack \<Rightarrow> disk \<Rightarrow> unit result \<times> disk" where
  "verify_pack verify env directory keyring pack d =
    (let target = filepath_Join [directory, installedPackName pack] in
     io_bind (os_ReadFile env target d) (\<lambda>payload d.
     io_bind (io_error (Wrap ''installed pack %q signature: %w'' [p_ID pack]) (os_Lstat env (target @ ''.sig'') d)) (\<lambda>node d.
     if node = Special then (Inl (Err ''installed pack %q signature is not a regular file'' [p_ID pack]), d)
     else
      io_bind (os_ReadFile env (target @ ''.sig'') d) (\<lambda>signature d.
      io_error (Wrap ''installed pack %q: %w'' [p_ID pack])
        (failing (VerifyPublisherSignature verify payload signature (p_Publisher pack) keyring), d)))))"

fun verify_installed :: "ed25519_Verify \<Rightarrow> system \<Rightarrow> string \<Rightarrow> Keyring \<Rightarrow> Pack list \<Rightarrow> disk \<Rightarrow> unit result \<times> disk" where
  "verify_installed verify env directory keyring [] d = (Inr (), d)"
| "verify_installed verify env directory keyring (pack # packs) d =
    io_bind (verify_pack verify env directory keyring pack d) (\<lambda>_ d. verify_installed verify env directory keyring packs d)"

definition LoadInstalledVerified ::
  "regexp_Compile \<Rightarrow> ed25519_Verify \<Rightarrow> system \<Rightarrow> directory_view \<Rightarrow> string \<Rightarrow> Keyring \<Rightarrow> disk \<Rightarrow> Pack list result \<times> disk" where
  "LoadInstalledVerified compile verify env view directory keyring d =
     io_bind (LoadInstalled compile env view directory d) (\<lambda>packs d.
     io_bind (verify_installed verify env directory keyring packs d) (\<lambda>_ d. (Inr packs, d)))"

subsection \<open>What is installed is signed\<close>

lemma os_ReadFile_files: "os_ReadFile env path d = (r, d') \<Longrightarrow> dk_files d' = dk_files d"
  by (auto simp: os_ReadFile_def elim!: os_call_cases)

lemma os_Lstat_files: "os_Lstat env path d = (r, d') \<Longrightarrow> dk_files d' = dk_files d"
  by (auto simp: os_Lstat_def elim!: os_call_cases)

text \<open>What reading a file gives, on a disk, when the call does not fail.\<close>

definition content :: "system \<Rightarrow> disk \<Rightarrow> string \<Rightarrow> string result" where
  "content env d path = (case dk_files d path of None \<Rightarrow> Inl ErrNotExist | Some (Regular bytes) \<Rightarrow> Inr bytes | Some Special \<Rightarrow> sy_special env path)"

lemma os_ReadFile_content: "os_ReadFile env path d = (Inr bytes, d') \<Longrightarrow> content env d path = Inr bytes"
  by (auto simp: os_ReadFile_def content_def elim!: os_call_cases)

lemma content_files: "dk_files d' = dk_files d \<Longrightarrow> content env d' = content env d"
  by (simp add: content_def fun_eq_iff)

lemma load_entry_pack:
  assumes "load_entry compile env directory entry d = (Inr loaded, d')"
  shows "dk_files d' = dk_files d" and "loaded = Some pack \<Longrightarrow> \<exists>payload cp.
    content env d (filepath_Join [directory, installedPackName pack]) = Inr payload \<and> decodePack payload = Inr pack \<and> Compile compile pack = Inr cp"
  using assms
  by (auto simp: load_entry_def pack_Load_def Let_def io_bind_Inr split: if_splits dest: os_ReadFile_files os_ReadFile_content)

lemma load_entries_packs:
  "load_entries compile env directory entries d = (Inr packs, d') \<Longrightarrow> dk_files d' = dk_files d \<and>
     (\<forall>pack\<in>set packs. \<exists>payload cp. content env d (filepath_Join [directory, installedPackName pack]) = Inr payload \<and>
        decodePack payload = Inr pack \<and> Compile compile pack = Inr cp)"
proof (induction entries arbitrary: d packs d')
  case (Cons entry entries)
  from Cons.prems obtain loaded d1 rest where l: "load_entry compile env directory entry d = (Inr loaded, d1)"
      "load_entries compile env directory entries d1 = (Inr rest, d')" "packs = (case loaded of None \<Rightarrow> rest | Some pack \<Rightarrow> pack # rest)"
    by (auto simp: io_bind_Inr)
  note s = load_entry_pack(1) [OF l(1)]
  show ?case using Cons.IH [OF l(2)] s content_files [OF s] load_entry_pack(2) [OF l(1)] l(3) by (auto split: option.splits)
qed simp

lemma verify_pack_signed:
  assumes "verify_pack verify env directory keyring pack d = (Inr (), d')"
  defines "target \<equiv> filepath_Join [directory, installedPackName pack]"
  shows "dk_files d' = dk_files d \<and> (\<exists>payload signature. content env d target = Inr payload \<and>
    dk_files d (target @ ''.sig'') = Some (Regular signature) \<and> VerifyPublisherSignature verify payload signature (p_Publisher pack) keyring = None)"
proof -
  from assms obtain payload d1 node d2 signature where l: "os_ReadFile env target d = (Inr payload, d1)"
      "os_Lstat env (target @ ''.sig'') d1 = (Inr node, d2)" "node \<noteq> Special" "os_ReadFile env (target @ ''.sig'') d2 = (Inr signature, d')"
      "VerifyPublisherSignature verify payload signature (p_Publisher pack) keyring = None"
    by (auto simp: verify_pack_def Let_def io_bind_Inr split: if_splits)
  have s: "dk_files d1 = dk_files d" "dk_files d2 = dk_files d" "dk_files d' = dk_files d"
    using os_ReadFile_files [OF l(1)] os_Lstat_files [OF l(2)] os_ReadFile_files [OF l(4)] by simp_all
  have "dk_files d1 (target @ ''.sig'') = Some node" using l(2) by (auto simp: os_Lstat_def elim!: os_call_cases split: option.splits)
  with os_ReadFile_content [OF l(4)] s l(3) have "dk_files d (target @ ''.sig'') = Some (Regular signature)"
    by (cases node) (simp_all add: content_def)
  with s(3) os_ReadFile_content [OF l(1)] l(5) show ?thesis by blast
qed

lemma verify_installed_packs:
  "verify_installed verify env directory keyring packs d = (Inr (), d') \<Longrightarrow> dk_files d' = dk_files d \<and>
     (\<forall>pack\<in>set packs. \<exists>payload signature. content env d (filepath_Join [directory, installedPackName pack]) = Inr payload \<and>
        dk_files d (filepath_Join [directory, installedPackName pack] @ ''.sig'') = Some (Regular signature) \<and>
        VerifyPublisherSignature verify payload signature (p_Publisher pack) keyring = None)"
proof (induction packs arbitrary: d)
  case (Cons pack packs)
  from Cons.prems obtain d1 where l: "verify_pack verify env directory keyring pack d = (Inr (), d1)"
      "verify_installed verify env directory keyring packs d1 = (Inr (), d')" by (auto simp: io_bind_Inr)
  show ?case using Cons.IH [OF l(2)] verify_pack_signed [OF l(1)] content_files [of d1 d env] by auto
qed simp

text \<open>
  Every installed pack in use is signed. If the installed packs load, each of them
  compiles and is exactly what the bytes of its file decode to, and over those bytes the file
  beside it holds a signature that verifies under the key the keyring has for the pack's
  publisher, who is not revoked. One bad pack or signature makes the load fail as a whole.
\<close>

lemma loaded_packs_signed:
  assumes "LoadInstalledVerified compile verify env view directory keyring d = (Inr packs, d')" and "pack \<in> set packs"
  shows "\<exists>payload signature key cp. content env d (filepath_Join [directory, installedPackName pack]) = Inr payload \<and>
    decodePack payload = Inr pack \<and> Compile compile pack = Inr cp \<and>
    dk_files d (filepath_Join [directory, installedPackName pack] @ ''.sig'') = Some (Regular signature) \<and>
    \<not> RevokedFor keyring (p_Publisher pack) \<and> PublicKey keyring (p_Publisher pack) = Some key \<and> verify key payload signature"
proof -
  obtain d1 where l: "LoadInstalled compile env view directory d = (Inr packs, d1)" "verify_installed verify env directory keyring packs d1 = (Inr (), d')"
    using assms(1) by (auto simp: LoadInstalledVerified_def io_bind_Inr)
  have "packs \<noteq> []" using assms(2) by auto
  with l(1) obtain entries loaded where e: "load_entries compile env directory entries d = (Inr loaded, d1)" "set packs = set loaded"
    by (auto simp: LoadInstalled_def Let_def io_bind_Inr split: if_splits)
  note loaded = load_entries_packs [OF e(1)]
  note same = content_files [of d1 d env]
  from verify_installed_packs [OF l(2)] assms(2) obtain payload signature where v: "content env d1 (filepath_Join [directory, installedPackName pack]) = Inr payload"
      "dk_files d1 (filepath_Join [directory, installedPackName pack] @ ''.sig'') = Some (Regular signature)"
      "VerifyPublisherSignature verify payload signature (p_Publisher pack) keyring = None" by blast
  moreover from v(3) obtain key where "PublicKey keyring (p_Publisher pack) = Some key" "verify key payload signature" "\<not> RevokedFor keyring (p_Publisher pack)"
    by (auto simp: VerifyPublisherSignature_def VerifyDetachedSignature_def split: if_splits option.splits)
  ultimately show ?thesis using loaded same assms(2) e(2) by fastforce
qed

text \<open>Calls that find out whether a file exists, and never change one.\<close>

lemma must_not_exist_files: "must_not_exist env path present d = (r, d') \<Longrightarrow> dk_files d' = dk_files d"
  by (auto simp: must_not_exist_def split: prod.splits sum.splits dest: os_Lstat_files)

text \<open>A failing call does not claim that a file that exists does not exist.\<close>

definition honest_errors :: "system \<Rightarrow> bool" where
  "honest_errors env \<longleftrightarrow> (\<forall>n. sy_fail env n \<noteq> Some ErrNotExist)"

lemma must_not_exist_ok: "honest_errors env \<Longrightarrow> must_not_exist env path present d = (Inr (), d') \<Longrightarrow> dk_files d path = None"
  by (auto simp: must_not_exist_def os_Lstat_def honest_errors_def elim!: os_call_cases split: prod.splits sum.splits if_splits option.splits)

lemma writeInstalledFile_files:
  assumes "plain_random env" "writeInstalledFile env directory target bytes d = (r, d')"
  shows "if r = Inr () then dk_files d' = (dk_files d)(target \<mapsto> Regular bytes)
    else \<forall>p. dk_files d p \<noteq> None \<or> p = target \<longrightarrow> dk_files d' p = dk_files d p"
  using replace_file_atomic [OF assms(2) [unfolded writeInstalledFile_def] temp_name_other [OF assms(1)]] temp_name_other [OF assms(1)]
  by (auto simp: left_behind_def with_temp_def split: if_splits) metis

lemma signature_temp_other:
  assumes "plain_random env"
  shows "temp_name dir (temp_pattern (target @ ''.sig'')) (sy_random env n) \<noteq> target"
proof -
  let ?a = "after_last (\<lambda>c. c = slash)"
  have a: "?a (target @ ''.sig'') = ?a target @ ''.sig''" by (intro after_last_append) (simp add: slash_def)
  with base_of_path(2) [of "target @ ''.sig''"] have "slash \<notin> set (filepath_Base (target @ ''.sig''))" by auto
  moreover from a base_of_path(1) [of "target @ ''.sig''"] have "length (?a target) \<le> length (filepath_Base (target @ ''.sig''))" by simp
  ultimately show ?thesis using assms temp_name_longer by blast
qed

lemma write_signature_files:
  assumes "plain_random env" "writeInstalledFile env directory (target @ ''.sig'') bytes d = (r, d')"
  shows "dk_files d' target = dk_files d target"
  using replace_file_atomic [OF assms(2) [unfolded writeInstalledFile_def] temp_name_other [OF assms(1)]]
    signature_temp_other [OF assms(1), of directory target "dk_calls d"]
  by (auto simp: left_behind_def with_temp_def split: if_splits)

lemma install_steps:
  assumes "InstallVerified compile verify env view bytes signature directory keyring d = (r, d')"
  obtains (early) e where "r = Inl e" "dk_files d' = dk_files d"
  | (late) pack cp d1 d2 d3 where "decodePack bytes = Inr pack" "Compile compile pack = Inr cp"
      "VerifyPublisherSignature verify bytes signature (p_Publisher pack) keyring = None" "dk_files d1 = dk_files d"
      "must_not_exist env (filepath_Join [directory, installedPackName pack]) (Err ''pack %q is already installed'' [p_ID pack]) d1 = (Inr (), d2)"
      "must_not_exist env (filepath_Join [directory, installedPackName pack] @ ''.sig'') (Err ''signature for pack %q is already installed'' [p_ID pack]) d2 = (Inr (), d3)"
      "install_files env directory (filepath_Join [directory, installedPackName pack]) bytes signature d3 = (r, d')"
  using assms unfolding InstallVerified_def Let_def
  apply (auto simp: io_bind_cases split: if_splits dest: os_other_files must_not_exist_files)
  apply (metis must_not_exist_files os_other_files)+
  done

text \<open>Writing both files, where there were none: both, or no pack file and nothing else changed.\<close>

lemma install_files_ok:
  assumes "plain_random env" and "dk_files d target = None" "dk_files d (target @ ''.sig'') = None"
    and "install_files env directory target bytes signature d = (r, d')"
  shows "case r of Inl e \<Rightarrow> \<forall>p. dk_files d p \<noteq> None \<or> p = target \<longrightarrow> dk_files d' p = dk_files d p
    | Inr t \<Rightarrow> t = target \<and> dk_files d' = (dk_files d)(target @ ''.sig'' \<mapsto> Regular signature, target \<mapsto> Regular bytes)"
proof -
  obtain w1 d4 where w1: "writeInstalledFile env directory (target @ ''.sig'') signature d = (w1, d4)" by (meson prod.exhaust)
  note f1 = writeInstalledFile_files [OF assms(1) w1] write_signature_files [OF assms(1) w1]
  obtain w2 d5 where w2: "writeInstalledFile env directory target bytes d4 = (w2, d5)" by (meson prod.exhaust)
  note f2 = writeInstalledFile_files [OF assms(1) w2]
  obtain q d6 where q: "os_Remove env (target @ ''.sig'') d5 = (q, d6)" by (meson prod.exhaust)
  note f3 = os_Remove_files [OF q]
  show ?thesis
  proof (cases "w1 = Inr ()")
    case False
    then obtain e where "w1 = Inl e" by (cases w1) auto
    with False assms(4) w1 f1 show ?thesis by (auto simp: install_files_def)
  next
    case u1: True
    show ?thesis
    proof (cases "w2 = Inr ()")
      case True
      with u1 assms(4) w1 w2 f1 f2 show ?thesis by (auto simp: install_files_def)
    next
      case False
      then obtain e where "w2 = Inl e" by (cases w2) auto
      with assms(4) w1 w2 q u1 have r: "r = Inl e" "d' = d6" by (auto simp: install_files_def)
      have "dk_files d6 p = dk_files d p" if "p \<noteq> target @ ''.sig''" "dk_files d p \<noteq> None \<or> p = target" for p
        using that f1 f2 f3 u1 False by (auto split: if_splits)
      with assms(3) have "dk_files d6 p = dk_files d p" if "dk_files d p \<noteq> None \<or> p = target" for p
        using that by (cases "p = target @ ''.sig''") auto
      with r show ?thesis by simp
    qed
  qed
qed

text \<open>
  Property C15: installing a pack is all or nothing. If it succeeds, the pack decoded and compiled,
  its signature verified under an unrevoked key of the keyring, neither file existed before, and
  exactly the pack and its signature were added to the disk. If it fails, whatever failed, every
  file that existed before is unchanged and no pack file was added.
\<close>

theorem install_all_or_nothing:
  assumes "plain_random env" and "honest_errors env"
    and "InstallVerified compile verify env view bytes signature directory keyring d = (r, d')"
  shows "case r of
      Inr target \<Rightarrow> (\<exists>pack cp key. decodePack bytes = Inr pack \<and> Compile compile pack = Inr cp \<and> \<not> RevokedFor keyring (p_Publisher pack) \<and>
        PublicKey keyring (p_Publisher pack) = Some key \<and> verify key bytes signature \<and> target = filepath_Join [directory, installedPackName pack]) \<and>
        dk_files d target = None \<and> dk_files d (target @ ''.sig'') = None \<and>
        dk_files d' = (dk_files d)(target @ ''.sig'' \<mapsto> Regular signature, target \<mapsto> Regular bytes)
    | Inl e \<Rightarrow> (\<forall>p. dk_files d p \<noteq> None \<longrightarrow> dk_files d' p = dk_files d p) \<and>
        (\<forall>pack. decodePack bytes = Inr pack \<longrightarrow> dk_files d' (filepath_Join [directory, installedPackName pack]) = dk_files d (filepath_Join [directory, installedPackName pack]))"
  using assms(3)
proof (cases rule: install_steps)
  case (early e)
  then show ?thesis by simp
next
  case (late pack cp d1 d2 d3)
  let ?t = "filepath_Join [directory, installedPackName pack]"
  have s: "dk_files d2 = dk_files d" "dk_files d3 = dk_files d"
    using must_not_exist_files [OF late(5)] must_not_exist_files [OF late(6)] late(4) by simp_all
  have none: "dk_files d ?t = None" "dk_files d (?t @ ''.sig'') = None"
    using must_not_exist_ok [OF assms(2) late(5)] must_not_exist_ok [OF assms(2) late(6)] late(4) s by simp_all
  obtain key where key: "\<not> RevokedFor keyring (p_Publisher pack)" "PublicKey keyring (p_Publisher pack) = Some key" "verify key bytes signature"
    using late(3) by (auto simp: VerifyPublisherSignature_def VerifyDetachedSignature_def split: if_splits option.splits)
  have "dk_files d3 ?t = None" "dk_files d3 (?t @ ''.sig'') = None" using none s by simp_all
  from install_files_ok [OF assms(1) this late(7)] late(1,2) s none key show ?thesis by (auto split: sum.splits)
qed

text \<open>An installation that succeeds, and the packs in use after it.\<close>

definition demo_compile :: regexp_Compile where
  "demo_compile pattern = (if pattern = ''^-v$''
     then Inr \<lparr>re_SubexpNames = [[]], re_FindStringSubmatchIndex = (\<lambda>v. if v = ''-v'' then Some [Some (0, 2)] else None)\<rparr>
     else Inl (Err ''unsupported pattern'' []))"

definition demo_quoted :: "string \<Rightarrow> string \<Rightarrow> string" where
  "demo_quoted name t = json_quote name @ '':'' @ json_quote t"

definition demo_text :: string where
  "demo_text = ''{'' @ json_quote ''schema_version'' @ '':1,'' @ demo_quoted ''id'' ''a'' @ '','' @ demo_quoted ''version'' ''1.0.0'' @ '','' @
     demo_quoted ''publisher'' ''b'' @ '','' @ json_quote ''rules'' @ '':[{'' @ demo_quoted ''id'' ''c'' @ '','' @ demo_quoted ''command'' ''which'' @ '','' @
     demo_quoted ''pattern'' ''^-v$'' @ '','' @ demo_quoted ''replacement'' ''-a'' @ '','' @ demo_quoted ''cause'' ''typo'' @ '','' @
     demo_quoted ''risk'' ''safe'' @ '','' @ demo_quoted ''risk_rationale'' ''query'' @ ''}]}''"

definition demo_keyring :: Keyring where
  "demo_keyring = \<lparr>k_Publishers = [\<lparr>pk_ID = ''b'', pk_PublicKey = base64_encode (replicate 32 (CHR ''k''))\<rparr>], k_Revoked = []\<rparr>"

definition demo_signature :: string where "demo_signature = replicate 64 (CHR ''s'')"

text \<open>A verifier that accepts this signature for this key and text only.\<close>

definition demo_verify :: ed25519_Verify where
  "demo_verify key payload signature \<longleftrightarrow> key = replicate 32 (CHR ''k'') \<and> payload = demo_text \<and> signature = demo_signature"

definition demo_directory :: directory_view where
  "demo_directory = \<lparr>dv_real = Inr True, dv_entries = Inr
     [\<lparr>pe_Name = ''a-1.0.0.json'', pe_IsDir = False, pe_Symlink = False, pe_Regular = Inr True\<rparr>,
      \<lparr>pe_Name = ''a-1.0.0.json.sig'', pe_IsDir = False, pe_Symlink = False, pe_Regular = Inr True\<rparr>]\<rparr>"

theorem install_all_or_nothing_witness:
  "\<exists>d. InstallVerified demo_compile demo_verify calm_system demo_directory demo_text demo_signature ''/p'' demo_keyring \<lparr>dk_files = Map.empty, dk_calls = 0\<rparr>
     = (Inr ''/p/a-1.0.0.json'', d) \<and> dk_files d ''/p/a-1.0.0.json'' = Some (Regular demo_text)"
proof -
  let ?i = "InstallVerified demo_compile demo_verify calm_system demo_directory demo_text demo_signature ''/p'' demo_keyring \<lparr>dk_files = Map.empty, dk_calls = 0\<rparr>"
  have "fst ?i = Inr ''/p/a-1.0.0.json''" by code_simp
  then obtain d where i: "?i = (Inr ''/p/a-1.0.0.json'', d)" by (metis prod.collapse)
  have "plain_random calm_system" "honest_errors calm_system"
    by (simp_all add: plain_random_def honest_errors_def calm_system_def slash_def)
  from install_all_or_nothing [OF this i] i show ?thesis by auto
qed

end
