(* ===== verification/Staging.thy ===== *)
theory Staging
  imports PackFiles
begin

section \<open>Staged packs (internal/packs/staging.go)\<close>

text \<open>
  A downloaded pack is copied into a temporary file, then activated: read back, decoded and
  compiled, renamed to its canonical name with the previous pack kept as a backup, read again,
  and rolled back if that last check fails. A reader is the list of the pieces its \<open>Read\<close> calls
  deliver with the error that ends it, if it is not the end of the stream.
\<close>

record StagedDownload =
  sd_temporary :: File
  sd_Size :: nat

fun io_Copy :: "system \<Rightarrow> File \<Rightarrow> string list \<Rightarrow> go_error option \<Rightarrow> nat \<Rightarrow> disk \<Rightarrow> nat result \<times> disk" where
  "io_Copy env temporary [] err written d = (case err of None \<Rightarrow> Inr written | Some e \<Rightarrow> Inl e, d)"
| "io_Copy env temporary (piece # pieces) err written d =
     io_bind (temp_Write env piece temporary d) (\<lambda>_ d. io_Copy env temporary pieces err (written + length piece) d)"

definition StageDownload :: "system \<Rightarrow> string \<Rightarrow> string list \<times> go_error option \<Rightarrow> disk \<Rightarrow> StagedDownload result \<times> disk" where
  "StageDownload env directory source d =
     io_bind (temp_Create env directory ''.pack-stage-*'' d) (\<lambda>temporary d.
     case io_Copy env temporary (fst source) (snd source) 0 d of
       (Inl e, d) \<Rightarrow> (Inl e, snd (temp_Cleanup env temporary d))
     | (Inr written, d) \<Rightarrow> (Inr \<lparr>sd_temporary = temporary, sd_Size = written\<rparr>, d))"

definition staged_Path :: "StagedDownload \<Rightarrow> string" where
  "staged_Path s = tf_path (sd_temporary s)"

definition staged_Commit :: "system \<Rightarrow> string \<Rightarrow> StagedDownload \<Rightarrow> disk \<Rightarrow> (unit result \<times> StagedDownload) \<times> disk" where
  "staged_Commit env destination s d =
     (case temp_Commit env destination (sd_temporary s) d of ((r, temporary), d) \<Rightarrow> ((r, s\<lparr>sd_temporary := temporary\<rparr>), d))"

definition staged_Discard :: "system \<Rightarrow> StagedDownload \<Rightarrow> disk \<Rightarrow> unit result \<times> disk" where
  "staged_Discard env s d = temp_Cleanup env (sd_temporary s) d"

definition stageActivationBackup :: "system \<Rightarrow> string \<Rightarrow> string \<Rightarrow> disk \<Rightarrow> File option result \<times> disk" where
  "stageActivationBackup env directory target d =
     (case os_Lstat env target d of
        (Inl e, d) \<Rightarrow> (if e = ErrNotExist then Inr None else Inl e, d)
      | (Inr node, d) \<Rightarrow>
         if node = Special then (Inl (Err ''activation target %q is not a regular file'' [target]), d)
         else
          io_bind (os_ReadFile env target d) (\<lambda>bytes d.
          io_bind (temp_Create env directory ''.pack-rollback-*'' d) (\<lambda>backup d.
          case temp_Write env bytes backup d of
            (Inl e, d) \<Rightarrow> (Inl e, snd (temp_Cleanup env backup d))
          | (Inr _, d) \<Rightarrow> (Inr (Some backup), d))))"

definition verifyActivatedPack :: "regexp_Compile \<Rightarrow> system \<Rightarrow> string \<Rightarrow> string \<Rightarrow> disk \<Rightarrow> unit result \<times> disk" where
  "verifyActivatedPack compile env target expected d =
     io_bind (os_ReadFile env target d) (\<lambda>bytes d.
     if bytes \<noteq> expected then (Inl (Err ''activated pack differs from staged pack'' []), d)
     else io_bind (decodePack bytes, d) (\<lambda>pack d. io_bind (Compile compile pack, d) (\<lambda>_ d. (Inr (), d))))"

definition rollbackActivation :: "system \<Rightarrow> string \<Rightarrow> File option \<Rightarrow> disk \<Rightarrow> (unit result \<times> File option) \<times> disk" where
  "rollbackActivation env target backup d =
     (case backup of
        Some b \<Rightarrow> (case temp_Commit env target b d of ((r, b), d) \<Rightarrow> ((r, Some b), d))
      | None \<Rightarrow>
         (case os_Lstat env target d of
            (Inl e, d) \<Rightarrow> ((if e = ErrNotExist then Inr () else Inl e, None), d)
          | (Inr node, d) \<Rightarrow>
             if node = Special then ((Inl (Err ''activation target %q is not a regular file'' [target]), None), d)
             else (case os_Remove env target d of (r, d) \<Rightarrow> ((r, None), d))))"

text \<open>
  The error after a failed check; the text of the error of a failed rollback is not part of it.
\<close>

definition rollback_failed :: "go_error \<Rightarrow> go_error" where
  "rollback_failed e = Wrap ''activation verification failed: %w; rollback failed: %v'' [] e"

type_synonym activation_check = "string \<Rightarrow> string \<Rightarrow> disk \<Rightarrow> unit result \<times> disk"

definition commit_staged ::
  "system \<Rightarrow> activation_check \<Rightarrow> string \<Rightarrow> string \<Rightarrow> StagedDownload \<Rightarrow> File option \<Rightarrow> disk \<Rightarrow> (string result \<times> StagedDownload \<times> File option) \<times> disk" where
  "commit_staged env verify target bytes staged backup d =
     (case staged_Commit env target staged d of
        ((Inl e, staged), d) \<Rightarrow> ((Inl e, staged, backup), d)
      | ((Inr _, staged), d) \<Rightarrow>
         (case verify target bytes d of
            (Inr _, d) \<Rightarrow> ((Inr target, staged, backup), d)
          | (Inl e, d) \<Rightarrow>
             (case rollbackActivation env target backup d of ((r, backup), d) \<Rightarrow>
              ((Inl (if r = Inr () then Wrap ''activation verification failed: %w'' [] e else rollback_failed e), staged, backup), d))))"

text \<open>The deferred clean-up of the backup runs on every path after it exists; its error is dropped.\<close>

definition activateStagedPack ::
  "regexp_Compile \<Rightarrow> system \<Rightarrow> activation_check \<Rightarrow> StagedDownload option \<Rightarrow> string \<Rightarrow> disk \<Rightarrow> (string result \<times> StagedDownload option) \<times> disk" where
  "activateStagedPack compile env verify staged directory d =
     (case staged of
        None \<Rightarrow> ((Inl (Err ''missing staged pack'' []), None), d)
      | Some s \<Rightarrow>
         (case io_bind (os_ReadFile env (staged_Path s) d) (\<lambda>bytes d.
               io_bind (decodePack bytes, d) (\<lambda>pack d.
               io_bind (Compile compile pack, d) (\<lambda>_ d.
               io_bind (stageActivationBackup env directory (filepath_Join [directory, installedPackName pack]) d) (\<lambda>backup d.
               (Inr (bytes, pack, backup), d))))) of
            (Inl e, d) \<Rightarrow> ((Inl e, Some s), d)
          | (Inr (bytes, pack, backup), d) \<Rightarrow>
             (case commit_staged env verify (filepath_Join [directory, installedPackName pack]) bytes s backup d of
                ((r, s, None), d) \<Rightarrow> ((r, Some s), d)
              | ((r, s, Some b), d) \<Rightarrow> ((r, Some s), snd (temp_Cleanup env b d)))))"

definition ActivateStagedPack ::
  "regexp_Compile \<Rightarrow> system \<Rightarrow> StagedDownload option \<Rightarrow> string \<Rightarrow> disk \<Rightarrow> (string result \<times> StagedDownload option) \<times> disk" where
  "ActivateStagedPack compile env = activateStagedPack compile env (verifyActivatedPack compile env)"

subsection \<open>The bundled packs (bundled.go)\<close>

text \<open>The embedded files are given, by name; a directory entry without content is a directory.\<close>

type_synonym embedded = "(string \<times> string option) list"

definition BundledNames :: "embedded \<Rightarrow> string list" where
  "BundledNames bundle = sort (map fst (filter (\<lambda>(name, bytes). bytes \<noteq> None) bundle))"

fun load_bundle :: "embedded \<Rightarrow> string list \<Rightarrow> Pack list result" where
  "load_bundle bundle [] = Inr []"
| "load_bundle bundle (name # names) =
     (case map_of bundle name of
        Some (Some bytes) \<Rightarrow>
          (case decodePack bytes of
             Inl e \<Rightarrow> Inl (Wrap ''bundled pack %q: %w'' [name] e)
           | Inr pack \<Rightarrow> map_sum (\<lambda>e. e) ((#) pack) (load_bundle bundle names))
      | _ \<Rightarrow> Inl ErrNotExist)"

definition LoadBundled :: "regexp_Compile \<Rightarrow> embedded \<Rightarrow> Pack list result" where
  "LoadBundled compile bundle =
     (case load_bundle bundle (BundledNames bundle) of Inl e \<Rightarrow> Inl e
      | Inr packs \<Rightarrow> (case Resolve compile packs of Inl e \<Rightarrow> Inl e | Inr _ \<Rightarrow> Inr packs))"

subsection \<open>Staging keeps the bytes\<close>

lemma io_Copy_ok:
  "io_Copy env tmp pieces err written d = (r, d') \<Longrightarrow> with_temp d0 (tf_path tmp) sofar d \<Longrightarrow> \<not> tf_closed tmp \<Longrightarrow>
     \<exists>more. with_temp d0 (tf_path tmp) (sofar @ more) d' \<and> (\<forall>n. r = Inr n \<longrightarrow> more = concat pieces \<and> n = written + length more \<and> err = None)"
proof (induction pieces arbitrary: written d sofar)
  case Nil
  then show ?case by (auto split: option.splits intro: exI [of _ "[]"])
next
  case (Cons piece pieces)
  obtain w d1 where w: "temp_Write env piece tmp d = (w, d1)" by (meson prod.exhaust)
  then obtain more where m: "with_temp d0 (tf_path tmp) (sofar @ more) d1" "w = Inr () \<longrightarrow> more = piece"
    using os_Write_files [of env "tf_path tmp" piece d w d1 sofar] Cons.prems(2,3) by (auto simp: temp_Write_def with_temp_def)
  show ?case
  proof (cases w)
    case (Inl e)
    with Cons.prems(1) w m show ?thesis by auto
  next
    case (Inr u)
    with Cons.prems(1) w have "io_Copy env tmp pieces err (written + length piece) d1 = (r, d')" by simp
    from Cons.IH [OF this m(1) Cons.prems(3)] obtain rest where
      "with_temp d0 (tf_path tmp) (sofar @ more @ rest) d'" "\<forall>n. r = Inr n \<longrightarrow> rest = concat pieces \<and> n = written + length piece + length rest \<and> err = None"
      by auto
    with m(2) Inr show ?thesis by (intro exI [of _ "more @ rest"]) (simp, metis add.assoc)
  qed
qed

text \<open>A staged download holds what was read, all of it, beside unchanged files; a failed one holds at most a part.\<close>

lemma StageDownload_ok:
  assumes "StageDownload env directory (pieces, err) d = (r, d')"
  shows "case r of
      Inr s \<Rightarrow> err = None \<and> sd_Size s = length (concat pieces) \<and> \<not> tf_committed (sd_temporary s) \<and> with_temp d (staged_Path s) (concat pieces) d'
    | Inl e \<Rightarrow> left_behind d (temp_name directory ''.pack-stage-*'' (sy_random env (dk_calls d))) d'"
proof -
  obtain c d1 where c: "temp_Create env directory ''.pack-stage-*'' d = (c, d1)" by (meson prod.exhaust)
  note f1 = temp_Create_files [OF c]
  show ?thesis
  proof (cases c)
    case (Inl e)
    with assms c f1 show ?thesis by (auto simp: StageDownload_def)
  next
    case (Inr tmp)
    with f1 have t: "tf_path tmp = temp_name directory ''.pack-stage-*'' (sy_random env (dk_calls d))"
        "\<not> tf_closed tmp" "\<not> tf_committed tmp" "with_temp d (tf_path tmp) [] d1" by auto
    obtain q d2 where q: "io_Copy env tmp pieces err 0 d1 = (q, d2)" by (meson prod.exhaust)
    from io_Copy_ok [OF q t(4,2)] obtain more where m: "with_temp d (tf_path tmp) more d2"
        "\<forall>n. q = Inr n \<longrightarrow> more = concat pieces \<and> n = length more \<and> err = None" by auto
    obtain x d3 where x: "temp_Cleanup env tmp d2 = (x, d3)" by (meson prod.exhaust)
    show ?thesis using assms c Inr q x m t temp_Cleanup_removes [OF m(1) t(3) x]
      by (cases q) (auto simp: StageDownload_def staged_Path_def)
  qed
qed

subsection \<open>Activation is atomic\<close>

lemma not_special: "n \<noteq> Special \<longleftrightarrow> (\<exists>bytes. n = Regular bytes)"
  by (cases n) simp_all

text \<open>A backup that was made holds the previous pack beside unchanged files.\<close>

lemma stageActivationBackup_ok:
  assumes "honest_errors env" and "stageActivationBackup env directory target d = (r, d')"
  shows "case r of
      Inl e \<Rightarrow> \<forall>p. dk_files d p \<noteq> None \<or> p = target \<longrightarrow> dk_files d' p = dk_files d p
    | Inr None \<Rightarrow> dk_files d' = dk_files d \<and> dk_files d target = None
    | Inr (Some b) \<Rightarrow> \<not> tf_committed b \<and> (\<exists>old. dk_files d target = Some (Regular old) \<and> with_temp d (tf_path b) old d')"
proof -
  obtain l d1 where l: "os_Lstat env target d = (l, d1)" by (meson prod.exhaust)
  note f1 = os_Lstat_files [OF l]
  have node: "case l of Inl e \<Rightarrow> e = ErrNotExist \<longrightarrow> dk_files d target = None | Inr n \<Rightarrow> dk_files d target = Some n"
    using l assms(1) by (auto simp: os_Lstat_def honest_errors_def elim!: os_call_cases split: option.splits)
  obtain q d2 where q: "os_ReadFile env target d1 = (q, d2)" by (meson prod.exhaust)
  note f2 = os_ReadFile_files [OF q]
  obtain c d3 where c: "temp_Create env directory ''.pack-rollback-*'' d2 = (c, d3)" by (meson prod.exhaust)
  note f3 = temp_Create_files [OF c]
  show ?thesis
  proof (cases "\<exists>old bytes b. l = Inr (Regular old) \<and> q = Inr bytes \<and> c = Inr b")
    case False
    then show ?thesis using assms(2) l q c f1 f2 f3 node
      by (cases l; cases q; cases c) (auto simp: stageActivationBackup_def left_behind_def with_temp_def not_special split: if_splits)
  next
    case True
    then obtain old bytes b where k: "l = Inr (Regular old)" "q = Inr bytes" "c = Inr b" by blast
    have old: "dk_files d target = Some (Regular old)" using node k(1) by simp
    with os_ReadFile_content [of env target d1 bytes d2] q k f1 have b: "bytes = old" by (simp add: content_def)
    from f3 k f1 f2 have t: "with_temp d (tf_path b) [] d3" "\<not> tf_committed b" "\<not> tf_closed b" by (auto simp: with_temp_def)
    obtain w d4 where w: "temp_Write env bytes b d3 = (w, d4)" by (meson prod.exhaust)
    then obtain more where m: "with_temp d (tf_path b) more d4" "w = Inr () \<longrightarrow> more = bytes"
      using os_Write_files [of env "tf_path b" bytes d3 w d4 "[]"] t by (auto simp: temp_Write_def with_temp_def)
    obtain x d5 where x: "temp_Cleanup env b d4 = (x, d5)" by (meson prod.exhaust)
    from temp_Cleanup_removes [OF m(1) t(2) x] have left: "left_behind d (tf_path b) d5" .
    show ?thesis using assms(2) l q c w x k old b m t left
      by (cases w) (auto simp: stageActivationBackup_def left_behind_def with_temp_def)
  qed
qed

lemma verifyActivatedPack_files: "verifyActivatedPack compile env target expected d = (r, d') \<Longrightarrow> dk_files d' = dk_files d"
  by (auto simp: verifyActivatedPack_def io_bind_cases split: if_splits dest: os_ReadFile_files)

text \<open>Every file that existed, apart from the staged one and the target, and a failing target.\<close>

lemma rollbackActivation_ok:
  assumes "honest_errors env" and "rollbackActivation env target backup d = ((r, backup1), d')"
    and "dk_files d target = Some (Regular new)"
    and "\<And>b. backup = Some b \<Longrightarrow> \<not> tf_committed b \<and> dk_files d (tf_path b) = Some (Regular old) \<and> tf_path b \<noteq> target"
  shows "(if r = Inr () then dk_files d' target = (if backup = None then None else Some (Regular old)) else dk_files d' target = dk_files d target) \<and>
    (\<forall>p. p \<noteq> target \<and> (\<forall>b. backup = Some b \<longrightarrow> p \<noteq> tf_path b) \<longrightarrow> dk_files d' p = dk_files d p) \<and>
    (\<forall>b1. backup1 = Some b1 \<longrightarrow> (\<exists>b. backup = Some b \<and> tf_path b1 = tf_path b) \<and> (tf_committed b1 \<longleftrightarrow> r = Inr ()))"
proof (cases backup)
  case None
  obtain l d1 where l: "os_Lstat env target d = (l, d1)" by (meson prod.exhaust)
  note f1 = os_Lstat_files [OF l]
  have "case l of Inl e \<Rightarrow> e \<noteq> ErrNotExist | Inr n \<Rightarrow> n = Regular new"
    using l assms(1,3) by (auto simp: os_Lstat_def honest_errors_def elim!: os_call_cases)
  moreover obtain m d2 where m: "os_Remove env target d1 = (m, d2)" by (meson prod.exhaust)
  ultimately show ?thesis using None assms(2) l f1 os_Remove_files [OF m]
    by (auto simp: rollbackActivation_def split: sum.splits)
next
  case (Some b)
  let ?d = "d\<lparr>dk_files := (dk_files d)(tf_path b := None)\<rparr>"
  have "with_temp ?d (tf_path b) old d" using assms(4) [OF Some] by (auto simp: with_temp_def fun_eq_iff)
  moreover obtain q b1 d1 where q: "temp_Commit env target b d = ((q, b1), d1)" by (metis surj_pair)
  ultimately show ?thesis using temp_Commit_files [of ?d b old d env target q b1 d1] assms(2,4) Some
    by (auto simp: rollbackActivation_def with_temp_def)
qed

lemma temp_Cleanup_other:
  assumes "temp_Cleanup env b d = (r, d')"
  shows "p \<noteq> tf_path b \<Longrightarrow> dk_files d' p = dk_files d p" and "tf_committed b \<Longrightarrow> dk_files d' = dk_files d"
proof -
  obtain c d0 where c: "(if tf_closed b then (Inr (), d) else os_other env d) = (c, d0)" by (meson prod.exhaust)
  then have "dk_files d0 = dk_files d" using os_other_files by (auto split: if_splits)
  moreover obtain q d3 where m: "os_Remove env (tf_path b) d0 = (q, d3)" by (meson prod.exhaust)
  ultimately show "p \<noteq> tf_path b \<Longrightarrow> dk_files d' p = dk_files d p" "tf_committed b \<Longrightarrow> dk_files d' = dk_files d"
    using assms m os_Remove_files [OF m] by (auto simp: temp_Cleanup_def c split: sum.splits if_splits)
qed

definition activated :: "disk \<Rightarrow> disk \<Rightarrow> string \<Rightarrow> string \<Rightarrow> string \<Rightarrow> string result \<Rightarrow> bool" where
  "activated d d' staged target bytes r \<longleftrightarrow>
     (\<forall>p. dk_files d p \<noteq> None \<and> p \<noteq> staged \<and> p \<noteq> target \<longrightarrow> dk_files d' p = dk_files d p) \<and>
     (case r of
        Inr t \<Rightarrow> t = target \<and> dk_files d' target = Some (Regular bytes) \<and> (staged \<noteq> target \<longrightarrow> dk_files d' staged = None)
      | Inl e \<Rightarrow> dk_files d' target = dk_files d target \<or> (\<exists>f. e = rollback_failed f) \<and> dk_files d' target = Some (Regular bytes))"

lemma commit_staged_ok:
  fixes d0 :: disk
  assumes env: "honest_errors env" and verify: "\<And>t b d r d'. verify t b d = (r, d') \<Longrightarrow> dk_files d' = dk_files d"
    and staged: "dk_files d0 (staged_Path s) = Some (Regular bytes)" "\<not> tf_committed (sd_temporary s)"
    and backup: "case backup of None \<Rightarrow> dk_files d = dk_files d0 \<and> dk_files d0 target = None
      | Some b \<Rightarrow> \<not> tf_committed b \<and> (\<exists>old. dk_files d0 target = Some (Regular old) \<and> with_temp d0 (tf_path b) old d)"
    and run: "commit_staged env verify target bytes s backup d = ((r, s1, backup1), d1)"
    and d': "d' = (case backup1 of None \<Rightarrow> d1 | Some b \<Rightarrow> snd (temp_Cleanup env b d1))"
  shows "activated d0 d' (staged_Path s) target bytes r"
proof -
  let ?d = "d\<lparr>dk_files := (dk_files d)(staged_Path s := None)\<rparr>"
  have here: "dk_files d (staged_Path s) = Some (Regular bytes)"
    using staged(1) backup by (auto simp: with_temp_def split: option.splits)
  then have t: "with_temp ?d (tf_path (sd_temporary s)) bytes d" by (auto simp: with_temp_def staged_Path_def fun_eq_iff)
  obtain q tmp d2 where q: "temp_Commit env target (sd_temporary s) d = ((q, tmp), d2)" by (metis surj_pair)
  note k = temp_Commit_files [OF t staged(2) q]
  have clean: "dk_files (snd (temp_Cleanup env b e)) p = dk_files e p" if "p \<noteq> tf_path b \<or> tf_committed b" for b e p
    using that temp_Cleanup_other [of env b e "fst (temp_Cleanup env b e)" "snd (temp_Cleanup env b e)"] by auto
  have out: "dk_files d' p = dk_files d1 p" if "backup1 = backup" "dk_files d0 p \<noteq> None \<or> p = target" for p
    using that backup d' by (auto simp: with_temp_def intro!: clean split: option.splits)
  show ?thesis
  proof (cases "q = Inr ()")
    case False
    then obtain e where e: "q = Inl e" by (cases q) auto
    with k have "dk_files d2 = dk_files d" by (auto simp: with_temp_def staged_Path_def fun_eq_iff here [unfolded staged_Path_def])
    moreover have "r = Inl e" "d1 = d2" "backup1 = backup" using run q e by (auto simp: commit_staged_def staged_Commit_def)
    ultimately show ?thesis using backup out by (auto simp: activated_def with_temp_def split: option.splits if_splits)
  next
    case True
    with k have c: "dk_files d2 = ((dk_files d)(target \<mapsto> Regular bytes))(staged_Path s := if staged_Path s = target then Some (Regular bytes) else None)"
      by (auto simp: staged_Path_def fun_eq_iff)
    obtain v d3 where v: "verify target bytes d2 = (v, d3)" by (meson prod.exhaust)
    note f3 = verify [OF v]
    show ?thesis
    proof (cases "\<exists>e. v = Inl e")
      case False
      then have "r = Inr target" "d1 = d3" "backup1 = backup" using run q v True by (auto simp: commit_staged_def staged_Commit_def split: sum.splits)
      then show ?thesis using backup out c f3 staged(1) by (auto simp: activated_def with_temp_def split: option.splits)
    next
      case failed: True
      then obtain e where e: "v = Inl e" by blast
      obtain z b1 d4 where z: "rollbackActivation env target backup d3 = ((z, b1), d4)" by (metis surj_pair)
      have r: "r = Inl (if z = Inr () then Wrap ''activation verification failed: %w'' [] e else rollback_failed e)" "d1 = d4" "backup1 = b1"
        using run q v True e z by (auto simp: commit_staged_def staged_Commit_def)
      have new: "dk_files d3 target = Some (Regular bytes)" using c f3 by simp
      show ?thesis
      proof (cases backup)
        case None
        with rollbackActivation_ok [OF env z new, of "[]"] backup r d' c f3 show ?thesis
          by (auto simp: activated_def split: if_splits option.splits)
      next
        case (Some b)
        with backup obtain old where old: "\<not> tf_committed b" "dk_files d0 target = Some (Regular old)" "with_temp d0 (tf_path b) old d" by auto
        then have ne: "tf_path b \<noteq> target" "tf_path b \<noteq> staged_Path s" using staged(1) by (auto simp: with_temp_def)
        with c f3 old have bk: "dk_files d3 (tf_path b) = Some (Regular old)" by (simp add: with_temp_def)
        have "\<And>b'. backup = Some b' \<Longrightarrow> \<not> tf_committed b' \<and> dk_files d3 (tf_path b') = Some (Regular old) \<and> tf_path b' \<noteq> target"
          using Some old ne bk by auto
        note g = rollbackActivation_ok [OF env z new this]
        have gone: "dk_files d' p = dk_files d4 p" if "p \<noteq> tf_path b" for p
          using d' r(2,3) g Some that clean [of p] by (cases b1) auto
        have "dk_files d' p = dk_files d0 p" if "dk_files d0 p \<noteq> None" "p \<noteq> staged_Path s" "p \<noteq> target" for p
        proof -
          have p: "p \<noteq> tf_path b" using that(1) old(3) by (auto simp: with_temp_def)
          with g Some that(3) have "dk_files d4 p = dk_files d3 p" by simp
          with gone [OF p] c f3 that old(3) p show ?thesis by (simp add: with_temp_def)
        qed
        moreover have "dk_files d' target = (if z = Inr () then Some (Regular old) else Some (Regular bytes))"
          using gone [of target] ne(1) g Some new by auto
        ultimately show ?thesis using r(1) old(2) by (auto simp: activated_def)
      qed
    qed
  qed
qed

text \<open>
  Property C14: activating a staged pack replaces the installed pack completely or leaves it as it
  was. On success the staged bytes decode to a pack that compiles, the file with that pack's
  canonical name holds exactly those bytes, and the staged file is gone. On failure, whichever call
  failed, that file is what it was before, also after a failed check of the new file, unless the
  roll-back itself failed, and then the error says so and the file holds the staged bytes. No
  other file that existed changes.
\<close>

theorem activation_atomic:
  assumes "honest_errors env"
    and "dk_files d (staged_Path s) = Some (Regular bytes)" and "\<not> tf_committed (sd_temporary s)"
    and "ActivateStagedPack compile env (Some s) directory d = ((r, s'), d')"
  shows "case decodePack bytes of
      Inl e \<Rightarrow> (\<exists>e'. r = Inl e') \<and> dk_files d' = dk_files d
    | Inr pack \<Rightarrow> activated d d' (staged_Path s) (filepath_Join [directory, installedPackName pack]) bytes r \<and>
        (\<forall>t. r = Inr t \<longrightarrow> (\<exists>cp. Compile compile pack = Inr cp))"
proof -
  obtain q d1 where q: "os_ReadFile env (staged_Path s) d = (q, d1)" by (meson prod.exhaust)
  note f1 = os_ReadFile_files [OF q]
  show ?thesis
  proof (cases q)
    case (Inl e)
    with q f1 assms(4) show ?thesis by (auto simp: ActivateStagedPack_def activateStagedPack_def activated_def split: sum.splits)
  next
    case (Inr read)
    with q assms(2) os_ReadFile_content [of env "staged_Path s" d read d1] have b: "read = bytes" by (simp add: content_def)
    show ?thesis
    proof (cases "decodePack bytes")
      case (Inl e)
      with q \<open>q = Inr read\<close> b f1 assms(4) show ?thesis by (auto simp: ActivateStagedPack_def activateStagedPack_def)
    next
      case pack: (Inr pack)
      let ?t = "filepath_Join [directory, installedPackName pack]"
      obtain k d2 where k: "stageActivationBackup env directory ?t d1 = (k, d2)" by (meson prod.exhaust)
      note bk = stageActivationBackup_ok [OF assms(1) k]
      show ?thesis
      proof (cases "\<exists>cp backup. Compile compile pack = Inr cp \<and> k = Inr backup")
        case False
        with q \<open>q = Inr read\<close> b f1 assms(4) pack k bk show ?thesis
          by (auto simp: ActivateStagedPack_def activateStagedPack_def activated_def io_bind_def split: sum.splits)
      next
        case True
        then obtain cp backup where cb: "Compile compile pack = Inr cp" "k = Inr backup" by blast
        obtain r1 s1 b1 d3 where c: "commit_staged env (verifyActivatedPack compile env) ?t bytes s backup d2 = ((r1, s1, b1), d3)" by (metis surj_pair)
        have "r = r1" "d' = (case b1 of None \<Rightarrow> d3 | Some b \<Rightarrow> snd (temp_Cleanup env b d3))"
          using assms(4) q \<open>q = Inr read\<close> b pack k cb c by (auto simp: ActivateStagedPack_def activateStagedPack_def split: option.splits)
        moreover have "case backup of None \<Rightarrow> dk_files d2 = dk_files d \<and> dk_files d ?t = None
          | Some b \<Rightarrow> \<not> tf_committed b \<and> (\<exists>old. dk_files d ?t = Some (Regular old) \<and> with_temp d (tf_path b) old d2)"
          using bk cb(2) f1 by (auto simp: with_temp_def split: option.splits)
        moreover have "\<And>t b d r d'. verifyActivatedPack compile env t b d = (r, d') \<Longrightarrow> dk_files d' = dk_files d"
          by (rule verifyActivatedPack_files)
        ultimately have "activated d d' (staged_Path s) ?t bytes r"
          using commit_staged_ok [OF assms(1) _ assms(2,3) _ c] by blast
        with pack cb(1) show ?thesis by simp
      qed
    qed
  qed
qed

text \<open>A staged copy of the same pack, activated over an older file.\<close>

definition demo_staged :: StagedDownload where
  "demo_staged = \<lparr>sd_temporary = \<lparr>tf_path = ''/p/.pack-stage-1'', tf_closed = False, tf_committed = False\<rparr>, sd_Size = length demo_text\<rparr>"

definition demo_staged_disk :: disk where
  "demo_staged_disk = \<lparr>dk_files = [''/p/.pack-stage-1'' \<mapsto> Regular demo_text, ''/p/a-1.0.0.json'' \<mapsto> Regular ''old''], dk_calls = 0\<rparr>"

theorem activation_atomic_witness:
  "\<exists>s d. ActivateStagedPack demo_compile calm_system (Some demo_staged) ''/p'' demo_staged_disk = ((Inr ''/p/a-1.0.0.json'', s), d) \<and>
     dk_files d ''/p/a-1.0.0.json'' = Some (Regular demo_text)"
proof -
  let ?a = "ActivateStagedPack demo_compile calm_system (Some demo_staged) ''/p'' demo_staged_disk"
  have "fst (fst ?a) = Inr ''/p/a-1.0.0.json''" by code_simp
  then obtain s d where a: "?a = ((Inr ''/p/a-1.0.0.json'', s), d)" by (metis prod.collapse)
  have "\<not> isl (decodePack demo_text)" by code_simp
  then obtain pack where pack: "decodePack demo_text = Inr pack" by (cases "decodePack demo_text") auto
  have h: "honest_errors calm_system" by (simp add: honest_errors_def calm_system_def)
  have "dk_files demo_staged_disk (staged_Path demo_staged) = Some (Regular demo_text)" "\<not> tf_committed (sd_temporary demo_staged)"
    by (simp_all add: demo_staged_disk_def demo_staged_def staged_Path_def)
  from activation_atomic [OF h this a] pack a show ?thesis by (auto simp: activated_def)
qed

end
