(* ===== verification/ConfigLoad.thy ===== *)
theory ConfigLoad
  imports StateFiles
begin

section \<open>Loading the configuration (internal/config: config.go, ownership_unix.go)\<close>

text \<open>
  How the configuration of a run comes about: the global file, then the file of the project the
  working directory is in, if the user approved it, then the session's environment. What
  \<open>os.Stat\<close> and \<open>os.Lstat\<close> report of a path, and the effective user, are the \<open>file_view\<close>; the
  contents are read from the disk of theory \<open>Files\<close>. The walk to the root ends because a parent
  directory has a shorter name (or is \<open>.\<close>), which is the termination proof of \<open>projectPath\<close>.
\<close>

subsection \<open>Model\<close>

record file_info =
  fi_regular :: bool
  fi_dir :: bool
  fi_perm :: nat
  fi_uid :: int

record file_view =
  fv_Stat :: "string \<Rightarrow> file_info result"
  fv_Lstat :: "string \<Rightarrow> file_info result"
  fv_euid :: int

unbundle bit_operations_syntax

definition hasSecurePermissions :: "file_info \<Rightarrow> bool \<Rightarrow> bool" where
  "hasSecurePermissions info directory = (if directory then fi_perm info AND 18 = 0 else fi_perm info AND 63 = 0)"

definition ownedByCurrentUser :: "file_view \<Rightarrow> file_info \<Rightarrow> bool" where
  "ownedByCurrentUser view info \<longleftrightarrow> fi_uid info = fv_euid view"

text \<open>\<open>os.Lstat\<close> succeeds and the file is private to its owner: the checks of \<open>trustedProject\<close> on each of its three files.\<close>

definition secure_node :: "file_view \<Rightarrow> string \<Rightarrow> bool \<Rightarrow> file_info option" where
  "secure_node view path directory =
     (case fv_Lstat view path of
        Inl e \<Rightarrow> None
      | Inr info \<Rightarrow> if (if directory then fi_dir info else fi_regular info) \<and> hasSecurePermissions info directory then Some info else None)"

definition trustedProject :: "system \<Rightarrow> file_view \<Rightarrow> string \<Rightarrow> bool" where
  "trustedProject env view path =
     (let capabilities = capabilities_For (sy_GOOS env); marker = filepath_Join [filepath_Dir path, ''trusted''] in
      if \<not> Supports capabilities RestrictivePermissions \<or> \<not> Supports capabilities OwnerVerification then False
      else case secure_node view path False of None \<Rightarrow> False | Some configInfo \<Rightarrow>
        (case secure_node view marker False of None \<Rightarrow> False | Some markerInfo \<Rightarrow>
        (case secure_node view (filepath_Dir marker) True of None \<Rightarrow> False | Some directoryInfo \<Rightarrow>
           ownedByCurrentUser view configInfo \<and> ownedByCurrentUser view markerInfo \<and> ownedByCurrentUser view directoryInfo)))"

definition globalPath :: "string result \<Rightarrow> (string \<Rightarrow> string) \<Rightarrow> string result" where
  "globalPath home getenv =
     (let base = getenv ''XDG_CONFIG_HOME'' in
      if base = [] \<or> \<not> filepath_IsAbs base then
        map_sum (\<lambda>e. e) (\<lambda>v. filepath_Join [filepath_Join [v, ''.config''], ''solomon'', ''config.json'']) home
      else Inr (filepath_Join [base, ''solomon'', ''config.json'']))"

subsection \<open>Names of parent directories\<close>

definition parts_weight :: "string list \<Rightarrow> nat" where
  "parts_weight ws = sum_list (map (\<lambda>w. length w + 1) ws)"

lemma parts_weight_simps [simp]: "parts_weight [] = 0" "parts_weight (w # ws) = length w + 1 + parts_weight ws"
    "parts_weight (rev ws) = parts_weight ws" "parts_weight (us @ ws) = parts_weight us + parts_weight ws"
  by (simp_all add: parts_weight_def rev_map [symmetric])

lemma Join_length: "ws \<noteq> [] \<Longrightarrow> length (strings_Join ws ''/'') + 1 = parts_weight ws"
  by (induction ws "''/''" rule: strings_Join.induct) auto

lemma Split_weight: "parts_weight (strings_Split p c) = length p + 1"
  by (induction p c rule: strings_Split.induct) (auto split: list.split)

lemma Split_snoc: "strings_Split (p @ [c]) c = strings_Split p c @ [[]]"
  by (induction p c rule: strings_Split.induct) (auto split: list.split)

lemma clean_loop_weight:
  "parts_weight (clean_loop rooted ws stack) \<le> parts_weight stack + parts_weight (filter (\<lambda>w. w \<noteq> []) ws)"
  by (induction rooted ws stack rule: clean_loop.induct) (auto split: list.splits)

lemma clean_body_length:
  assumes "body = clean_loop rooted ws []" "parts_weight (filter (\<lambda>w. w \<noteq> []) ws) \<le> n"
  shows "length (strings_Join body ''/'') \<le> n - 1"
proof (cases "body = []")
  case False
  have "parts_weight body \<le> n" using clean_loop_weight [of rooted ws "[]"] assms by simp
  with Join_length [OF False] show ?thesis by simp
qed simp

lemma filter_weight: "parts_weight (filter P ws) \<le> parts_weight ws"
  by (induction ws) auto

lemma Split_dir: "\<exists>u base. d = u @ base \<and> fst (filepath_Split d) = u \<and> (u = [] \<or> last u = slash)"
proof -
  let ?p = "\<lambda>c. c = slash" let ?b = "after_last ?p d"
  define u where "u = rev (dropWhile (\<lambda>c. \<not> ?p c) (rev d))"
  have d: "d = u @ ?b" unfolding u_def after_last_def by (metis rev_append rev_swap takeWhile_dropWhile_id)
  then have "fst (filepath_Split d) = u" by (simp add: filepath_Split_def Let_def) (metis append_eq_conv_conj append_same_eq diff_add_inverse2 length_append)
  moreover have "u = [] \<or> last u = slash"
    unfolding u_def by (cases "dropWhile (\<lambda>c. \<not> ?p c) (rev d)") (auto simp: last_rev dest: dropWhile_eq_Cons_conv [THEN iffD1])
  ultimately show ?thesis using d by blast
qed

lemma Dir_shorter:
  assumes "filepath_Dir d \<noteq> d"
  shows "filepath_Dir d = ''.'' \<or> length (filepath_Dir d) < length d"
proof -
  obtain p base where p: "d = p @ base" "fst (filepath_Split d) = p" "p = [] \<or> last p = slash" using Split_dir by blast
  then have D: "filepath_Dir d = filepath_Clean p" by (simp add: filepath_Dir_def)
  show ?thesis
  proof (cases "p = []")
    case True
    with D have "filepath_Dir d = ''.''" by (simp add: filepath_Clean_def filepath_IsAbs_def hasPrefix_def)
    then show ?thesis ..
  next
    case False
    with p(3) obtain u where u: "p = u @ [slash]" by (metis append_butlast_last_id)
    have parts: "filter (\<lambda>w. w \<noteq> []) (strings_Split p slash) = filter (\<lambda>w. w \<noteq> []) (strings_Split u slash)" by (simp add: u Split_snoc)
    show ?thesis
    proof (cases "filepath_IsAbs p")
      case True
      show ?thesis
      proof (cases u)
        case Nil
        then have "filepath_Dir d = ''/''" by (simp add: D u filepath_Clean_def filepath_IsAbs_def hasPrefix_def slash_def)
        moreover have "base \<noteq> []" using assms calculation p(1) u Nil by (auto simp: slash_def)
        ultimately show ?thesis using p(1) u by simp
      next
        case (Cons c v)
        with True u have "strings_Split u slash = [] # strings_Split v slash" by (simp add: filepath_IsAbs_def hasPrefix_def slash_def)
        then have "parts_weight (filter (\<lambda>w. w \<noteq> []) (strings_Split u slash)) \<le> length u"
          using filter_weight [of "\<lambda>w. w \<noteq> []" "strings_Split v slash"] Split_weight [of v slash] Cons by simp
        with parts have "length (strings_Join (clean_loop True (strings_Split p slash) []) ''/'') \<le> length u - 1"
          by (intro clean_body_length [OF refl]) simp
        moreover have "length (filepath_Dir d) = Suc (length (strings_Join (clean_loop True (strings_Split p slash) []) ''/''))"
          using True by (simp add: D filepath_Clean_def Let_def)
        moreover have "length d = length u + 1 + length base" "0 < length u" using p(1) u Cons by simp_all
        ultimately show ?thesis by linarith
      qed
    next
      case F: False
      have "parts_weight (filter (\<lambda>w. w \<noteq> []) (strings_Split u slash)) \<le> length u + 1"
        using filter_weight [of "\<lambda>w. w \<noteq> []" "strings_Split u slash"] Split_weight [of u slash] by simp
      with parts have "length (strings_Join (clean_loop False (strings_Split p slash) []) ''/'') \<le> length u + 1 - 1"
        by (intro clean_body_length [OF refl]) simp
      moreover have "filepath_Dir d = ''.'' \<or> length (filepath_Dir d) = length (strings_Join (clean_loop False (strings_Split p slash) []) ''/'')"
        using F by (simp add: D filepath_Clean_def Let_def)
      moreover have "length d = length u + 1 + length base" using p(1) u by simp
      ultimately show ?thesis by linarith
    qed
  qed
qed

subsection \<open>Finding and merging the project file\<close>

function projectPath :: "system \<Rightarrow> file_view \<Rightarrow> string \<Rightarrow> string option" where
  "projectPath env view dir =
     (let candidate = filepath_Join [dir, ''.solomon'', ''config.json''] in
      if (case fv_Stat view candidate of Inr info \<Rightarrow> fi_regular info | Inl _ \<Rightarrow> False) \<and> trustedProject env view candidate then Some candidate
      else if filepath_Dir dir = dir then None
      else projectPath env view (filepath_Dir dir))"
  by pat_completeness auto
termination
proof (relation "measure (\<lambda>(env, view, dir). if dir = ''.'' then 0 else Suc (length dir))")
  fix env view dir
  assume n: "filepath_Dir dir \<noteq> dir"
  moreover have "filepath_Dir ''.'' = ''.''" by code_simp
  ultimately have "dir \<noteq> ''.''" by auto
  with Dir_shorter [OF n] show "((env, view, filepath_Dir dir), env, view, dir) \<in> measure (\<lambda>(env, view, dir). if dir = ''.'' then 0 else Suc (length dir))"
    by auto
qed simp

declare projectPath.simps [simp del]

definition mergeApprovedProject :: "system \<Rightarrow> file_view \<Rightarrow> Config \<Rightarrow> string \<Rightarrow> disk \<Rightarrow> Config result \<times> disk" where
  "mergeApprovedProject env view base path d =
     (case fv_Lstat view path of
        Inl e \<Rightarrow> (if e = ErrNotExist then Inr base else Inl e, d)
      | Inr info \<Rightarrow>
         if \<not> fi_regular info \<or> \<not> trustedProject env view path then (Inr base, d)
         else case os_ReadFile env path d of (Inl e, d1) \<Rightarrow> (Inl e, d1) | (Inr bytes, d1) \<Rightarrow> (config_decode bytes base, d1))"

record Paths =
  ph_Home :: "string result"
  ph_CWD :: "string result"
  ph_Env :: "string \<Rightarrow> string"
  ph_Environ :: "string list option"

definition config_Load :: "system \<Rightarrow> file_view \<Rightarrow> Paths \<Rightarrow> disk \<Rightarrow> Config result \<times> disk" where
  "config_Load env view paths d =
     (case globalPath (ph_Home paths) (ph_Env paths) of
        Inl e \<Rightarrow> (Inl e, d)
      | Inr global \<Rightarrow>
         (case LoadGlobal env global d of
            (Inl e, d1) \<Rightarrow> (Inl e, d1)
          | (Inr cfg, d1) \<Rightarrow>
             (case (case ph_CWD paths of
                      Inl e \<Rightarrow> (Inr cfg, d1)
                    | Inr cwd \<Rightarrow>
                       (case projectPath env view cwd of None \<Rightarrow> (Inr cfg, d1) | Some project \<Rightarrow> mergeApprovedProject env view cfg project d1)) of
                (Inl e, d2) \<Rightarrow> (Inl e, d2)
              | (Inr cfg', d2) \<Rightarrow> (applySessionPrecedence cfg' (ph_Environ paths) (ph_Env paths), d2))))"

subsection \<open>Only approved project files count\<close>

text \<open>A project file the user approved: it, its marker and their directory belong to the user and to nobody else.\<close>

definition private_to_user :: "file_view \<Rightarrow> string \<Rightarrow> bool \<Rightarrow> bool" where
  "private_to_user view path directory \<longleftrightarrow> (\<exists>info. fv_Lstat view path = Inr info \<and> (if directory then fi_dir info else fi_regular info) \<and>
     fi_perm info AND (if directory then 18 else 63) = 0 \<and> fi_uid info = fv_euid view)"

definition approved_project :: "file_view \<Rightarrow> string \<Rightarrow> bool" where
  "approved_project view path \<longleftrightarrow> private_to_user view path False \<and>
     private_to_user view (filepath_Join [filepath_Dir path, ''trusted'']) False \<and>
     private_to_user view (filepath_Dir (filepath_Join [filepath_Dir path, ''trusted''])) True"

lemma trustedProject_approved: "trustedProject env view path \<Longrightarrow> approved_project view path"
  by (auto simp: trustedProject_def Let_def secure_node_def hasSecurePermissions_def ownedByCurrentUser_def approved_project_def private_to_user_def
      split: if_splits sum.splits option.splits)

lemma projectPath_above:
  "projectPath env view dir = Some path \<Longrightarrow>
     \<exists>n. path = filepath_Join [(filepath_Dir ^^ n) dir, ''.solomon'', ''config.json''] \<and> trustedProject env view path"
proof (induction env view dir rule: projectPath.induct)
  case (1 env view dir)
  let ?c = "filepath_Join [dir, ''.solomon'', ''config.json'']"
  show ?case
  proof (cases "(case fv_Stat view ?c of Inr info \<Rightarrow> fi_regular info | Inl _ \<Rightarrow> False) \<and> trustedProject env view ?c")
    case True
    with "1.prems" have "path = ?c" by (simp add: projectPath.simps [of env view dir] Let_def)
    with True show ?thesis by (intro exI [of _ 0]) simp
  next
    case False
    with "1.prems" have n: "filepath_Dir dir \<noteq> dir" "projectPath env view (filepath_Dir dir) = Some path"
      by (auto simp: projectPath.simps [of env view dir] Let_def split: if_splits)
    from "1.IH" [OF refl False n] obtain n where "path = filepath_Join [(filepath_Dir ^^ n) (filepath_Dir dir), ''.solomon'', ''config.json'']"
        "trustedProject env view path" by blast
    then show ?thesis by (intro exI [of _ "Suc n"]) (simp add: funpow_swap1)
  qed
qed

lemma config_decode_ok: "config_decode bytes base = Inr c \<Longrightarrow> config_ok c"
  by (auto simp: config_decode_def Let_def decode_checked_def config_ok_def split: option.splits json.splits sum.splits)

lemma LoadGlobal_ok: "LoadGlobal env path d = (Inr c, d') \<Longrightarrow> config_ok c"
proof -
  assume l: "LoadGlobal env path d = (Inr c, d')"
  have "config_ok Default" by code_simp
  with l show ?thesis by (auto simp: LoadGlobal_def load_file_def split: prod.splits sum.splits if_splits dest: config_decode_ok)
qed

lemma session_ok: "config_ok c \<Longrightarrow> applySessionPrecedence c environ env = Inr c' \<Longrightarrow> config_ok c'"
  using overrides.run_ok by (auto simp: applySessionPrecedence_def ApplySessionOverrides_def apply_overrides_run split: sum.splits)

lemma loaded_config_approved:
  assumes "config_Load env view paths d = (Inr cfg, d')"
  shows "config_ok cfg \<and> (\<exists>global base d1. globalPath (ph_Home paths) (ph_Env paths) = Inr global \<and> LoadGlobal env global d = (Inr base, d1) \<and>
    (applySessionPrecedence base (ph_Environ paths) (ph_Env paths) = Inr cfg \<or>
     (\<exists>cwd n path bytes d2 merged. ph_CWD paths = Inr cwd \<and> path = filepath_Join [(filepath_Dir ^^ n) cwd, ''.solomon'', ''config.json''] \<and>
        approved_project view path \<and> os_ReadFile env path d1 = (Inr bytes, d2) \<and> config_decode bytes base = Inr merged \<and>
        applySessionPrecedence merged (ph_Environ paths) (ph_Env paths) = Inr cfg)))"
proof -
  obtain global base d1 where g: "globalPath (ph_Home paths) (ph_Env paths) = Inr global" "LoadGlobal env global d = (Inr base, d1)"
    using assms by (auto simp: config_Load_def split: sum.splits prod.splits)
  note base_ok = LoadGlobal_ok [OF g(2)]
  consider (plain) "applySessionPrecedence base (ph_Environ paths) (ph_Env paths) = Inr cfg"
    | (project) cwd path merged d2 where "ph_CWD paths = Inr cwd" "projectPath env view cwd = Some path"
      "mergeApprovedProject env view base path d1 = (Inr merged, d2)" "applySessionPrecedence merged (ph_Environ paths) (ph_Env paths) = Inr cfg"
    using assms g by (auto simp: config_Load_def split: sum.splits prod.splits option.splits)
  then show ?thesis
  proof cases
    case plain
    with g session_ok [OF base_ok plain] show ?thesis by blast
  next
    case project
    from projectPath_above [OF project(2)] obtain n where n: "path = filepath_Join [(filepath_Dir ^^ n) cwd, ''.solomon'', ''config.json'']"
        "trustedProject env view path" by blast
    show ?thesis
    proof (cases "merged = base")
      case True
      with project(4) g session_ok [OF base_ok] show ?thesis by blast
    next
      case False
      then obtain bytes where b: "os_ReadFile env path d1 = (Inr bytes, d2)" "config_decode bytes base = Inr merged"
        using project(3) by (auto simp: mergeApprovedProject_def split: sum.splits if_splits prod.splits)
      from session_ok [OF config_decode_ok [OF b(2)] project(4)] g n trustedProject_approved [OF n(2)] project(1,4) b show ?thesis by blast
    qed
  qed
qed

text \<open>
  Property C10: only approved configuration counts. A loaded configuration is well-formed, and it
  is the global one (the defaults where there is no file) with the session's overrides, or else the
  one file \<open>.solomon/config.json\<close> of the working directory or a directory above it was merged, and then that file, the
  marker \<open>trusted\<close> beside it and their directory are no links, belong to the user who runs the
  program, and nobody else can write them (nor read the two files).
\<close>

theorem project_config_approved:
  assumes "config_Load env view paths d = (Inr cfg, d')"
  shows "config_ok cfg \<and> (\<exists>global base d1. globalPath (ph_Home paths) (ph_Env paths) = Inr global \<and> LoadGlobal env global d = (Inr base, d1) \<and>
    (applySessionPrecedence base (ph_Environ paths) (ph_Env paths) = Inr cfg \<or>
     (\<exists>cwd n path bytes d2 merged. ph_CWD paths = Inr cwd \<and> path = filepath_Join [(filepath_Dir ^^ n) cwd, ''.solomon'', ''config.json''] \<and>
        approved_project view path \<and> os_ReadFile env path d1 = (Inr bytes, d2) \<and> config_decode bytes base = Inr merged \<and>
        applySessionPrecedence merged (ph_Environ paths) (ph_Env paths) = Inr cfg)))"
  by (rule loaded_config_approved [OF assms])

definition demo_view :: file_view where
  "demo_view = \<lparr>fv_Stat = (\<lambda>_. Inr \<lparr>fi_regular = True, fi_dir = False, fi_perm = 384, fi_uid = 5\<rparr>),
     fv_Lstat = (\<lambda>path. Inr \<lparr>fi_regular = path \<noteq> ''/p/.solomon'', fi_dir = path = ''/p/.solomon'', fi_perm = 384, fi_uid = 5\<rparr>), fv_euid = 5\<rparr>"

definition demo_paths :: Paths where
  "demo_paths = \<lparr>ph_Home = Inr ''/h'', ph_CWD = Inr ''/p'', ph_Env = (\<lambda>_. []), ph_Environ = Some []\<rparr>"

definition demo_disk :: disk where
  "demo_disk = \<lparr>dk_files = [''/p/.solomon/config.json'' \<mapsto> Regular (json_file_text (JObject [(''schema_version'', JNumber ''7''), (''mode'', JString ''off'')]))],
     dk_calls = 0\<rparr>"

theorem project_config_approved_witness:
  "\<exists>d'. config_Load calm_system demo_view demo_paths demo_disk = (Inr (Default\<lparr>cf_Mode := ''off''\<rparr>), d') \<and>
     config_ok (Default\<lparr>cf_Mode := ''off''\<rparr>)"
proof -
  have "fst (config_Load calm_system demo_view demo_paths demo_disk) = Inr (Default\<lparr>cf_Mode := ''off''\<rparr>)" by code_simp
  then obtain d' where d: "config_Load calm_system demo_view demo_paths demo_disk = (Inr (Default\<lparr>cf_Mode := ''off''\<rparr>), d')"
    by (metis prod.collapse)
  with project_config_approved [OF d] show ?thesis by blast
qed

end
