(* ===== verification/LearningProps.thy ===== *)
theory LearningProps
  imports LocalState
begin

section \<open>Properties of the learning store\<close>

text \<open>
  \<open>store_run\<close> is the transition system of the store's operations on a newly created database,
  with the history of what was called and what succeeded. Its invariant ties every row to the
  history: the evidence of a draft is the number of learning pairs recorded for it since the
  last purge, a rule belongs to a draft with enough evidence, and its action and whether it is
  enabled are what was last asked for. The database engine has to give new rows unused ids.
\<close>

subsection \<open>Operations and histories\<close>

datatype store_op =
    OpObserve Observation | OpExpire int | OpLearn Observation | OpActivate int string
  | OpEdit int string string | OpSetAction int string | OpSetEnabled int bool | OpRemove int | OpPurge

text \<open>The outcome of an operation: nothing when it failed, the draft's id when a pair was learned, otherwise 0.\<close>

definition outcome :: "('a \<Rightarrow> int) \<Rightarrow> 'a result \<Rightarrow> int option" where
  "outcome f r = (case r of Inl _ \<Rightarrow> None | Inr a \<Rightarrow> Some (f a))"

definition opened :: "database \<Rightarrow> ('a \<Rightarrow> int) \<Rightarrow> 'a result \<times> Store \<Rightarrow> int option \<times> database" where
  "opened db f answer = (case answer of (r, store) \<Rightarrow> (outcome f r, case store of None \<Rightarrow> db | Some db' \<Rightarrow> db'))"

fun store_step :: "sqlite \<Rightarrow> store_op \<Rightarrow> database \<Rightarrow> int option \<times> database" where
  "store_step q (OpObserve ob) db = opened db (\<lambda>_. 0) (RecordObservation q ob (Some db))"
| "store_step q (OpExpire cutoff) db = opened db (\<lambda>_. 0) (DeleteObservationsBefore q cutoff (Some db))"
| "store_step q (OpLearn ob) db = opened db dr_ID (RecordLearningPair q ob (Some db))"
| "store_step q (OpActivate i action) db = opened db (\<lambda>_. 0) (ActivateDraft q i action (Some db))"
| "store_step q (OpEdit i failure correction) db = opened db (\<lambda>_. 0) (UpdateDraft q i failure correction (Some db))"
| "store_step q (OpSetAction i action) db = opened db (\<lambda>_. 0) (SetRuleAction q i action (Some db))"
| "store_step q (OpSetEnabled i enabled) db = opened db (\<lambda>_. 0) (SetRuleEnabled q i enabled (Some db))"
| "store_step q (OpRemove i) db = opened db (\<lambda>_. 0) (DeleteRule q i (Some db))"
| "store_step q OpPurge db = opened db (\<lambda>_. 0) (PurgeLearning q (Some db))"

type_synonym store_history = "(store_op \<times> int option) list"

inductive store_run :: "sqlite \<Rightarrow> store_history \<Rightarrow> database \<Rightarrow> bool" for q where
  store_new: "db_user_version db = 0 \<Longrightarrow> db_tables db = None \<Longrightarrow> store_migrate q db = (Inr (), db') \<Longrightarrow> store_run q [] db'"
| store_op: "store_run q h db \<Longrightarrow> store_step q op db = (out, db') \<Longrightarrow> store_run q ((op, out) # h) db'"
| store_query: "store_run q h db \<Longrightarrow> db_tables db' = db_tables db \<Longrightarrow> store_run q h db'"

definition fresh_ids :: "sqlite \<Rightarrow> bool" where
  "fresh_ids q \<longleftrightarrow> (\<forall>ids. sq_rowid q ids \<notin> set ids \<and> 1 \<le> sq_rowid q ids)"

text \<open>What the history says of a draft and of a rule, newest entry first.\<close>

fun evidence :: "store_history \<Rightarrow> int \<Rightarrow> int" where
  "evidence ((OpPurge, Some _) # h) i = 0"
| "evidence ((OpLearn ob, Some j) # h) i = (if j = i then 1 else 0) + evidence h i"
| "evidence (_ # h) i = evidence h i"
| "evidence [] i = 0"

fun chosen_action :: "store_history \<Rightarrow> int \<Rightarrow> int \<Rightarrow> string option" where
  "chosen_action ((OpActivate d' a, Some _) # h) r d = (if d' = d then Some a else chosen_action h r d)"
| "chosen_action ((OpSetAction r' a, Some _) # h) r d = (if r' = r then Some a else chosen_action h r d)"
| "chosen_action (_ # h) r d = chosen_action h r d"
| "chosen_action [] r d = None"

fun switched_on :: "store_history \<Rightarrow> int \<Rightarrow> int \<Rightarrow> bool" where
  "switched_on ((OpActivate d' a, Some _) # h) r d = (d' = d \<or> switched_on h r d)"
| "switched_on ((OpSetEnabled r' b, Some _) # h) r d = (if r' = r then b else switched_on h r d)"
| "switched_on (_ # h) r d = switched_on h r d"
| "switched_on [] r d = False"

subsection \<open>The invariant\<close>

definition drafts_ok :: "store_history \<Rightarrow> draft_row list \<Rightarrow> bool" where
  "drafts_ok h ws \<longleftrightarrow> distinct (map w_id ws) \<and> unique_pairs ws \<and>
     (\<forall>w\<in>set ws. 1 \<le> w_id w \<and> 1 \<le> w_evidence_count w \<and> w_evidence_count w = evidence h (w_id w)) \<and>
     (\<forall>i. i \<notin> w_id ` set ws \<longrightarrow> evidence h i = 0)"

definition rule_ok :: "store_history \<Rightarrow> draft_row list \<Rightarrow> rule_row \<Rightarrow> bool" where
  "rule_ok h ws u \<longleftrightarrow> 1 \<le> u_id u \<and> u_draft_id u \<in> w_id ` set ws \<and> DraftEvidenceThreshold \<le> evidence h (u_draft_id u) \<and>
     validAction (u_action u) \<and> chosen_action h (u_id u) (u_draft_id u) = Some (u_action u) \<and>
     u_enabled u = (if switched_on h (u_id u) (u_draft_id u) then 1 else 0)"

definition rules_ok :: "store_history \<Rightarrow> draft_row list \<Rightarrow> rule_row list \<Rightarrow> bool" where
  "rules_ok h ws us \<longleftrightarrow> distinct (map u_id us) \<and> distinct (map u_draft_id us) \<and> (\<forall>u\<in>set us. rule_ok h ws u)"

definition store_ok :: "store_history \<Rightarrow> database \<Rightarrow> bool" where
  "store_ok h db \<longleftrightarrow> (\<exists>t. db_tables db = Some t \<and> distinct (map or_id (t_observations t)) \<and>
     drafts_ok h (t_drafts t) \<and> rules_ok h (t_drafts t) (t_rules t))"

subsection \<open>Statements and transactions\<close>

lemma run_statement_cases:
  assumes "run_statement q stmt db = (r, db')" "db_tables db = Some t"
  obtains e where "r = Inl e" "db_tables db' = Some t"
  | a i t' where "r = Inr a" "stmt t = Inr (a, i, t')" "db_tables db' = Some t'"
    "db_last_insert db' = (case i of None \<Rightarrow> db_last_insert db | Some j \<Rightarrow> j)"
  using assms by (auto simp: run_statement_def split: option.splits sum.splits prod.splits)

lemma no_effect_tables: "run_statement q no_effect db = (r, db') \<Longrightarrow> db_tables db' = db_tables db"
  by (auto simp: run_statement_def no_effect_def split: option.splits)

lemma query_tables:
  assumes "run_statement q stmt db = (r, db')" "\<And>t a i t'. stmt t = Inr (a, i, t') \<Longrightarrow> t' = t"
  shows "db_tables db' = db_tables db"
  using assms by (auto simp: run_statement_def split: option.splits sum.splits prod.splits)

lemma transaction_cases:
  assumes "transaction q body db = (r, db')" "db_tables db = Some t"
  obtains e where "r = Inl e" "db_tables db' = Some t"
  | a db1 db2 where "r = Inr a" "db_tables db1 = Some t" "body db1 = (Inr a, db2)" "db_tables db' = db_tables db2"
  using assms by (auto simp: transaction_def rolled_back_def dest!: no_effect_tables split: prod.splits sum.splits)

lemma must_change_one_Inr:
  "must_change_one what i (r, db) = (Inr (), store) \<longleftrightarrow> r = Inr 1 \<and> store = Some db"
  by (auto simp: must_change_one_def split: sum.splits)

lemma must_change_one_store: "snd (must_change_one what i (r, db)) = Some db"
  by (simp add: must_change_one_def)

subsection \<open>Histories\<close>

lemma failed_entry [simp]:
  "evidence ((op, None) # h) i = evidence h i" "chosen_action ((op, None) # h) r d = chosen_action h r d"
  "switched_on ((op, None) # h) r d = switched_on h r d"
  by (cases op; simp)+

lemma store_ok_entry:
  assumes "store_ok h db" "\<And>i. evidence (x # h) i = evidence h i" "\<And>r d. chosen_action (x # h) r d = chosen_action h r d"
    "\<And>r d. switched_on (x # h) r d = switched_on h r d" "db_tables db' = db_tables db"
  shows "store_ok (x # h) db'"
  using assms by (auto simp: store_ok_def drafts_ok_def rules_ok_def rule_ok_def)

text \<open>An entry that says nothing of drafts and rules, with new observations.\<close>

lemma store_ok_observations:
  assumes "store_ok h db" "db_tables db = Some t" "distinct (map or_id obs)" "db_tables db' = Some (t\<lparr>t_observations := obs\<rparr>)"
  shows "store_ok h db'"
  using assms by (auto simp: store_ok_def)

lemma fresh_rowid: "fresh_ids q \<Longrightarrow> sq_rowid q (map f xs) \<notin> f ` set xs" "fresh_ids q \<Longrightarrow> 1 \<le> sq_rowid q ids"
  unfolding fresh_ids_def by (metis list.set_map, blast)

lemma RecordObservation_tables:
  assumes "fresh_ids q" "RecordObservation q ob (Some db) = (r, store)" "db_tables db = Some t" "distinct (map or_id (t_observations t))"
  obtains db' obs where "store = Some db'" "db_tables db' = Some (t\<lparr>t_observations := obs\<rparr>)" "distinct (map or_id obs)"
proof (cases "ob_Session ob = [] \<or> ob_FailedCommand ob = [] \<or> ob_CorrectedCommand ob = []")
  case True
  then show ?thesis using assms that [of db "t_observations t"] by (auto simp: RecordObservation_def)
next
  case False
  let ?ob = "ob\<lparr>ob_CreatedAt := or_now q db (ob_CreatedAt ob)\<rparr>"
  obtain x db1 where x: "run_statement q (insert_observation q ?ob) db = (x, db1)" by (meson prod.exhaust)
  then have st: "store = Some db1" using assms(2) False by (auto simp: RecordObservation_def)
  from x assms(3) show ?thesis
  proof (cases rule: run_statement_cases)
    case (1 e)
    then show ?thesis using that [OF st, of "t_observations t"] assms(4) by auto
  next
    case (2 a i t')
    then show ?thesis using that [OF st, of "t_observations t'"] assms(4) fresh_rowid(1) [OF assms(1), of or_id "t_observations t"]
      by (auto simp: insert_observation_def)
  qed
qed

text \<open>The steps on observations only.\<close>

lemma observe_ok:
  assumes "fresh_ids q" "store_ok h db" "store_step q (OpObserve ob) db = (out, db')"
  shows "store_ok ((OpObserve ob, out) # h) db'"
proof -
  from assms(2) obtain t where t: "db_tables db = Some t" "distinct (map or_id (t_observations t))" by (auto simp: store_ok_def)
  obtain r store where r: "RecordObservation q ob (Some db) = (r, store)" by (meson prod.exhaust)
  from RecordObservation_tables [OF assms(1) r t] obtain d obs where
    d: "store = Some d" "db_tables d = Some (t\<lparr>t_observations := obs\<rparr>)" "distinct (map or_id obs)" by metis
  then have "db' = d" using assms(3) r by (simp add: opened_def)
  moreover have "store_ok h d" using store_ok_observations [OF assms(2) t(1) d(3,2)] .
  ultimately show ?thesis by (auto intro: store_ok_entry)
qed

lemma expire_ok:
  assumes "store_ok h db" "store_step q (OpExpire cutoff) db = (out, db')"
  shows "store_ok ((OpExpire cutoff, out) # h) db'"
proof -
  from assms(1) obtain t where t: "db_tables db = Some t" "distinct (map or_id (t_observations t))" by (auto simp: store_ok_def)
  obtain r d where r: "run_statement q (delete_observations (time_Unix cutoff)) db = (r, d)" by (meson prod.exhaust)
  then have "db' = d" using assms(2) by (simp add: opened_def DeleteObservationsBefore_def)
  moreover from r t(1) have "store_ok h d"
  proof (cases rule: run_statement_cases)
    case (1 e)
    then show ?thesis using assms(1) t(1) by (simp add: store_ok_def)
  next
    case (2 n i t')
    then show ?thesis using store_ok_observations [OF assms(1) t(1), of "t_observations t'" d] t(2)
      by (auto simp: delete_observations_def distinct_map_filter)
  qed
  ultimately show ?thesis by (auto intro: store_ok_entry)
qed

subsection \<open>Learning a pair\<close>

lemma map_update_rows: "(\<And>r. g (f r) = g r) \<Longrightarrow> map g (snd (update_rows p f rows)) = map g rows"
  by (simp add: update_rows_def)

lemma set_update_rows: "set (snd (update_rows p f rows)) = (\<lambda>r. if p r then f r else r) ` set rows"
  by (simp add: update_rows_def)

lemma drafts_learn_update:
  assumes "drafts_ok h ws" "w \<in> set ws"
  shows "drafts_ok ((OpLearn ob, Some (w_id w)) # h)
    (snd (update_rows (\<lambda>x. w_id x = w_id w) (\<lambda>x. x\<lparr>w_evidence_count := w_evidence_count w + 1, w_updated_at := time\<rparr>) ws))"
proof -
  let ?ws = "snd (update_rows (\<lambda>x. w_id x = w_id w) (\<lambda>x. x\<lparr>w_evidence_count := w_evidence_count w + 1, w_updated_at := time\<rparr>) ws)"
  have ids: "map w_id ?ws = map w_id ws" by (rule map_update_rows) simp
  have "map (\<lambda>w. (w_failure w, w_correction w)) ?ws = map (\<lambda>w. (w_failure w, w_correction w)) ws" by (rule map_update_rows) simp
  then have "unique_pairs ?ws" using assms(1) by (simp add: drafts_ok_def unique_pairs_def)
  moreover have "w_id ` set ?ws = w_id ` set ws" using ids by (metis list.set_map)
  ultimately show ?thesis using assms ids by (auto simp: drafts_ok_def set_update_rows)
qed

lemma drafts_learn_insert:
  assumes "drafts_ok h ws" "w_id w \<notin> w_id ` set ws" "1 \<le> w_id w" "w_evidence_count w = 1" "unique_pairs (ws @ [w])"
  shows "drafts_ok ((OpLearn ob, Some (w_id w)) # h) (ws @ [w])"
  using assms by (auto simp: drafts_ok_def)

lemma rules_learn:
  assumes "rules_ok h ws us" "w_id ` set ws \<subseteq> w_id ` set ws'"
  shows "rules_ok ((OpLearn ob, Some i) # h) ws' us"
  using assms by (force simp: rules_ok_def rule_ok_def)

lemma record_draft_ok:
  assumes "fresh_ids q" "store_ok h db" "record_draft q ob time db = (Inr d, db')"
  shows "store_ok ((OpLearn ob', Some (dr_ID d)) # h) db'"
proof -
  from assms(2) obtain t where t: "db_tables db = Some t" "distinct (map or_id (t_observations t))"
      and ok: "drafts_ok h (t_drafts t)" "rules_ok h (t_drafts t) (t_rules t)" by (auto simp: store_ok_def)
  obtain r db1 where r: "run_statement q (select_draft (ob_FailedCommand ob) (ob_CorrectedCommand ob)) db = (r, db1)" by (meson prod.exhaust)
  then have t1: "db_tables db1 = Some t" and w: "r = Inr w \<Longrightarrow> w \<in> set (t_drafts t)" for w using t(1)
    by (cases rule: run_statement_cases; auto simp: select_draft_def find_Some_iff split: option.splits)+
  show ?thesis
  proof (cases r)
    case (Inr w)
    then obtain x where x: "run_statement q (update_evidence (w_id w) (w_evidence_count w + 1) (time_Unix time)) db1 = (Inr x, db')"
        and d: "dr_ID d = w_id w"
      using assms(3) r by (auto simp: record_draft_def map_sum_Inr split: prod.splits)
    from x t1 show ?thesis
    proof (cases rule: run_statement_cases)
      case (2 a i t')
      note upd = drafts_learn_update [OF ok(1) w [OF Inr], of ob' "time_Unix time"]
      have t': "t' = t\<lparr>t_drafts := snd (update_rows (\<lambda>x. w_id x = w_id w)
          (\<lambda>x. x\<lparr>w_evidence_count := w_evidence_count w + 1, w_updated_at := time_Unix time\<rparr>) (t_drafts t))\<rparr>"
        using 2(2) by (auto simp: update_evidence_def update_rows_def)
      then have "map w_id (t_drafts t') = map w_id (t_drafts t)" by (simp add: map_update_rows)
      then have "w_id ` set (t_drafts t) \<subseteq> w_id ` set (t_drafts t')" by (metis list.set_map order_refl)
      from rules_learn [OF ok(2) this, of ob' "w_id w"] upd 2(3) t' t(2) d show ?thesis
        by (auto simp: store_ok_def)
    qed simp
  next
    case (Inl e)
    then obtain x where x: "run_statement q (insert_draft q (ob_FailedCommand ob) (ob_CorrectedCommand ob) (time_Unix time)) db1 = (Inr x, db')"
        and d: "dr_ID d = db_last_insert db'"
      using assms(3) r by (auto simp: record_draft_def map_sum_Inr split: prod.splits if_splits)
    from x t1 show ?thesis
    proof (cases rule: run_statement_cases)
      case (2 a i t')
      note f = fresh_rowid(1) [OF assms(1), of w_id "t_drafts t"] fresh_rowid(2) [OF assms(1), of "map w_id (t_drafts t)"]
      let ?w = "\<lparr>w_id = sq_rowid q (map w_id (t_drafts t)), w_failure = ob_FailedCommand ob, w_correction = ob_CorrectedCommand ob,
        w_evidence_count = 1, w_created_at = time_Unix time, w_updated_at = time_Unix time\<rparr>"
      have t': "t' = t\<lparr>t_drafts := t_drafts t @ [?w]\<rparr>" "unique_pairs (t_drafts t @ [?w])" "i = Some (w_id ?w)"
        using 2(2) by (auto simp: insert_draft_def split: if_splits)
      have "drafts_ok ((OpLearn ob', Some (w_id ?w)) # h) (t_drafts t @ [?w])"
        by (rule drafts_learn_insert [OF ok(1)]) (use f t'(2) in simp_all)
      moreover have "rules_ok ((OpLearn ob', Some (w_id ?w)) # h) (t_drafts t @ [?w]) (t_rules t)"
        by (rule rules_learn [OF ok(2)]) auto
      ultimately show ?thesis using 2 t' t(2) d by (auto simp: store_ok_def)
    qed simp
  qed
qed

lemma store_ok_failed: "store_ok h db \<Longrightarrow> db_tables db' = db_tables db \<Longrightarrow> store_ok ((op, None) # h) db'"
  by (rule store_ok_entry) simp_all

lemma learn_ok:
  assumes "fresh_ids q" "store_ok h db" "store_step q (OpLearn ob) db = (out, db')"
  shows "store_ok ((OpLearn ob, out) # h) db'"
proof -
  from assms(2) obtain t where t: "db_tables db = Some t" "distinct (map or_id (t_observations t))" by (auto simp: store_ok_def)
  obtain r store where r: "RecordObservation q ob (Some db) = (r, store)" by (meson prod.exhaust)
  from RecordObservation_tables [OF assms(1) r t] obtain d obs where
    d: "store = Some d" "db_tables d = Some (t\<lparr>t_observations := obs\<rparr>)" "distinct (map or_id obs)" by metis
  note ok = store_ok_observations [OF assms(2) t(1) d(3,2)]
  obtain x d' where x: "transaction q (record_draft q ob (or_now q d (ob_CreatedAt ob))) d = (x, d')" by (meson prod.exhaust)
  show ?thesis
  proof (cases r)
    case (Inl e)
    then show ?thesis using assms(3) r d(1) store_ok_failed [OF ok] by (auto simp: opened_def RecordLearningPair_def outcome_def)
  next
    case (Inr ob1)
    then have out: "out = outcome dr_ID x" "db' = d'" using assms(3) r d(1) x by (auto simp: opened_def RecordLearningPair_def)
    from x d(2) show ?thesis
    proof (cases rule: transaction_cases)
      case (1 e)
      then show ?thesis using out store_ok_failed [OF ok, of d'] d(2) by (auto simp: outcome_def)
    next
      case (2 a db1 db2)
      have "store_ok h db1" using ok d(2) 2(2) by (simp add: store_ok_def)
      from record_draft_ok [OF assms(1) this 2(3), of ob] 2 out show ?thesis by (simp add: outcome_def store_ok_def)
    qed
  qed
qed

subsection \<open>Rules\<close>

lemma rules_update:
  assumes "rules_ok h ws us" "\<And>u. rule_ok h ws u \<Longrightarrow> rule_ok h' ws (if p u then f u else u)"
    and "\<And>u. u_id (f u) = u_id u" "\<And>u. u_draft_id (f u) = u_draft_id u"
  shows "rules_ok h' ws (snd (update_rows p f us))"
  using assms by (simp add: rules_ok_def map_update_rows set_update_rows del: if_image_distrib)

lemma rules_activate_update:
  assumes "rules_ok h ws us" "d \<in> w_id ` set ws" "DraftEvidenceThreshold \<le> evidence h d" "validAction a"
  shows "rules_ok ((OpActivate d a, Some 0) # h) ws
    (snd (update_rows (\<lambda>u. u_draft_id u = d) (\<lambda>u. u\<lparr>u_action := a, u_enabled := 1, u_updated_at := time\<rparr>) us))"
  by (rule rules_update [OF assms(1)]) (use assms(2-4) in \<open>simp_all add: rule_ok_def\<close>)

lemma rules_activate_insert:
  assumes "rules_ok h ws us" "u_draft_id u \<in> w_id ` set ws" "DraftEvidenceThreshold \<le> evidence h (u_draft_id u)"
    "validAction (u_action u)" "u_id u \<notin> u_id ` set us" "u_draft_id u \<notin> u_draft_id ` set us" "1 \<le> u_id u" "u_enabled u = 1"
  shows "rules_ok ((OpActivate (u_draft_id u) (u_action u), Some 0) # h) ws (us @ [u])"
proof -
  have "v \<in> set us \<Longrightarrow> u_draft_id v \<noteq> u_draft_id u" for v using assms(6) by (metis imageI)
  then show ?thesis using assms by (auto simp: rules_ok_def rule_ok_def)
qed

text \<open>Replacing the rules of a store by rules that suit the new entry.\<close>

lemma store_ok_rules:
  assumes "store_ok h db" "db_tables db = Some t" "\<And>i. evidence (x # h) i = evidence h i" "rules_ok (x # h) (t_drafts t) us"
    "db_tables db' = Some (t\<lparr>t_rules := us\<rparr>)"
  shows "store_ok (x # h) db'"
  using assms by (auto simp: store_ok_def drafts_ok_def)

lemma activate_draft_ok:
  assumes "fresh_ids q" "store_ok h db" "activate_draft q d a db = (Inr r, db')" "validAction a"
  shows "store_ok ((OpActivate d a, Some 0) # h) db'"
proof -
  from assms(2) obtain t where t: "db_tables db = Some t" and ok: "drafts_ok h (t_drafts t)" "rules_ok h (t_drafts t) (t_rules t)"
    by (auto simp: store_ok_def)
  obtain w db1 where w: "run_statement q (select_draft_id d) db = (Inr w, db1)" "\<not> w_evidence_count w < DraftEvidenceThreshold"
    using assms(3) by (auto simp: activate_draft_def split: prod.splits sum.splits if_splits)
  from w(1) t have t1: "db_tables db1 = Some t" and wt: "w \<in> set (t_drafts t)" "w_id w = d"
    by (cases rule: run_statement_cases; auto simp: select_draft_id_def find_Some_iff split: option.splits)+
  have ev: "d \<in> w_id ` set (t_drafts t)" "DraftEvidenceThreshold \<le> evidence h d" using wt w(2) ok(1) by (auto simp: drafts_ok_def)
  let ?time = "time_Unix (sq_now q (db_statements db1))"
  obtain db2 where u: "run_statement q (upsert_rule q d a ?time) db1 = (Inr (), db2)" "db_tables db' = db_tables db2"
  proof -
    obtain x db2 where x: "run_statement q (upsert_rule q d a ?time) db1 = (x, db2)" by (meson prod.exhaust)
    have sel: "run_statement q (select_rule_id d) db2 = (y, db3) \<Longrightarrow> db_tables db3 = db_tables db2" for y db3
      by (rule query_tables) (auto simp: select_rule_id_def split: option.splits)
    show thesis using assms(3) w x sel that
      by (cases x) (auto simp: activate_draft_def map_sum_Inr split: prod.splits if_splits)
  qed
  from u(1) t1 show ?thesis
  proof (cases rule: run_statement_cases)
    case (2 z i t')
    show ?thesis
    proof (cases "d \<in> u_draft_id ` set (t_rules t)")
      case True
      with 2(2) ev(1) have "t' = t\<lparr>t_rules := snd (update_rows (\<lambda>u. u_draft_id u = d)
          (\<lambda>u. u\<lparr>u_action := a, u_enabled := 1, u_updated_at := ?time\<rparr>) (t_rules t))\<rparr>" by (simp add: upsert_rule_def)
      from store_ok_rules [OF assms(2) t _ rules_activate_update [OF ok(2) ev assms(4)]] this 2(3) u(2) show ?thesis by simp
    next
      case False
      let ?u = "\<lparr>u_id = sq_rowid q (map u_id (t_rules t)), u_draft_id = d, u_action = a, u_enabled = 1, u_created_at = ?time, u_updated_at = ?time\<rparr>"
      have "t' = t\<lparr>t_rules := t_rules t @ [?u]\<rparr>" using False 2(2) ev(1) by (simp add: upsert_rule_def)
      moreover have "rules_ok ((OpActivate d a, Some 0) # h) (t_drafts t) (t_rules t @ [?u])"
        using rules_activate_insert [OF ok(2), of ?u] ev assms(4) False
          fresh_rowid(1) [OF assms(1), of u_id "t_rules t"] fresh_rowid(2) [OF assms(1), of "map u_id (t_rules t)"] by simp
      ultimately show ?thesis using store_ok_rules [OF assms(2) t] 2(3) u(2) by simp
    qed
  qed simp
qed

lemma activate_ok:
  assumes "fresh_ids q" "store_ok h db" "store_step q (OpActivate d a) db = (out, db')"
  shows "store_ok ((OpActivate d a, out) # h) db'"
proof (cases "\<not> validAction a \<or> d < 1")
  case True
  then have "out = None" "db' = db" using assms(3) by (auto simp: ActivateDraft_def opened_def outcome_def split: if_splits)
  then show ?thesis using store_ok_failed [OF assms(2)] by simp
next
  case False
  from assms(2) obtain t where t: "db_tables db = Some t" by (auto simp: store_ok_def)
  obtain x d' where x: "transaction q (activate_draft q d a) db = (x, d')" by (meson prod.exhaust)
  then have out: "out = outcome (\<lambda>_. 0) x" "db' = d'" using False assms(3) by (auto simp: ActivateDraft_def opened_def)
  from x t show ?thesis
  proof (cases rule: transaction_cases)
    case (1 e)
    then show ?thesis using out store_ok_failed [OF assms(2), of d'] t by (auto simp: outcome_def)
  next
    case (2 r db1 db2)
    have "store_ok h db1" using assms(2) t 2(2) by (simp add: store_ok_def)
    from activate_draft_ok [OF assms(1) this 2(3)] False 2 out show ?thesis by (simp add: outcome_def store_ok_def)
  qed
qed

text \<open>
  The operations that update or delete one rule by its id. Whether the row count is one or not,
  the rules are those of the statement; when it is not, no row has that id.
\<close>

lemma one_rule_ok:
  assumes "store_ok h db" "run_statement q stmt db = (r, d)" "must_change_one what i (r, d) = (x, store)"
    and "\<And>t a j t'. db_tables db = Some t \<Longrightarrow> stmt t = Inr (a, j, t') \<Longrightarrow>
      \<exists>us. t' = t\<lparr>t_rules := us\<rparr> \<and> (if a = 1 then rules_ok ((op, Some 0) # h) (t_drafts t) us else us = t_rules t)"
    and "\<And>i. evidence ((op, Some 0) # h) i = evidence h i"
  shows "store_ok ((op, outcome (\<lambda>_. 0) x) # h) d \<and> store = Some d"
proof -
  from assms(1) obtain t where t: "db_tables db = Some t" by (auto simp: store_ok_def)
  from assms(2) t show ?thesis
  proof (cases rule: run_statement_cases)
    case (1 e)
    then show ?thesis using assms(3) store_ok_failed [OF assms(1), of d op] t by (auto simp: must_change_one_def outcome_def)
  next
    case (2 a j t')
    from assms(4) [OF t 2(2)] obtain us where us: "t' = t\<lparr>t_rules := us\<rparr>"
      "if a = 1 then rules_ok ((op, Some 0) # h) (t_drafts t) us else us = t_rules t" by blast
    show ?thesis
    proof (cases "a = 1")
      case True
      then show ?thesis using store_ok_rules [OF assms(1) t assms(5)] us 2 assms(3) by (auto simp: must_change_one_def outcome_def)
    next
      case False
      then have "db_tables d = db_tables db" using us 2(3) t by simp
      then show ?thesis using False 2(1) assms(3) store_ok_failed [OF assms(1), of d op] by (auto simp: must_change_one_def outcome_def)
    qed
  qed
qed

lemma at_most_one:
  assumes "distinct (map u_id us)" "int (length (filter (\<lambda>u. u_id u = i) us)) \<noteq> 1"
  shows "filter (\<lambda>u. u_id u = i) us = []"
proof -
  have "length (filter (\<lambda>u. u_id u = i) us) \<le> 1" using assms(1) by (induction us) (auto simp: filter_empty_conv image_iff)
  with assms(2) show ?thesis by (cases "filter (\<lambda>u. u_id u = i) us") auto
qed

lemma update_by_id:
  assumes "rules_ok h ws us" "update_rows (\<lambda>u. u_id u = i) f us = (n, us')" "n \<noteq> 1"
  shows "us' = us"
proof -
  have "filter (\<lambda>u. u_id u = i) us = []"
    using at_most_one [of us i] assms by (auto simp: rules_ok_def update_rows_def)
  then show ?thesis using assms(2) by (auto simp: update_rows_def filter_empty_conv intro: map_idI)
qed

lemma store_rules: "store_ok h db \<Longrightarrow> db_tables db = Some t \<Longrightarrow> rules_ok h (t_drafts t) (t_rules t)"
  by (auto simp: store_ok_def)

lemma set_action_ok:
  assumes "store_ok h db" "store_step q (OpSetAction i a) db = (out, db')"
  shows "store_ok ((OpSetAction i a, out) # h) db'"
proof (cases "i < 1 \<or> \<not> validAction a")
  case True
  then have "out = None" "db' = db" using assms(2) by (auto simp: SetRuleAction_def opened_def outcome_def)
  then show ?thesis using store_ok_failed [OF assms(1)] by simp
next
  case False
  let ?time = "time_Unix (sq_now q (db_statements db))"
  obtain r d where r: "run_statement q (update_rule_action i a ?time) db = (r, d)" by (meson prod.exhaust)
  obtain x store where x: "must_change_one ''learned rule %d does not exist'' i (r, d) = (x, store)" by (meson prod.exhaust)
  have "store_ok ((OpSetAction i a, outcome (\<lambda>_. 0) x) # h) d \<and> store = Some d"
  proof (rule one_rule_ok [OF assms(1) r x], goal_cases)
    case (1 t n j t')
    note rl = store_rules [OF assms(1) 1(1)]
    have "rules_ok ((OpSetAction i a, Some 0) # h) (t_drafts t) (snd (update_rows (\<lambda>u. u_id u = i) (\<lambda>u. u\<lparr>u_action := a, u_updated_at := ?time\<rparr>) (t_rules t)))"
      by (rule rules_update [OF rl]) (use False in \<open>simp_all add: rule_ok_def\<close>)
    then show ?case using 1(2) update_by_id [OF rl, of i _ n] by (fastforce simp: update_rule_action_def split: prod.splits)
  qed simp
  then show ?thesis using False assms(2) r x by (auto simp: SetRuleAction_def opened_def)
qed

lemma set_enabled_ok:
  assumes "store_ok h db" "store_step q (OpSetEnabled i b) db = (out, db')"
  shows "store_ok ((OpSetEnabled i b, out) # h) db'"
proof (cases "i < 1")
  case True
  then have "out = None" "db' = db" using assms(2) by (auto simp: SetRuleEnabled_def opened_def outcome_def)
  then show ?thesis using store_ok_failed [OF assms(1)] by simp
next
  case False
  let ?time = "time_Unix (sq_now q (db_statements db))" and ?v = "if b then 1 else 0 :: int"
  obtain r d where r: "run_statement q (update_rule_enabled i ?v ?time) db = (r, d)" by (meson prod.exhaust)
  obtain x store where x: "must_change_one ''learned rule %d does not exist'' i (r, d) = (x, store)" by (meson prod.exhaust)
  have "store_ok ((OpSetEnabled i b, outcome (\<lambda>_. 0) x) # h) d \<and> store = Some d"
  proof (rule one_rule_ok [OF assms(1) r x], goal_cases)
    case (1 t n j t')
    note rl = store_rules [OF assms(1) 1(1)]
    have "rules_ok ((OpSetEnabled i b, Some 0) # h) (t_drafts t) (snd (update_rows (\<lambda>u. u_id u = i) (\<lambda>u. u\<lparr>u_enabled := ?v, u_updated_at := ?time\<rparr>) (t_rules t)))"
      by (rule rules_update [OF rl]) (auto simp: rule_ok_def)
    then show ?case using 1(2) update_by_id [OF rl, of i _ n] by (fastforce simp: update_rule_enabled_def split: prod.splits)
  qed simp
  then show ?thesis using False assms(2) r x by (auto simp: SetRuleEnabled_def opened_def)
qed

lemma remove_ok:
  assumes "store_ok h db" "store_step q (OpRemove i) db = (out, db')"
  shows "store_ok ((OpRemove i, out) # h) db'"
proof (cases "i < 1")
  case True
  then have "out = None" "db' = db" using assms(2) by (auto simp: DeleteRule_def opened_def outcome_def)
  then show ?thesis using store_ok_failed [OF assms(1)] by simp
next
  case False
  obtain r d where r: "run_statement q (delete_rule i) db = (r, d)" by (meson prod.exhaust)
  obtain x store where x: "must_change_one ''learned rule %d does not exist'' i (r, d) = (x, store)" by (meson prod.exhaust)
  have "store_ok ((OpRemove i, outcome (\<lambda>_. 0) x) # h) d \<and> store = Some d"
  proof (rule one_rule_ok [OF assms(1) r x], goal_cases)
    case (1 t n j t')
    note rl = store_rules [OF assms(1) 1(1)]
    have "rules_ok ((OpRemove i, Some 0) # h) (t_drafts t) (filter (\<lambda>u. u_id u \<noteq> i) (t_rules t))"
      using rl by (auto simp: rules_ok_def rule_ok_def distinct_map_filter)
    then show ?case using 1(2) at_most_one [of "t_rules t" i] rl
      by (intro exI [of _ "filter (\<lambda>u. u_id u \<noteq> i) (t_rules t)"]) (auto simp: delete_rule_def rules_ok_def o_def filter_empty_conv filter_id_conv)
  qed simp
  then show ?thesis using False assms(2) r x by (auto simp: DeleteRule_def opened_def)
qed

subsection \<open>Editing and purging\<close>

lemma edit_tables:
  assumes "store_ok h db" "run_statement q (update_draft i failure correction time) db = (r, d)"
  shows "store_ok h d"
proof -
  from assms(1) obtain t where t: "db_tables db = Some t" "distinct (map or_id (t_observations t))"
      and ok: "drafts_ok h (t_drafts t)" "rules_ok h (t_drafts t) (t_rules t)" by (auto simp: store_ok_def)
  from assms(2) t(1) show ?thesis
  proof (cases rule: run_statement_cases)
    case (1 e) then show ?thesis using assms(1) t(1) by (simp add: store_ok_def)
  next
    case (2 n j t')
    let ?f = "\<lambda>w. w\<lparr>w_failure := failure, w_correction := correction, w_updated_at := time\<rparr>"
    let ?ws = "snd (update_rows (\<lambda>w. w_id w = i) ?f (t_drafts t))"
    have t': "t' = t\<lparr>t_drafts := ?ws\<rparr>" "unique_pairs ?ws" using 2(2) by (auto simp: update_draft_def split: prod.splits if_splits)
    have ids: "map w_id ?ws = map w_id (t_drafts t)" by (rule map_update_rows) simp
    then have "w_id ` set ?ws = w_id ` set (t_drafts t)" by (metis list.set_map)
    then have "drafts_ok h ?ws" "rules_ok h ?ws (t_rules t)" using ok t'(2) ids
      by (auto simp: drafts_ok_def rules_ok_def rule_ok_def set_update_rows)
    then show ?thesis using 2(3) t' t(2) by (simp add: store_ok_def)
  qed
qed

lemma edit_ok:
  assumes "store_ok h db" "store_step q (OpEdit i failure correction) db = (out, db')"
  shows "store_ok ((OpEdit i failure correction, out) # h) db'"
proof -
  have "store_ok h db'"
  proof (cases "i < 1 \<or> failure = [] \<or> correction = []")
    case True
    then show ?thesis using assms by (auto simp: UpdateDraft_def opened_def)
  next
    case False
    obtain r d where r: "run_statement q (update_draft i failure correction (time_Unix (sq_now q (db_statements db)))) db = (r, d)"
      by (meson prod.exhaust)
    obtain y d' where y: "run_statement q (select_draft failure correction) d = (y, d')" by (meson prod.exhaust)
    have "db_tables d' = db_tables d" using y by (rule query_tables) (auto simp: select_draft_def split: option.splits)
    then have "store_ok h d'" "store_ok h d" using edit_tables [OF assms(1) r] by (simp_all add: store_ok_def)
    then show ?thesis using False assms(2) r y
      by (auto simp: UpdateDraft_def opened_def must_change_one_def DraftFor_def split: sum.splits if_splits)
  qed
  then show ?thesis by (rule store_ok_entry) (cases out; simp)+
qed

lemma purge_ok:
  assumes "store_ok h db" "store_step q OpPurge db = (out, db')"
  shows "store_ok ((OpPurge, out) # h) db'"
proof -
  from assms(1) obtain t where t: "db_tables db = Some t" by (auto simp: store_ok_def)
  obtain x d where x: "transaction q (purge_tables q) db = (x, d)" by (meson prod.exhaust)
  then have out: "out = outcome (\<lambda>_. 0) x" "db' = d" using assms(2) by (auto simp: PurgeLearning_def opened_def)
  from x t show ?thesis
  proof (cases rule: transaction_cases)
    case (1 e)
    then show ?thesis using out store_ok_failed [OF assms(1), of d] t by (auto simp: outcome_def)
  next
    case (2 u db1 db2)
    then have "db_tables db2 = Some \<lparr>t_observations = [], t_drafts = [], t_rules = []\<rparr>"
      by (auto simp: purge_tables_def run_statement_def delete_rules_def delete_drafts_def delete_all_observations_def
          split: prod.splits sum.splits option.splits if_splits)
    then show ?thesis using 2 out by (simp add: outcome_def store_ok_def drafts_ok_def rules_ok_def unique_pairs_def)
  qed
qed

lemma store_step_ok:
  "fresh_ids q \<Longrightarrow> store_ok h db \<Longrightarrow> store_step q op db = (out, db') \<Longrightarrow> store_ok ((op, out) # h) db'"
  by (cases op) (auto intro: observe_ok expire_ok learn_ok activate_ok edit_ok set_action_ok set_enabled_ok remove_ok purge_ok
      simp del: store_step.simps)

lemma store_run_ok:
  assumes "fresh_ids q" "store_run q h db"
  shows "store_ok h db"
  using assms(2)
proof (induction rule: store_run.induct)
  case (store_new db db')
  then show ?case
    by (auto simp: store_migrate_def create_tables_def store_ok_def drafts_ok_def rules_ok_def unique_pairs_def split: option.splits)
next
  case (store_op h db op out db')
  then show ?case using store_step_ok [OF assms(1)] by blast
next
  case (store_query h db db')
  then show ?case by (simp add: store_ok_def)
qed

subsection \<open>What the store guarantees\<close>

text \<open>
  Property C34: the integrity of the learning store. In every state the store can reach, whatever
  statements fail, the ids of each table are unique, no two drafts have the same failure and
  correction, every rule refers to a draft and no draft has two rules, and the evidence of a
  draft is exactly the number of learning pairs recorded for it since the last purge.
\<close>

theorem store_integrity:
  assumes "fresh_ids q" "store_run q h db"
  shows "\<exists>t. db_tables db = Some t \<and>
    distinct (map or_id (t_observations t)) \<and> distinct (map w_id (t_drafts t)) \<and> distinct (map u_id (t_rules t)) \<and>
    distinct (map (\<lambda>w. (w_failure w, w_correction w)) (t_drafts t)) \<and>
    distinct (map u_draft_id (t_rules t)) \<and> u_draft_id ` set (t_rules t) \<subseteq> w_id ` set (t_drafts t) \<and>
    (\<forall>w\<in>set (t_drafts t). w_evidence_count w = evidence h (w_id w))"
  using store_run_ok [OF assms] by (auto simp: store_ok_def drafts_ok_def rules_ok_def rule_ok_def unique_pairs_def)

lemma select_active_member:
  assumes "select_active t = Inr (rules, j, t')" "rule \<in> set rules"
  obtains u w where "u \<in> set (t_rules t)" "u_enabled u = 1" "w \<in> set (t_drafts t)" "w_id w = u_draft_id u" "rule = joined_rule w u"
  using assms by (auto simp: select_active_def)

text \<open>
  Learned rules are earned. Every rule that the store hands to the daemon belongs to
  a draft for which at least three learning pairs were recorded since the last purge, its action
  is off, hint or rewrite and is the one that was last asked for by activating the draft or
  setting the rule's action, and it was switched on and not switched off since.
\<close>

lemma active_rule_earned:
  assumes "fresh_ids q" "store_run q h db" "ListActiveRules q (Some db) = (Inr rules, store)" "rule \<in> set rules"
  shows "3 \<le> evidence h (lr_DraftID rule) \<and> validAction (lr_Action rule) \<and>
    chosen_action h (lr_ID rule) (lr_DraftID rule) = Some (lr_Action rule) \<and>
    switched_on h (lr_ID rule) (lr_DraftID rule) \<and> lr_Enabled rule"
proof -
  from store_run_ok [OF assms(1,2)] obtain t where t: "db_tables db = Some t" "rules_ok h (t_drafts t) (t_rules t)"
    by (auto simp: store_ok_def)
  obtain d where "run_statement q select_active db = (Inr rules, d)" using assms(3) by (auto simp: ListActiveRules_def split: prod.splits)
  from this t(1) obtain j t' where "select_active t = Inr (rules, j, t')" by (cases rule: run_statement_cases) auto
  from select_active_member [OF this assms(4)] obtain u w where
    "u \<in> set (t_rules t)" "u_enabled u = 1" "rule = joined_rule w u" by metis
  then show ?thesis using t(2) by (auto simp: rules_ok_def rule_ok_def joined_rule_def DraftEvidenceThreshold_def split: if_splits)
qed

subsection \<open>A concrete store\<close>

text \<open>An engine that never fails and numbers the rows of a table one above the largest id.\<close>

definition demo_sqlite :: sqlite where
  "demo_sqlite = \<lparr>sq_error = (\<lambda>_. None), sq_rowid = (\<lambda>ids. fold max ids 0 + 1), sq_now = (\<lambda>_. 0)\<rparr>"

lemma fold_max: "(m :: int) \<le> fold max ids m \<and> (\<forall>i\<in>set ids. i \<le> fold max ids m)"
proof (induction ids arbitrary: m)
  case (Cons i ids)
  from Cons [of "max i m"] show ?case by auto
qed simp

lemma demo_fresh: "fresh_ids demo_sqlite"
proof -
  have "fold max ids 0 + 1 \<notin> set ids \<and> 1 \<le> fold max ids (0 :: int) + 1" for ids using fold_max [of 0 ids] by fastforce
  then show ?thesis by (simp add: fresh_ids_def demo_sqlite_def)
qed

definition demo_observation :: Observation where
  "demo_observation = \<lparr>ob_ID = 0, ob_Session = ''s'', ob_FailedCommand = ''gti'', ob_CorrectedCommand = ''git'', ob_FailureOutput = [], ob_CreatedAt = 0\<rparr>"

definition demo_store_ops :: "store_op list" where
  "demo_store_ops = [OpLearn demo_observation, OpLearn demo_observation, OpLearn demo_observation, OpActivate 1 ''rewrite'']"

definition new_store :: database where
  "new_store = snd (store_migrate demo_sqlite \<lparr>db_user_version = 0, db_tables = None, db_last_insert = 0, db_statements = 0\<rparr>)"

fun run_ops :: "sqlite \<Rightarrow> store_op list \<Rightarrow> store_history \<times> database \<Rightarrow> store_history \<times> database" where
  "run_ops q [] state = state"
| "run_ops q (op # ops) (h, db) = (case store_step q op db of (out, db') \<Rightarrow> run_ops q ops ((op, out) # h, db'))"

lemma run_ops_run: "store_run q h db \<Longrightarrow> run_ops q ops (h, db) = (h', db') \<Longrightarrow> store_run q h' db'"
  by (induction ops arbitrary: h db) (auto split: prod.splits intro: store_op)

lemma new_store_run: "store_run demo_sqlite [] new_store"
proof (rule store_new)
  show "store_migrate demo_sqlite \<lparr>db_user_version = 0, db_tables = None, db_last_insert = 0, db_statements = 0\<rparr> = (Inr (), new_store)"
    by (simp add: new_store_def store_migrate_def create_tables_def statements_error_def demo_sqlite_def split: option.splits)
qed simp_all

definition demo_store :: "store_history \<times> database" where
  "demo_store = run_ops demo_sqlite demo_store_ops ([], new_store)"

lemma demo_store_run: "store_run demo_sqlite (fst demo_store) (snd demo_store)"
  using run_ops_run [OF new_store_run, of demo_store_ops "fst demo_store" "snd demo_store"] by (simp add: demo_store_def)

definition demo_rule :: LearnedRule where
  "demo_rule = \<lparr>lr_ID = 1, lr_DraftID = 1, lr_Failure = ''gti'', lr_Correction = ''git'', lr_Action = ''rewrite'', lr_Enabled = True,
     lr_CreatedAt = 0, lr_UpdatedAt = 0\<rparr>"

lemma demo_store_rules: "fst (ListActiveRules demo_sqlite (Some (snd demo_store))) = Inr [demo_rule]"
  by code_simp

theorem store_integrity_witness:
  "\<exists>t. db_tables (snd demo_store) = Some t \<and> distinct (map w_id (t_drafts t)) \<and> map w_evidence_count (t_drafts t) = [3]"
proof -
  obtain t where t: "db_tables (snd demo_store) = Some t" "distinct (map w_id (t_drafts t))"
    using store_integrity [OF demo_fresh demo_store_run] by blast
  have "map_option (\<lambda>t. map w_evidence_count (t_drafts t)) (db_tables (snd demo_store)) = Some [3]" by code_simp
  with t show ?thesis by auto
qed

text \<open>
  Activating a draft again reports a wrong rule. The conflict clause updates the
  rule of the draft and inserts nothing, so \<open>LastInsertId\<close> still reports the last row inserted
  on the connection, here an observation: \<open>ActivateDraft\<close> returns an id that is not the rule's.
\<close>

lemma reactivation_wrong_id:
  "\<exists>q h db rule store stored. fresh_ids q \<and> store_run q h db \<and> ActivateDraft q 1 ''hint'' (Some db) = (Inr rule, store) \<and>
     lr_DraftID rule = 1 \<and> fst (ListActiveRules q store) = Inr [stored] \<and> lr_DraftID stored = 1 \<and> lr_ID rule \<noteq> lr_ID stored"
proof -
  let ?s = "run_ops demo_sqlite [OpObserve demo_observation] demo_store"
  let ?a = "ActivateDraft demo_sqlite 1 ''hint'' (Some (snd ?s))"
  have run: "store_run demo_sqlite (fst ?s) (snd ?s)"
    using run_ops_run [OF demo_store_run, of "[OpObserve demo_observation]" "fst ?s" "snd ?s"] by simp
  have "map_sum (\<lambda>e. e) (\<lambda>r. (lr_ID r, lr_DraftID r)) (fst ?a) = Inr (4, 1)"
    "map_sum (\<lambda>e. e) (map (\<lambda>r. (lr_ID r, lr_DraftID r))) (fst (ListActiveRules demo_sqlite (snd ?a))) = Inr [(1, 1)]" by code_simp+
  then obtain rule stored where "?a = (Inr rule, snd ?a)" "lr_ID rule = 4" "lr_DraftID rule = 1"
    "fst (ListActiveRules demo_sqlite (snd ?a)) = Inr [stored]" "lr_ID stored = 1" "lr_DraftID stored = 1"
    by (auto simp: map_sum_Inr prod_eq_iff)
  then show ?thesis using demo_fresh run by (metis numeral_eq_one_iff semiring_norm(83))
qed

end
