(* ===== verification/Commands.thy ===== *)
theory Commands
  imports Terminal Staging ConfigLoad LearningProps ServicePolicy RuntimeProps
begin

section \<open>The commands of the tool (cmd/solomon/main.go)\<close>

text \<open>
  The commands that read and change the user's files and the learning store, each as a function
  from its arguments and the state of the machine to the error it returns and the new state:
  the disk, the database, what was printed, and how often a running daemon was told to stop. The
  operating system, \<open>sqlite\<close>, the regular expression compiler, \<open>ed25519.Verify\<close>, the embedded packs
  and the text of a time are given. The commands with flags are in theories \<open>Inspecting\<close> and \<open>Lifecycle\<close>.
\<close>

subsection \<open>The machine\<close>

record tool =
  tl_system :: system
  tl_view :: file_view
  tl_packs :: directory_view
  tl_state :: "bool result"
  tl_paths :: Paths
  tl_compile :: regexp_Compile
  tl_verify :: ed25519_Verify
  tl_bundle :: embedded
  tl_sqlite :: sqlite
  tl_ctx :: context_errs
  tl_cutoff :: "int \<Rightarrow> int"
  tl_stdout :: "go_error option"
  tl_time :: "int \<Rightarrow> string"
  tl_nil :: bool

record tool_state =
  ts_disk :: disk
  ts_db :: database
  ts_out :: string
  ts_stops :: nat

type_synonym command = "tool_state \<Rightarrow> command_error option \<times> tool_state"

text \<open>Calls on the disk and on the store, and the sequence of two steps where an error ends the command.\<close>

definition on_disk :: "(disk \<Rightarrow> 'a result \<times> disk) \<Rightarrow> tool_state \<Rightarrow> 'a result \<times> tool_state" where
  "on_disk f s = (case f (ts_disk s) of (r, d) \<Rightarrow> (r, s\<lparr>ts_disk := d\<rparr>))"

definition on_store :: "(Store \<Rightarrow> 'a result \<times> Store) \<Rightarrow> tool_state \<Rightarrow> 'a result \<times> tool_state" where
  "on_store f s = (case f (Some (ts_db s)) of (r, store) \<Rightarrow> (r, case store of None \<Rightarrow> s | Some db \<Rightarrow> s\<lparr>ts_db := db\<rparr>))"

definition step_or :: "cli_kind \<Rightarrow> 'a result \<times> tool_state \<Rightarrow> ('a \<Rightarrow> command) \<Rightarrow> command_error option \<times> tool_state" where
  "step_or kind m f = (case m of (Inl e, s) \<Rightarrow> (clierr_Wrap kind (Some e), s) | (Inr x, s) \<Rightarrow> f x s)"

definition fail_with :: "cli_kind \<Rightarrow> string \<Rightarrow> command" where
  "fail_with kind explanation s = (clierr_New kind explanation, s)"

definition finish_ok :: command where
  "finish_ok s = (None, s)"

definition print_text :: "tool \<Rightarrow> string \<Rightarrow> command" where
  "print_text tool t s =
     (case tl_stdout tool of Some e \<Rightarrow> (clierr_Wrap Operation (Some e), s) | None \<Rightarrow> (None, s\<lparr>ts_out := ts_out s @ t\<rparr>))"

text \<open>
  The request that asks a running daemon to stop is sent on a best-effort basis and its result is
  ignored; the state counts how often the commands ask for it.
\<close>

definition restartDaemonIfRunning :: "tool_state \<Rightarrow> tool_state" where
  "restartDaemonIfRunning s = s\<lparr>ts_stops := ts_stops s + 1\<rparr>"

subsection \<open>Paths\<close>

definition packDirectory :: "string result \<Rightarrow> (string \<Rightarrow> string) \<Rightarrow> string result" where
  "packDirectory home environment =
     (let base = environment ''XDG_DATA_HOME'' in
      if base = [] \<or> \<not> filepath_IsAbs base
      then map_sum (\<lambda>e. e) (\<lambda>v. filepath_Join [filepath_Join [v, ''.local'', ''share''], ''solomon'', ''packs'']) home
      else Inr (filepath_Join [base, ''solomon'', ''packs'']))"

definition packKeyringPath :: "string result \<Rightarrow> (string \<Rightarrow> string) \<Rightarrow> string result" where
  "packKeyringPath home environment =
     (let base = environment ''XDG_CONFIG_HOME'' in
      if base = [] \<or> \<not> filepath_IsAbs base
      then map_sum (\<lambda>e. e) (\<lambda>v. filepath_Join [filepath_Join [v, ''.config''], ''solomon'', ''pack-keyring.json'']) home
      else Inr (filepath_Join [base, ''solomon'', ''pack-keyring.json'']))"

definition mustGetwd :: "string result \<Rightarrow> string" where
  "mustGetwd cwd = (case cwd of Inl e \<Rightarrow> ''.'' | Inr path \<Rightarrow> path)"

definition load_config :: "tool \<Rightarrow> tool_state \<Rightarrow> Config result \<times> tool_state" where
  "load_config tool = on_disk (config_Load (tl_system tool) (tl_view tool) (tl_paths tool))"

definition pack_directory :: "tool \<Rightarrow> string result" where
  "pack_directory tool = packDirectory (ph_Home (tl_paths tool)) (ph_Env (tl_paths tool))"

definition keyring_path :: "tool \<Rightarrow> string result" where
  "keyring_path tool = packKeyringPath (ph_Home (tl_paths tool)) (ph_Env (tl_paths tool))"

definition config_path :: "tool \<Rightarrow> string result" where
  "config_path tool = globalPath (ph_Home (tl_paths tool)) (ph_Env (tl_paths tool))"

subsection \<open>The packs and the engine a process works with\<close>

definition runtimePackResolver :: "tool \<Rightarrow> Config \<Rightarrow> disk \<Rightarrow> RuntimeResolver result \<times> disk" where
  "runtimePackResolver tool cfg d =
     (if \<not> cf_CuratedPacksEnabled cfg then (Inr \<lparr>rr_packs = []\<rparr>, d)
      else
       io_bind (LoadBundled (tl_compile tool) (tl_bundle tool), d) (\<lambda>bundled d.
       io_bind (pack_directory tool, d) (\<lambda>directory d.
       io_bind (keyring_path tool, d) (\<lambda>keyringPath d.
       io_bind (LoadKeyring (tl_system tool) keyringPath d) (\<lambda>keyring d.
       io_bind (LoadInstalledVerified (tl_compile tool) (tl_verify tool) (tl_system tool) (tl_packs tool) directory keyring d) (\<lambda>installed d.
       (NewRuntimeResolverWithInstalled (tl_compile tool) bundled installed, d)))))))"

definition zeroLimits :: Limits where
  "zeroLimits = \<lparr>l_InputBytes = 0, l_OutputBytes = 0, l_AnalysisTime = 0\<rparr>"

definition engine_options :: "tool \<Rightarrow> Config \<Rightarrow> RuntimeResolver \<Rightarrow> Options" where
  "engine_options tool cfg resolver =
     \<lparr>o_Config = cfg, o_Path = ph_Env (tl_paths tool) ''PATH'', o_CWD = mustGetwd (ph_CWD (tl_paths tool)),
      o_SemanticResolver = Some (MatchWordsContext (tl_ctx tool) resolver), o_Limits = zeroLimits\<rparr>"

definition bundledDiagnosticEngine :: "tool \<Rightarrow> Config \<Rightarrow> disk \<Rightarrow> Options result \<times> disk" where
  "bundledDiagnosticEngine tool cfg d = io_bind (runtimePackResolver tool cfg d) (\<lambda>resolver d. (Inr (engine_options tool cfg resolver), d))"

subsection \<open>Configuration and exceptions\<close>

definition save_config :: "tool \<Rightarrow> string \<Rightarrow> Config \<Rightarrow> command" where
  "save_config tool path cfg s =
     step_or Configuration (on_disk (os_other (tl_system tool)) s) (\<lambda>_ s.
     step_or Configuration (on_disk (config_Write (tl_system tool) path cfg) s) (\<lambda>_. finish_ok))"

definition configCommand :: "tool \<Rightarrow> string list \<Rightarrow> command" where
  "configCommand tool args s =
     (if args = [] \<or> args ! 0 = ''show''
      then step_or Configuration (load_config tool s) (\<lambda>cfg. print_text tool (encoder_text (encode_config cfg)))
      else if length args \<noteq> 3 \<or> args ! 0 \<noteq> ''set'' then fail_with Usage ''usage: solomon config [show|set <key> <value>]'' s
      else
       step_or Configuration (config_path tool, s) (\<lambda>path s.
       step_or Configuration (on_disk (LoadGlobal (tl_system tool) path) s) (\<lambda>cfg s.
       step_or Configuration (config_Set (args ! 1) (args ! 2) cfg, s) (\<lambda>cfg. save_config tool path cfg))))"

definition rule_usage :: string where
  "rule_usage = ''usage: solomon rule <list|add <id> <command>|update <id> <command>|remove <id>>''"

text \<open>The change a rule command asks for: a usage error, or the edited configuration.\<close>

definition edit_exceptions :: "string list \<Rightarrow> Config \<Rightarrow> string + Config result" where
  "edit_exceptions args cfg =
     (if args ! 0 = ''add'' \<or> args ! 0 = ''update'' then
        (if length args \<noteq> 3 then Inl (''usage: solomon rule '' @ args ! 0 @ '' <id> <command>'')
         else if args ! 0 = ''add'' then Inr (AddRuleException \<lparr>re_ID = args ! 1, re_Command = args ! 2\<rparr> cfg)
         else Inr (UpdateRuleException (args ! 1) (args ! 2) cfg))
      else if args ! 0 = ''remove'' then
        (if length args \<noteq> 2 then Inl ''usage: solomon rule remove <id>'' else Inr (RemoveRuleException (args ! 1) cfg))
      else Inl rule_usage)"

definition ruleCommand :: "tool \<Rightarrow> string list \<Rightarrow> command" where
  "ruleCommand tool args s =
     (if args = [] then fail_with Usage rule_usage s
      else
       step_or Configuration (config_path tool, s) (\<lambda>path s.
       step_or Configuration (on_disk (LoadGlobal (tl_system tool) path) s) (\<lambda>cfg s.
       if args ! 0 = ''list'' then
         (if length args \<noteq> 1 then fail_with Usage ''usage: solomon rule list'' s
          else print_text tool (encoder_text (JArray (map encode_exception (cf_RuleExceptions cfg)))) s)
       else case edit_exceptions args cfg of
         Inl explanation \<Rightarrow> fail_with Usage explanation s
       | Inr edited \<Rightarrow> step_or Usage (edited, s) (\<lambda>cfg. save_config tool path cfg))))"

subsection \<open>The learning store\<close>

text \<open>\<open>localstate.Open\<close>: the directory must be a real one; opening migrates the database.\<close>

definition localstate_Open :: "tool \<Rightarrow> string \<Rightarrow> tool_state \<Rightarrow> unit result \<times> tool_state" where
  "localstate_Open tool directory s =
     (if directory = [] \<or> \<not> filepath_IsAbs directory then (Inl (Err ''local state directory must be absolute'' []), s)
      else case on_disk (\<lambda>d. io_bind (os_other (tl_system tool) d) (\<lambda>_ d. io_bind (tl_state tool, d) (\<lambda>genuine d.
          if \<not> genuine then (Inl (Err ''local state directory is not a real directory'' []), d) else os_other (tl_system tool) d))) s of
        (Inl e, s) \<Rightarrow> (Inl e, s)
      | (Inr _, s) \<Rightarrow>
         (case store_migrate (tl_sqlite tool) (ts_db s) of
            (Inl e, db) \<Rightarrow> (Inl e, s\<lparr>ts_db := db\<rparr>)
          | (Inr _, db) \<Rightarrow> on_disk (os_other (tl_system tool)) (s\<lparr>ts_db := db\<rparr>)))"

definition state_directory :: "tool \<Rightarrow> string result" where
  "state_directory tool = StateDirectory (Some (ph_Home (tl_paths tool))) (Some (ph_Env (tl_paths tool)))"

definition encode_draft :: "tool \<Rightarrow> Draft \<Rightarrow> json" where
  "encode_draft tool d = JObject [(''ID'', JNumber (itoa (dr_ID d))), (''NormalizedFailure'', JString (dr_NormalizedFailure d)),
     (''NormalizedCorrection'', JString (dr_NormalizedCorrection d)), (''EvidenceCount'', JNumber (itoa (dr_EvidenceCount d))),
     (''CreatedAt'', JString (tl_time tool (dr_CreatedAt d))), (''UpdatedAt'', JString (tl_time tool (dr_UpdatedAt d)))]"

definition encode_rule :: "tool \<Rightarrow> LearnedRule \<Rightarrow> json" where
  "encode_rule tool r = JObject [(''ID'', JNumber (itoa (lr_ID r))), (''DraftID'', JNumber (itoa (lr_DraftID r))),
     (''Failure'', JString (lr_Failure r)), (''Correction'', JString (lr_Correction r)), (''Action'', JString (lr_Action r)),
     (''Enabled'', JBool (lr_Enabled r)), (''CreatedAt'', JString (tl_time tool (lr_CreatedAt r))),
     (''UpdatedAt'', JString (tl_time tool (lr_UpdatedAt r)))]"

definition learn_usage :: string where
  "learn_usage = ''usage: solomon learn <list|activate|edit|set-action|enable|disable|remove|purge> ...''"

definition learn_list :: "tool \<Rightarrow> command" where
  "learn_list tool s =
     step_or Operation (on_store (ListReviewableDrafts (tl_sqlite tool)) s) (\<lambda>drafts s.
     step_or Operation (on_store (ListActiveRules (tl_sqlite tool)) s) (\<lambda>rules s.
     print_text tool (encoder_text (JObject [(''drafts'', json_slice (tl_nil tool) (map (encode_draft tool) drafts)),
       (''rules'', json_slice (tl_nil tool) (map (encode_rule tool) rules))])) s))"

text \<open>An id argument, then a change of the store, then the daemon is told to stop and the result is printed.\<close>

definition learn_change ::
  "tool \<Rightarrow> string \<Rightarrow> string \<Rightarrow> (int \<Rightarrow> Store \<Rightarrow> 'a result \<times> Store) \<Rightarrow> ('a \<Rightarrow> command) \<Rightarrow> command" where
  "learn_change tool argument refusal change report s =
     (case atoi argument of (ident, ok) \<Rightarrow>
      if \<not> ok then fail_with Usage refusal s
      else step_or Input (on_store (change ident) s) (\<lambda>x s. report x (restartDaemonIfRunning s)))"

definition learn_store :: "tool \<Rightarrow> string list \<Rightarrow> command" where
  "learn_store tool args =
     (let q = tl_sqlite tool; rule_id = ''learned rule id must be an integer''; draft_id = ''learned rule draft id must be an integer'' in
      if args ! 0 = ''list'' then
        (if length args \<noteq> 1 then fail_with Usage ''usage: solomon learn list'' else learn_list tool)
      else if args ! 0 = ''activate'' then
        (if length args \<noteq> 3 then fail_with Usage ''usage: solomon learn activate <draft-id> <off|hint|rewrite>''
         else learn_change tool (args ! 1) draft_id (\<lambda>i. ActivateDraft q i (args ! 2)) (\<lambda>rule. print_text tool (encoder_text (encode_rule tool rule))))
      else if args ! 0 = ''edit'' then
        (if length args \<noteq> 4 then fail_with Usage ''usage: solomon learn edit <draft-id> <failed-command> <corrected-command>''
         else learn_change tool (args ! 1) draft_id (\<lambda>i. UpdateDraft q i (args ! 2) (args ! 3)) (\<lambda>draft. print_text tool (encoder_text (encode_draft tool draft))))
      else if args ! 0 = ''set-action'' then
        (if length args \<noteq> 3 then fail_with Usage ''usage: solomon learn set-action <rule-id> <off|hint|rewrite>''
         else learn_change tool (args ! 1) rule_id (\<lambda>i. SetRuleAction q i (args ! 2)) (\<lambda>_. finish_ok))
      else if args ! 0 = ''enable'' \<or> args ! 0 = ''disable'' then
        (if length args \<noteq> 2 then fail_with Usage (''usage: solomon learn '' @ args ! 0 @ '' <rule-id>'')
         else learn_change tool (args ! 1) rule_id (\<lambda>i. SetRuleEnabled q i (args ! 0 = ''enable'')) (\<lambda>_. finish_ok))
      else if args ! 0 = ''remove'' then
        (if length args \<noteq> 2 then fail_with Usage ''usage: solomon learn remove <rule-id>''
         else learn_change tool (args ! 1) rule_id (DeleteRule q) (\<lambda>_. finish_ok))
      else if args ! 0 = ''purge'' then
        (if length args \<noteq> 2 \<or> args ! 1 \<noteq> ''--confirm=PURGE'' then fail_with Usage ''usage: solomon learn purge --confirm=PURGE''
         else (\<lambda>s. step_or Operation (on_store (PurgeLearning q) s) (\<lambda>_ s. finish_ok (restartDaemonIfRunning s))))
      else fail_with Usage learn_usage)"

definition learnCommand :: "tool \<Rightarrow> string list \<Rightarrow> command" where
  "learnCommand tool args s =
     (if args = [] then fail_with Usage learn_usage s
      else
       step_or Configuration (load_config tool s) (\<lambda>cfg s.
       if \<not> cf_LocalLearningEnabled cfg then fail_with Configuration ''local learning is disabled'' s
       else
        step_or Configuration (state_directory tool, s) (\<lambda>directory s.
        step_or Configuration (localstate_Open tool directory s) (\<lambda>_. learn_store tool args))))"

subsection \<open>Packs and publishers\<close>

definition print_keyring :: "tool \<Rightarrow> Keyring \<Rightarrow> command" where
  "print_keyring tool keyring = print_text tool (encoder_text (encode_keyring (tl_nil tool) keyring))"

definition trust_usage :: string where
  "trust_usage = ''usage: solomon pack trust <add|list|remove> ...''"

definition edit_keyring :: "string list \<Rightarrow> Keyring \<Rightarrow> command_error option + Keyring" where
  "edit_keyring args keyring =
     (if args ! 0 = ''add'' then
        (if length args \<noteq> 3 then Inl (clierr_New Usage ''usage: solomon pack trust add <publisher> <base64-ed25519-public-key>'')
         else case ParsePublisherPublicKey (args ! 2) of
           Inl e \<Rightarrow> Inl (clierr_Wrap Input (Some e))
         | Inr key \<Rightarrow> (case keyring_Add (args ! 1) key keyring of Inl e \<Rightarrow> Inl (clierr_Wrap Input (Some e)) | Inr k \<Rightarrow> Inr k))
      else if args ! 0 = ''remove'' then
        (if length args \<noteq> 2 then Inl (clierr_New Usage ''usage: solomon pack trust remove <publisher>'')
         else case keyring_Remove (args ! 1) keyring of (k, removed) \<Rightarrow>
           if removed then Inr k else Inl (clierr_New Input ''publisher is not trusted''))
      else Inl (clierr_New Usage trust_usage))"

definition packTrustCommand :: "tool \<Rightarrow> string list \<Rightarrow> command" where
  "packTrustCommand tool args s =
     (if args = [] then fail_with Usage trust_usage s
      else
       step_or Configuration (keyring_path tool, s) (\<lambda>path s.
       step_or Configuration (on_disk (LoadKeyring (tl_system tool) path) s) (\<lambda>keyring s.
       if args ! 0 = ''list'' then
         (if length args \<noteq> 1 then fail_with Usage ''usage: solomon pack trust list'' s else print_keyring tool keyring s)
       else case edit_keyring args keyring of
         Inl err \<Rightarrow> (err, s)
       | Inr k \<Rightarrow>
          step_or Configuration (on_disk (WriteKeyring (tl_system tool) path (tl_nil tool) k) s) (\<lambda>_ s.
          print_keyring tool k (restartDaemonIfRunning s)))))"

definition pack_usage :: string where
  "pack_usage = ''usage: solomon pack <validate|install|uninstall|trust> ...''"

definition pack_validate :: "tool \<Rightarrow> string \<Rightarrow> command" where
  "pack_validate tool path s =
     step_or Input (on_disk (pack_Load (tl_system tool) path) s) (\<lambda>pack s.
     step_or Input (Compile (tl_compile tool) pack, s) (\<lambda>_ s.
     print_text tool (''valid '' @ p_ID pack @ '' '' @ p_Version pack @ [CHR 0x0A]) s))"

definition pack_install :: "tool \<Rightarrow> string \<Rightarrow> string \<Rightarrow> command" where
  "pack_install tool pack_path signature_path s =
     step_or Configuration (pack_directory tool, s) (\<lambda>directory s.
     step_or Configuration (keyring_path tool, s) (\<lambda>keyringPath s.
     step_or Configuration (on_disk (LoadKeyring (tl_system tool) keyringPath) s) (\<lambda>keyring s.
     step_or Input (on_disk (os_ReadFile (tl_system tool) pack_path) s) (\<lambda>payload s.
     step_or Input (on_disk (os_ReadFile (tl_system tool) signature_path) s) (\<lambda>signature s.
     step_or Input (on_disk (InstallVerified (tl_compile tool) (tl_verify tool) (tl_system tool) (tl_packs tool) payload signature directory keyring) s) (\<lambda>path s.
     print_text tool (''installed '' @ path @ [CHR 0x0A]) (restartDaemonIfRunning s)))))))"

definition pack_uninstall :: "tool \<Rightarrow> string \<Rightarrow> string \<Rightarrow> command" where
  "pack_uninstall tool ident version s =
     step_or Configuration (pack_directory tool, s) (\<lambda>directory s.
     step_or Input (on_disk (Uninstall (tl_system tool) directory ident version) s) (\<lambda>path s.
     print_text tool (''uninstalled '' @ path @ [CHR 0x0A]) (restartDaemonIfRunning s)))"

definition packCommand :: "tool \<Rightarrow> string list \<Rightarrow> command" where
  "packCommand tool args =
     (if args = [] then fail_with Usage pack_usage
      else if args ! 0 = ''validate'' then
        (if length args \<noteq> 2 then fail_with Usage ''usage: solomon pack validate <path>'' else pack_validate tool (args ! 1))
      else if args ! 0 = ''install'' then
        (if length args \<noteq> 3 then fail_with Usage ''usage: solomon pack install <pack.json> <signature>'' else pack_install tool (args ! 1) (args ! 2))
      else if args ! 0 = ''uninstall'' then
        (if length args \<noteq> 3 then fail_with Usage ''usage: solomon pack uninstall <id> <version>'' else pack_uninstall tool (args ! 1) (args ! 2))
      else if args ! 0 = ''trust'' then packTrustCommand tool (tl args)
      else fail_with Usage pack_usage)"

subsection \<open>The daemon's service\<close>

text \<open>What \<open>daemon serve\<close> does before it listens: it builds the service from the configuration, the packs and the store.\<close>

definition open_learning :: "tool \<Rightarrow> Config \<Rightarrow> tool_state \<Rightarrow> LearnedRule list result \<times> tool_state" where
  "open_learning tool cfg s =
     (if \<not> cf_LocalLearningEnabled cfg then (Inr [], s)
      else case state_directory tool of
        Inl e \<Rightarrow> (Inl e, s)
      | Inr directory \<Rightarrow>
         (case localstate_Open tool directory s of
            (Inl e, s) \<Rightarrow> (Inl e, s)
          | (Inr _, s) \<Rightarrow>
             (case on_store (DeleteObservationsBefore (tl_sqlite tool) (tl_cutoff tool (cf_LearningRetentionDays cfg))) s of
                (Inl e, s) \<Rightarrow> (Inl e, s)
              | (Inr _, s) \<Rightarrow> on_store (ListActiveRules (tl_sqlite tool)) s)))"

definition serve_service :: "tool \<Rightarrow> tool_state \<Rightarrow> Service result \<times> tool_state" where
  "serve_service tool s =
     (case load_config tool s of
        (Inl e, s) \<Rightarrow> (Inl e, s)
      | (Inr cfg, s) \<Rightarrow>
         (case on_disk (runtimePackResolver tool cfg) s of
            (Inl e, s) \<Rightarrow> (Inl e, s)
          | (Inr resolver, s) \<Rightarrow>
             (case open_learning tool cfg s of
                (Inl e, s) \<Rightarrow> (Inl e, s)
              | (Inr rules, s) \<Rightarrow>
                 (Inr \<lparr>sc_Engine = engine_options tool cfg resolver, sc_Config = cfg, sc_Packs = resolver,
                    sc_HasStore = cf_LocalLearningEnabled cfg, sc_LearnedRules = rules\<rparr>, s))))"

end
