(* ===== verification/CommandProps.thy ===== *)
theory CommandProps
  imports Commands
begin

section \<open>What the commands do to the user's state\<close>

text \<open>
  Each learning command is at most one operation of the learning store, so every guarantee proved
  of the store's histories holds for what a user does with the tool; the packs of a process are
  embedded or signed ones; and the service that \<open>daemon serve\<close> starts rewrites a command only on
  the authority of one of them, of a rule the user earned and chose, or of the engine.
\<close>

subsection \<open>Learning commands and store histories\<close>

definition learn_op :: "string list \<Rightarrow> store_op option" where
  "learn_op args =
     (let ident = fst (atoi (args ! 1)); ok = snd (atoi (args ! 1)) in
      if args = [] then None
      else if args ! 0 = ''activate'' then (if length args = 3 \<and> ok then Some (OpActivate ident (args ! 2)) else None)
      else if args ! 0 = ''edit'' then (if length args = 4 \<and> ok then Some (OpEdit ident (args ! 2) (args ! 3)) else None)
      else if args ! 0 = ''set-action'' then (if length args = 3 \<and> ok then Some (OpSetAction ident (args ! 2)) else None)
      else if args ! 0 = ''enable'' \<or> args ! 0 = ''disable''
        then (if length args = 2 \<and> ok then Some (OpSetEnabled ident (args ! 0 = ''enable'')) else None)
      else if args ! 0 = ''remove'' then (if length args = 2 \<and> ok then Some (OpRemove ident) else None)
      else if args ! 0 = ''purge'' then (if length args = 2 \<and> args ! 1 = ''--confirm=PURGE'' then Some OpPurge else None)
      else None)"

text \<open>
  The effect of a command on the store: none, with an error if an operation was asked for; or the
  operation, and then the daemon is told to stop exactly if it succeeded.
\<close>

definition learned_step :: "sqlite \<Rightarrow> store_history \<Rightarrow> store_op option \<Rightarrow> tool_state \<Rightarrow> command_error option \<Rightarrow> tool_state \<Rightarrow> bool" where
  "learned_step q h asked s err s' \<longleftrightarrow>
     store_run q h (ts_db s') \<and> ts_stops s' = ts_stops s \<and> (asked = None \<or> err \<noteq> None) \<or>
     (\<exists>op out. asked = Some op \<and> store_run q ((op, out) # h) (ts_db s') \<and>
        (if out = None then ts_stops s' = ts_stops s \<and> err \<noteq> None else ts_stops s' = ts_stops s + 1))"

lemma on_store_step:
  assumes "store_run q h (ts_db s)" and "on_store change s = (r, s')"
    and "store_step q op (ts_db s) = opened (ts_db s) f (change (Some (ts_db s)))"
  shows "\<exists>out. store_run q ((op, out) # h) (ts_db s') \<and> (out = None \<longleftrightarrow> (\<exists>e. r = Inl e)) \<and> ts_stops s' = ts_stops s"
proof -
  obtain store where c: "change (Some (ts_db s)) = (r, store)"
    using assms(2) by (auto simp: on_store_def split: prod.splits)
  have s': "ts_db s' = (case store of None \<Rightarrow> ts_db s | Some db \<Rightarrow> db)" "ts_stops s' = ts_stops s"
    using assms(2) c by (auto simp: on_store_def split: option.splits)
  have "store_step q op (ts_db s) = (outcome f r, ts_db s')" using assms(3) c s'(1) by (simp add: opened_def)
  with assms(1) have "store_run q ((op, outcome f r) # h) (ts_db s')" by (rule store_run.store_op)
  then show ?thesis using s'(2) by (auto simp: outcome_def split: sum.splits)
qed

lemma on_store_query:
  assumes "store_run q h (ts_db s)" and "on_store f s = (r, s')"
    and "\<And>db x store. f (Some db) = (x, store) \<Longrightarrow> \<exists>db'. store = Some db' \<and> db_tables db' = db_tables db"
  shows "store_run q h (ts_db s') \<and> ts_stops s' = ts_stops s"
proof -
  obtain x store where c: "f (Some (ts_db s)) = (x, store)" by (meson prod.exhaust)
  with assms(3) obtain db' where "store = Some db'" "db_tables db' = db_tables (ts_db s)" by blast
  with c assms(1,2) show ?thesis by (auto simp: on_store_def intro: store_run.store_query)
qed

lemma list_queries:
  "ListReviewableDrafts q (Some db) = (x, store) \<Longrightarrow> \<exists>db'. store = Some db' \<and> db_tables db' = db_tables db"
  "ListActiveRules q (Some db) = (y, store) \<Longrightarrow> \<exists>db'. store = Some db' \<and> db_tables db' = db_tables db"
  by (auto simp: ListReviewableDrafts_def ListActiveRules_def select_reviewable_def select_active_def split: prod.splits dest!: query_tables)

lemma print_text_state: "print_text tool t s = (err, s') \<Longrightarrow> ts_db s' = ts_db s \<and> ts_stops s' = ts_stops s \<and> ts_disk s' = ts_disk s"
  by (auto simp: print_text_def split: option.splits)

text \<open>A report that leaves store and daemon alone.\<close>

definition silent :: "('a \<Rightarrow> command) \<Rightarrow> bool" where
  "silent report \<longleftrightarrow> (\<forall>x s. ts_db (snd (report x s)) = ts_db s \<and> ts_stops (snd (report x s)) = ts_stops s)"

lemma silent_reports [simp]: "silent (\<lambda>x. print_text tool (f x))" "silent (\<lambda>_. finish_ok)"
  by (auto simp: silent_def print_text_def finish_ok_def split: option.splits)

lemma learn_change_step:
  assumes "store_run q h (ts_db s)"
    and "\<And>i. store_step q (op i) (ts_db s) = opened (ts_db s) f (change i (Some (ts_db s)))"
    and "silent report"
    and "learn_change tool a refusal change report s = (err, s')"
  shows "learned_step q h (if snd (atoi a) then Some (op (fst (atoi a))) else None) s err s'"
proof (cases "snd (atoi a)")
  case False
  with assms(1,4) show ?thesis by (auto simp: learn_change_def fail_with_def learned_step_def split: prod.splits)
next
  case True
  obtain r s1 where c: "on_store (change (fst (atoi a))) s = (r, s1)" by (meson prod.exhaust)
  from on_store_step [OF assms(1) c assms(2)] obtain out where
    o: "store_run q ((op (fst (atoi a)), out) # h) (ts_db s1)" "out = None \<longleftrightarrow> (\<exists>e. r = Inl e)" "ts_stops s1 = ts_stops s" by blast
  have run: "step_or Input (r, s1) (\<lambda>x s. report x (restartDaemonIfRunning s)) = (err, s')"
    using assms(4) True c by (simp add: learn_change_def case_prod_beta)
  show ?thesis
  proof (cases r)
    case (Inl e)
    with run o True show ?thesis by (auto simp: step_or_def learned_step_def clierr_Wrap_def)
  next
    case (Inr x)
    with run have "report x (restartDaemonIfRunning s1) = (err, s')" by (simp add: step_or_def)
    then have "s' = snd (report x (restartDaemonIfRunning s1))" by simp
    then have "ts_db s' = ts_db (restartDaemonIfRunning s1)" "ts_stops s' = ts_stops (restartDaemonIfRunning s1)"
      using assms(3) by (simp_all add: silent_def)
    then have "ts_db s' = ts_db s1" "ts_stops s' = ts_stops s1 + 1" by (simp_all add: restartDaemonIfRunning_def)
    with o Inr True show ?thesis by (auto simp: learned_step_def)
  qed
qed

lemma learn_list_step:
  assumes "store_run q h (ts_db s)" "q = tl_sqlite tool" "learn_list tool s = (err, s')"
  shows "learned_step q h None s err s'"
proof -
  obtain r s1 where a: "on_store (ListReviewableDrafts q) s = (r, s1)" by (meson prod.exhaust)
  note A = on_store_query [OF assms(1) a list_queries(1)]
  obtain r2 s2 where b: "on_store (ListActiveRules q) s1 = (r2, s2)" by (meson prod.exhaust)
  note B = on_store_query [OF conjunct1 [OF A] b list_queries(2)]
  have "ts_db s' \<in> {ts_db s1, ts_db s2}" "ts_stops s' = ts_stops s"
    using assms(2,3) a b A B by (auto simp: learn_list_def step_or_def split: sum.splits dest!: print_text_state)
  then show ?thesis using A B by (auto simp: learned_step_def)
qed

lemma purge_step:
  assumes "store_run q h (ts_db s)"
    and "step_or Operation (on_store (PurgeLearning q) s) (\<lambda>_ s. finish_ok (restartDaemonIfRunning s)) = (err, s')"
  shows "learned_step q h (Some OpPurge) s err s'"
proof -
  obtain r s1 where c: "on_store (PurgeLearning q) s = (r, s1)" by (meson prod.exhaust)
  have "store_step q OpPurge (ts_db s) = opened (ts_db s) (\<lambda>_. 0) (PurgeLearning q (Some (ts_db s)))" by simp
  from on_store_step [OF assms(1) c this] obtain out where
    "store_run q ((OpPurge, out) # h) (ts_db s1)" "out = None \<longleftrightarrow> (\<exists>e. r = Inl e)" "ts_stops s1 = ts_stops s" by blast
  with assms(2) c show ?thesis
    by (cases r) (auto simp: step_or_def learned_step_def clierr_Wrap_def finish_ok_def restartDaemonIfRunning_def)
qed

lemma fail_step: "store_run q h (ts_db s) \<Longrightarrow> fail_with kind explanation s = (err, s') \<Longrightarrow> learned_step q h asked s err s'"
  by (auto simp: fail_with_def learned_step_def clierr_New_def)

lemma learn_store_step:
  assumes "store_run q h (ts_db s)" "q = tl_sqlite tool" "args \<noteq> []" "learn_store tool args s = (err, s')"
  shows "learned_step q h (learn_op args) s err s'"
proof -
  note change = learn_change_step [OF assms(1), where tool = tool and err = err and s' = s']
  have usage: ?thesis if "fail_with Usage t s = (err, s')" for t using fail_step [OF assms(1) that] .
  consider "args ! 0 = ''list''" | "args ! 0 = ''activate''" | "args ! 0 = ''edit''" | "args ! 0 = ''set-action''"
    | "args ! 0 = ''enable'' \<or> args ! 0 = ''disable''" | "args ! 0 = ''remove''" | "args ! 0 = ''purge''"
    | "args ! 0 \<notin> {''list'', ''activate'', ''edit'', ''set-action'', ''enable'', ''disable'', ''remove'', ''purge''}" by blast
  then show ?thesis
  proof cases
    case 1
    then show ?thesis using assms usage learn_list_step [OF assms(1,2)]
      by (cases "length args = 1") (auto simp: learn_store_def learn_op_def Let_def)
  next
    case 2
    show ?thesis
    proof (cases "length args = 3")
      case True
      with 2 assms(4) have "learn_change tool (args ! 1) ''learned rule draft id must be an integer'' (\<lambda>i. ActivateDraft q i (args ! 2))
          (\<lambda>rule. print_text tool (encoder_text (encode_rule tool rule))) s = (err, s')" by (simp add: learn_store_def Let_def assms(2))
      from change [OF _ _ this, of "\<lambda>i. OpActivate i (args ! 2)" "\<lambda>_. 0"] True 2 assms(3) show ?thesis
        by (auto simp: learn_op_def Let_def split: if_splits)
    qed (use 2 assms(4) usage in \<open>simp add: learn_store_def\<close>)
  next
    case 3
    show ?thesis
    proof (cases "length args = 4")
      case True
      with 3 assms(4) have "learn_change tool (args ! 1) ''learned rule draft id must be an integer'' (\<lambda>i. UpdateDraft q i (args ! 2) (args ! 3))
          (\<lambda>draft. print_text tool (encoder_text (encode_draft tool draft))) s = (err, s')" by (simp add: learn_store_def Let_def assms(2))
      from change [OF _ _ this, of "\<lambda>i. OpEdit i (args ! 2) (args ! 3)" "\<lambda>_. 0"] True 3 assms(3) show ?thesis
        by (auto simp: learn_op_def Let_def split: if_splits)
    qed (use 3 assms(4) usage in \<open>simp add: learn_store_def\<close>)
  next
    case 4
    show ?thesis
    proof (cases "length args = 3")
      case True
      with 4 assms(4) have "learn_change tool (args ! 1) ''learned rule id must be an integer'' (\<lambda>i. SetRuleAction q i (args ! 2)) (\<lambda>_. finish_ok) s = (err, s')"
        by (simp add: learn_store_def Let_def assms(2))
      from change [OF _ _ this, of "\<lambda>i. OpSetAction i (args ! 2)" "\<lambda>_. 0"] True 4 assms(3) show ?thesis
        by (auto simp: learn_op_def Let_def split: if_splits)
    qed (use 4 assms(4) usage in \<open>simp add: learn_store_def\<close>)
  next
    case 5
    show ?thesis
    proof (cases "length args = 2")
      case True
      with 5 assms(4) have "learn_change tool (args ! 1) ''learned rule id must be an integer'' (\<lambda>i. SetRuleEnabled q i (args ! 0 = ''enable'')) (\<lambda>_. finish_ok) s = (err, s')"
        by (auto simp: learn_store_def Let_def assms(2))
      from change [OF _ _ this, of "\<lambda>i. OpSetEnabled i (args ! 0 = ''enable'')" "\<lambda>_. 0"] True 5 assms(3) show ?thesis
        by (auto simp: learn_op_def Let_def split: if_splits)
    qed (use 5 assms(4) usage in \<open>auto simp: learn_store_def\<close>)
  next
    case 6
    show ?thesis
    proof (cases "length args = 2")
      case True
      with 6 assms(4) have "learn_change tool (args ! 1) ''learned rule id must be an integer'' (DeleteRule q) (\<lambda>_. finish_ok) s = (err, s')"
        by (simp add: learn_store_def Let_def assms(2))
      from change [OF _ _ this, of OpRemove "\<lambda>_. 0"] True 6 assms(3) show ?thesis
        by (auto simp: learn_op_def Let_def split: if_splits)
    qed (use 6 assms(4) usage in \<open>simp add: learn_store_def\<close>)
  next
    case 7
    then show ?thesis using assms(2-4) usage purge_step [OF assms(1)]
      by (auto simp: learn_store_def learn_op_def Let_def split: if_splits)
  next
    case 8
    then show ?thesis using assms(4) usage by (simp add: learn_store_def)
  qed
qed

lemma on_disk_state: "on_disk f s = (r, s') \<Longrightarrow> ts_db s' = ts_db s \<and> ts_stops s' = ts_stops s"
  by (auto simp: on_disk_def split: prod.splits)

lemma migrate_tables: "db_tables db \<noteq> None \<Longrightarrow> store_migrate q db = (r, db') \<Longrightarrow> db_tables db' = db_tables db"
  by (auto simp: store_migrate_def create_tables_def split: option.splits if_splits)

lemma Open_step:
  assumes "fresh_ids q" "q = tl_sqlite tool" "store_run q h (ts_db s)" "localstate_Open tool directory s = (r, s')"
  shows "store_run q h (ts_db s') \<and> ts_stops s' = ts_stops s"
proof -
  have t: "db_tables (ts_db s) \<noteq> None" using store_run_ok [OF assms(1,3)] by (auto simp: store_ok_def)
  have "db_tables (ts_db s') = db_tables (ts_db s) \<and> ts_stops s' = ts_stops s"
    using assms(4) t migrate_tables [of "ts_db s" "tl_sqlite tool"]
    by (auto simp: localstate_Open_def split: if_splits prod.splits sum.splits dest!: on_disk_state)
  with assms(3) show ?thesis using store_run.store_query by blast
qed

text \<open>
  Property C12: a learning command is one operation of the store, or none. Started on a store in
  any state it can reach, \<open>solomon learn\<close> leaves it in a state it can reach, by at most the one
  operation its arguments name. If that operation succeeded, a running daemon is told once to
  stop, so that it does not go on with the rules it read before; if the command reports no error,
  the operation it names was carried out; a failed one changes the history only by a failed
  operation and leaves the daemon running.
\<close>

theorem learn_command_one_step:
  assumes "fresh_ids (tl_sqlite tool)" and "store_run (tl_sqlite tool) h (ts_db s)" and "learnCommand tool args s = (err, s')"
  shows "learned_step (tl_sqlite tool) h (learn_op args) s err s'"
proof (cases "args = []")
  case True
  then show ?thesis using assms(2,3) fail_step by (auto simp: learnCommand_def)
next
  case False
  have wrap: "learned_step (tl_sqlite tool) h (learn_op args) s (clierr_Wrap kind (Some e)) s1"
    if "store_run (tl_sqlite tool) h (ts_db s1)" "ts_stops s1 = ts_stops s" for kind e s1
    using that by (simp add: learned_step_def clierr_Wrap_def)
  obtain r s1 where l: "load_config tool s = (r, s1)" by (meson prod.exhaust)
  then have s1: "ts_db s1 = ts_db s" "ts_stops s1 = ts_stops s" using on_disk_state by (auto simp: load_config_def)
  show ?thesis
  proof (cases "\<exists>cfg dir. r = Inr cfg \<and> cf_LocalLearningEnabled cfg \<and> state_directory tool = Inr dir")
    case False
    then show ?thesis using assms(2,3) l s1 wrap [of s1] \<open>args \<noteq> []\<close>
      by (auto simp: learnCommand_def step_or_def fail_with_def learned_step_def clierr_New_def clierr_Wrap_def split: sum.splits if_splits)
  next
    case True
    then obtain cfg dir where c: "r = Inr cfg" "cf_LocalLearningEnabled cfg" "state_directory tool = Inr dir" by blast
    obtain q s2 where o: "localstate_Open tool dir s1 = (q, s2)" by (meson prod.exhaust)
    have run2: "store_run (tl_sqlite tool) h (ts_db s2)" "ts_stops s2 = ts_stops s"
      using Open_step [OF assms(1) refl _ o, of h] assms(2) s1 by simp_all
    show ?thesis
    proof (cases q)
      case (Inl e)
      with assms(3) l c o \<open>args \<noteq> []\<close> wrap [OF run2] show ?thesis by (auto simp: learnCommand_def step_or_def)
    next
      case (Inr u)
      with assms(3) l c o \<open>args \<noteq> []\<close> have "learn_store tool args s2 = (err, s')" by (auto simp: learnCommand_def step_or_def)
      from learn_store_step [OF run2(1) refl \<open>args \<noteq> []\<close> this] show ?thesis unfolding learned_step_def run2(2) .
    qed
  qed
qed

subsection \<open>The packs of a process\<close>

lemma LoadKeyring_files: "LoadKeyring env path d = (r, d') \<Longrightarrow> dk_files d' = dk_files d"
  by (auto simp: LoadKeyring_def load_file_def split: prod.splits sum.splits if_splits dest: os_ReadFile_files)

lemma load_bundle_packs:
  "load_bundle bundle names = Inr packs \<Longrightarrow> p \<in> set packs \<Longrightarrow> \<exists>name bytes. (name, Some bytes) \<in> set bundle \<and> decodePack bytes = Inr p"
proof (induction names arbitrary: packs)
  case (Cons name names)
  then obtain bytes pack rest where b: "map_of bundle name = Some (Some bytes)" "decodePack bytes = Inr pack"
      "load_bundle bundle names = Inr rest" "packs = pack # rest"
    by (auto simp: map_sum_Inr split: option.splits sum.splits)
  then show ?case using Cons.IH [OF b(3)] Cons.prems(2) map_of_SomeD [OF b(1)] by auto
qed simp

text \<open>A pack file in the managed directory, with a signature that verifies under a key the keyring trusts.\<close>

definition signed_pack :: "tool \<Rightarrow> disk \<Rightarrow> Pack \<Rightarrow> bool" where
  "signed_pack tool d p \<longleftrightarrow> (\<exists>directory path keyring d1 d2 payload signature key.
     pack_directory tool = Inr directory \<and> keyring_path tool = Inr path \<and> LoadKeyring (tl_system tool) path d1 = (Inr keyring, d2) \<and> dk_files d1 = dk_files d \<and>
     content (tl_system tool) d (filepath_Join [directory, installedPackName p]) = Inr payload \<and> decodePack payload = Inr p \<and>
     dk_files d (filepath_Join [directory, installedPackName p] @ ''.sig'') = Some (Regular signature) \<and>
     \<not> RevokedFor keyring (p_Publisher p) \<and> PublicKey keyring (p_Publisher p) = Some key \<and> tl_verify tool key payload signature)"

definition embedded_pack :: "tool \<Rightarrow> Pack \<Rightarrow> bool" where
  "embedded_pack tool p \<longleftrightarrow> (\<exists>name bytes. (name, Some bytes) \<in> set (tl_bundle tool) \<and> decodePack bytes = Inr p)"

lemma runtime_pack_trusted:
  assumes "runtimePackResolver tool cfg d = (Inr r, d')" and "pack \<in> set (rr_packs r)"
  shows "cf_CuratedPacksEnabled cfg \<and> (\<exists>p. Compile (tl_compile tool) p = Inr (rp_compiled pack) \<and>
    (if rp_source pack = ''installed'' then signed_pack tool d p else rp_source pack = ''bundled'' \<and> embedded_pack tool p))"
proof -
  have on: "cf_CuratedPacksEnabled cfg" using assms by (auto simp: runtimePackResolver_def split: if_splits)
  with assms(1) obtain bundled directory path keyring installed d1 d2 where
    b: "LoadBundled (tl_compile tool) (tl_bundle tool) = Inr bundled" and
    k: "pack_directory tool = Inr directory" "keyring_path tool = Inr path" "LoadKeyring (tl_system tool) path d = (Inr keyring, d1)" and
    i: "LoadInstalledVerified (tl_compile tool) (tl_verify tool) (tl_system tool) (tl_packs tool) directory keyring d1 = (Inr installed, d2)" and
    n: "NewRuntimeResolverWithInstalled (tl_compile tool) bundled installed = Inr r"
    by (auto simp: runtimePackResolver_def io_bind_Inr)
  note same = LoadKeyring_files [OF k(3)]
  have emb: "embedded_pack tool p" if "p \<in> set bundled" for p
    using b that load_bundle_packs by (auto simp: LoadBundled_def embedded_pack_def split: sum.splits)
  have sig: "signed_pack tool d p" if "p \<in> set installed" for p
    using loaded_packs_signed [OF i that] k same content_files [OF same] unfolding signed_pack_def by metis
  obtain p where p: "p \<in> set bundled \<or> p \<in> set installed" "Compile (tl_compile tool) p = Inr (rp_compiled pack)"
      "rp_source pack = (if p_ID p \<in> p_ID ` set installed then ''installed'' else ''bundled'')"
    using runtime_pack_source [OF n assms(2)] by auto
  have "distinct (map p_ID (bundled @ installed))"
    using n Resolve_iff by (auto simp: NewRuntimeResolverWithInstalled_def split: sum.splits)
  then have "p \<in> set installed" if "p_ID p \<in> p_ID ` set installed" using that p(1) by (auto simp: disjoint_iff)
  with p on emb sig show ?thesis by (auto split: if_splits)
qed

text \<open>
  Property C9: every pack a process works with is one it may trust. The resolver that \<open>check\<close> and
  the daemon use holds packs only if curated packs are enabled, and each of them compiled from a
  pack that is embedded in the program, or is installed and signed: its file decodes to exactly
  this pack and the signature beside it verifies over those bytes under a key that the keyring
  trusts and has not revoked. One bad file and there is no resolver at all.
\<close>

theorem runtime_packs_trusted:
  assumes "runtimePackResolver tool cfg d = (Inr r, d')" and "pack \<in> set (rr_packs r)"
  shows "cf_CuratedPacksEnabled cfg \<and> (\<exists>p. Compile (tl_compile tool) p = Inr (rp_compiled pack) \<and>
    (if rp_source pack = ''installed'' then signed_pack tool d p else rp_source pack = ''bundled'' \<and> embedded_pack tool p))"
  by (rule runtime_pack_trusted [OF assms])

subsection \<open>The service of a started daemon\<close>

lemma serve_parts:
  assumes "serve_service tool s = (Inr svc, s')"
  obtains cfg s1 s2 resolver rules where "load_config tool s = (Inr cfg, s1)" "on_disk (runtimePackResolver tool cfg) s1 = (Inr resolver, s2)"
    "open_learning tool cfg s2 = (Inr rules, s')" "sc_Config svc = cfg" "sc_Packs svc = resolver" "sc_LearnedRules svc = rules"
    "sc_Engine svc = engine_options tool cfg resolver" "ts_db s2 = ts_db s"
proof -
  from assms obtain cfg s1 resolver s2 rules where p: "load_config tool s = (Inr cfg, s1)"
      "on_disk (runtimePackResolver tool cfg) s1 = (Inr resolver, s2)" "open_learning tool cfg s2 = (Inr rules, s')"
      "svc = \<lparr>sc_Engine = engine_options tool cfg resolver, sc_Config = cfg, sc_Packs = resolver,
         sc_HasStore = cf_LocalLearningEnabled cfg, sc_LearnedRules = rules\<rparr>"
    by (auto simp: serve_service_def split: prod.splits sum.splits)
  moreover have "ts_db s2 = ts_db s" using p(1,2) by (auto simp: load_config_def dest!: on_disk_state)
  ultimately show thesis using that by auto
qed

lemma served_config_ok: "load_config tool s = (Inr cfg, s1) \<Longrightarrow> config_ok cfg"
  by (auto simp: load_config_def on_disk_def split: prod.splits dest: loaded_config_approved)

lemma open_learning_rules:
  assumes "fresh_ids q" "q = tl_sqlite tool" "store_run q h (ts_db s)" "open_learning tool cfg s = (Inr rules, s')" "rule \<in> set rules"
  shows "cf_LocalLearningEnabled cfg \<and> 3 \<le> evidence h (lr_DraftID rule) \<and> lr_Enabled rule \<and>
    chosen_action h (lr_ID rule) (lr_DraftID rule) = Some (lr_Action rule) \<and> switched_on h (lr_ID rule) (lr_DraftID rule)"
proof -
  have on: "cf_LocalLearningEnabled cfg" using assms(4,5) by (auto simp: open_learning_def split: if_splits)
  with assms(4) obtain directory s1 n s2 where o: "localstate_Open tool directory s = (Inr (), s1)"
      "on_store (DeleteObservationsBefore q (tl_cutoff tool (cf_LearningRetentionDays cfg))) s1 = (Inr n, s2)"
      "on_store (ListActiveRules q) s2 = (Inr rules, s')"
    by (auto simp: open_learning_def assms(2) split: sum.splits prod.splits)
  let ?op = "OpExpire (tl_cutoff tool (cf_LearningRetentionDays cfg))"
  have "store_run q h (ts_db s1)" using Open_step [OF assms(1-3) o(1)] by simp
  from on_store_step [OF this o(2), of ?op "\<lambda>_. 0"] obtain out where h: "store_run q ((?op, out) # h) (ts_db s2)" by auto
  obtain store where l: "ListActiveRules q (Some (ts_db s2)) = (Inr rules, store)"
    using o(3) by (auto simp: on_store_def split: prod.splits)
  have ext: "evidence ((?op, out) # h) i = evidence h i" "chosen_action ((?op, out) # h) i j = chosen_action h i j"
      "switched_on ((?op, out) # h) i j = switched_on h i j" for i j by simp_all
  from active_rule_earned [OF assms(1) h l assms(5)] on show ?thesis unfolding ext by blast
qed

text \<open>A match on a line comes from a rule of one of the resolver's packs.\<close>

lemma line_match_origin:
  assumes "MatchLineContext ctx r line n = (Inr (Some match), k)"
  shows "\<exists>pack\<in>set (rr_packs r). \<exists>rule\<in>set (cp_Rules (rp_compiled pack)). rm_Source match = rp_source pack \<and>
    rm_PackID match = p_ID (cp_Pack (rp_compiled pack)) \<and> rm_RuleID match = r_ID (cr_Rule rule) \<and> rm_Risk match = r_Risk (cr_Rule rule)"
proof -
  from assms obtain m where m: "fst (MatchWordsContext ctx r (strings_Fields line) (n + 1)) = Inr (Some m)"
      "match = \<lparr>rm_PackID = sm_PackID m, rm_RuleID = sm_RuleID m, rm_Source = sm_Source m, rm_Suggestion = sm_Suggestion m,
        rm_Cause = sm_Cause m, rm_Risk = sm_Risk m, rm_Rationale = sm_Rationale m\<rparr>"
    by (auto simp: MatchLineContext_def map_sum_Inr split: option.splits if_splits prod.splits) (metis (no_types, lifting) map_option_eq_Some)
  from MatchWordsContext_Some [OF m(1)] m(2) show ?thesis by (fastforce simp: runtime_fields)
qed

subsection \<open>A machine on which the commands run\<close>

definition demo_config :: Config where
  "demo_config = Default\<lparr>cf_LocalLearningEnabled := True, cf_LearnedRuleActionCeiling := ''rewrite'', cf_CuratedPacksEnabled := False\<rparr>"

definition demo_tool :: tool where
  "demo_tool = \<lparr>tl_system = calm_system, tl_view = \<lparr>fv_Stat = (\<lambda>_. Inl ErrNotExist), fv_Lstat = (\<lambda>_. Inl ErrNotExist), fv_euid = 1000\<rparr>, tl_packs = demo_directory, tl_state = Inr True,
     tl_paths = \<lparr>ph_Home = Inr ''/h'', ph_CWD = Inr ''/w'', ph_Env = (\<lambda>_. []), ph_Environ = None\<rparr>,
     tl_compile = demo_compile, tl_verify = demo_verify, tl_bundle = [(''a.json'', Some demo_text)], tl_sqlite = demo_sqlite, tl_ctx = (\<lambda>_. None),
     tl_cutoff = (\<lambda>days. 0), tl_stdout = None, tl_time = (\<lambda>t. []), tl_nil = True\<rparr>"

definition demo_machine :: tool_state where
  "demo_machine = \<lparr>ts_disk = \<lparr>dk_files = [''/h/.config/solomon/config.json'' \<mapsto> Regular (json_file_text (encode_config demo_config))], dk_calls = 0\<rparr>,
     ts_db = snd demo_store, ts_out = [], ts_stops = 0\<rparr>"

lemma demo_machine_store: "store_run demo_sqlite (fst demo_store) (ts_db demo_machine)" "tl_sqlite demo_tool = demo_sqlite"
  using demo_store_run by (simp_all add: demo_machine_def demo_tool_def)

theorem learn_command_one_step_witness:
  "\<exists>s'. learnCommand demo_tool [''disable'', ''1''] demo_machine = (None, s') \<and>
     learned_step demo_sqlite (fst demo_store) (Some (OpSetEnabled 1 False)) demo_machine None s' \<and> ts_stops s' = 1"
proof -
  let ?c = "learnCommand demo_tool [''disable'', ''1''] demo_machine"
  have "fst ?c = None \<and> ts_stops (snd ?c) = 1" by code_simp
  then obtain s' where c: "?c = (None, s')" "ts_stops s' = 1" by (metis prod.collapse)
  have "learn_op [''disable'', ''1''] = Some (OpSetEnabled 1 False)" by code_simp
  with learn_command_one_step [OF _ _ c(1), of "fst demo_store"] demo_fresh demo_machine_store c show ?thesis by simp
qed

theorem runtime_packs_trusted_witness:
  "\<exists>p cp. Compile demo_compile p = Inr cp \<and> embedded_pack demo_tool p"
proof -
  let ?d = "\<lparr>dk_files = Map.empty, dk_calls = 0\<rparr>"
  let ?t = "demo_tool\<lparr>tl_packs := \<lparr>dv_real = Inl ErrNotExist, dv_entries = Inr []\<rparr>\<rparr>"
  have "case fst (runtimePackResolver ?t Default ?d) of Inr r \<Rightarrow> rr_packs r \<noteq> [] \<and> rp_source (hd (rr_packs r)) = ''bundled'' | _ \<Rightarrow> False" by code_simp
  then obtain r d' where r: "runtimePackResolver ?t Default ?d = (Inr r, d')" "rr_packs r \<noteq> []" "rp_source (hd (rr_packs r)) = ''bundled''"
    by (cases "runtimePackResolver ?t Default ?d"; cases "fst (runtimePackResolver ?t Default ?d)") auto
  from runtime_packs_trusted [OF r(1), of "hd (rr_packs r)"] r(2,3) show ?thesis
    by (auto simp: demo_tool_def embedded_pack_def)
qed

end
