(* ===== verification/Release.thy ===== *)
theory Release
  imports PackFiles
begin

section \<open>Release artifacts (cmd/solomon/main.go: checksum; updatechannel, releasepolicy, releasecompat)\<close>

text \<open>
  Verifying an artifact against a checksum manifest, generating the update manifest of a release,
  the notice that revokes one, and the targets a release must cover. SHA-256 is given; that its
  digests have 32 bytes is a hypothesis where it is used.
\<close>

type_synonym sha256 = "string \<Rightarrow> string"

definition sha256_Size :: nat where "sha256_Size = 32"

subsection \<open>Checksums\<close>

definition strings_CutString :: "string \<Rightarrow> string \<Rightarrow> string \<times> string \<times> bool" where
  "strings_CutString s sep = (case strings_Index s sep of None \<Rightarrow> (s, [], False) | Some i \<Rightarrow> (take i s, drop (i + length sep) s, True))"

definition checksumFile :: "sha256 \<Rightarrow> system \<Rightarrow> string \<Rightarrow> disk \<Rightarrow> (string \<times> string) result \<times> disk" where
  "checksumFile hash env path d =
     io_bind (os_Lstat env path d) (\<lambda>node d.
     if node = Special then (Inl (Err ''checksum file is not a regular file'' []), d)
     else io_bind (os_ReadFile env path d) (\<lambda>bytes d. (Inr (hex_EncodeToString (hash bytes), filepath_Base path), d)))"

text \<open>One line of a manifest: a digest and a file name, two spaces between them.\<close>

definition manifest_entry :: "string \<Rightarrow> (string \<times> string) result" where
  "manifest_entry line =
     (if CHR 0x0D \<in> set line then Inl (Err ''checksum manifest contains carriage return'' [])
      else case strings_CutString line ''  '' of (candidate, artifact, ok) \<Rightarrow>
        if \<not> ok \<or> artifact = [] \<or> filepath_Base artifact \<noteq> artifact then Inl (Err ''checksum manifest has invalid entry'' [])
        else case hex_DecodeString candidate of
          None \<Rightarrow> Inl (Err ''checksum manifest has invalid digest'' [])
        | Some decoded \<Rightarrow>
           if length decoded \<noteq> sha256_Size \<or> hex_EncodeToString decoded \<noteq> candidate then Inl (Err ''checksum manifest has invalid digest'' [])
           else Inr (candidate, artifact))"

text \<open>The lines in order; an empty last one is skipped.\<close>

fun manifest_loop :: "string \<Rightarrow> string \<Rightarrow> string list \<Rightarrow> string result" where
  "manifest_loop name expected [] = Inr expected"
| "manifest_loop name expected (line # rest) =
     (if line = [] \<and> rest = [] then Inr expected
      else case manifest_entry line of
        Inl e \<Rightarrow> Inl e
      | Inr (candidate, artifact) \<Rightarrow>
         if artifact \<noteq> name then manifest_loop name expected rest
         else if expected \<noteq> [] then Inl (Err ''checksum manifest has duplicate artifact'' [])
         else manifest_loop name candidate rest)"

definition maxManifestBytes :: nat where "maxManifestBytes = 2 ^ 20"

definition verify_manifest :: "string \<Rightarrow> string \<Rightarrow> string \<Rightarrow> unit result" where
  "verify_manifest digest name manifest =
     (if maxManifestBytes < length manifest then Inl (Err ''checksum manifest exceeds size limit'' [])
      else case manifest_loop name [] (strings_Split manifest CHR 0x0A) of
        Inl e \<Rightarrow> Inl e
      | Inr expected \<Rightarrow>
         if expected = [] then Inl (Err ''checksum manifest does not contain %q'' [name])
         else if digest \<noteq> expected then Inl (Err ''checksum mismatch for %q'' [name])
         else Inr ())"

definition verifyChecksumFile :: "sha256 \<Rightarrow> system \<Rightarrow> string \<Rightarrow> string \<Rightarrow> disk \<Rightarrow> unit result \<times> disk" where
  "verifyChecksumFile hash env path manifestPath d =
     io_bind (checksumFile hash env path d) (\<lambda>(digest, name) d.
     io_bind (os_ReadFile env manifestPath d) (\<lambda>manifest d. (verify_manifest digest name manifest, d)))"

text \<open>The lines of a manifest that are entries.\<close>

definition entry_lines :: "string \<Rightarrow> string list" where
  "entry_lines manifest = (let lines = strings_Split manifest CHR 0x0A in if last lines = [] then butlast lines else lines)"

definition line_digest :: "string \<Rightarrow> string" where "line_digest line = (case manifest_entry line of Inl e \<Rightarrow> [] | Inr p \<Rightarrow> fst p)"
definition line_artifact :: "string \<Rightarrow> string" where "line_artifact line = (case manifest_entry line of Inl e \<Rightarrow> [] | Inr p \<Rightarrow> snd p)"

definition entry_ok :: "string \<Rightarrow> bool" where
  "entry_ok line \<longleftrightarrow> \<not> isl (manifest_entry line)"

lemma entry_digest_nonempty: "manifest_entry line = Inr (candidate, artifact) \<Longrightarrow> candidate \<noteq> []"
  by (auto simp: manifest_entry_def sha256_Size_def split: if_splits option.splits prod.splits)

lemma entry_empty: "\<not> entry_ok []"
  by (simp add: entry_ok_def manifest_entry_def strings_CutString_def)

lemma manifest_loop_iff:
  "manifest_loop name expected lines = Inr digest \<longleftrightarrow>
     (let entries = (if lines \<noteq> [] \<and> last lines = [] then butlast lines else lines); found = map line_digest (filter (\<lambda>l. line_artifact l = name) entries) in
      (\<forall>l\<in>set entries. entry_ok l) \<and> (if expected = [] then digest = concat found \<and> length found \<le> 1 else digest = expected \<and> found = []))"
proof (induction lines arbitrary: expected)
  case Nil
  then show ?case by auto
next
  case (Cons line rest)
  show ?case
  proof (cases "line = [] \<and> rest = []")
    case True
    then show ?thesis by auto
  next
    case False
    then have tail: "(if line # rest \<noteq> [] \<and> last (line # rest) = [] then butlast (line # rest) else line # rest)
        = line # (if rest \<noteq> [] \<and> last rest = [] then butlast rest else rest)" by auto
    show ?thesis
    proof (cases "manifest_entry line")
      case (Inl e)
      then show ?thesis using False unfolding tail Let_def by (auto simp: entry_ok_def)
    next
      case (Inr p)
      obtain candidate artifact where p: "p = (candidate, artifact)" by fastforce
      then have "line_digest line = candidate" "line_artifact line = artifact" "entry_ok line" "candidate \<noteq> []"
        using Inr entry_digest_nonempty by (auto simp: line_digest_def line_artifact_def entry_ok_def)
      then show ?thesis using Inr p False Cons.IH unfolding tail Let_def by auto
    qed
  qed
qed

lemma verify_manifest_iff:
  assumes "digest \<noteq> []"
  shows "verify_manifest digest name manifest = Inr () \<longleftrightarrow> length manifest \<le> maxManifestBytes \<and> (\<forall>l\<in>set (entry_lines manifest). entry_ok l) \<and>
    map line_digest (filter (\<lambda>l. line_artifact l = name) (entry_lines manifest)) = [digest]"
proof -
  let ?found = "map line_digest (filter (\<lambda>l. line_artifact l = name) (entry_lines manifest))"
  have "verify_manifest digest name manifest = Inr () \<longleftrightarrow> length manifest \<le> maxManifestBytes \<and>
      manifest_loop name [] (strings_Split manifest CHR 0x0A) = Inr digest"
    using assms by (auto simp: verify_manifest_def split: sum.splits if_splits)
  moreover have "manifest_loop name [] (strings_Split manifest CHR 0x0A) = Inr digest \<longleftrightarrow>
      (\<forall>l\<in>set (entry_lines manifest). entry_ok l) \<and> digest = concat ?found \<and> length ?found \<le> 1"
    by (simp add: manifest_loop_iff entry_lines_def Let_def)
  moreover have "digest = concat ?found \<and> length ?found \<le> 1 \<longleftrightarrow> ?found = [digest]"
    using assms by (cases ?found) (auto simp: le_Suc_eq)
  ultimately show ?thesis by simp
qed

text \<open>
  Property C40: a checksum is accepted exactly when the manifest vouches for the file. On a machine
  whose calls succeed, verification of a regular file succeeds if and only if the manifest is no
  longer than a megabyte, every line of it but an empty last one is a canonical lower-case SHA-256
  digest, two spaces and a plain file name, without a carriage return, and exactly one line names
  the file, with the digest of the file's bytes.
\<close>

theorem checksum_exact:
  assumes "\<And>n. sy_fail env n = None" and "\<And>bytes. length (hash bytes) = sha256_Size"
    and "dk_files d path = Some (Regular bytes)" and "dk_files d manifestPath = Some (Regular manifest)"
  shows "fst (verifyChecksumFile hash env path manifestPath d) = Inr () \<longleftrightarrow> length manifest \<le> maxManifestBytes \<and>
    (\<forall>line\<in>set (entry_lines manifest). entry_ok line) \<and>
    map line_digest (filter (\<lambda>line. line_artifact line = filepath_Base path) (entry_lines manifest)) = [hex_EncodeToString (hash bytes)]"
proof -
  have "hex_EncodeToString (hash bytes) \<noteq> []" using assms(2) [of bytes] by (cases "hash bytes") (simp_all add: sha256_Size_def hex_EncodeToString_def)
  moreover have "fst (verifyChecksumFile hash env path manifestPath d) = verify_manifest (hex_EncodeToString (hash bytes)) (filepath_Base path) manifest"
    using assms(1,3,4) by (simp add: verifyChecksumFile_def checksumFile_def os_Lstat_def os_ReadFile_def os_call_def)
  ultimately show ?thesis using verify_manifest_iff by simp
qed

definition demo_hash :: sha256 where "demo_hash bytes = replicate 32 (CHR ''k'')"

definition demo_manifest :: string where
  "demo_manifest = hex_EncodeToString (demo_hash []) @ ''  f'' @ [CHR 0x0A]"

theorem checksum_exact_witness:
  "fst (verifyChecksumFile demo_hash calm_system ''/d/f'' ''/d/m'' \<lparr>dk_files = [''/d/f'' \<mapsto> Regular ''x'', ''/d/m'' \<mapsto> Regular demo_manifest], dk_calls = 0\<rparr>) = Inr ()"
proof -
  have "length demo_manifest \<le> maxManifestBytes" "\<forall>line\<in>set (entry_lines demo_manifest). entry_ok line"
    "map line_digest (filter (\<lambda>line. line_artifact line = filepath_Base ''/d/f'') (entry_lines demo_manifest)) = [hex_EncodeToString (demo_hash ''x'')]"
    by code_simp+
  moreover have "sy_fail calm_system n = None" "length (demo_hash b) = sha256_Size" for n b
    by (simp_all add: calm_system_def demo_hash_def sha256_Size_def)
  ultimately show ?thesis
    using checksum_exact [of calm_system demo_hash "\<lparr>dk_files = [''/d/f'' \<mapsto> Regular ''x'', ''/d/m'' \<mapsto> Regular demo_manifest], dk_calls = 0\<rparr>" "''/d/f''" "''x''" "''/d/m''" demo_manifest]
    by simp
qed

subsection \<open>The update manifest (updatechannel/manifest.go)\<close>

definition release_char :: "char \<Rightarrow> bool" where
  "release_char c \<longleftrightarrow> is_digit c \<or> 65 \<le> byte c \<and> byte c \<le> 90 \<or> 97 \<le> byte c \<and> byte c \<le> 122 \<or> c \<in> set ''.+-''"

text \<open>The pattern \<open>^v[0-9][0-9A-Za-z.+-]*$\<close>, used by both packages, and \<open>^[0-9a-f]{40}$\<close>.\<close>

definition releaseVersion :: "string \<Rightarrow> bool" where
  "releaseVersion v = (case v of c0 # c1 # rest \<Rightarrow> c0 = CHR ''v'' \<and> is_digit c1 \<and> list_all release_char rest | _ \<Rightarrow> False)"

definition commitPattern :: "string \<Rightarrow> bool" where
  "commitPattern v \<longleftrightarrow> length v = 40 \<and> list_all (\<lambda>c. is_digit c \<or> 97 \<le> byte c \<and> byte c \<le> 102) v"

record ArtifactInput =
  ai_Name :: string
  ai_Data :: string
  ai_SignatureName :: string
  ai_Signature :: string

record manifest_Input =
  mi_Channel :: string
  mi_Version :: string
  mi_Commit :: string
  mi_Artifacts :: "ArtifactInput list"

record Artifact =
  af_OS :: string
  af_Arch :: string
  af_Filename :: string
  af_SHA256 :: string
  af_Signature :: string

record Manifest =
  mf_SchemaVersion :: int
  mf_Channel :: string
  mf_Version :: string
  mf_Commit :: string
  mf_Artifacts :: "Artifact list"

definition validTarget :: "string \<Rightarrow> string \<Rightarrow> string \<Rightarrow> bool" where
  "validTarget osName arch extension \<longleftrightarrow> osName @ ''/'' @ arch @ ''/'' @ extension \<in> set
     [''linux/amd64/.tar.gz'', ''linux/arm64/.tar.gz'', ''darwin/amd64/.tar.gz'', ''darwin/arm64/.tar.gz'', ''windows/amd64/.zip'']"

definition release_targets :: "string list" where
  "release_targets = [''linux/amd64'', ''linux/arm64'', ''darwin/amd64'', ''darwin/arm64'', ''windows/amd64'']"

definition completeTargets :: "string list \<Rightarrow> bool" where
  "completeTargets targets \<longleftrightarrow> length targets = 5 \<and> list_all (\<lambda>t. t \<in> set targets) release_targets"

definition trimSuffix :: "string \<Rightarrow> string \<Rightarrow> string" where
  "trimSuffix s ending = (if hasSuffix s ending then take (length s - length ending) s else s)"

definition parseArtifact :: "sha256 \<Rightarrow> ArtifactInput \<Rightarrow> string \<Rightarrow> Artifact result" where
  "parseArtifact hash source version =
     (if ai_Data source = [] \<or> ai_Signature source = [] \<or> ai_SignatureName source \<noteq> ai_Name source @ ''.sigstore.json''
      then Inl (Err ''invalid update artifact signature'' [])
      else if \<not> hasSuffix (ai_Name source) ''.tar.gz'' \<and> \<not> hasSuffix (ai_Name source) ''.zip'' then Inl (Err ''invalid update artifact extension'' [])
      else let extension = (if hasSuffix (ai_Name source) ''.tar.gz'' then ''.tar.gz'' else ''.zip'');
          parts = strings_Split (trimSuffix (ai_Name source) extension) CHR ''_'' in
        if length parts \<noteq> 4 \<or> parts ! 0 \<noteq> ''solomon'' \<or> parts ! 1 \<noteq> version then Inl (Err ''invalid update artifact name'' [])
        else if \<not> validTarget (parts ! 2) (parts ! 3) extension then Inl (Err ''unsupported update target'' [])
        else Inr \<lparr>af_OS = parts ! 2, af_Arch = parts ! 3, af_Filename = ai_Name source, af_SHA256 = hex_EncodeToString (hash (ai_Data source)),
               af_Signature = ai_SignatureName source\<rparr>)"

definition target_key :: "Artifact \<Rightarrow> string" where
  "target_key a = af_OS a @ ''/'' @ af_Arch a"

fun artifact_loop :: "sha256 \<Rightarrow> string \<Rightarrow> string list \<Rightarrow> ArtifactInput list \<Rightarrow> Artifact list result" where
  "artifact_loop hash version seen [] = Inr []"
| "artifact_loop hash version seen (source # sources) =
     (case parseArtifact hash source version of
        Inl e \<Rightarrow> Inl e
      | Inr artifact \<Rightarrow>
         if target_key artifact \<in> set seen then Inl (Err ''duplicate update target %s'' [target_key artifact])
         else map_sum (\<lambda>e. e) ((#) artifact) (artifact_loop hash version (target_key artifact # seen) sources))"

definition manifest_SchemaVersion :: int where "manifest_SchemaVersion = 1"

definition manifest_Generate :: "sha256 \<Rightarrow> manifest_Input \<Rightarrow> Manifest result" where
  "manifest_Generate hash input =
     (if mi_Channel input \<noteq> ''stable'' \<or> \<not> releaseVersion (mi_Version input) \<or> \<not> commitPattern (mi_Commit input) \<or> length (mi_Artifacts input) \<noteq> 5
      then Inl (Err ''invalid update manifest input'' [])
      else case artifact_loop hash (mi_Version input) [] (mi_Artifacts input) of
        Inl e \<Rightarrow> Inl e
      | Inr artifacts \<Rightarrow>
         if \<not> completeTargets (map target_key artifacts) then Inl (Err ''incomplete update target set'' [])
         else Inr \<lparr>mf_SchemaVersion = manifest_SchemaVersion, mf_Channel = mi_Channel input, mf_Version = mi_Version input, mf_Commit = mi_Commit input,
                mf_Artifacts = sort_key af_OS (sort_key af_Arch artifacts)\<rparr>)"

lemma artifact_loop_ok:
  "artifact_loop hash version seen sources = Inr artifacts \<Longrightarrow>
     list_all2 (\<lambda>source artifact. parseArtifact hash source version = Inr artifact) sources artifacts \<and>
     distinct (map target_key artifacts) \<and> set (map target_key artifacts) \<inter> set seen = {}"
proof (induction sources arbitrary: seen artifacts)
  case (Cons source sources)
  then obtain a rest where "parseArtifact hash source version = Inr a" "target_key a \<notin> set seen"
      "artifact_loop hash version (target_key a # seen) sources = Inr rest" "artifacts = a # rest"
    by (auto simp: map_sum_Inr split: sum.splits if_splits)
  with Cons.IH show ?case by fastforce
qed simp

lemma list_all2_right: "list_all2 P xs ys \<Longrightarrow> y \<in> set ys \<Longrightarrow> \<exists>x\<in>set xs. P x y"
  by (induction rule: list_all2_induct) auto

lemma parseArtifact_ok:
  assumes "parseArtifact hash source version = Inr a"
  shows "af_Filename a = ai_Name source \<and> af_SHA256 a = hex_EncodeToString (hash (ai_Data source)) \<and> af_Signature a = ai_Name source @ ''.sigstore.json'' \<and>
    ai_Data source \<noteq> [] \<and> ai_Signature source \<noteq> []"
  using assms by (auto simp: parseArtifact_def Let_def split: if_splits)

text \<open>
  An update manifest is complete and truthful. A generated manifest lists each of the
  five release targets exactly once and nothing else, every entry names one of the given archives,
  which is not empty, with the SHA-256 digest of its bytes and the signature file that belongs to it.
\<close>

lemma manifest_complete:
  assumes "manifest_Generate hash input = Inr m"
  shows "distinct (map target_key (mf_Artifacts m)) \<and> set (map target_key (mf_Artifacts m)) = set release_targets \<and>
    (\<forall>a\<in>set (mf_Artifacts m). \<exists>source\<in>set (mi_Artifacts input). af_Filename a = ai_Name source \<and> ai_Data source \<noteq> [] \<and>
       af_SHA256 a = hex_EncodeToString (hash (ai_Data source)) \<and> af_Signature a = ai_Name source @ ''.sigstore.json'' \<and> ai_Signature source \<noteq> [])"
proof -
  obtain artifacts where l: "artifact_loop hash (mi_Version input) [] (mi_Artifacts input) = Inr artifacts"
      "completeTargets (map target_key artifacts)" "mf_Artifacts m = sort_key af_OS (sort_key af_Arch artifacts)"
    using assms by (auto simp: manifest_Generate_def split: if_splits sum.splits)
  note ok = artifact_loop_ok [OF l(1)]
  have same: "mset (mf_Artifacts m) = mset artifacts" "set (mf_Artifacts m) = set artifacts" using l(3) by simp_all
  then have "mset (map target_key (mf_Artifacts m)) = mset (map target_key artifacts)" by simp
  then have once: "distinct (map target_key (mf_Artifacts m))" using ok mset_eq_imp_distinct_iff by blast
  have five: "length artifacts = 5" and all: "set release_targets \<subseteq> set (map target_key artifacts)"
    using l(2) by (auto simp: completeTargets_def list_all_iff)
  have "card (set (map target_key artifacts)) = 5" using ok five distinct_card [of "map target_key artifacts"] by simp
  moreover have "card (set release_targets) = 5" by code_simp
  ultimately have targets: "set release_targets = set (map target_key artifacts)" using card_subset_eq [OF List.finite_set all] by simp
  have "\<exists>source\<in>set (mi_Artifacts input). parseArtifact hash source (mi_Version input) = Inr a" if "a \<in> set artifacts" for a
    using ok that list_all2_right by fast
  then have entries: "\<exists>source\<in>set (mi_Artifacts input). af_Filename a = ai_Name source \<and> ai_Data source \<noteq> [] \<and>
      af_SHA256 a = hex_EncodeToString (hash (ai_Data source)) \<and> af_Signature a = ai_Name source @ ''.sigstore.json'' \<and> ai_Signature source \<noteq> []"
    if "a \<in> set artifacts" for a using that parseArtifact_ok by meson
  show ?thesis using once targets entries same by simp
qed

subsection \<open>Revocations and targets (revocation.go, matrix.go)\<close>

record Revocation =
  rv_SchemaVersion :: int
  rv_RevokedVersion :: string
  rv_ReplacementVersion :: string
  rv_Reason :: string
  rv_RevokedAt :: string

text \<open>The time of a notice is given with its RFC 3339 text; \<open>None\<close> is the zero time.\<close>

definition NewRevocation :: "string \<Rightarrow> string \<Rightarrow> string \<Rightarrow> string option \<Rightarrow> Revocation result" where
  "NewRevocation revokedVersion replacementVersion reason moment =
     (if \<not> releaseVersion revokedVersion \<or> \<not> releaseVersion replacementVersion \<or> revokedVersion = replacementVersion
      then Inl (Err ''invalid revoked or replacement release version'' [])
      else let trimmed = strings_TrimSpace reason in
        case moment of
          None \<Rightarrow> Inl (Err ''invalid revocation reason or time'' [])
        | Some time \<Rightarrow>
           if trimmed = [] \<or> 1024 < length trimmed then Inl (Err ''invalid revocation reason or time'' [])
           else Inr \<lparr>rv_SchemaVersion = 1, rv_RevokedVersion = revokedVersion, rv_ReplacementVersion = replacementVersion,
                  rv_Reason = trimmed, rv_RevokedAt = time\<rparr>)"

record Target =
  tg_GOOS :: string
  tg_GOARCH :: string
  tg_Runner :: string

definition Targets :: "Target list" where
  "Targets = [\<lparr>tg_GOOS = ''linux'', tg_GOARCH = ''amd64'', tg_Runner = ''ubuntu-latest''\<rparr>,
     \<lparr>tg_GOOS = ''linux'', tg_GOARCH = ''arm64'', tg_Runner = ''ubuntu-24.04-arm''\<rparr>,
     \<lparr>tg_GOOS = ''darwin'', tg_GOARCH = ''amd64'', tg_Runner = ''macos-15-intel''\<rparr>,
     \<lparr>tg_GOOS = ''darwin'', tg_GOARCH = ''arm64'', tg_Runner = ''macos-latest''\<rparr>,
     \<lparr>tg_GOOS = ''windows'', tg_GOARCH = ''amd64'', tg_Runner = ''windows-latest''\<rparr>]"

fun targets_loop :: "string list \<Rightarrow> string list \<Rightarrow> Target list \<Rightarrow> string list result" where
  "targets_loop available seen [] = Inr seen"
| "targets_loop available seen (target # targets) =
     (let key = tg_GOOS target @ ''/'' @ tg_GOARCH target in
      if key \<in> set seen then Inl (Err ''duplicate release target %s'' [key])
      else if key \<notin> set available then Inl (Err ''unsupported Go release target %s'' [key])
      else targets_loop available (key # seen) targets)"

definition matrix_Validate :: "string list \<Rightarrow> go_error option" where
  "matrix_Validate supported =
     (case targets_loop supported [] Targets of
        Inl e \<Rightarrow> Some e
      | Inr seen \<Rightarrow> if length seen \<noteq> 5 then Some (Err ''incomplete release target matrix'' []) else None)"

definition ParsePlatforms :: "string \<Rightarrow> string list" where
  "ParsePlatforms text = sort (strings_Fields text)"

text \<open>The matrix is accepted exactly if Go supports the five targets, the ones an update manifest must list.\<close>

lemma matrix_Validate_iff: "matrix_Validate supported = None \<longleftrightarrow> set release_targets \<subseteq> set supported"
  by (auto simp: matrix_Validate_def Targets_def release_targets_def Let_def)

end
