(* ===== verification/Guards.thy ===== *)
theory Guards
  imports Release
begin

section \<open>Startup checks, history keys and history ranking (runtimecheck, credential, history)\<close>

text \<open>
  The report on the process's surroundings that every command but \<open>doctor\<close> must pass, the keys of
  the command history in the credential store, and the ranker that counts commands by their digest.
  A credential store and a history store are interfaces without an implementation in the
  repository: they are records of operations on a state of any type, and a missing store is \<open>None\<close>.
\<close>

subsection \<open>The startup report (runtimecheck/check.go)\<close>

record Report =
  rp_Safe :: bool
  rp_Findings :: "string list"

record check_Options =
  ck_Path :: string
  ck_EffectiveUserID :: int
  ck_WorkingDirectory :: nat
  ck_WorkingDirError :: "go_error option"

text \<open>\<open>mode.Perm() & 0o022\<close>: the write bits of the group and of the others.\<close>

definition shared_write :: "nat \<Rightarrow> bool" where
  "shared_write mode \<longleftrightarrow> odd (mode div 2) \<or> odd (mode div 16)"

definition unsafe_path :: "string \<Rightarrow> bool" where
  "unsafe_path path \<longleftrightarrow> list_ex (\<lambda>directory. directory = [] \<or> \<not> filepath_IsAbs directory) (filepath_SplitList path)"

definition runtime_Check :: "check_Options \<Rightarrow> Report" where
  "runtime_Check options =
     (let findings = (if ck_EffectiveUserID options = 0 then [''privileged-user''] else [])
        @ (if unsafe_path (ck_Path options) then [''unsafe-path''] else [])
        @ (if ck_WorkingDirError options \<noteq> None then [''working-directory-unavailable'']
           else if shared_write (ck_WorkingDirectory options) then [''writable-working-directory''] else []) in
      \<lparr>rp_Safe = (findings = []), rp_Findings = findings\<rparr>)"

text \<open>\<open>Current\<close>: what the process observes. The mode of the directory is that of \<open>os.Stat\<close>.\<close>

definition runtime_Current :: "string \<Rightarrow> int \<Rightarrow> string result \<Rightarrow> (string \<Rightarrow> nat result) \<Rightarrow> Report" where
  "runtime_Current path uid getwd stat =
     (case (case getwd of Inl e \<Rightarrow> Inl e | Inr directory \<Rightarrow> stat directory) of
        Inl e \<Rightarrow> runtime_Check \<lparr>ck_Path = path, ck_EffectiveUserID = uid, ck_WorkingDirectory = 0, ck_WorkingDirError = Some e\<rparr>
      | Inr mode \<Rightarrow> runtime_Check \<lparr>ck_Path = path, ck_EffectiveUserID = uid, ck_WorkingDirectory = mode, ck_WorkingDirError = None\<rparr>)"

definition report_Error :: "Report \<Rightarrow> go_error option" where
  "report_Error report =
     (if rp_Safe report then None else Some (Err (''unsafe local runtime: '' @ strings_Join (rp_Findings report) '','') []))"

definition startupError :: "string list \<Rightarrow> Report \<Rightarrow> go_error option" where
  "startupError args report = (if args \<noteq> [] \<and> args ! 0 = ''doctor'' then None else report_Error report)"

text \<open>
  A command other than \<open>doctor\<close> starts exactly if the process is not root, every entry of the
  search path is an absolute directory, and the working directory is known and not writable by
  others.
\<close>

lemma startup_allowed:
  "startupError args (runtime_Current path uid getwd stat) = None \<longleftrightarrow>
     (\<exists>rest. args = ''doctor'' # rest) \<or>
     uid \<noteq> 0 \<and> (\<forall>directory\<in>set (filepath_SplitList path). directory \<noteq> [] \<and> filepath_IsAbs directory) \<and>
     (\<exists>directory mode. getwd = Inr directory \<and> stat directory = Inr mode \<and> \<not> shared_write mode)"
proof -
  have "rp_Safe (runtime_Current path uid getwd stat) \<longleftrightarrow> uid \<noteq> 0 \<and> \<not> unsafe_path path \<and>
      (\<exists>directory mode. getwd = Inr directory \<and> stat directory = Inr mode \<and> \<not> shared_write mode)"
    by (auto simp: runtime_Current_def runtime_Check_def Let_def split: sum.splits)
  moreover have "\<not> unsafe_path path \<longleftrightarrow> (\<forall>directory\<in>set (filepath_SplitList path). directory \<noteq> [] \<and> filepath_IsAbs directory)"
    by (auto simp: unsafe_path_def list_ex_iff)
  ultimately show ?thesis by (cases args) (auto simp: startupError_def report_Error_def)
qed

subsection \<open>Keys of the history (credential/store.go)\<close>

record 's key_store =
  ks_Load :: "string \<Rightarrow> string \<Rightarrow> 's \<Rightarrow> string result \<times> 's"
  ks_Save :: "string \<Rightarrow> string \<Rightarrow> string \<Rightarrow> 's \<Rightarrow> unit result \<times> 's"
  ks_Delete :: "string \<Rightarrow> string \<Rightarrow> 's \<Rightarrow> unit result \<times> 's"

record 's HistoryKeys =
  hk_enabled :: bool
  hk_store :: "'s key_store option"

definition ErrDisabled :: go_error where "ErrDisabled = Err ''credential store is disabled'' []"
definition credential_ErrUnavailable :: go_error where "credential_ErrUnavailable = Err ''OS credential store is unavailable'' []"
definition HistoryKeySize :: nat where "HistoryKeySize = 32"

definition NewHistoryKeys :: "bool \<Rightarrow> 's key_store option \<Rightarrow> 's HistoryKeys" where
  "NewHistoryKeys enabled store = \<lparr>hk_enabled = enabled, hk_store = store\<rparr>"

definition scope_char :: "char \<Rightarrow> bool" where
  "scope_char c \<longleftrightarrow> 97 \<le> byte c \<and> byte c \<le> 122 \<or> 65 \<le> byte c \<and> byte c \<le> 90 \<or> is_digit c \<or> c \<in> set ''._-''"

definition validScope :: "string \<Rightarrow> bool" where
  "validScope scope \<longleftrightarrow> scope \<noteq> [] \<and> length scope \<le> 128 \<and> list_all scope_char scope"

text \<open>The guards of every method: enabled, a store, and, where there is one, a valid scope.\<close>

definition with_store :: "'s HistoryKeys \<Rightarrow> ('s key_store \<Rightarrow> 's \<Rightarrow> 'a result \<times> 's) \<Rightarrow> 's \<Rightarrow> 'a result \<times> 's" where
  "with_store keys f s =
     (if \<not> hk_enabled keys then (Inl ErrDisabled, s)
      else case hk_store keys of None \<Rightarrow> (Inl credential_ErrUnavailable, s) | Some store \<Rightarrow> f store s)"

definition in_scope :: "string \<Rightarrow> ('s \<Rightarrow> 'a result \<times> 's) \<Rightarrow> 's \<Rightarrow> 'a result \<times> 's" where
  "in_scope scope f s = (if \<not> validScope scope then (Inl (Err ''invalid history key scope'' []), s) else f s)"

definition keys_Load :: "'s HistoryKeys \<Rightarrow> string \<Rightarrow> 's \<Rightarrow> string result \<times> 's" where
  "keys_Load keys scope = with_store keys (\<lambda>store. in_scope scope (\<lambda>s.
     case ks_Load store ''solomon/history'' scope s of
       (Inl e, s) \<Rightarrow> (Inl e, s)
     | (Inr key, s) \<Rightarrow> if length key \<noteq> HistoryKeySize then (Inl (Err ''invalid history key length'' []), s) else (Inr key, s)))"

text \<open>The random bytes of \<open>rand.Read\<close> are given.\<close>

definition keys_Generate :: "'s HistoryKeys \<Rightarrow> string result \<Rightarrow> 's \<Rightarrow> string result \<times> 's" where
  "keys_Generate keys random = with_store keys (\<lambda>_ s. (random, s))"

definition keys_Save :: "'s HistoryKeys \<Rightarrow> string \<Rightarrow> string \<Rightarrow> 's \<Rightarrow> unit result \<times> 's" where
  "keys_Save keys scope key = with_store keys (\<lambda>store. in_scope scope (\<lambda>s.
     if length key \<noteq> HistoryKeySize then (Inl (Err ''invalid history key length'' []), s) else ks_Save store ''solomon/history'' scope key s))"

definition keys_Delete :: "'s HistoryKeys \<Rightarrow> string \<Rightarrow> 's \<Rightarrow> unit result \<times> 's" where
  "keys_Delete keys scope = with_store keys (\<lambda>store. in_scope scope (ks_Delete store ''solomon/history'' scope))"

lemmas keys_defs = keys_Load_def keys_Save_def keys_Delete_def keys_Generate_def with_store_def in_scope_def

text \<open>Disabled keys never touch the store, and what is loaded has the size of a key.\<close>

lemma keys_opt_in:
  "\<not> hk_enabled keys \<Longrightarrow> keys_Load keys scope s = (Inl ErrDisabled, s) \<and> keys_Save keys scope key s = (Inl ErrDisabled, s) \<and>
     keys_Delete keys scope s = (Inl ErrDisabled, s) \<and> keys_Generate keys random s = (Inl ErrDisabled, s)"
  by (simp add: keys_defs)

lemma loaded_key_size: "keys_Load keys scope s = (Inr key, s') \<Longrightarrow> length key = HistoryKeySize \<and> validScope scope"
  by (auto simp: keys_defs split: if_splits option.splits prod.splits sum.splits)

text \<open>With a store that returns what was saved, a key that is saved is the key that is loaded.\<close>

lemma key_round_trip:
  assumes "\<And>service scope key s s'. ks_Save store service scope key s = (Inr (), s') \<Longrightarrow> ks_Load store service scope s' = (Inr key, s')"
    and "keys_Save (NewHistoryKeys enabled (Some store)) scope key s = (Inr (), s')"
  shows "keys_Load (NewHistoryKeys enabled (Some store)) scope s' = (Inr key, s')"
  using assms by (auto simp: keys_defs NewHistoryKeys_def split: if_splits)

subsection \<open>Ranking by history (history/history.go)\<close>

record 's history_store =
  hs_Record :: "string \<Rightarrow> 's \<Rightarrow> unit result \<times> 's"
  hs_Score :: "string \<Rightarrow> 's \<Rightarrow> int result \<times> 's"

record 's Ranker =
  rk_enabled :: bool
  rk_store :: "'s history_store option"

definition history_New :: "bool \<Rightarrow> 's history_store option \<Rightarrow> 's Ranker" where
  "history_New enabled store = \<lparr>rk_enabled = enabled, rk_store = store\<rparr>"

definition history_ErrUnavailable :: go_error where "history_ErrUnavailable = Err ''history store is unavailable'' []"

definition history_Key :: "sha256 \<Rightarrow> string \<Rightarrow> string" where
  "history_Key hash command = hex_EncodeToString (hash command)"

definition ranker_Record :: "sha256 \<Rightarrow> 's Ranker \<Rightarrow> string \<Rightarrow> 's \<Rightarrow> unit result \<times> 's" where
  "ranker_Record hash ranker command s =
     (if \<not> rk_enabled ranker then (Inr (), s)
      else case rk_store ranker of None \<Rightarrow> (Inl history_ErrUnavailable, s) | Some store \<Rightarrow> hs_Record store (history_Key hash command) s)"

definition ranker_Score :: "sha256 \<Rightarrow> 's Ranker \<Rightarrow> string \<Rightarrow> 's \<Rightarrow> int result \<times> 's" where
  "ranker_Score hash ranker candidate s =
     (if \<not> rk_enabled ranker then (Inr 0, s)
      else case rk_store ranker of None \<Rightarrow> (Inl history_ErrUnavailable, s) | Some store \<Rightarrow> hs_Score store (history_Key hash candidate) s)"

text \<open>The store sees a command only through its digest: two commands with one digest are the same to it.\<close>

lemma ranker_sees_digest:
  "hash command = hash other \<Longrightarrow>
     ranker_Record hash ranker command s = ranker_Record hash ranker other s \<and> ranker_Score hash ranker command s = ranker_Score hash ranker other s"
  by (simp add: ranker_Record_def ranker_Score_def history_Key_def split: option.split)

end
