(* ===== verification/Shell.thy ===== *)
theory Shell
  imports GoFloat GoStrings
begin

section \<open>Shell adapters and their actions (internal/shell: shell.go, actions.go)\<close>

text \<open>
  What the shell adapters share: the resolution of an action, the texts shown, the sets that
  make an acceptance or a skip count once, and the table of adapters with what each supports.
  A struct that holds a mutex and a map used as a set is a record with that set; its methods
  take the mutex, so each is one step. The scripts of the adapters (scripts.go) are shell
  programs in string constants: an adapter carries the name of its script, not its text.
\<close>

subsection \<open>Actions (actions.go)\<close>

definition ActionNone :: string where "ActionNone = ''none''"
definition ActionHint :: string where "ActionHint = ''hint''"
definition ActionInterrupt :: string where "ActionInterrupt = ''interrupt''"
definition ActionRewrite :: string where "ActionRewrite = ''rewrite''"
definition ActionRunUnchanged :: string where "ActionRunUnchanged = ''run-unchanged''"
definition ActionEditInBuffer :: string where "ActionEditInBuffer = ''edit-in-buffer''"
definition ActionSkipOnce :: string where "ActionSkipOnce = ''skip-once''"

lemmas action_names = ActionNone_def ActionHint_def ActionInterrupt_def ActionRewrite_def ActionRunUnchanged_def
  ActionEditInBuffer_def ActionSkipOnce_def

record ActionResult =
  ar_Render :: bool
  ar_Submit :: bool
  ar_Rewrite :: bool
  ar_Refused :: bool

definition zeroActionResult :: ActionResult where
  "zeroActionResult = \<lparr>ar_Render = False, ar_Submit = False, ar_Rewrite = False, ar_Refused = False\<rparr>"

definition ResolveAction :: "string \<Rightarrow> string \<Rightarrow> string \<Rightarrow> ActionResult" where
  "ResolveAction action risk suggestion =
     (if action = ActionNone \<or> action = ActionRunUnchanged \<or> action = ActionSkipOnce then zeroActionResult\<lparr>ar_Submit := True\<rparr>
      else if action = ActionHint then zeroActionResult\<lparr>ar_Render := True, ar_Submit := True\<rparr>
      else if action = ActionInterrupt then zeroActionResult\<lparr>ar_Render := True\<rparr>
      else if action = ActionRewrite \<or> action = ActionEditInBuffer then
        (if risk = ''safe'' \<and> suggestion \<noteq> [] then zeroActionResult\<lparr>ar_Rewrite := True\<rparr>
         else zeroActionResult\<lparr>ar_Render := True, ar_Refused := True\<rparr>)
      else zeroActionResult\<lparr>ar_Submit := True\<rparr>)"

definition InlineDiagnostic :: "string \<Rightarrow> string \<Rightarrow> string \<Rightarrow> string" where
  "InlineDiagnostic risk confidence suggestion = ''solomon ['' @ risk @ ''/'' @ confidence @ '']: '' @ suggestion"

record ConfirmationDialog =
  cd_Required :: bool
  cd_Message :: string

definition RiskConfirmation :: "string \<Rightarrow> string \<Rightarrow> ConfirmationDialog" where
  "RiskConfirmation risk suggestion =
     (if risk = ''safe'' \<or> suggestion = [] then \<lparr>cd_Required = False, cd_Message = []\<rparr>
      else \<lparr>cd_Required = True, cd_Message = ''confirm '' @ risk @ ''-risk repair: '' @ suggestion\<rparr>)"

definition NonBlockingHintConfidence :: rat where "NonBlockingHintConfidence = fl64 (80 / 100)"

definition LowConfidenceHint :: "rat \<Rightarrow> ActionResult" where
  "LowConfidenceHint confidence =
     (if 0 \<le> confidence \<and> confidence < NonBlockingHintConfidence then zeroActionResult\<lparr>ar_Render := True, ar_Submit := True\<rparr>
      else zeroActionResult)"

definition LowConfidenceInterrupt :: "rat \<Rightarrow> bool \<Rightarrow> ActionResult" where
  "LowConfidenceInterrupt confidence optedIn =
     (if optedIn \<and> 0 \<le> confidence \<and> confidence < NonBlockingHintConfidence then zeroActionResult\<lparr>ar_Render := True\<rparr>
      else zeroActionResult)"

definition LowConfidenceKeybindingInterrupt :: "rat \<Rightarrow> bool \<Rightarrow> ActionResult" where
  "LowConfidenceKeybindingInterrupt confidence invoked =
     (if invoked \<and> 0 \<le> confidence \<and> confidence < NonBlockingHintConfidence then zeroActionResult\<lparr>ar_Render := True\<rparr>
      else zeroActionResult)"

definition MaxSelectorCandidates :: nat where "MaxSelectorCandidates = 5"

text \<open>The map of trimmed candidates is only sorted, so its order does not matter.\<close>

definition selector_candidates :: "string list \<Rightarrow> string list" where
  "selector_candidates candidates =
     take MaxSelectorCandidates (sort (dedup (filter (\<lambda>c. c \<noteq> []) (map strings_TrimSpace candidates))))"

definition RenderCandidateSelector :: "string list \<Rightarrow> string" where
  "RenderCandidateSelector candidates =
     (case selector_candidates candidates of ordered \<Rightarrow>
      strings_Join (map (\<lambda>(i, c). itoa_nat (i + 1) @ ''. '' @ c) (zip [0..<length ordered] ordered)) [CHR 0x0A])"

definition ellipsis :: rune where "ellipsis = 0x2026"

definition TruncateForWidth :: "string \<Rightarrow> int \<Rightarrow> string" where
  "TruncateForWidth value width =
     (if width \<le> 0 then []
      else case runes value of rs \<Rightarrow>
        if int (length rs) \<le> width then value
        else if width = 1 then utf8_encode ellipsis
        else string_of_runes (take (nat width - 1) rs) @ utf8_encode ellipsis)"

text \<open>The four sets.\<close>

record OneTimeAccept = ot_accepted :: "string set"
record SkipOnce = so_skipped :: "string set"
record RuleSuppressions = sp_rules :: "string set"
record SafeRuleAcceptances = sr_rules :: "string set"

definition OneTimeAccept_Accept :: "string \<Rightarrow> OneTimeAccept \<Rightarrow> bool \<times> OneTimeAccept" where
  "OneTimeAccept_Accept key a =
     (if key = [] \<or> key \<in> ot_accepted a then (False, a) else (True, a\<lparr>ot_accepted := insert key (ot_accepted a)\<rparr>))"

definition Skip :: "string \<Rightarrow> SkipOnce \<Rightarrow> bool \<times> SkipOnce" where
  "Skip key s = (if key = [] \<or> key \<in> so_skipped s then (False, s) else (True, s\<lparr>so_skipped := insert key (so_skipped s)\<rparr>))"

definition Suppress :: "string \<Rightarrow> RuleSuppressions \<Rightarrow> bool \<times> RuleSuppressions" where
  "Suppress rule0 s =
     (case strings_TrimSpace rule0 of rule \<Rightarrow>
      if rule = [] \<or> rule \<in> sp_rules s then (False, s) else (True, s\<lparr>sp_rules := insert rule (sp_rules s)\<rparr>))"

definition Suppressed :: "RuleSuppressions \<Rightarrow> string \<Rightarrow> bool" where
  "Suppressed s rule \<longleftrightarrow> strings_TrimSpace rule \<in> sp_rules s"

definition SafeRuleAcceptances_Accept :: "string \<times> string \<Rightarrow> SafeRuleAcceptances \<Rightarrow> bool \<times> SafeRuleAcceptances" where
  "SafeRuleAcceptances_Accept = (\<lambda>(rule0, risk) a.
     (case strings_TrimSpace rule0 of rule \<Rightarrow>
      if rule = [] \<or> risk \<noteq> ''safe'' \<or> rule \<in> sr_rules a then (False, a) else (True, a\<lparr>sr_rules := insert rule (sr_rules a)\<rparr>)))"

definition Accepted :: "SafeRuleAcceptances \<Rightarrow> string \<Rightarrow> bool" where
  "Accepted a rule \<longleftrightarrow> strings_TrimSpace rule \<in> sr_rules a"

subsection \<open>Adapters (shell.go)\<close>

record Contract =
  ct_Shell :: string
  ct_Tier :: string
  ct_Capabilities :: "string list"
  ct_Configuration :: "string list"
  ct_Limitations :: "string list"

record DoctorResult =
  do_Shell :: string
  do_OS :: string
  do_Supported :: bool
  do_Tier :: string
  do_Features :: "string list"
  do_Configuration :: "string list"
  do_Limitations :: "string list"
  do_RemediationHints :: "string list"

text \<open>The name of a shell: what follows the last slash or backslash, or else the value trimmed and in lower case.\<close>

definition shellName :: "string \<Rightarrow> string" where
  "shellName value =
     (if CHR ''/'' \<in> set value \<or> CHR 0x5C \<in> set value then after_last (\<lambda>c. c = CHR ''/'' \<or> c = CHR 0x5C) value
      else strings_ToLower (strings_TrimSpace value))"

definition all_capabilities :: "string list" where
  "all_capabilities = [''pre-execution'', ''post-failure'', ''hint'', ''interrupt'', ''rewrite'']"

definition both_settings :: "string list" where "both_settings = [''mode'', ''display'']"

definition powershell_contract :: Contract where
  "powershell_contract = \<lparr>ct_Shell = ''powershell'', ct_Tier = ''tiered'', ct_Capabilities = all_capabilities,
     ct_Configuration = both_settings, ct_Limitations = [''requires PSReadLine'']\<rparr>"

text \<open>Each adapter: the name it is found by, its contract and the name of its script.\<close>

definition adapters :: "(string \<times> Contract \<times> string) list" where
  "adapters =
     [(''zsh'', \<lparr>ct_Shell = ''zsh'', ct_Tier = ''first-class'', ct_Capabilities = all_capabilities, ct_Configuration = both_settings,
         ct_Limitations = []\<rparr>, ''zshScript''),
      (''bash'', \<lparr>ct_Shell = ''bash'', ct_Tier = ''tiered'', ct_Capabilities = [''post-failure'', ''hint''], ct_Configuration = both_settings,
         ct_Limitations = [''post-failure hints only'', ''no pre-execution interrupt or rewrite'',
           ''experimental output capture requires init flag and script utility'']\<rparr>, ''bashScript''),
      (''fish'', \<lparr>ct_Shell = ''fish'', ct_Tier = ''tiered'', ct_Capabilities = all_capabilities, ct_Configuration = both_settings,
         ct_Limitations = [''adapter replaces enter binding'']\<rparr>, ''fishScript''),
      (''powershell'', powershell_contract, ''powerShellScript''), (''powershell.exe'', powershell_contract, ''powerShellScript''),
      (''pwsh'', powershell_contract, ''powerShellScript''), (''pwsh.exe'', powershell_contract, ''powerShellScript'')]"

definition adapterFor :: "string \<Rightarrow> (Contract \<times> string) option" where
  "adapterFor name = map_of adapters (shellName name)"

definition Script :: "(string \<Rightarrow> string) \<Rightarrow> string \<Rightarrow> string result" where
  "Script texts name = (case adapterFor name of None \<Rightarrow> Inl (Err ''unsupported shell %q'' [name]) | Some (_, script) \<Rightarrow> Inr (texts script))"

definition ExperimentalCaptureBootstrap :: "string \<Rightarrow> string result" where
  "ExperimentalCaptureBootstrap name =
     (if shellName name = ''bash'' \<or> shellName name = ''zsh'' then
        Inr (strings_Join [''# solomon experimental output capture (opt-in)'',
          ''if [[ -z '' @ [CHR 0x22] @ ''${SOLOMON_CAPTURE_ACTIVE:-}'' @ [CHR 0x22] @ '' ]]; then'',
          ''  export SOLOMON_CAPTURE_ACTIVE=bootstrap'', ''  exec solomon capture start --shell '' @ shellName name, ''fi''] [CHR 0x0A])
      else Inl (Err ''experimental output capture is available only for bash and zsh'' []))"

definition ContractFor :: "string \<Rightarrow> Contract result" where
  "ContractFor name = (case adapterFor name of None \<Rightarrow> Inl (Err ''unsupported shell %q'' [name]) | Some (c, _) \<Rightarrow> Inr c)"

definition remediationHints :: "string list \<Rightarrow> string list" where
  "remediationHints = map (\<lambda>limitation.
     if limitation = ''adapter replaces enter binding'' then ''review custom Enter bindings before initializing the adapter''
     else if limitation = ''requires PSReadLine'' then ''install or enable PSReadLine, then initialize the adapter again''
     else ''review adapter limitation: '' @ limitation)"

definition Doctor :: "string \<Rightarrow> string \<Rightarrow> DoctorResult" where
  "Doctor shellPath osName =
     (case ContractFor (shellName shellPath) of
        Inl _ \<Rightarrow> \<lparr>do_Shell = shellName shellPath, do_OS = osName, do_Supported = False, do_Tier = [], do_Features = [], do_Configuration = [],
          do_Limitations = [''unsupported shell''], do_RemediationHints = [''use bash, zsh, fish, or powershell'']\<rparr>
      | Inr c \<Rightarrow> \<lparr>do_Shell = shellName shellPath, do_OS = osName, do_Supported = True, do_Tier = ct_Tier c,
          do_Features = ct_Capabilities c, do_Configuration = ct_Configuration c, do_Limitations = ct_Limitations c,
          do_RemediationHints = remediationHints (ct_Limitations c)\<rparr>)"

subsection \<open>Sets in which a key counts once\<close>

text \<open>
  The contract that the four sets share: adding a key answers whether it is new, an invalid key
  is never new, and a key is known afterwards exactly if it was before or is the added one. Keys
  are compared in the form \<open>key_of\<close> gives them.
\<close>

fun answers :: "('k \<Rightarrow> 's \<Rightarrow> bool \<times> 's) \<Rightarrow> 'k list \<Rightarrow> 's \<Rightarrow> bool list" where
  "answers add [] s = []"
| "answers add (k # ks) s = (case add k s of (b, s') \<Rightarrow> b # answers add ks s')"

definition answers_once :: "('k \<Rightarrow> bool) \<Rightarrow> ('k \<Rightarrow> string) \<Rightarrow> 'k list \<Rightarrow> bool list \<Rightarrow> bool" where
  "answers_once valid key_of ks bs \<longleftrightarrow> length bs = length ks \<and>
     (\<forall>i<length ks. bs ! i \<longleftrightarrow> valid (ks ! i) \<and> (\<forall>j<i. valid (ks ! j) \<longrightarrow> key_of (ks ! j) \<noteq> key_of (ks ! i)))"

locale once_set =
  fixes add :: "'k \<Rightarrow> 's \<Rightarrow> bool \<times> 's" and known :: "'s \<Rightarrow> string set" and valid :: "'k \<Rightarrow> bool" and key_of :: "'k \<Rightarrow> string"
  assumes new: "fst (add k s) \<longleftrightarrow> valid k \<and> key_of k \<notin> known s"
    and learns: "known (snd (add k s)) = (if valid k then insert (key_of k) (known s) else known s)"
begin

lemma answers_length: "length (answers add ks s) = length ks"
  by (induction ks arbitrary: s) (auto split: prod.splits)

lemma answers_nth:
  "i < length ks \<Longrightarrow> answers add ks s ! i \<longleftrightarrow>
     valid (ks ! i) \<and> key_of (ks ! i) \<notin> known s \<and> (\<forall>j<i. valid (ks ! j) \<longrightarrow> key_of (ks ! j) \<noteq> key_of (ks ! i))"
proof (induction ks arbitrary: s i)
  case (Cons k ks)
  obtain b s' where a: "add k s = (b, s')" by (meson prod.exhaust)
  show ?case
  proof (cases i)
    case 0
    then show ?thesis using new [of k s] a by simp
  next
    case (Suc n)
    have "known s' = (if valid k then insert (key_of k) (known s) else known s)" using learns [of k s] a by simp
    then show ?thesis using Cons.IH [of n s'] Cons.prems a Suc by (auto simp: nth_Cons' less_Suc_eq_0_disj)
  qed
qed simp

lemma once: "known s = {} \<Longrightarrow> answers_once valid key_of ks (answers add ks s)"
  unfolding answers_once_def using answers_length answers_nth by auto

end

interpretation accept_once: once_set OneTimeAccept_Accept ot_accepted "\<lambda>k. k \<noteq> []" "\<lambda>k. k"
  by unfold_locales (auto simp: OneTimeAccept_Accept_def)

interpretation skip_once: once_set Skip so_skipped "\<lambda>k. k \<noteq> []" "\<lambda>k. k"
  by unfold_locales (auto simp: Skip_def)

interpretation suppress_once: once_set Suppress sp_rules "\<lambda>k. strings_TrimSpace k \<noteq> []" strings_TrimSpace
  by unfold_locales (auto simp: Suppress_def)

interpretation accept_rule_once: once_set SafeRuleAcceptances_Accept sr_rules
  "\<lambda>(rule, risk). strings_TrimSpace rule \<noteq> [] \<and> risk = ''safe''" "\<lambda>(rule, risk). strings_TrimSpace rule"
  by unfold_locales (auto simp: SafeRuleAcceptances_Accept_def split: if_splits)

text \<open>
  Acceptances, skips and suppressions count once. On each of the four sets, in any
  sequence of calls, a call answers true exactly if its key is not empty (for rules: after
  trimming, and for acceptances of rules the risk is safe) and no earlier valid call had the
  same key.
\<close>

lemma shell_sets_once:
  "answers_once (\<lambda>k. k \<noteq> []) (\<lambda>k. k) ks (answers OneTimeAccept_Accept ks \<lparr>ot_accepted = {}\<rparr>) \<and>
   answers_once (\<lambda>k. k \<noteq> []) (\<lambda>k. k) ks (answers Skip ks \<lparr>so_skipped = {}\<rparr>) \<and>
   answers_once (\<lambda>k. strings_TrimSpace k \<noteq> []) strings_TrimSpace ks (answers Suppress ks \<lparr>sp_rules = {}\<rparr>) \<and>
   answers_once (\<lambda>(rule, risk). strings_TrimSpace rule \<noteq> [] \<and> risk = ''safe'') (\<lambda>(rule, risk). strings_TrimSpace rule) rs
     (answers SafeRuleAcceptances_Accept rs \<lparr>sr_rules = {}\<rparr>)"
  by (intro conjI accept_once.once skip_once.once suppress_once.once accept_rule_once.once) simp_all

text \<open>The selector shows at most five distinct candidates, in order.\<close>

lemma selector_candidates_sorted:
  "sorted (selector_candidates cs) \<and> distinct (selector_candidates cs) \<and> length (selector_candidates cs) \<le> 5 \<and> [] \<notin> set (selector_candidates cs)"
  by (auto simp: selector_candidates_def MaxSelectorCandidates_def sorted_wrt_take dest: in_set_takeD)

end
