(* ===== verification/Inspecting.thy ===== *)
theory Inspecting
  imports CommandProps Guards Shell
begin

section \<open>The commands that only look (cmd/solomon/main.go)\<close>

text \<open>
  The flags of package \<open>flag\<close> as the commands use them, and the commands that answer from what is
  there: \<open>check\<close>, \<open>inspect-decision\<close>, \<open>init\<close>, \<open>checksum\<close>, \<open>help\<close>, \<open>doctor\<close> and \<open>daemon request\<close>,
  with the loop that starts a daemon and waits for it. What the engine observes, the kind of file
  standard output is, the decimal text of a confidence in JSON, the texts of the shell scripts and
  SHA-256 are given. What is written to standard error is not kept.
\<close>

subsection \<open>Flags\<close>

datatype flag_value = FString string | FBool bool

type_synonym flag_set = "(string \<times> flag_value) list"

definition update_flag :: "string \<Rightarrow> flag_value \<Rightarrow> flag_set \<Rightarrow> flag_set" where
  "update_flag name v fs = map (\<lambda>(n, old). (n, if n = name then v else old)) fs"

definition flag_string :: "flag_set \<Rightarrow> string \<Rightarrow> string" where
  "flag_string fs name = (case map_of fs name of Some (FString s) \<Rightarrow> s | _ \<Rightarrow> [])"

definition flag_bool :: "flag_set \<Rightarrow> string \<Rightarrow> bool" where
  "flag_bool fs name = (case map_of fs name of Some (FBool b) \<Rightarrow> b | _ \<Rightarrow> False)"

text \<open>The name and the value of an argument: an equals sign after the first byte separates them.\<close>

definition flag_parts :: "string \<Rightarrow> string \<times> string option" where
  "flag_parts name =
     (if CHR ''='' \<in> set (tl name)
      then (hd name # takeWhile (\<lambda>c. c \<noteq> CHR ''='') (tl name), Some (tl (dropWhile (\<lambda>c. c \<noteq> CHR ''='') (tl name))))
      else (name, None))"

definition ErrHelp :: go_error where "ErrHelp = Err ''flag: help requested'' []"

text \<open>\<open>FlagSet.parseOne\<close> in a loop: the flags and the remaining arguments, or the error.\<close>

function parse_flags :: "flag_set \<Rightarrow> string list \<Rightarrow> (flag_set \<times> string list) result" where
  "parse_flags fs args =
     (case args of
        [] \<Rightarrow> Inr (fs, [])
      | s # rest \<Rightarrow>
         if length s < 2 \<or> s ! 0 \<noteq> CHR ''-'' then Inr (fs, args)
         else if s = ''--'' then Inr (fs, rest)
         else case drop (if s ! 1 = CHR ''-'' then 2 else 1) s of full \<Rightarrow>
           if full = [] \<or> full ! 0 = CHR ''-'' \<or> full ! 0 = CHR ''='' then Inl (Err ''bad flag syntax: %s'' [s])
           else case flag_parts full of (name, value) \<Rightarrow>
             (case map_of fs name of
                None \<Rightarrow> Inl (if name = ''help'' \<or> name = ''h'' then ErrHelp else Err ''flag provided but not defined: -%s'' [name])
              | Some (FBool _) \<Rightarrow>
                 (case value of
                    None \<Rightarrow> parse_flags (update_flag name (FBool True) fs) rest
                  | Some v \<Rightarrow>
                     (case parseBool v of
                        Inl _ \<Rightarrow> Inl (Err ''invalid boolean value %q for -%s: parse error'' [v, name])
                      | Inr b \<Rightarrow> parse_flags (update_flag name (FBool b) fs) rest))
              | Some (FString _) \<Rightarrow>
                 (case value of
                    Some v \<Rightarrow> parse_flags (update_flag name (FString v) fs) rest
                  | None \<Rightarrow>
                     (case rest of
                        [] \<Rightarrow> Inl (Err ''flag needs an argument: -%s'' [name])
                      | v # rest \<Rightarrow> parse_flags (update_flag name (FString v) fs) rest))))"
  by pat_completeness auto
termination by (relation "measure (\<lambda>(fs, args). length args)") auto

declare parse_flags.simps [simp del]

text \<open>A flag given as \<open>--name value\<close> is set to the value and parsing goes on.\<close>

lemma flag_separate:
  assumes "map_of fs name = Some (FString old)" "name \<noteq> []" "CHR ''='' \<notin> set name" "name ! 0 \<noteq> CHR ''-''"
  shows "parse_flags fs ((''--'' @ name) # v # rest) = parse_flags (update_flag name (FString v) fs) rest"
proof -
  have "CHR ''='' \<notin> set (tl name)" using assms(3) by (cases name) auto
  moreover have "name ! 0 \<noteq> CHR ''=''" using assms(2,3) by (cases name) auto
  ultimately show ?thesis using assms by (subst parse_flags.simps) (simp add: flag_parts_def)
qed

subsection \<open>Decisions as JSON (engine.go)\<close>

definition opt_list :: "string \<Rightarrow> json list \<Rightarrow> (string \<times> json) list" where
  "opt_list key vs = (if vs = [] then [] else [(key, JArray vs)])"

definition event_fields :: "(rat \<Rightarrow> string) \<Rightarrow> Event \<Rightarrow> (string \<times> json) list" where
  "event_fields float e =
     [(''version'', JNumber (itoa (e_Version e))), (''stage'', JString (e_Stage e)), (''action'', JString (e_Action e)),
      (''rewrite_eligible'', JBool (e_RewriteEligible e))]
     @ opt_string ''cause'' (e_Cause e) @ opt_string ''cause_key'' (e_CauseKey e) @ opt_string ''consequence'' (e_Consequence e)
     @ opt_string ''consequence_key'' (e_ConsequenceKey e) @ opt_string ''suggestion'' (e_Suggestion e) @ opt_string ''class'' (e_Class e)
     @ opt_list ''evidence'' (map encode_evidence (e_Evidence e))
     @ [(''confidence'', JNumber (float (e_Confidence e))), (''risk'', JString (e_Risk e))]
     @ opt_string ''risk_rationale'' (e_RiskRationale e) @ opt_string ''risk_rationale_key'' (e_RiskRationaleKey e)
     @ (if e_Incomplete e then [(''incomplete'', JBool True)] else []) @ opt_list ''trace'' (map JString (e_Trace e))"

definition decision_JSON :: "(rat \<Rightarrow> string) \<Rightarrow> Decision \<Rightarrow> string \<Rightarrow> string result" where
  "decision_JSON float d stage =
     (if stage \<noteq> ''pre'' \<and> stage \<noteq> ''post'' then Inl (Err ''invalid JSON stage %q'' [stage])
      else case validateProtocol d of
        Some e \<Rightarrow> Inl e
      | None \<Rightarrow>
         (let data = json_compact (JObject (event_fields float (decision_Event d stage))) in
          if MaxOutputBytes < int (length data) + 1 then Inl ErrOutputLimit else Inr data))"

definition encode_inspection :: "(rat \<Rightarrow> string) \<Rightarrow> Inspection \<Rightarrow> json" where
  "encode_inspection float i = JObject (event_fields float (i_Event i) @ opt_string ''diff'' (i_Diff i) @ opt_string ''emphasized_diff'' (i_EmphasizedDiff i))"

subsection \<open>check and inspect-decision\<close>

record console =
  co_engine :: engine_env
  co_output :: "bool result option"
  co_float :: "rat \<Rightarrow> string"
  co_stderr :: "go_error option"

definition engine_start :: engine_state where
  "engine_start = \<lparr>st_polls = 0, st_ticks = 0, st_cache = NewCache\<rparr>"

text \<open>The steps the two commands share: the configuration, the engine and its decision.\<close>

definition diagnose_line :: "tool \<Rightarrow> console \<Rightarrow> string \<Rightarrow> string \<Rightarrow> (Config \<Rightarrow> Decision \<Rightarrow> command) \<Rightarrow> command" where
  "diagnose_line tool con line stage report s =
     step_or Configuration (load_config tool s) (\<lambda>cfg s.
     step_or Operation (on_disk (bundledDiagnosticEngine tool cfg) s) (\<lambda>engine s.
     case CheckContext engine (co_engine con) line stage engine_start of ((decision, err), _) \<Rightarrow>
       (case err of Some e \<Rightarrow> (clierr_Wrap Input (Some e), s) | None \<Rightarrow> report cfg decision s)))"

definition check_flags :: flag_set where
  "check_flags = [(''command'', FString []), (''stage'', FString ''pre''), (''format'', FString ''json''), (''color'', FString colorAuto), (''screen-reader'', FBool False)]"

definition report_decision :: "tool \<Rightarrow> console \<Rightarrow> flag_set \<Rightarrow> Config \<Rightarrow> Decision \<Rightarrow> command" where
  "report_decision tool con fs cfg decision s =
     (if flag_string fs ''format'' = ''json'' then
        step_or Operation (decision_JSON (co_float con) decision (flag_string fs ''stage''), s) (\<lambda>data. print_text tool (data @ [CHR 0x0A]))
      else if flag_string fs ''format'' = ''plain'' then
        (case diagnosticColorEnabled (flag_string fs ''color'') (co_output con) (ph_Env (tl_paths tool)) of
           Inl e \<Rightarrow> (clierr_Wrap Usage (Some e), s)
         | Inr color \<Rightarrow>
            (let output = (if flag_bool fs ''screen-reader'' then renderScreenReaderDiagnostic decision (cf_Display cfg)
                           else renderPlainDiagnosticWithColor decision (cf_Display cfg) (flag_string fs ''command'') color) in
             if MaxOutputBytes < int (length output) then (clierr_Wrap Operation (Some ErrOutputLimit), s) else print_text tool output s))
      else if flag_string fs ''format'' = ''record'' then step_or Operation (Record decision, s) (print_text tool)
      else fail_with Usage ''--format must be json, plain, or record'' s)"

definition checkCommand :: "tool \<Rightarrow> console \<Rightarrow> string list \<Rightarrow> command" where
  "checkCommand tool con args s =
     (case parse_flags check_flags args of
        Inl e \<Rightarrow> (clierr_Wrap Usage (Some e), s)
      | Inr (fs, _) \<Rightarrow>
         if flag_string fs ''command'' = [] then fail_with Usage ''--command is required'' s
         else if flag_string fs ''stage'' \<noteq> ''pre'' \<and> flag_string fs ''stage'' \<noteq> ''post'' then fail_with Usage ''--stage must be pre or post'' s
         else if flag_string fs ''color'' \<noteq> colorAuto \<and> flag_string fs ''color'' \<noteq> colorAlways \<and> flag_string fs ''color'' \<noteq> colorNever
         then fail_with Usage ''--color must be auto, always, or never'' s
         else if flag_bool fs ''screen-reader'' \<and> flag_string fs ''format'' \<noteq> ''plain'' then fail_with Usage ''--screen-reader requires --format plain'' s
         else diagnose_line tool con (flag_string fs ''command'') (flag_string fs ''stage'') (report_decision tool con fs) s)"

definition inspectDecisionCommand :: "tool \<Rightarrow> console \<Rightarrow> string list \<Rightarrow> command" where
  "inspectDecisionCommand tool con args s =
     (case parse_flags [(''command'', FString []), (''stage'', FString ''pre'')] args of
        Inl e \<Rightarrow> (clierr_Wrap Usage (Some e), s)
      | Inr (fs, _) \<Rightarrow>
         let line = flag_string fs ''command''; stage = flag_string fs ''stage'' in
         if line = [] then fail_with Usage ''--command is required'' s
         else if stage \<noteq> ''pre'' \<and> stage \<noteq> ''post'' then fail_with Usage ''--stage must be pre or post'' s
         else diagnose_line tool con line stage (\<lambda>cfg decision s.
           step_or Operation (Inspect decision stage line, s) (\<lambda>inspection. print_text tool (encoder_text (encode_inspection (co_float con) inspection)))) s)"

subsection \<open>init, doctor, checksum and help\<close>

definition initCommand :: "tool \<Rightarrow> (string \<Rightarrow> string) \<Rightarrow> string list \<Rightarrow> command" where
  "initCommand tool texts args s =
     (case parse_flags [(''shell'', FString []), (''experimental-output-capture'', FBool False)] args of
        Inl e \<Rightarrow> (clierr_Wrap Usage (Some e), s)
      | Inr (fs, _) \<Rightarrow>
         if flag_string fs ''shell'' = [] then fail_with Usage ''--shell is required'' s
         else
          step_or Usage (Script texts (flag_string fs ''shell''), s) (\<lambda>script s.
          if flag_bool fs ''experimental-output-capture''
          then step_or Usage (ExperimentalCaptureBootstrap (flag_string fs ''shell''), s) (\<lambda>bootstrap. print_text tool (bootstrap @ [CHR 0x0A] @ script))
          else print_text tool script s))"

definition encode_doctor :: "DoctorResult \<Rightarrow> Report \<Rightarrow> json" where
  "encode_doctor r report = JObject ([(''shell'', JString (do_Shell r)), (''os'', JString (do_OS r)), (''supported'', JBool (do_Supported r))]
     @ opt_string ''tier'' (do_Tier r) @ opt_list ''features'' (map JString (do_Features r)) @ opt_list ''configuration'' (map JString (do_Configuration r))
     @ opt_list ''limitations'' (map JString (do_Limitations r)) @ opt_list ''remediation_hints'' (map JString (do_RemediationHints r))
     @ [(''runtime'', JObject ((''safe'', JBool (rp_Safe report)) # opt_list ''findings'' (map (\<lambda>code. JObject [(''code'', JString code)]) (rp_Findings report))))])"

definition doctorCommand :: "tool \<Rightarrow> Report \<Rightarrow> command" where
  "doctorCommand tool report =
     print_text tool (encoder_text (encode_doctor (Doctor (ph_Env (tl_paths tool) ''SHELL'') (strings_TrimSpace (sy_GOOS (tl_system tool)))) report))"

definition checksumCommand :: "tool \<Rightarrow> sha256 \<Rightarrow> string list \<Rightarrow> command" where
  "checksumCommand tool hash args s =
     (let usage = fail_with Usage ''checksum requires generate or verify'' in
      if args = [] then usage s
      else if args ! 0 = ''generate'' then
        (case parse_flags [(''file'', FString [])] (tl args) of
           Inr (fs, []) \<Rightarrow>
             if flag_string fs ''file'' = [] then fail_with Usage ''checksum generate requires --file'' s
             else step_or Input (on_disk (checksumFile hash (tl_system tool) (flag_string fs ''file'')) s) (\<lambda>(digest, name).
               print_text tool (digest @ ''  '' @ name @ [CHR 0x0A]))
         | _ \<Rightarrow> fail_with Usage ''checksum generate requires --file'' s)
      else if args ! 0 = ''verify'' then
        (case parse_flags [(''file'', FString []), (''manifest'', FString [])] (tl args) of
           Inr (fs, []) \<Rightarrow>
             if flag_string fs ''file'' = [] \<or> flag_string fs ''manifest'' = [] then fail_with Usage ''checksum verify requires --file and --manifest'' s
             else step_or Input (on_disk (verifyChecksumFile hash (tl_system tool) (flag_string fs ''file'') (flag_string fs ''manifest'')) s) (\<lambda>_. finish_ok)
         | _ \<Rightarrow> fail_with Usage ''checksum verify requires --file and --manifest'' s)
      else usage s)"

definition overview :: string where
  "overview = strings_Join [''usage: solomon <init|check|config|doctor|version|help>'',
        [],
        ''start here:'',
        ''  solomon init --shell zsh'',
        ''  solomon check --format plain --command '' @ [CHR 0x27] @ ''git sttaus'' @ [CHR 0x27] @ [],
        [],
        ''commands:'',
        ''  init       print shell integration'',
        ''  check      inspect one command'',
        ''  config     view or change configuration'',
        ''  doctor     report adapter support'',
        ''  version    print build information'',
        ''  help       show this help'',
        [],
        ''advanced: inspect-decision, rule, learn, pack, daemon, checksum''] [CHR 0x0A]"

definition usage_text :: "console \<Rightarrow> command" where
  "usage_text con s = (case co_stderr con of Some e \<Rightarrow> (clierr_Wrap Operation (Some e), s) | None \<Rightarrow> fail_with Usage ''invalid command'' s)"

definition help_texts :: "(string \<times> string) list" where
  "help_texts =
     [(''init'', strings_Join [''usage: solomon init --shell <bash|zsh|fish|powershell> [--experimental-output-capture]'',
        [],
        ''Print shell integration. Experimental output capture is opt-in and currently available for Bash and Zsh.''] [CHR 0x0A]),
      (''check'', strings_Join [''usage: solomon check --command <command> [--stage pre|post] [--format json|plain|record] [--color auto|always|never]''] [CHR 0x0A]),
      (''config'', strings_Join [''usage: solomon config [show|set <key> <value>]''] [CHR 0x0A]),
      (''doctor'', strings_Join [''usage: solomon doctor'',
        [],
        ''Report capabilities and limitations for the current shell.''] [CHR 0x0A])]"

definition helpCommand :: "tool \<Rightarrow> string list \<Rightarrow> command" where
  "helpCommand tool args =
     (let refusal = fail_with Usage ''usage: solomon help [init|check|config|doctor]'' in
      case args of
        [] \<Rightarrow> print_text tool (''solomon keeps shell repairs safe and quiet by default.'' @ [CHR 0x0A, CHR 0x0A] @ overview @ [CHR 0x0A])
      | [topic] \<Rightarrow> (case map_of help_texts topic of None \<Rightarrow> refusal | Some explanation \<Rightarrow> print_text tool (explanation @ [CHR 0x0A]))
      | _ \<Rightarrow> refusal)"

subsection \<open>Talking to the daemon\<close>

text \<open>
  The connections of successive attempts, what the context says after an attempt and while the
  client waits, and the result of starting the process.
\<close>

record network =
  nw_connection :: "nat \<Rightarrow> connection"
  nw_wire :: "nat \<Rightarrow> string \<Rightarrow> string"
  nw_expired :: "nat \<Rightarrow> go_error option"
  nw_waited :: "nat \<Rightarrow> go_error option"
  nw_start :: "go_error option"

definition attempt :: "network \<Rightarrow> Request \<Rightarrow> nat \<Rightarrow> client_error + Response" where
  "attempt net request n = client_Request (nw_connection net n) (nw_wire net n) request"

text \<open>The loop after the start: until an answer, another error, or the end of the context.\<close>

partial_function (option) await_daemon :: "network \<Rightarrow> Request \<Rightarrow> nat \<Rightarrow> (client_error + Response) option" where
  "await_daemon net request n =
     (case attempt net request n of
        Inr response \<Rightarrow> Some (Inr response)
      | Inl (Failed e) \<Rightarrow> Some (Inl (Failed e))
      | Inl (Unavailable e) \<Rightarrow>
         if nw_expired net n \<noteq> None then Some (Inl (Unavailable e))
         else (case nw_waited net n of Some c \<Rightarrow> Some (Inl (Unavailable c)) | None \<Rightarrow> await_daemon net request (n + 1)))"

text \<open>The answer and how many processes were started.\<close>

definition requestDaemon :: "network \<Rightarrow> Request \<Rightarrow> bool \<Rightarrow> ((client_error + Response) \<times> nat) option" where
  "requestDaemon net request ensure =
     (case attempt net request 0 of
        Inl (Unavailable e) \<Rightarrow>
          if \<not> ensure then Some (Inl (Unavailable e), 0)
          else (case attempt net request 1 of
             Inl (Unavailable e) \<Rightarrow>
               (case nw_start net of Some e \<Rightarrow> Some (Inl (Unavailable e), 0) | None \<Rightarrow> map_option (\<lambda>r. (r, 1)) (await_daemon net request 2))
           | r \<Rightarrow> Some (r, 0))
      | r \<Rightarrow> Some (r, 0))"

definition client_go_error :: "client_error \<Rightarrow> go_error" where
  "client_go_error e = (case e of Failed e \<Rightarrow> e | Unavailable e \<Rightarrow> Wrap ''local daemon is unavailable'' [] e)"

definition request_flags :: flag_set where
  "request_flags = [(''operation'', FString []), (''shell'', FString []), (''command'', FString []), (''failure-output'', FString []), (''session'', FString []),
     (''token'', FString []), (''format'', FString ''json''), (''ensure'', FBool True)]"

definition request_usage :: string where
  "request_usage = ''usage: solomon daemon request --operation <handshake|status|pre-send|post-failure|post-success|undo|confirm|stop> [--shell <shell>] [--command <command>] [--failure-output <output>] [--session <id>] [--token <token>] [--format <json|record|undo-record>] [--ensure=<true|false>]''"

definition flagged_request :: "flag_set \<Rightarrow> Request" where
  "flagged_request fs = \<lparr>rq_Version = daemon_ProtocolVersion, rq_Operation = flag_string fs ''operation'', rq_Shell = flag_string fs ''shell'',
     rq_Command = flag_string fs ''command'', rq_FailureOutput = flag_string fs ''failure-output'', rq_Session = flag_string fs ''session'',
     rq_Token = flag_string fs ''token''\<rparr>"

definition daemonRequestCommand :: "tool \<Rightarrow> network \<Rightarrow> string list \<Rightarrow> tool_state \<Rightarrow> (command_error option \<times> tool_state) option" where
  "daemonRequestCommand tool net args s =
     (case parse_flags request_flags args of
        Inr (fs, []) \<Rightarrow>
          let format = flag_string fs ''format'' in
          if flag_string fs ''operation'' = [] then Some (fail_with Usage request_usage s)
          else if format \<noteq> ''json'' \<and> format \<noteq> ''record'' \<and> format \<noteq> ''undo-record''
          then Some (fail_with Usage ''daemon request --format must be json, record, or undo-record'' s)
          else map_option (\<lambda>(r, _). case r of
              Inl e \<Rightarrow> (clierr_Wrap Operation (Some (client_go_error e)), s)
            | Inr response \<Rightarrow> print_text tool
                (if format = ''record'' then daemonRecord response else if format = ''undo-record'' then daemonUndoRecord response
                 else encoder_text (encode_response response)) s)
            (requestDaemon net (flagged_request fs) (flag_bool fs ''ensure''))
      | _ \<Rightarrow> Some (fail_with Usage request_usage s))"

subsection \<open>A request to the daemon returns\<close>

lemma await_daemon_returns:
  assumes "nw_expired net (n + k) \<noteq> None \<or> nw_waited net (n + k) \<noteq> None"
  shows "\<exists>r m. await_daemon net request n = Some r \<and> n \<le> m \<and> m \<le> n + k \<and> (\<forall>response. r = Inr response \<longrightarrow> attempt net request m = Inr response) \<and>
    (\<forall>e. r = Inl (Failed e) \<longrightarrow> attempt net request m = Inl (Failed e))"
  using assms
proof (induction k arbitrary: n)
  case 0
  then show ?case by (subst await_daemon.simps) (auto split: sum.splits client_error.splits option.splits)
next
  case (Suc k)
  show ?case
  proof (cases "\<exists>e. attempt net request n = Inl (Unavailable e) \<and> nw_expired net n = None \<and> nw_waited net n = None")
    case True
    then have "await_daemon net request n = await_daemon net request (n + 1)" by (subst await_daemon.simps) auto
    with Suc.IH [of "n + 1"] Suc.prems show ?thesis by (auto intro: Suc_leD)
  next
    case False
    then have "\<exists>r. await_daemon net request n = Some r \<and> (\<forall>response. r = Inr response \<longrightarrow> attempt net request n = Inr response) \<and>
        (\<forall>e. r = Inl (Failed e) \<longrightarrow> attempt net request n = Inl (Failed e))"
      by (subst await_daemon.simps) (auto split: sum.splits client_error.splits option.splits)
    then show ?thesis by (meson le_add1 order_refl)
  qed
qed

text \<open>
  Property C17: asking the daemon ends, and starts it at most once. If the context ends at some
  point, then \<open>requestDaemon\<close> returns. It starts a process only if that was allowed and two
  attempts in a row found no daemon, and never two of them; an answer that it returns is the
  answer of one of its attempts, and an error other than unavailability is the error of one.
\<close>

theorem request_daemon_returns:
  assumes "nw_expired net n \<noteq> None \<or> nw_waited net n \<noteq> None" and "2 \<le> n"
  shows "\<exists>r starts. requestDaemon net request ensure = Some (r, starts) \<and> starts \<le> 1 \<and>
    (starts = 1 \<longrightarrow> ensure \<and> nw_start net = None \<and>
       (\<forall>m<2. \<exists>e. attempt net request m = Inl (Unavailable e))) \<and>
    (\<forall>response. r = Inr response \<longrightarrow> (\<exists>m\<le>n. attempt net request m = Inr response)) \<and>
    (\<forall>e. r = Inl (Failed e) \<longrightarrow> (\<exists>m\<le>n. attempt net request m = Inl (Failed e)))"
proof (cases "\<exists>e f. attempt net request 0 = Inl (Unavailable e) \<and> attempt net request 1 = Inl (Unavailable f) \<and> ensure \<and> nw_start net = None")
  case True
  obtain r m where r: "await_daemon net request 2 = Some r" "m \<le> n" "\<forall>response. r = Inr response \<longrightarrow> attempt net request m = Inr response"
      "\<forall>e. r = Inl (Failed e) \<longrightarrow> attempt net request m = Inl (Failed e)"
    using await_daemon_returns [of net 2 "n - 2" request] assms unfolding le_add_diff_inverse [OF assms(2)] by blast
  with True have "requestDaemon net request ensure = Some (r, 1)" by (auto simp: requestDaemon_def)
  moreover have "\<forall>m<2. \<exists>e. attempt net request m = Inl (Unavailable e)" using True by (auto simp: less_2_cases_iff)
  ultimately show ?thesis using True r by auto
next
  case False
  then have "\<exists>r. requestDaemon net request ensure = Some (r, 0) \<and> (r = attempt net request 0 \<or> r = attempt net request 1 \<or> (\<exists>e. r = Inl (Unavailable e)))"
    unfolding requestDaemon_def by (cases "attempt net request 0"; cases "attempt net request 1") (auto split: client_error.splits option.splits)
  then obtain r where r: "requestDaemon net request ensure = Some (r, 0)"
      "r = attempt net request 0 \<or> r = attempt net request 1 \<or> (\<exists>e. r = Inl (Unavailable e))" by blast
  have "0 \<le> n" "1 \<le> n" using assms(2) by simp_all
  with r have "(\<forall>response. r = Inr response \<longrightarrow> (\<exists>m\<le>n. attempt net request m = Inr response)) \<and>
      (\<forall>e. r = Inl (Failed e) \<longrightarrow> (\<exists>m\<le>n. attempt net request m = Inl (Failed e)))" by (metis Inl_inject client_error.distinct(1) sum.distinct(1))
  with r(1) show ?thesis by auto
qed

definition demo_network :: network where
  "demo_network = \<lparr>nw_connection = (\<lambda>n. \<lparr>cn_dial = Some (Err ''refused'' []), cn_deadline = None, cn_write = None\<rparr>), nw_wire = (\<lambda>n bytes. []),
     nw_expired = (\<lambda>n. if n < 3 then None else Some (Err ''deadline'' [])), nw_waited = (\<lambda>n. None), nw_start = None\<rparr>"

theorem request_daemon_returns_witness:
  "\<exists>r starts. requestDaemon demo_network (demo_request StatusOperation) True = Some (r, starts) \<and> starts \<le> 1"
proof -
  have "nw_expired demo_network 3 \<noteq> None" by (simp add: demo_network_def)
  with request_daemon_returns [of demo_network 3 "demo_request StatusOperation" True] show ?thesis by auto
qed

subsection \<open>Looking changes nothing\<close>

text \<open>Functions on the disk that leave the files alone.\<close>

definition only_reads :: "(disk \<Rightarrow> 'a result \<times> disk) \<Rightarrow> bool" where
  "only_reads f \<longleftrightarrow> (\<forall>d r d'. f d = (r, d') \<longrightarrow> dk_files d' = dk_files d)"

named_theorems reading \<open>functions that only read\<close>

lemma only_reads_value [reading]: "only_reads (\<lambda>d. (r, d))"
  by (simp add: only_reads_def)

lemma only_reads_bind [reading]: "only_reads f \<Longrightarrow> (\<And>x. only_reads (g x)) \<Longrightarrow> only_reads (\<lambda>d. io_bind (f d) g)"
  unfolding only_reads_def io_bind_cases by metis

lemma only_reads_error [reading]: "only_reads f \<Longrightarrow> only_reads (\<lambda>d. io_error wrap (f d))"
  unfolding only_reads_def io_error_def by (metis prod.collapse prod.inject)

lemma only_reads_if [reading]: "only_reads f \<Longrightarrow> only_reads g \<Longrightarrow> only_reads (\<lambda>d. if b then f d else g d)"
  by (simp add: only_reads_def)

lemma only_reads_calls [reading]:
  "only_reads (os_ReadFile env path)" "only_reads (os_Lstat env path)" "only_reads (LoadKeyring env path)" "only_reads (LoadGlobal env path)"
  by (auto simp: only_reads_def LoadGlobal_def load_file_def split: prod.splits sum.splits if_splits
      dest: os_ReadFile_files os_Lstat_files LoadKeyring_files)

lemma only_reads_entries [reading]: "only_reads (load_entries compile env directory entries)"
proof (induction entries)
  case (Cons entry entries)
  have "only_reads (load_entry compile env directory entry)"
    unfolding load_entry_def Let_def pack_Load_def by (intro reading)
  with Cons show ?case unfolding load_entries.simps by (intro reading)
qed (simp add: only_reads_value)

lemma only_reads_verified [reading]: "only_reads (verify_installed verify env directory keyring packs)"
proof (induction packs)
  case (Cons pack packs)
  have "only_reads (verify_pack verify env directory keyring pack)"
    unfolding verify_pack_def Let_def by (intro reading)
  with Cons show ?case unfolding verify_installed.simps by (intro reading)
qed (simp add: only_reads_value)

lemma only_reads_installed [reading]: "only_reads (LoadInstalledVerified compile verify env view directory keyring)"
  unfolding LoadInstalledVerified_def LoadInstalled_def Let_def by (intro reading)

lemma only_reads_engine [reading]: "only_reads (bundledDiagnosticEngine tool cfg)"
  unfolding bundledDiagnosticEngine_def runtimePackResolver_def by (intro reading)

lemma only_reads_config [reading]: "only_reads (config_Load env view paths)"
  unfolding only_reads_def config_Load_def mergeApprovedProject_def
  by (auto split: sum.splits prod.splits option.splits if_splits dest!: only_reads_calls(1,4) [unfolded only_reads_def, rule_format])

lemma only_reads_checksum [reading]: "only_reads (checksumFile hash env path)" "only_reads (verifyChecksumFile hash env path manifestPath)"
  unfolding verifyChecksumFile_def checksumFile_def case_prod_beta by (intro reading)+

definition looked :: "tool_state \<Rightarrow> string \<Rightarrow> tool_state \<Rightarrow> bool" where
  "looked s out s' \<longleftrightarrow> dk_files (ts_disk s') = dk_files (ts_disk s) \<and> ts_db s' = ts_db s \<and> ts_stops s' = ts_stops s \<and> ts_out s' = ts_out s @ out"

lemma looked_refl: "looked s [] s"
  by (simp add: looked_def)

text \<open>A command that only looks, with what it prints and returns described by \<open>P\<close>.\<close>

definition looks :: "(command_error option \<Rightarrow> string \<Rightarrow> bool) \<Rightarrow> command \<Rightarrow> bool" where
  "looks P c \<longleftrightarrow> (\<forall>s err s'. c s = (err, s') \<longrightarrow> (\<exists>out. looked s out s' \<and> P err out))"

lemma looks_error: "(\<And>e. P (Some e) []) \<Longrightarrow> looks P (\<lambda>s. (clierr_Wrap kind (Some e), s))"
  by (auto simp: looks_def clierr_Wrap_def intro: looked_refl)

lemma looks_fail: "(\<And>e. P (Some e) []) \<Longrightarrow> looks P (fail_with kind explanation)"
  by (auto simp: looks_def fail_with_def clierr_New_def intro: looked_refl)

lemma looks_finish: "P None [] \<Longrightarrow> looks P finish_ok"
  by (auto simp: looks_def finish_ok_def intro: looked_refl)

lemma looks_print: "(\<And>e. P (Some e) []) \<Longrightarrow> P None t \<Longrightarrow> looks P (print_text tool t)"
  unfolding looks_def print_text_def looked_def clierr_Wrap_def by (fastforce split: option.splits)

lemma looks_value:
  assumes "\<And>e. P (Some e) []" and "\<And>x. r = Inr x \<Longrightarrow> looks P (g x)"
  shows "looks P (\<lambda>s. step_or kind (r, s) g)"
  using assms looks_error [of P kind] by (cases r) (simp_all add: step_or_def)

lemma looks_disk:
  assumes e: "\<And>e. P (Some e) []" and f: "only_reads f" and g: "\<And>x. looks P (g x)"
  shows "looks P (\<lambda>s. step_or kind (on_disk f s) g)"
  unfolding looks_def
proof (intro allI impI)
  fix s err s'
  assume c: "step_or kind (on_disk f s) g = (err, s')"
  obtain r d where d: "f (ts_disk s) = (r, d)" by fastforce
  let ?s = "s\<lparr>ts_disk := d\<rparr>"
  have same: "dk_files d = dk_files (ts_disk s)" using f d by (simp add: only_reads_def)
  have "looks P (\<lambda>s. step_or kind (r, s) g)" by (rule looks_value [OF e g])
  moreover have "step_or kind (r, ?s) g = (err, s')" using c d by (simp add: on_disk_def)
  ultimately obtain out where "looked ?s out s'" "P err out" unfolding looks_def by blast
  then show "\<exists>out. looked s out s' \<and> P err out" using same by (auto simp: looked_def)
qed

lemma looks_if: "(b \<Longrightarrow> looks P c) \<Longrightarrow> (\<not> b \<Longrightarrow> looks P c') \<Longrightarrow> looks P (\<lambda>s. if b then c s else c' s)"
  by (cases b) simp_all

lemma looks_sum: "(\<And>e. r = Inl e \<Longrightarrow> looks P (c e)) \<Longrightarrow> (\<And>x. r = Inr x \<Longrightarrow> looks P (c' x)) \<Longrightarrow> looks P (\<lambda>s. case r of Inl e \<Rightarrow> c e s | Inr x \<Rightarrow> c' x s)"
  by (cases r) simp_all

lemma looks_option: "(r = None \<Longrightarrow> looks P c) \<Longrightarrow> (\<And>x. r = Some x \<Longrightarrow> looks P (c' x)) \<Longrightarrow> looks P (\<lambda>s. case r of None \<Rightarrow> c s | Some x \<Rightarrow> c' x s)"
  by (cases r) simp_all

lemma looks_prod: "(\<And>x y. r = (x, y) \<Longrightarrow> looks P (c x y)) \<Longrightarrow> looks P (\<lambda>s. case r of (x, y) \<Rightarrow> c x y s)"
  by (cases r) simp

lemma looks_pair: "(\<And>x y. r = (x, y) \<Longrightarrow> looks P (c x y)) \<Longrightarrow> looks P (case r of (x, y) \<Rightarrow> c x y)"
  by (cases r) simp

lemma looks_list: "looks P c \<Longrightarrow> (\<And>x xs. looks P (c' x xs)) \<Longrightarrow> looks P (\<lambda>s. case r of [] \<Rightarrow> c s | x # xs \<Rightarrow> c' x xs s)"
  by (cases r) simp_all

lemmas looks_rules = looks_fail looks_list looks_pair looks_error looks_finish looks_print looks_value looks_disk looks_if looks_sum looks_option looks_prod

subsection \<open>What check prints\<close>

lemma checked_protocol:
  assumes "CheckContext opt env line stage s = ((d, err), s')"
  shows "validateProtocol d = None"
proof -
  have r: "fst (CheckShellContext opt env [] line stage s) = (d, err)" using assms by (simp add: CheckContext_def)
  have none: "noDecision = noDecision\<lparr>d_Incomplete := False\<rparr>" by (simp add: noDecision_def zeroDecision_def)
  consider b where "d = noDecision\<lparr>d_Incomplete := b\<rparr>"
    | words d0 where "resolved opt env [] words (st_cache s) d0" "finished opt d0 [] line stage d"
    using CheckShellContext_cases [OF r] none by metis
  then show ?thesis using noDecision_protocol finished_protocol by cases auto
qed

lemma diagnose_line_looks:
  assumes "\<And>e. P (Some e) []" and "\<And>cfg decision. validateProtocol decision = None \<Longrightarrow> looks P (report cfg decision)"
  shows "looks P (diagnose_line tool con line stage report)"
  unfolding diagnose_line_def load_config_def
  by (intro looks_disk assms reading looks_prod looks_option looks_error) (auto intro: checked_protocol)

text \<open>The output of \<open>check\<close>: at most 8192 bytes, none with an error, and harmless lines in the plain format.\<close>

definition harmless_lines :: "bool \<Rightarrow> string \<Rightarrow> bool" where
  "harmless_lines colour out \<longleftrightarrow> (\<exists>lines. out = concat (map (\<lambda>line. line @ [CHR 0x0A]) lines) \<and> (\<forall>line\<in>set lines. diagnostic_line colour line))"

definition check_output :: "tool \<Rightarrow> console \<Rightarrow> flag_set \<Rightarrow> command_error option \<Rightarrow> string \<Rightarrow> bool" where
  "check_output tool con fs err out \<longleftrightarrow> int (length out) \<le> MaxOutputBytes \<and> (err \<noteq> None \<longrightarrow> out = []) \<and>
     (flag_string fs ''format'' = ''plain'' \<longrightarrow>
        harmless_lines (diagnosticColorEnabled (flag_string fs ''color'') (co_output con) (ph_Env (tl_paths tool)) = Inr True) out)"

lemma silent_output: "check_output tool con fs err []"
  by (auto simp: check_output_def harmless_lines_def MaxOutputBytes_def intro: exI [of _ "[]"])

lemma rendered_harmless:
  assumes "validateProtocol d = None"
  shows "harmless_lines colour (renderPlainDiagnosticWithColor d display line colour)" "harmless_lines colour (renderScreenReaderDiagnostic d display)"
  using diagnostic_lines_harmless [OF assms, of display line colour] plain_line unfolding harmless_lines_def by blast+

lemma report_decision_looks:
  assumes "validateProtocol decision = None"
  shows "looks (check_output tool con fs) (report_decision tool con fs cfg decision)"
proof -
  let ?P = "check_output tool con fs"
  note e = silent_output [of tool con fs "Some _"]
  have json: "?P None (data @ [CHR 0x0A])" if "decision_JSON float decision stage = Inr data" "flag_string fs ''format'' \<noteq> ''plain''" for float stage data
    using that by (auto simp: decision_JSON_def check_output_def Let_def split: if_splits option.splits)
  have rec: "?P None t" if "Record decision = Inr t" "flag_string fs ''format'' \<noteq> ''plain''" for t
    using that by (auto simp: Record_def check_output_def Let_def split: if_splits option.splits)
  have plain: "?P None t" if "diagnosticColorEnabled (flag_string fs ''color'') (co_output con) (ph_Env (tl_paths tool)) = Inr colour"
      "t = (if flag_bool fs ''screen-reader'' then renderScreenReaderDiagnostic decision (cf_Display cfg)
            else renderPlainDiagnosticWithColor decision (cf_Display cfg) (flag_string fs ''command'') colour)" "\<not> MaxOutputBytes < int (length t)" for t colour
    using that rendered_harmless [OF assms] by (auto simp: check_output_def)
  show ?thesis unfolding report_decision_def Let_def
    by (intro looks_rules silent_output json rec plain) auto
qed

text \<open>
  Property C11: \<open>check\<close> only looks, and what it prints is bounded and harmless. Whatever the
  arguments, it leaves the files and the learning store as they are and does not disturb a running daemon;
  with an error it prints nothing, otherwise at most 8192 bytes. In the plain format that is a
  sequence of lines of valid UTF-8 without control characters or bidirectional overrides, with
  escape sequences only around the fixed labels and only if colour is enabled.
\<close>

theorem check_only_looks:
  assumes "checkCommand tool con args s = (err, s')"
  shows "\<exists>out. looked s out s' \<and> int (length out) \<le> MaxOutputBytes \<and> (err \<noteq> None \<longrightarrow> out = []) \<and>
    (\<forall>fs rest. parse_flags check_flags args = Inr (fs, rest) \<longrightarrow> flag_string fs ''format'' = ''plain'' \<longrightarrow>
       harmless_lines (diagnosticColorEnabled (flag_string fs ''color'') (co_output con) (ph_Env (tl_paths tool)) = Inr True) out)"
proof -
  show ?thesis
  proof (cases "parse_flags check_flags args")
    case (Inl e)
    with assms have "err \<noteq> None" "s' = s" by (auto simp: checkCommand_def clierr_Wrap_def)
    then show ?thesis using Inl looked_refl by (intro exI [of _ "[]"]) (simp add: MaxOutputBytes_def)
  next
    case (Inr p)
    obtain fs rest where p: "p = (fs, rest)" by fastforce
    have "looks (check_output tool con fs) (checkCommand tool con args)"
      unfolding checkCommand_def Inr p sum.case prod.case
      by (intro looks_rules diagnose_line_looks report_decision_looks silent_output)
    with assms obtain out where "looked s out s'" "check_output tool con fs err out" unfolding looks_def by blast
    then show ?thesis using Inr p by (intro exI [of _ out]) (simp add: check_output_def)
  qed
qed

definition demo_console :: console where
  "demo_console = \<lparr>co_engine = demo_env, co_output = None, co_float = (\<lambda>_. ''0''), co_stderr = None\<rparr>"

theorem check_only_looks_witness:
  "\<exists>s' out. checkCommand demo_tool demo_console [''--format'', ''plain'', ''--command'', ''gti''] demo_machine = (None, s') \<and>
     out \<noteq> [] \<and> looked demo_machine out s' \<and> harmless_lines False out"
proof -
  let ?args = "[''--format'', ''plain'', ''--command'', ''gti'']"
  let ?c = "checkCommand demo_tool demo_console ?args demo_machine"
  have "fst ?c = None \<and> ts_out (snd ?c) \<noteq> []" by code_simp
  then obtain s' where c: "?c = (None, s')" "ts_out s' \<noteq> []" by (metis prod.collapse)
  have f: "parse_flags check_flags ?args = Inr (update_flag ''command'' (FString ''gti'') (update_flag ''format'' (FString ''plain'') check_flags), [])"
    "flag_string (update_flag ''command'' (FString ''gti'') (update_flag ''format'' (FString ''plain'') check_flags)) ''format'' = ''plain''"
    "diagnosticColorEnabled (flag_string (update_flag ''command'' (FString ''gti'') (update_flag ''format'' (FString ''plain'') check_flags)) ''color'') (co_output demo_console)
       (ph_Env (tl_paths demo_tool)) \<noteq> Inr True" by code_simp+
  from check_only_looks [OF c(1)] f obtain out where "looked demo_machine out s'" "harmless_lines False out" by auto
  moreover have "out \<noteq> []" using calculation(1) c(2) by (auto simp: looked_def demo_machine_def)
  ultimately show ?thesis using c(1) by blast
qed

text \<open>The same for the other commands of this theory.\<close>

lemma others_only_look:
  "looks (\<lambda>err out. err \<noteq> None \<longrightarrow> out = []) (inspectDecisionCommand tool con args)"
  "looks (\<lambda>err out. err \<noteq> None \<longrightarrow> out = []) (initCommand tool texts args)"
  "looks (\<lambda>err out. err \<noteq> None \<longrightarrow> out = []) (doctorCommand tool report)"
  "looks (\<lambda>err out. err \<noteq> None \<longrightarrow> out = []) (checksumCommand tool hash args)"
  unfolding inspectDecisionCommand_def initCommand_def doctorCommand_def checksumCommand_def Let_def
     apply (intro looks_rules diagnose_line_looks; simp)
    apply (intro looks_rules; simp)
   apply (intro looks_rules; simp)
  apply (intro looks_rules reading; simp)
  done

end
