(* ===== verification/Lifecycle.thy ===== *)
theory Lifecycle
  imports Inspecting
begin

section \<open>Starting and stopping the daemon (internal/daemon: listener.go, server.go, endpoint and directory; cmd/solomon/main.go)\<close>

text \<open>
  The directory and the address of the daemon's socket, the server that binds it, and the command
  that drives them. What the system says about a directory is given. The socket is a small world:
  what is at the address, and which processes have a listener open. Every call on it may fail.
  A process that dies leaves its socket behind; \<open>Listen\<close> removes such a stale socket. As in Go, closing a
  listener removes its file. \<open>Serve\<close> takes the connections one after the other, as the steps of the handler are
  atomic. The properties: at most one daemon listens at an address and a client reaches it; a stale
  socket does not keep a daemon from starting.
\<close>

subsection \<open>Directory and address (directory_unix.go, endpoint_unix.go)\<close>

record directory_calls =
  dc_mkdir :: "go_error option"
  dc_lstat :: "file_info result"
  dc_chmod :: "go_error option"
  dc_after :: "file_info result"
  dc_euid :: int

definition PrepareDirectory :: "(string \<Rightarrow> directory_calls) \<Rightarrow> string \<Rightarrow> go_error option" where
  "PrepareDirectory calls path =
     (if path = [] \<or> \<not> filepath_IsAbs path then Some (Err ''daemon directory must be absolute'' [])
      else let c = calls path in
        case dc_mkdir c of Some e \<Rightarrow> Some e | None \<Rightarrow>
        (case dc_lstat c of Inl e \<Rightarrow> Some e | Inr info \<Rightarrow>
         if \<not> fi_dir info then Some (Err ''daemon directory is not a real directory'' [])
         else if dc_euid c < 0 \<or> fi_uid info \<noteq> dc_euid c then Some (Err ''daemon directory must be owned by the current user'' [])
         else if fi_perm info = 448 then None
         else case dc_chmod c of Some e \<Rightarrow> Some e | None \<Rightarrow>
           (case dc_after c of Inl e \<Rightarrow> Some e | Inr later \<Rightarrow>
            if \<not> fi_dir later \<or> fi_perm later \<noteq> 448 then Some (Err ''daemon directory permissions must be 0700'' []) else None)))"

record Endpoint =
  en_Network :: string
  en_Address :: string

definition LocalEndpoint :: "(string \<Rightarrow> directory_calls) \<Rightarrow> sha256 \<Rightarrow> string \<Rightarrow> string \<Rightarrow> Endpoint result" where
  "LocalEndpoint calls hash tempDir runtimeDirectory =
     (case PrepareDirectory calls runtimeDirectory of Some e \<Rightarrow> Inl e | None \<Rightarrow>
      let path = filepath_Join [runtimeDirectory, ''daemon.sock''] in
      if length path < 100 then Inr \<lparr>en_Network = ''unix'', en_Address = path\<rparr>
      else let directory = filepath_Join [tempDir, ''solomon-'' @ hex_EncodeToString (take 8 (hash runtimeDirectory))] in
        case PrepareDirectory calls directory of Some e \<Rightarrow> Inl e | None \<Rightarrow>
        let path = filepath_Join [directory, ''daemon.sock''] in
        if 100 \<le> length path then Inl (Err ''daemon socket fallback path is too long'' [])
        else Inr \<lparr>en_Network = ''unix'', en_Address = path\<rparr>)"

text \<open>An address fits into a socket address, and its directory belongs to the user and to nobody else.\<close>

lemma prepared_private:
  "PrepareDirectory calls path = None \<Longrightarrow>
     \<exists>info. dc_lstat (calls path) = Inr info \<and> fi_dir info \<and> fi_uid info = dc_euid (calls path) \<and>
       (fi_perm info = 448 \<or> (\<exists>later. dc_after (calls path) = Inr later \<and> fi_dir later \<and> fi_perm later = 448))"
  by (auto simp: PrepareDirectory_def Let_def split: if_splits option.splits sum.splits)

lemma endpoint_address:
  "LocalEndpoint calls hash tempDir runtimeDirectory = Inr endpoint \<Longrightarrow>
     length (en_Address endpoint) < 100 \<and> en_Network endpoint = ''unix'' \<and>
     (\<exists>directory. en_Address endpoint = filepath_Join [directory, ''daemon.sock''] \<and> PrepareDirectory calls directory = None)"
  by (auto simp: LocalEndpoint_def Let_def split: if_splits option.splits)

subsection \<open>The socket (listener.go, server.go)\<close>

datatype socket_node = Absent | Bound nat | NotSocket

record socket_world =
  sw_node :: socket_node
  sw_open :: "nat set"

record faults =
  ft_lstat :: "go_error option"
  ft_dial :: "go_error option"
  ft_remove :: "go_error option"
  ft_bind :: "go_error option"
  ft_chmod :: "go_error option"
  ft_close :: "go_error option"

definition ErrAlreadyRunning :: go_error where "ErrAlreadyRunning = Err ''local daemon is already running'' []"
definition EADDRINUSE :: go_error where "EADDRINUSE = Err ''address already in use'' []"

text \<open>What precedes the removal: \<open>Inr True\<close> if the socket at the address is stale.\<close>

definition stale_check :: "faults \<Rightarrow> socket_world \<Rightarrow> bool result" where
  "stale_check ft w =
     (case ft_lstat ft of
        Some e \<Rightarrow> if e = ErrNotExist then Inr False else Inl e
      | None \<Rightarrow>
         (case sw_node w of
            Absent \<Rightarrow> Inr False
          | NotSocket \<Rightarrow> Inl (Err ''daemon endpoint is not a socket'' [])
          | Bound p \<Rightarrow>
             (case ft_dial ft of Some e \<Rightarrow> Inl e | None \<Rightarrow> if p \<in> sw_open w then Inl ErrAlreadyRunning else Inr True)))"

definition remove_socket :: "faults \<Rightarrow> socket_world \<Rightarrow> go_error option \<times> socket_world" where
  "remove_socket ft w = (case ft_remove ft of Some e \<Rightarrow> (Some e, w) | None \<Rightarrow> (None, w\<lparr>sw_node := Absent\<rparr>))"

definition removeStaleSocket :: "faults \<Rightarrow> socket_world \<Rightarrow> go_error option \<times> socket_world" where
  "removeStaleSocket ft w =
     (case stale_check ft w of Inl e \<Rightarrow> (Some e, w) | Inr stale \<Rightarrow> if stale then remove_socket ft w else (None, w))"

definition bind_socket :: "faults \<Rightarrow> nat \<Rightarrow> socket_world \<Rightarrow> go_error option \<times> socket_world" where
  "bind_socket ft p w =
     (case ft_bind ft of
        Some e \<Rightarrow> (Some e, w)
      | None \<Rightarrow>
         if sw_node w \<noteq> Absent then (Some (Wrap ''local daemon is already running'' [] EADDRINUSE), w)
         else (case ft_chmod ft of
             Some e \<Rightarrow> (Some e, w)
           | None \<Rightarrow> (None, w\<lparr>sw_node := Bound p, sw_open := insert p (sw_open w)\<rparr>)))"

definition server_Listen :: "faults \<Rightarrow> nat \<Rightarrow> socket_world \<Rightarrow> go_error option \<times> socket_world" where
  "server_Listen ft p w =
     (if p \<in> sw_open w then (Some ErrAlreadyRunning, w)
      else case removeStaleSocket ft w of (Some e, w) \<Rightarrow> (Some e, w) | (None, w) \<Rightarrow> bind_socket ft p w)"

definition server_Close :: "faults \<Rightarrow> nat \<Rightarrow> socket_world \<Rightarrow> go_error option \<times> socket_world" where
  "server_Close ft p w =
     (if p \<notin> sw_open w then (None, w)
      else case removeStaleSocket ft (w\<lparr>sw_node := Absent, sw_open := sw_open w - {p}\<rparr>) of (removed, w) \<Rightarrow>
        (case removed of Some e \<Rightarrow> if e = ErrNotExist then ft_close ft else Some e | None \<Rightarrow> ft_close ft, w))"

text \<open>A process that dies without closing leaves the socket behind.\<close>

definition process_dies :: "nat \<Rightarrow> socket_world \<Rightarrow> socket_world" where
  "process_dies p w = w\<lparr>sw_open := sw_open w - {p}\<rparr>"

inductive daemons :: "socket_world \<Rightarrow> bool" where
  daemons_start: "sw_open w = {} \<Longrightarrow> daemons w"
| daemons_listen: "daemons w \<Longrightarrow> daemons (snd (server_Listen ft p w))"
| daemons_close: "daemons w \<Longrightarrow> daemons (snd (server_Close ft p w))"
| daemons_dies: "daemons w \<Longrightarrow> daemons (process_dies p w)"

definition reachable_daemon :: "socket_world \<Rightarrow> bool" where
  "reachable_daemon w \<longleftrightarrow> (\<forall>p\<in>sw_open w. sw_node w = Bound p)"

lemma Listen_refused:
  assumes "sw_node w = Bound p" "p \<in> sw_open w"
  shows "\<exists>e. server_Listen ft q w = (Some e, w)"
  using assms by (auto simp: server_Listen_def removeStaleSocket_def stale_check_def bind_socket_def split: option.splits sum.splits)

lemma Listen_reachable: "reachable_daemon w \<Longrightarrow> reachable_daemon (snd (server_Listen ft p w))"
proof (cases "sw_open w = {}")
  case True
  then show ?thesis
    by (auto simp: reachable_daemon_def server_Listen_def removeStaleSocket_def remove_socket_def bind_socket_def split: option.splits sum.splits)
next
  case False
  assume r: "reachable_daemon w"
  from False obtain q where "q \<in> sw_open w" by blast
  with r have "sw_node w = Bound q" by (simp add: reachable_daemon_def)
  from Listen_refused [OF this \<open>q \<in> sw_open w\<close>, of ft p] r show ?thesis by auto
qed

lemma open_single: "reachable_daemon w \<Longrightarrow> p \<in> sw_open w \<Longrightarrow> sw_open w = {p}"
  unfolding reachable_daemon_def by (metis is_singletonI' is_singleton_the_elem singletonD socket_node.inject empty_iff)

lemma removal_open: "sw_open (snd (removeStaleSocket ft w)) = sw_open w"
  by (simp add: removeStaleSocket_def remove_socket_def split: sum.splits option.splits)

lemma Close_reachable: "reachable_daemon w \<Longrightarrow> reachable_daemon (snd (server_Close ft p w))"
proof (cases "p \<in> sw_open w")
  case True
  assume "reachable_daemon w"
  with open_single [OF this True] removal_open [of ft "w\<lparr>sw_node := Absent, sw_open := sw_open w - {p}\<rparr>"] True
  have "sw_open (snd (server_Close ft p w)) = {}" by (auto simp: server_Close_def split: prod.splits)
  then show ?thesis by (simp add: reachable_daemon_def)
next
  case False
  then show "reachable_daemon w \<Longrightarrow> ?thesis" by (simp add: server_Close_def)
qed

lemma daemons_reachable: "daemons w \<Longrightarrow> reachable_daemon w"
proof (induction rule: daemons.induct)
  case (daemons_start w)
  then show ?case by (simp add: reachable_daemon_def)
next
  case (daemons_dies w p)
  then show ?case by (simp add: process_dies_def reachable_daemon_def)
qed (simp_all add: Listen_reachable Close_reachable)


definition no_faults :: faults where
  "no_faults = \<lparr>ft_lstat = None, ft_dial = None, ft_remove = None, ft_bind = None, ft_chmod = None, ft_close = None\<rparr>"


text \<open>
  The steps of \<open>Listen\<close> are atomic above. If another process gets in between the check and the
  removal, then its socket, which is not stale, is removed, and two daemons listen, one of which no client reaches.
\<close>

lemma stale_removal_race:
  assumes "p \<noteq> q"
  shows "stale_check no_faults \<lparr>sw_node = Bound 0, sw_open = {}\<rparr> = Inr True \<and>
    (\<exists>w1 w2 w3. server_Listen no_faults q \<lparr>sw_node = Bound 0, sw_open = {}\<rparr> = (None, w1) \<and>
       remove_socket no_faults w1 = (None, w2) \<and> bind_socket no_faults p w2 = (None, w3) \<and> sw_open w3 = {p, q} \<and> sw_node w3 = Bound p)"
  by (simp add: server_Listen_def removeStaleSocket_def stale_check_def remove_socket_def bind_socket_def no_faults_def)

subsection \<open>Serving connections\<close>

datatype accepted = Connection string | AcceptFailed go_error | ListenerClosed

text \<open>The result is \<open>None\<close> while the server waits for another connection.\<close>

fun server_Serve :: "(go_error \<Rightarrow> string) \<Rightarrow> (Request \<Rightarrow> 's \<Rightarrow> Response result \<times> 's) \<Rightarrow> accepted list \<Rightarrow> 's \<Rightarrow> go_error option option \<times> Response list \<times> 's" where
  "server_Serve error_text handler [] s = (None, [], s)"
| "server_Serve error_text handler (Connection bytes # events) s =
     (case serveConnection error_text handler bytes s of ((response, _), s1) \<Rightarrow>
      case server_Serve error_text handler events s1 of (r, responses, s2) \<Rightarrow> (r, response # responses, s2))"
| "server_Serve error_text handler (AcceptFailed e # events) s = (Some (Some e), [], s)"
| "server_Serve error_text handler (ListenerClosed # events) s = (Some None, [], s)"

text \<open>Whatever arrives, every connection that is served gets a response that is valid for the protocol.\<close>

lemma served_responses_valid:
  "server_Serve error_text handler events s = (r, responses, s') \<Longrightarrow> \<forall>response\<in>set responses. response_Validate response = None"
proof (induction error_text handler events s arbitrary: r responses s' rule: server_Serve.induct)
  case (2 error_text handler bytes events s)
  have valid: "response_Validate (error_response failed) = None" for failed
    by (simp add: error_response_def action_response_def response_Validate_def)
  obtain response stop s1 where c: "serveConnection error_text handler bytes s = ((response, stop), s1)" by (metis prod.collapse)
  obtain r1 rest s2 where l: "server_Serve error_text handler events s1 = (r1, rest, s2)" by (metis prod.collapse)
  have "response_Validate response = None"
    using c valid by (auto simp: serveConnection_def split: option.splits sum.splits prod.splits)
  with 2 c l show ?case by auto
qed simp_all

subsection \<open>The daemon command\<close>

record lifecycle =
  lc_calls :: "string \<Rightarrow> directory_calls"
  lc_hash :: sha256
  lc_tempDir :: string
  lc_faults :: faults
  lc_pid :: nat
  lc_accepted :: "accepted list"
  lc_error_text :: "go_error \<Rightarrow> string"
  lc_service_env :: service_env
  lc_service_state :: service_state

definition NewServer :: "Endpoint \<Rightarrow> go_error option" where
  "NewServer endpoint = (if en_Network endpoint = [] \<or> en_Address endpoint = [] then Some (Err ''daemon endpoint is required'' []) else None)"

text \<open>The kind of an error while the service is built: that of the packs is an operation error.\<close>

definition serve_kind :: "tool \<Rightarrow> tool_state \<Rightarrow> cli_kind" where
  "serve_kind tool s =
     (case load_config tool s of
        (Inl e, _) \<Rightarrow> Configuration
      | (Inr cfg, s) \<Rightarrow> if isl (fst (on_disk (runtimePackResolver tool cfg) s)) then Operation else Configuration)"

text \<open>\<open>daemon serve\<close>: the service, the listener, and the loop; \<open>None\<close> while the server runs.\<close>

definition daemon_serve :: "tool \<Rightarrow> lifecycle \<Rightarrow> Endpoint \<Rightarrow> tool_state \<times> socket_world \<Rightarrow> command_error option option \<times> tool_state \<times> socket_world" where
  "daemon_serve tool life endpoint m =
     (case m of (s, w) \<Rightarrow>
      case serve_service tool s of
        (Inl e, s1) \<Rightarrow> (Some (clierr_Wrap (serve_kind tool s) (Some e)), s1, w)
      | (Inr svc, s) \<Rightarrow>
         (case NewServer endpoint of Some e \<Rightarrow> (Some (clierr_Wrap Operation (Some e)), s, w) | None \<Rightarrow>
          (case server_Listen (lc_faults life) (lc_pid life) w of
             (Some e, w) \<Rightarrow> (Some (clierr_Wrap Operation (Some e)), s, w)
           | (None, w) \<Rightarrow>
              (case server_Serve (lc_error_text life) (Handle svc (lc_service_env life)) (lc_accepted life) (lc_service_state life) of
                 (r, _, _) \<Rightarrow> (map_option (clierr_Wrap Operation) r, s, w)))))"

text \<open>\<open>daemon status\<close> and \<open>daemon stop\<close>: one request without a retry.\<close>

definition ask_daemon :: "tool \<Rightarrow> network \<Rightarrow> string \<Rightarrow> command" where
  "ask_daemon tool net operation s =
     (case attempt net (zeroRequest\<lparr>rq_Version := daemon_ProtocolVersion, rq_Operation := operation\<rparr>) 0 of
        Inl e \<Rightarrow> (clierr_Wrap Operation (Some (client_go_error e)), s)
      | Inr response \<Rightarrow> print_text tool (encoder_text (encode_response response)) s)"

definition daemon_usage :: string where
  "daemon_usage = ''usage: solomon daemon <serve|status|stop|request>''"

definition runtime_directory :: "tool \<Rightarrow> string result" where
  "runtime_directory tool = RuntimeDirectory (Some (ph_Home (tl_paths tool))) (Some (ph_Env (tl_paths tool)))"

text \<open>The result is \<open>None\<close> while the command has not returned.\<close>

definition daemonCommand :: "tool \<Rightarrow> network \<Rightarrow> lifecycle \<Rightarrow> string list \<Rightarrow> tool_state \<times> socket_world \<Rightarrow> command_error option option \<times> tool_state \<times> socket_world" where
  "daemonCommand tool net life args m =
     (case m of (s, w) \<Rightarrow>
      let done = (\<lambda>(err, s). (Some err, s, w)) in
      if args = [] then done (fail_with Usage daemon_usage s)
      else case runtime_directory tool of Inl e \<Rightarrow> done (clierr_Wrap Configuration (Some e), s) | Inr directory \<Rightarrow>
      (case LocalEndpoint (lc_calls life) (lc_hash life) (lc_tempDir life) directory of Inl e \<Rightarrow> done (clierr_Wrap Operation (Some e), s) | Inr endpoint \<Rightarrow>
       if args ! 0 = ''status'' then
         done (if length args \<noteq> 1 then fail_with Usage ''usage: solomon daemon status'' s else ask_daemon tool net StatusOperation s)
       else if args ! 0 = ''serve'' then
         (if length args \<noteq> 1 then done (fail_with Usage ''usage: solomon daemon serve'' s) else daemon_serve tool life endpoint (s, w))
       else if args ! 0 = ''stop'' then
         done (if length args \<noteq> 1 then fail_with Usage ''usage: solomon daemon stop'' s else ask_daemon tool net StopOperation s)
       else if args ! 0 = ''request'' then
         (case daemonRequestCommand tool net (tl args) s of None \<Rightarrow> (None, s, w) | Some r \<Rightarrow> done r)
       else done (fail_with Usage daemon_usage s)))"

text \<open>A second \<open>daemon serve\<close> fails and leaves the socket of the first alone.\<close>

lemma second_serve_fails:
  assumes "daemons w" and "p \<in> sw_open w" and "daemon_serve tool life endpoint (s, w) = (r, s', w')"
  shows "w' = w \<and> (\<exists>e. r = Some (Some e))"
proof -
  have "sw_node w = Bound p" using daemons_reachable [OF assms(1)] assms(2) by (simp add: reachable_daemon_def)
  from Listen_refused [OF this assms(2), of "lc_faults life" "lc_pid life"]
  obtain e where "server_Listen (lc_faults life) (lc_pid life) w = (Some e, w)" by blast
  with assms(3) show ?thesis by (auto simp: daemon_serve_def clierr_Wrap_def split: prod.splits sum.splits option.splits)
qed

end
