(* ===== verification/Corpora.thy ===== *)
theory Corpora
  imports Staging PackRuntime
begin

section \<open>Fixtures, candidate corpora and detached files (internal/packs: fixtures.go, candidates.go, signature.go, runtime.go)\<close>

text \<open>
  Loading the files that accompany a pack: the fixtures it is tested with, the corpus of command
  candidates, a pack with its detached signature, and the resolver of the embedded packs alone.
\<close>

definition zeroCase :: FixtureCase where
  "zeroCase = \<lparr>fc_ID = [], fc_Command = [], fc_Input = [], fc_RuleID = []\<rparr>"

definition case_struct :: "FixtureCase field list" where
  "case_struct = [(''id'', string_field (\<lambda>s c. c\<lparr>fc_ID := s\<rparr>)), (''command'', string_field (\<lambda>s c. c\<lparr>fc_Command := s\<rparr>)),
     (''input'', string_field (\<lambda>s c. c\<lparr>fc_Input := s\<rparr>)), (''rule_id'', string_field (\<lambda>s c. c\<lparr>fc_RuleID := s\<rparr>))]"

definition fixture_struct :: "Fixture field list" where
  "fixture_struct = [(''schema_version'', int_field (\<lambda>i f. f\<lparr>fx_SchemaVersion := i\<rparr>)),
     (''cases'', slice_field (decode_struct True case_struct) zeroCase fx_Cases (\<lambda>xs f. f\<lparr>fx_Cases := xs\<rparr>))]"

text \<open>A single JSON value without unknown fields; what follows it is described by the second argument.\<close>

definition decode_single :: "string \<Rightarrow> (string \<Rightarrow> go_error) \<Rightarrow> 'r field list \<Rightarrow> 'r \<Rightarrow> string \<Rightarrow> 'r result" where
  "decode_single failed trailing fs zero bytes =
     (case decode_first bytes of
        None \<Rightarrow> Inl (Err failed [])
      | Some (v, rest) \<Rightarrow>
         (case decode_struct True fs v zero of
            None \<Rightarrow> Inl (Err failed [])
          | Some x \<Rightarrow> if list_all json_space rest then Inr x else Inl (trailing rest)))"

definition LoadFixture :: "system \<Rightarrow> string \<Rightarrow> disk \<Rightarrow> Fixture result \<times> disk" where
  "LoadFixture env path d = io_bind (os_ReadFile env path d) (\<lambda>bytes d.
     (decode_single ''parse fixture: %w'' (\<lambda>_. Err ''parse fixture: multiple JSON values'' []) fixture_struct \<lparr>fx_SchemaVersion = 0, fx_Cases = []\<rparr> bytes, d))"

text \<open>The case identifiers of a fixture against those seen before.\<close>

fun add_cases :: "string list \<Rightarrow> FixtureCase list \<Rightarrow> string list result" where
  "add_cases seen [] = Inr seen"
| "add_cases seen (test # tests) =
     (if fc_ID test \<in> set seen then Inl (Err ''duplicate fixture case %q'' [fc_ID test]) else add_cases (fc_ID test # seen) tests)"

fun load_fixtures :: "system \<Rightarrow> string \<Rightarrow> string list \<Rightarrow> pack_entry list \<Rightarrow> disk \<Rightarrow> Fixture list result \<times> disk" where
  "load_fixtures env directory seen [] d = (Inr [], d)"
| "load_fixtures env directory seen (entry # entries) d =
     (if \<not> hasSuffix (pe_Name entry) ''.json'' then load_fixtures env directory seen entries d
      else
       io_bind (pe_Regular entry, d) (\<lambda>regular d.
       if \<not> regular then (Inl (Err ''fixture corpus entry %q is not a regular file'' [pe_Name entry]), d)
       else
        io_bind (io_error (Wrap ''load fixture %q: %w'' [pe_Name entry]) (LoadFixture env (filepath_Join [directory, pe_Name entry]) d)) (\<lambda>fixture d.
        io_bind (io_error (Wrap ''validate fixture %q: %w'' [pe_Name entry]) (failing (fixture_Validate fixture), d)) (\<lambda>_ d.
        io_bind (add_cases seen (fx_Cases fixture), d) (\<lambda>seen d.
        io_bind (load_fixtures env directory seen entries d) (\<lambda>fixtures d. (Inr (fixture # fixtures), d)))))))"

definition LoadFixtureCorpus :: "system \<Rightarrow> pack_entry list result \<Rightarrow> string \<Rightarrow> disk \<Rightarrow> Fixture list result \<times> disk" where
  "LoadFixtureCorpus env listed directory d =
     io_bind (listed, d) (\<lambda>entries d.
     io_bind (load_fixtures env directory [] entries d) (\<lambda>fixtures d.
     if fixtures = [] then (Inl (Err ''fixture corpus must contain at least one JSON fixture'' []), d) else (Inr fixtures, d)))"

definition candidate_struct :: "CommandCandidate field list" where
  "candidate_struct = [(''id'', string_field (\<lambda>s c. c\<lparr>cc_ID := s\<rparr>)), (''command'', string_field (\<lambda>s c. c\<lparr>cc_Command := s\<rparr>)),
     (''replacement'', string_field (\<lambda>s c. c\<lparr>cc_Replacement := s\<rparr>))]"

definition corpus_struct :: "CommandCandidateCorpus field list" where
  "corpus_struct = [(''schema_version'', int_field (\<lambda>i c. c\<lparr>ccc_SchemaVersion := i\<rparr>)),
     (''candidates'', slice_field (decode_struct True candidate_struct) \<lparr>cc_ID = [], cc_Command = [], cc_Replacement = []\<rparr> ccc_Candidates
        (\<lambda>xs c. c\<lparr>ccc_Candidates := xs\<rparr>))]"

definition corpus_trailing :: "string \<Rightarrow> go_error" where
  "corpus_trailing rest =
     (case decode_first rest of
        Some (JObject [], _) \<Rightarrow> Err ''parse command candidate corpus: multiple JSON values'' []
      | Some (JNull, _) \<Rightarrow> Err ''parse command candidate corpus: multiple JSON values'' []
      | _ \<Rightarrow> Err ''parse command candidate corpus: trailing data: %w'' [])"

definition LoadCommandCandidateCorpus :: "system \<Rightarrow> string \<Rightarrow> disk \<Rightarrow> CommandCandidateCorpus result \<times> disk" where
  "LoadCommandCandidateCorpus env path d =
     io_bind (os_ReadFile env path d) (\<lambda>bytes d.
     io_bind (decode_single ''parse command candidate corpus: %w'' corpus_trailing corpus_struct \<lparr>ccc_SchemaVersion = 0, ccc_Candidates = []\<rparr> bytes, d) (\<lambda>corpus d.
     (case corpus_Validate corpus of Some e \<Rightarrow> Inl e | None \<Rightarrow> Inr corpus, d)))"

definition VerifyDetachedFiles :: "ed25519_Verify \<Rightarrow> system \<Rightarrow> string \<Rightarrow> string \<Rightarrow> string \<Rightarrow> disk \<Rightarrow> unit result \<times> disk" where
  "VerifyDetachedFiles verify env packPath signaturePath publicKey d =
     io_bind (os_ReadFile env packPath d) (\<lambda>payload d.
     io_bind (os_ReadFile env signaturePath d) (\<lambda>signature d.
     (failing (VerifyDetachedSignature verify payload signature publicKey), d)))"

definition NewBundledRuntimeResolver :: "regexp_Compile \<Rightarrow> embedded \<Rightarrow> RuntimeResolver result" where
  "NewBundledRuntimeResolver compile bundle =
     (case LoadBundled compile bundle of Inl e \<Rightarrow> Inl e | Inr loaded \<Rightarrow> NewRuntimeResolver compile loaded)"

text \<open>A loaded corpus is ready to run: every fixture is valid and no two cases anywhere have the same identifier.\<close>

lemma add_cases_distinct:
  "add_cases seen tests = Inr seen' \<Longrightarrow> distinct seen \<Longrightarrow> distinct seen' \<and> set seen' = set seen \<union> set (map fc_ID tests) \<and>
     distinct (map fc_ID tests) \<and> set (map fc_ID tests) \<inter> set seen = {}"
proof (induction tests arbitrary: seen)
  case (Cons test tests)
  then have "fc_ID test \<notin> set seen" "add_cases (fc_ID test # seen) tests = Inr seen'" by (auto split: if_splits)
  with Cons.IH [of "fc_ID test # seen"] Cons.prems(2) show ?case by auto
qed simp

lemma load_fixtures_distinct:
  "load_fixtures env directory seen entries d = (Inr fixtures, d') \<Longrightarrow> distinct seen \<Longrightarrow>
     (\<forall>f\<in>set fixtures. fixture_Validate f = None) \<and> distinct (concat (map (\<lambda>f. map fc_ID (fx_Cases f)) fixtures)) \<and>
     set (concat (map (\<lambda>f. map fc_ID (fx_Cases f)) fixtures)) \<inter> set seen = {}"
proof (induction entries arbitrary: seen d fixtures)
  case (Cons entry entries)
  show ?case
  proof (cases "hasSuffix (pe_Name entry) ''.json''")
    case True
    with Cons.prems(1) obtain fixture seen1 rest d1 where f: "fixture_Validate fixture = None" "add_cases seen (fx_Cases fixture) = Inr seen1"
        "load_fixtures env directory seen1 entries d1 = (Inr rest, d')" "fixtures = fixture # rest"
      by (auto simp: io_bind_Inr split: if_splits)
    note a = add_cases_distinct [OF f(2) Cons.prems(2)]
    with Cons.IH [OF f(3)] show ?thesis using f(1,4) by auto
  next
    case False
    with Cons show ?thesis by simp
  qed
qed simp

lemma corpus_ready:
  assumes "LoadFixtureCorpus env listed directory d = (Inr fixtures, d')"
  shows "fixtures \<noteq> [] \<and> (\<forall>f\<in>set fixtures. fixture_Validate f = None) \<and> distinct (concat (map (\<lambda>f. map fc_ID (fx_Cases f)) fixtures))"
  using assms load_fixtures_distinct [of env directory "[]"] by (auto simp: LoadFixtureCorpus_def io_bind_Inr split: if_splits)

lemma candidates_valid:
  "LoadCommandCandidateCorpus env path d = (Inr corpus, d') \<Longrightarrow> corpus_Validate corpus = None"
  by (auto simp: LoadCommandCandidateCorpus_def io_bind_Inr split: option.splits)

end
