(* ===== verification/RecordProps.thy ===== *)
theory RecordProps
  imports Engine
begin

section \<open>The record sent to the shell adapters\<close>

text \<open>
  \<open>Record\<close> joins seven fields with tabs. The lemmas show that a reader gets the fields back by
  splitting at tabs and the texts by decoding base64.
\<close>

subsection \<open>Splitting a record\<close>

lemma strings_Split_append:
  "c \<notin> set w \<Longrightarrow> strings_Split (w @ c # s) c = w # strings_Split s c"
  by (induction w) auto

lemma strings_Split_free: "c \<notin> set w \<Longrightarrow> strings_Split w c = [w]"
  by (induction w) auto

lemma strings_Split_Join:
  "ws \<noteq> [] \<Longrightarrow> \<forall>w \<in> set ws. c \<notin> set w \<Longrightarrow> strings_Split (strings_Join ws [c]) c = ws"
  by (induction ws "[c]" rule: strings_Join.induct) (auto simp: strings_Split_append strings_Split_free)

lemma digit_tab: "m < 10 \<Longrightarrow> CHR 0x09 \<noteq> char_of (48 + m :: nat)"
proof
  assume "m < 10" "CHR 0x09 = char_of (48 + m)"
  then have "byte CHR 0x09 = byte (char_of (48 + m))" by simp
  with \<open>m < 10\<close> show False by (simp add: of_char_of)
qed

lemma digits_rev_tab: "CHR 0x09 \<notin> set (digits_rev n)"
proof (induction n rule: less_induct)
  case (less n)
  show ?case using less digit_tab [of n] digit_tab [of "n mod 10"]
    by (subst digits_rev.simps) auto
qed

lemma itoa_tab: "CHR 0x09 \<notin> set (itoa i)"
  using digits_rev_tab by (simp add: itoa_def itoa_nat_def)

lemma format_f2_tab: "CHR 0x09 \<notin> set (format_f2 x)"
proof -
  have "n mod 100 div 10 < 10" for n :: int by (simp add: div_less_iff_less_mult)
  then have "nat (n mod 100 div 10) < 10" "nat (n mod 10) < 10" for n :: int by (simp_all add: nat_less_iff)
  from digit_tab [OF this(1)] digit_tab [OF this(2)]
  have "CHR 0x09 \<noteq> char_of (48 + nat (n mod 100 div 10))" "CHR 0x09 \<noteq> char_of (48 + nat (n mod 10))" for n :: int
    by blast+
  then show ?thesis using itoa_tab by (auto simp: format_f2_def format_cents_def split: prod.split)
qed

lemma itoa_one: "itoa 1 = ''1''"
  by code_simp

lemma record_fields_tab:
  assumes "validateProtocol d = None"
  shows "\<forall>f \<in> set (record_fields d). CHR 0x09 \<notin> set f"
proof -
  have "CHR 0x09 \<notin> set base64_alphabet" by code_simp
  then have e: "CHR 0x09 \<notin> set (encodeRecordText s)" for s
    using base64_encode_alphabet by (auto simp: encodeRecordText_def)
  have "CHR 0x09 \<notin> set (d_Action d)" "CHR 0x09 \<notin> set (d_Risk d)"
    using assms by (auto simp: validateProtocol_def validAction_def validRisk_def risk_names split: if_splits)
  with e itoa_tab format_f2_tab show ?thesis by (simp add: record_fields_def)
qed

text \<open>
  Property C23: a record can be read back. If \<open>Record\<close> succeeds, the decision is valid for the
  protocol, the record is a line of at most 8192 bytes that ends in a newline, splitting it at
  tabs gives the seven fields, and decoding the last three gives cause, consequence and
  suggestion, whatever bytes they contain.
\<close>

theorem record_round_trip:
  assumes "Record d = Inr r"
  shows "validateProtocol d = None \<and> length r \<le> 8192 \<and> (\<exists>body. r = body @ [CHR 0x0A] \<and>
    (case strings_Split body CHR 0x09 of [v, a, risk, conf, c, k, s] \<Rightarrow>
       v = ''1'' \<and> a = d_Action d \<and> risk = d_Risk d \<and> conf = format_f2 (d_Confidence d) \<and>
       base64_DecodeString c = Some (d_Cause d) \<and> base64_DecodeString k = Some (d_Consequence d) \<and>
       base64_DecodeString s = Some (d_Suggestion d)
     | _ \<Rightarrow> False))"
proof -
  have v: "validateProtocol d = None" and r: "r = strings_Join (record_fields d) [CHR 0x09] @ [CHR 0x0A]"
    and len: "int (length r) \<le> MaxOutputBytes"
    using assms by (auto simp: Record_def Let_def not_less split: option.splits if_splits)
  have "strings_Split (strings_Join (record_fields d) [CHR 0x09]) CHR 0x09 = record_fields d"
    using record_fields_tab [OF v] by (intro strings_Split_Join) (simp_all add: record_fields_def)
  moreover have "itoa (d_Version d) = ''1''"
    using v by (auto simp: validateProtocol_def AdapterProtocolVersion_def itoa_one split: if_splits)
  ultimately show ?thesis
    using v r len by (simp add: record_fields_def encodeRecordText_def base64_DecodeString_encode MaxOutputBytes_def)
qed

theorem record_round_trip_witness:
  "\<exists>r. Record noDecision = Inr r \<and> length r \<le> 8192"
proof -
  have "\<not> isl (Record noDecision)" by code_simp
  then obtain r where "Record noDecision = Inr r" by (cases "Record noDecision") auto
  then show ?thesis using record_round_trip by blast
qed

end
