(* ===== verification/VersionProps.thy ===== *)
theory VersionProps
  imports Packs RecordProps
begin

section \<open>Comparing versions (internal/packs/compatibility.go)\<close>

text \<open>
  The shape of a text that matches the pattern of semantic versions, and from it that
  \<open>compareVersion\<close> never indexes out of range on versions and orders releases by their three
  numbers.
\<close>

subsection \<open>What the version pattern matches\<close>

lemma run_class: "st' \<in> set (rx_run (RClass neg rs) st) \<Longrightarrow> \<exists>c. ms_rest st = c # ms_rest st' \<and> in_ranges rs (fst c) \<noteq> neg"
  by (auto split: prod.splits list.splits if_splits)

lemma run_char: "st' \<in> set (rx_run (rchar r) st) \<Longrightarrow> \<exists>c. ms_rest st = c # ms_rest st' \<and> fst c = r"
  using run_class by (fastforce simp: rchar_def in_ranges_def)

lemma run_seq: "st' \<in> set (rx_run (RSeq a b) st) \<longleftrightarrow> (\<exists>s1 \<in> set (rx_run a st). st' \<in> set (rx_run b s1))"
  by auto

lemma run_opt: "st' \<in> set (rx_run (ROpt a) st) \<longleftrightarrow> st' \<in> set (rx_run a st) \<or> st' = st"
  by auto

lemma run_after_char: "st' \<in> set (rx_run (RSeq (rchar r) b) st) \<Longrightarrow> \<exists>c cs. ms_rest st = c # cs \<and> fst c = r"
  using run_char unfolding run_seq by blast

lemma star_run_class:
  "st' \<in> set (star_run n (rx_run (RClass neg rs)) st) \<Longrightarrow>
     \<exists>w. ms_rest st = w @ ms_rest st' \<and> (\<forall>c \<in> set w. in_ranges rs (fst c) \<noteq> neg)"
proof (induction n arbitrary: st)
  case (Suc n)
  from Suc.prems consider "st' = st"
    | st1 where "st1 \<in> set (rx_run (RClass neg rs) st)" "st' \<in> set (star_run n (rx_run (RClass neg rs)) st1)"
    by (auto simp del: rx_run.simps)
  then show ?case
  proof cases
    case 2
    obtain c where "ms_rest st = c # ms_rest st1" "in_ranges rs (fst c) \<noteq> neg" using run_class [OF 2(1)] by blast
    moreover obtain w where "ms_rest st1 = w @ ms_rest st'" "\<forall>c \<in> set w. in_ranges rs (fst c) \<noteq> neg"
      using Suc.IH [OF 2(2)] by blast
    ultimately show ?thesis by (intro exI [of _ "c # w"]) simp
  qed simp
qed simp

abbreviation digit_cell :: "cell \<Rightarrow> bool" where "digit_cell c \<equiv> 48 \<le> fst c \<and> fst c \<le> 57"

lemma run_version_number:
  assumes "st' \<in> set (rx_run (RGroup n version_number) st)"
  shows "\<exists>w. ms_rest st = w @ ms_rest st' \<and> w \<noteq> [] \<and> (\<forall>c \<in> set w. digit_cell c)"
proof -
  obtain st2 where st2: "st2 \<in> set (rx_run version_number st)" "ms_rest st' = ms_rest st2"
    using rx_run_group_rest [OF assms] by blast
  then consider "st2 \<in> set (rx_run (rchar 48) st)"
    | st1 where "st1 \<in> set (rx_run (RClass False [(49, 57)]) st)" "st2 \<in> set (rx_run (RStar digit_class) st1)"
    unfolding version_number_def rx_run.simps(4) set_append Un_iff run_seq by blast
  then show ?thesis
  proof cases
    case 1
    obtain c where "ms_rest st = c # ms_rest st2" "fst c = 48" using run_char [OF 1] by blast
    with st2(2) show ?thesis by (intro exI [of _ "[c]"]) simp
  next
    case (2 st1)
    obtain c where c: "ms_rest st = c # ms_rest st1" "digit_cell c"
      using run_class [OF 2(1)] by (auto simp: in_ranges_def)
    obtain w where w: "ms_rest st1 = w @ ms_rest st2" "\<forall>c \<in> set w. digit_cell c"
      using star_run_class [of st2 _ False "[(48, 57)]" st1] 2(2) by (auto simp: digit_class_def in_ranges_def simp del: rx_run.simps(2))
    from c w st2(2) show ?thesis by (intro exI [of _ "c # w"]) simp
  qed
qed

text \<open>An anchored pattern matches at the beginning.\<close>

lemma rx_find_anchored_later: "rx_find (RSeq RBegin r) (Some x) cs = None"
  by (induction cs arbitrary: x) simp_all

lemma rx_find_anchored:
  assumes "rx_find (RSeq RBegin r) None cs = Some (sk, st)"
  shows "st \<in> set (rx_run r (None, cs, []))"
  using assms rx_find_anchored_later by (cases cs) (auto split: list.splits)

definition version_tail :: rx where
  "version_tail = rseqs [ROpt (rseqs [rchar 45, prerelease_identifier, RStar (RSeq (rchar 46) prerelease_identifier)]),
     ROpt (rseqs [rchar 43, rplus version_char, RStar (RSeq (rchar 46) (rplus version_char))]), REnd]"

lemma run_version_tail:
  assumes "st' \<in> set (rx_run version_tail st)"
  shows "ms_rest st = [] \<or> (\<exists>c cs. ms_rest st = c # cs \<and> (fst c = 45 \<or> fst c = 43))"
proof -
  let ?A = "RSeq (rchar 45) (RSeq prerelease_identifier (RStar (RSeq (rchar 46) prerelease_identifier)))"
  let ?B = "RSeq (rchar 43) (RSeq (rplus version_char) (RStar (RSeq (rchar 46) (rplus version_char))))"
  have tail: "version_tail = RSeq (ROpt ?A) (RSeq (ROpt ?B) REnd)" by (simp add: version_tail_def)
  from assms [unfolded tail] obtain s1 s2 where s: "s1 \<in> set (rx_run (ROpt ?A) st)" "s2 \<in> set (rx_run (ROpt ?B) s1)" "st' \<in> set (rx_run REnd s2)"
    unfolding run_seq [of st' "ROpt ?A"] run_seq [of st' "ROpt ?B"] by blast
  have "ms_rest s2 = []" using s(3) by (auto split: if_splits)
  with s(1,2) show ?thesis unfolding run_opt using run_after_char by metis
qed

lemma semanticVersion_cells:
  assumes "semanticVersion v"
  shows "\<exists>d1 d2 d3 p1 p2 t. cells v = d1 @ p1 # d2 @ p2 # d3 @ t \<and> d1 \<noteq> [] \<and> d2 \<noteq> [] \<and> d3 \<noteq> [] \<and>
    (\<forall>c \<in> set (d1 @ d2 @ d3). digit_cell c) \<and> fst p1 = 46 \<and> fst p2 = 46 \<and>
    (t = [] \<or> fst (hd t) = 45 \<or> fst (hd t) = 43)"
proof -
  obtain sk st where found: "rx_find semanticVersionPattern None (cells v) = Some (sk, st)"
    using assms by (auto simp: semanticVersion_def rx_MatchString_def)
  have "semanticVersionPattern = RSeq RBegin (RSeq (RGroup 1 version_number) (RSeq (rchar 46) (RSeq (RGroup 2 version_number)
      (RSeq (rchar 46) (RSeq (RGroup 3 version_number) version_tail)))))"
    by (simp add: semanticVersionPattern_def version_tail_def)
  from rx_find_anchored [OF found [unfolded this]] obtain s1 s2 s3 s4 s5 where s: "s1 \<in> set (rx_run (RGroup 1 version_number) (None, cells v, []))"
    "s2 \<in> set (rx_run (rchar 46) s1)" "s3 \<in> set (rx_run (RGroup 2 version_number) s2)" "s4 \<in> set (rx_run (rchar 46) s3)"
    "s5 \<in> set (rx_run (RGroup 3 version_number) s4)" "st \<in> set (rx_run version_tail s5)"
    unfolding run_seq by blast
  obtain d1 where "cells v = d1 @ ms_rest s1" "d1 \<noteq> []" "\<forall>c \<in> set d1. digit_cell c" using run_version_number [OF s(1)] by auto
  moreover obtain p1 where "ms_rest s1 = p1 # ms_rest s2" "fst p1 = 46" using run_char [OF s(2)] by blast
  moreover obtain d2 where "ms_rest s2 = d2 @ ms_rest s3" "d2 \<noteq> []" "\<forall>c \<in> set d2. digit_cell c" using run_version_number [OF s(3)] by blast
  moreover obtain p2 where "ms_rest s3 = p2 # ms_rest s4" "fst p2 = 46" using run_char [OF s(4)] by blast
  moreover obtain d3 where "ms_rest s4 = d3 @ ms_rest s5" "d3 \<noteq> []" "\<forall>c \<in> set d3. digit_cell c" using run_version_number [OF s(5)] by blast
  moreover have "ms_rest s5 = [] \<or> fst (hd (ms_rest s5)) = 45 \<or> fst (hd (ms_rest s5)) = 43"
    using run_version_tail [OF s(6)] by auto
  ultimately have "cells v = d1 @ p1 # d2 @ p2 # d3 @ ms_rest s5 \<and> d1 \<noteq> [] \<and> d2 \<noteq> [] \<and> d3 \<noteq> [] \<and>
    (\<forall>c \<in> set (d1 @ d2 @ d3). digit_cell c) \<and> fst p1 = 46 \<and> fst p2 = 46 \<and>
    (ms_rest s5 = [] \<or> fst (hd (ms_rest s5)) = 45 \<or> fst (hd (ms_rest s5)) = 43)"
    by (simp add: ball_Un)
  then show ?thesis by blast
qed

lemma version_chars: "char_of (46::nat) = CHR ''.''" "char_of (45::nat) = CHR ''-''" "char_of (43::nat) = CHR ''+''"
  by code_simp+

text \<open>The cells of digits and points are single bytes.\<close>

lemma low_cells_string:
  assumes "set w \<subseteq> set (cells v)" "\<forall>c \<in> set w. fst c < 0x80"
  shows "cells_string w = map (\<lambda>c. char_of (fst c)) w"
  using assms
proof (induction w)
  case (Cons c w)
  have "snd c = [char_of (fst c)]" using Cons.prems cells_low [of "fst c" "snd c" v] by simp
  with Cons show ?case by (simp add: cells_string_def)
qed (simp add: cells_string_def)

lemma cells_string_append: "cells_string (a @ b) = cells_string a @ cells_string b"
  by (simp add: cells_string_def)

lemma digits_string:
  assumes "set w \<subseteq> set (cells v)" "w \<noteq> []" "\<forall>c \<in> set w. digit_cell c"
  shows "cells_string w \<noteq> [] \<and> list_all is_digit (cells_string w)"
proof -
  have "cells_string w = map (\<lambda>c. char_of (fst c)) w"
    using assms by (intro low_cells_string [of _ v]) force+
  with assms(2,3) show ?thesis by (auto simp: list_all_iff is_digit_def)
qed

lemma semanticVersion_shape:
  assumes "semanticVersion v"
  obtains a b c t where "v = a @ ''.'' @ b @ ''.'' @ c @ t" "a \<noteq> []" "b \<noteq> []" "c \<noteq> []"
    "list_all is_digit (a @ b @ c)" "t = [] \<or> hd t = CHR ''-'' \<or> hd t = CHR ''+''"
proof -
  obtain d1 d2 d3 p1 p2 t where v: "cells v = d1 @ p1 # d2 @ p2 # d3 @ t" and d: "d1 \<noteq> []" "d2 \<noteq> []" "d3 \<noteq> []"
    and digits: "\<forall>c \<in> set (d1 @ d2 @ d3). digit_cell c" and p: "fst p1 = 46" "fst p2 = 46"
    and t: "t = [] \<or> fst (hd t) = 45 \<or> fst (hd t) = 43"
    using semanticVersion_cells [OF assms] by blast
  have one: "cells_string [x] = [char_of (fst x)]" if "x \<in> set (cells v)" "fst x < 0x80" for x
    using low_cells_string [of "[x]" v] that by simp
  have pts: "cells_string [p1] = ''.''" "cells_string [p2] = ''.''"
    using one [of p1] one [of p2] p v by (simp_all add: version_chars)
  have "v = cells_string (cells v)" by simp
  also have "\<dots> = cells_string d1 @ cells_string [p1] @ cells_string d2 @ cells_string [p2] @ cells_string d3 @ cells_string t"
    unfolding v cells_string_append [symmetric] by simp
  finally have eq: "v = cells_string d1 @ ''.'' @ cells_string d2 @ ''.'' @ cells_string d3 @ cells_string t"
    unfolding pts .
  have "cells_string t = [] \<or> hd (cells_string t) = CHR ''-'' \<or> hd (cells_string t) = CHR ''+''"
  proof (cases t)
    case (Cons x xs)
    have "cells_string t = char_of (fst x) # cells_string xs"
      using one [of x] t v Cons cells_string_append [of "[x]" xs] by auto
    with t Cons show ?thesis by (auto simp: version_chars)
  qed (simp add: cells_string_def)
  moreover have "set d1 \<subseteq> set (cells v)" "set d2 \<subseteq> set (cells v)" "set d3 \<subseteq> set (cells v)" by (auto simp: v)
  ultimately show ?thesis
    using that [OF eq] digits_string [of d1 v] digits_string [of d2 v] digits_string [of d3 v] d digits by auto
qed


subsection \<open>The order\<close>

lemma Cut_free: "c \<notin> set w \<Longrightarrow> strings_Cut (w @ t) c = (case strings_Cut t c of (b, r) \<Rightarrow> (w @ b, r))"
  by (induction w) (auto split: prod.splits)

lemma Cut_hd: "t = [] \<or> hd t = c \<Longrightarrow> fst (strings_Cut t c) = []"
  by (cases t) auto

lemma splitVersion_core:
  assumes "CHR ''+'' \<notin> set w" "CHR ''-'' \<notin> set w" "t = [] \<or> hd t = CHR ''-'' \<or> hd t = CHR ''+''"
  shows "fst (splitVersion (w @ t)) = w"
proof -
  obtain b r where b: "strings_Cut t CHR ''+'' = (b, r)" by (meson prod.exhaust)
  have "b = [] \<or> hd b = CHR ''-''" using assms(3) b by (cases t) (auto split: prod.splits if_splits)
  then show ?thesis
    using assms(1,2) b Cut_hd [of b "CHR ''-''"] by (auto simp: splitVersion_def Cut_free split: prod.splits)
qed

definition version_parts :: "string \<Rightarrow> string list" where
  "version_parts v = strings_Split (fst (splitVersion v)) CHR ''.''"

text \<open>The release numbers, as far as a 64-bit integer represents them.\<close>

definition version_numbers :: "string \<Rightarrow> int list" where
  "version_numbers v = map (\<lambda>part. min MaxInt (int (dec_value part))) (version_parts v)"

lemma version_parts_ok:
  assumes "semanticVersion v"
  shows "length (version_parts v) = 3 \<and> (\<forall>part \<in> set (version_parts v). part \<noteq> [] \<and> list_all is_digit part)"
proof -
  obtain a b c t where v: "v = a @ ''.'' @ b @ ''.'' @ c @ t" and ne: "a \<noteq> []" "b \<noteq> []" "c \<noteq> []"
    and d: "list_all is_digit (a @ b @ c)" and t: "t = [] \<or> hd t = CHR ''-'' \<or> hd t = CHR ''+''"
    using semanticVersion_shape [OF assms] by metis
  have free: "x \<notin> set (a @ b @ c)" if "\<not> is_digit x" for x
    using d that by (auto simp: list_all_iff)
  have nd: "\<not> is_digit CHR ''+''" "\<not> is_digit CHR ''-''" "\<not> is_digit CHR ''.''" by code_simp+
  have "fst (splitVersion ((a @ ''.'' @ b @ ''.'' @ c) @ t)) = a @ ''.'' @ b @ ''.'' @ c"
    using free [OF nd(1)] free [OF nd(2)] t by (intro splitVersion_core) auto
  then have "version_parts v = [a, b, c]"
    using free [OF nd(3)] by (simp add: version_parts_def v strings_Split_append strings_Split_free)
  with ne d show ?thesis by simp
qed

lemma compare_core_lexord:
  fixes f :: "string \<Rightarrow> int"
  assumes "length ls = length rs" "\<And>p. p \<in> set ls \<union> set rs \<Longrightarrow> fst (atoi p) = f p"
  shows "compare_core ls rs =
    Some (if map f ls < map f rs then Some (-1) else if map f rs < map f ls then Some 1 else None)"
  using assms
proof (induction ls rs rule: list_induct2)
  case (Cons x xs y ys)
  have "fst (atoi x) = f x" "fst (atoi y) = f y" using Cons.prems by simp_all
  moreover have "compare_core xs ys =
      Some (if map f xs < map f ys then Some (-1) else if map f ys < map f xs then Some 1 else None)"
    by (rule Cons.IH) (simp add: Cons.prems)
  ultimately show ?case by simp
qed simp

lemma compare_parts_antisym: "compare_parts rs ls = - compare_parts ls rs"
proof (induction ls rs rule: list_induct2')
  case (4 l ls r rs)
  obtain lv lok rv rok where a: "atoi l = (lv, lok)" "atoi r = (rv, rok)" by (meson prod.exhaust)
  show ?case using 4 by (cases lok; cases rok) (simp_all add: a)
qed simp_all

lemma comparePrerelease_antisym: "comparePrerelease b a = - comparePrerelease a b"
  using compare_parts_antisym [of "strings_Split b CHR ''.''" "strings_Split a CHR ''.''"]
  by (simp add: comparePrerelease_def)

lemma compareVersion_numbers:
  assumes "semanticVersion a" "semanticVersion b"
  shows "compareVersion a b = Some (if version_numbers a < version_numbers b then -1
      else if version_numbers b < version_numbers a then 1
      else comparePrerelease (snd (splitVersion a)) (snd (splitVersion b)))"
proof -
  obtain ca pa cb pb where s: "splitVersion a = (ca, pa)" "splitVersion b = (cb, pb)" by fastforce
  have "compare_core (version_parts a) (version_parts b) = Some (if version_numbers a < version_numbers b then Some (-1)
      else if version_numbers b < version_numbers a then Some 1 else None)"
    using version_parts_ok [OF assms(1)] version_parts_ok [OF assms(2)]
    unfolding version_numbers_def by (intro compare_core_lexord) (auto simp: atoi_digits)
  then show ?thesis by (simp add: compareVersion_def s version_parts_def)
qed

text \<open>
  Comparing versions. On two semantic versions \<open>compareVersion\<close> never runs out of
  range: it orders them by their three release numbers (as far as a 64-bit integer represents
  them), ignoring build metadata; versions without a prerelease and with equal numbers are
  equal, a prerelease comes before its release, and exchanging the arguments negates the answer.
\<close>

lemma version_order:
  assumes "semanticVersion a" and "semanticVersion b"
  shows "length (version_numbers a) = 3 \<and> compareVersion b a = map_option uminus (compareVersion a b) \<and>
    (version_numbers a < version_numbers b \<longrightarrow> compareVersion a b = Some (-1)) \<and>
    (version_numbers a = version_numbers b \<longrightarrow>
       (snd (splitVersion a) = [] \<and> snd (splitVersion b) = [] \<longrightarrow> compareVersion a b = Some 0) \<and>
       (snd (splitVersion a) \<noteq> [] \<and> snd (splitVersion b) = [] \<longrightarrow> compareVersion a b = Some (-1)))"
proof -
  have nil: "comparePrerelease [] [] = 0" by code_simp
  have "length (version_numbers a) = 3" using version_parts_ok [OF assms(1)] by (simp add: version_numbers_def)
  moreover have "comparePrerelease p [] = -1" if "p \<noteq> []" for p using that by (simp add: comparePrerelease_def)
  ultimately show ?thesis
    using comparePrerelease_antisym [of "snd (splitVersion b)" "snd (splitVersion a)"]
    by (auto simp: compareVersion_numbers assms nil)
qed

text \<open>
  Prerelease identifiers that are not numbers are not compared. Two prereleases with
  the same number of identifiers, none of them a number, compare as equal whatever they say, so
  \<open>1.0.0-alpha\<close> and \<open>1.0.0-beta\<close> count as the same version.
\<close>

lemma prerelease_words_equal:
  assumes "list_all (\<lambda>p. atoi p = (0, False)) (strings_Split a CHR ''.'')"
    and "list_all (\<lambda>p. atoi p = (0, False)) (strings_Split b CHR ''.'')"
    and "length (strings_Split a CHR ''.'') = length (strings_Split b CHR ''.'')" and "a \<noteq> []" and "b \<noteq> []"
  shows "comparePrerelease a b = 0"
proof -
  have "compare_parts ls rs = 0" if "length ls = length rs" "list_all (\<lambda>p. atoi p = (0, False)) ls" "list_all (\<lambda>p. atoi p = (0, False)) rs"
    for ls rs using that by (induction ls rs rule: list_induct2) simp_all
  with assms show ?thesis by (simp add: comparePrerelease_def)
qed

end
