(* ===== verification/Relay.thy ===== *)
theory Relay
  imports Redact
begin

section \<open>Output capture (internal/capture/relay.go)\<close>

text \<open>
  The relay that keeps the output of the last command: a shell adapter writes a marker into a
  terminal transcript before each command, the relay is fed the transcript in chunks and
  answers with the cleaned and redacted text since the last marker. The marker of a relay is
  \<open>relay_marker\<close> of its token, as \<open>Start\<close> builds it. The methods that take the mutex are one
  definition each. The socket is not modelled: \<open>serve_request\<close> is what \<open>serveConnection\<close> does
  with the bytes of a request, \<open>client_response\<close> what the client does with those of the answer.
  The properties: which bytes are kept does not depend on how the transcript is cut into chunks,
  and what is handed out is bounded and free of terminal control bytes.
\<close>

subsection \<open>The relay\<close>

definition capture_MaxOutputBytes :: nat where "capture_MaxOutputBytes = 8192"

definition terminalControl :: rx where
  "terminalControl = RSeq (rchar 0x1b) (RAlt
     (rseqs [rchar 91, RStar (RClass False [(48, 63)]), RStar (RClass False [(32, 47)]), RClass False [(64, 126)]])
     (rseqs [rchar 93, RStar (RClass True [(7, 7), (0x1b, 0x1b)]), RAlt (rchar 7) (RSeq (rchar 0x1b) (rchar 92))]))"

definition relay_marker :: "string \<Rightarrow> string" where
  "relay_marker token = [CHR 0x1B] @ '']1337;Solomon='' @ token @ [CHR 0x07]"

record Relay =
  rl_token :: string
  rl_pending :: string
  rl_output :: string
  rl_active :: bool

definition relay_Start :: "string \<Rightarrow> Relay" where
  "relay_Start token = \<lparr>rl_token = token, rl_pending = [], rl_output = [], rl_active = False\<rparr>"

definition keeps_rune :: "rune \<Rightarrow> bool" where
  "keeps_rune r \<longleftrightarrow> r = 10 \<or> r = 9 \<or> r = 13 \<or> \<not> (unicode_IsControl r \<or> unicode_BidiControl r)"

definition terminalText :: "string \<Rightarrow> string" where
  "terminalText value = string_of_runes (filter keeps_rune (runes (rx_ReplaceAllString terminalControl value [])))"

text \<open>What is appended for a piece of text, and the bound on what is kept.\<close>

definition append_output :: "string \<Rightarrow> string \<Rightarrow> string" where
  "append_output out value =
     (case out @ fst (redact_Text (terminalText value)) of o' \<Rightarrow>
      if capture_MaxOutputBytes < length o' then drop (length o' - capture_MaxOutputBytes) o' else o')"

definition appendLocked :: "string \<Rightarrow> Relay \<Rightarrow> Relay" where
  "appendLocked value r = (if \<not> rl_active r \<or> value = [] then r else r\<lparr>rl_output := append_output (rl_output r) value\<rparr>)"

text \<open>The loop of \<open>Feed\<close>; every round that finds the marker shortens what is pending.\<close>

lemma strings_Index_bound: "strings_Index s sub = Some i \<Longrightarrow> i + length sub \<le> length s"
proof (induction s arbitrary: i)
  case (Cons c s)
  then show ?case by (auto simp: hasPrefix_def split: if_splits) (metis Suc_eq_plus1 length_Cons length_take min.cobounded1)
qed (auto split: if_splits)

function feed_loop :: "Relay \<Rightarrow> Relay" where
  "feed_loop r =
     (case strings_Index (rl_pending r) (relay_marker (rl_token r)) of
        None \<Rightarrow>
          (case length (relay_marker (rl_token r)) - 1 of keep \<Rightarrow>
           if length (rl_pending r) \<le> keep then r
           else (appendLocked (take (length (rl_pending r) - keep) (rl_pending r)) r)
             \<lparr>rl_pending := drop (length (rl_pending r) - keep) (rl_pending r)\<rparr>)
      | Some index \<Rightarrow>
          feed_loop ((if rl_active r then appendLocked (take index (rl_pending r)) r else r)
            \<lparr>rl_output := [], rl_active := True, rl_pending := drop (index + length (relay_marker (rl_token r))) (rl_pending r)\<rparr>))"
  by pat_completeness auto
termination
  by (relation "measure (\<lambda>r. length (rl_pending r))") (auto dest!: strings_Index_bound simp: relay_marker_def)

declare feed_loop.simps [simp del]

definition Feed :: "string \<Rightarrow> Relay \<Rightarrow> Relay" where
  "Feed value r = feed_loop (r\<lparr>rl_pending := rl_pending r @ value\<rparr>)"

definition relay_Reset :: "Relay \<Rightarrow> Relay" where
  "relay_Reset r = r\<lparr>rl_pending := [], rl_output := [], rl_active := False\<rparr>"

definition strings_TrimPrefix :: "string \<Rightarrow> string \<Rightarrow> string" where
  "strings_TrimPrefix s p = (if hasPrefix s p then drop (length p) s else s)"

definition Snapshot :: "string \<Rightarrow> Relay \<Rightarrow> string \<times> Relay" where
  "Snapshot command r =
     (case (if rl_active r \<and> rl_pending r \<noteq> [] then (appendLocked (rl_pending r) r)\<lparr>rl_pending := []\<rparr> else r) of r1 \<Rightarrow>
      case strings_TrimSpace (rl_output r1) of out \<Rightarrow>
      (if command \<noteq> [] then strings_TrimSpace (strings_TrimPrefix out command) else out, r1))"

text \<open>The reads of \<open>FeedReader\<close>: each returns some bytes and possibly an error; \<open>io.EOF\<close> ends the loop normally.\<close>

datatype read_error = EOF | ReadError go_error

fun FeedReader :: "(string \<times> read_error option) list \<Rightarrow> Relay \<Rightarrow> go_error option \<times> Relay" where
  "FeedReader [] r = (None, r)"
| "FeedReader ((chunk, err) # reads) r =
     (case (if chunk \<noteq> [] then Feed chunk r else r) of r1 \<Rightarrow>
      case err of Some EOF \<Rightarrow> (None, r1) | Some (ReadError e) \<Rightarrow> (Some e, r1) | None \<Rightarrow> FeedReader reads r1)"

definition serve_request :: "string \<Rightarrow> Relay \<Rightarrow> string option \<times> Relay" where
  "serve_request bytes r =
     (case take 8192 bytes of request \<Rightarrow>
      if request = ''reset'' @ [CHR 0x0A] then (None, relay_Reset r)
      else if \<not> hasPrefix request (''read'' @ [CHR 0x0A]) then (None, r)
      else case Snapshot (strings_TrimPrefix request (''read'' @ [CHR 0x0A])) r of (out, r1) \<Rightarrow> (Some out, r1))"

definition client_response :: "string \<Rightarrow> string result" where
  "client_response bytes =
     (case take (capture_MaxOutputBytes + 1) bytes of data \<Rightarrow>
      if capture_MaxOutputBytes < length data then Inl (Err ''capture response exceeds limit'' []) else Inr data)"

subsection \<open>Replacement keeps to the bytes it is given\<close>

definition caps_within :: "cell set \<Rightarrow> mstate \<Rightarrow> bool" where
  "caps_within S st \<longleftrightarrow> set (ms_rest st) \<subseteq> S \<and> set (concat (map snd (snd (snd st)))) \<subseteq> S"

lemma star_run_within:
  assumes "\<And>st st'. caps_within S st \<Longrightarrow> st' \<in> set (f st) \<Longrightarrow> caps_within S st'"
  shows "caps_within S st \<Longrightarrow> st' \<in> set (star_run n f st) \<Longrightarrow> caps_within S st'"
  by (induction n arbitrary: st) (auto dest: assms)

lemma rx_run_within: "caps_within S st \<Longrightarrow> st' \<in> set (rx_run r st) \<Longrightarrow> caps_within S st'"
proof (induction r arbitrary: st st')
  case (RClass neg rs)
  obtain p cells0 caps where "st = (p, cells0, caps)" by (cases st)
  with RClass show ?case by (cases cells0) (simp_all add: caps_within_def split: if_splits)
next
  case (RStar a)
  from RStar.prems(2) have "st' \<in> set (star_run (length (ms_rest st)) (rx_run a) st)" by simp
  with star_run_within [of S "rx_run a"] RStar.IH RStar.prems(1) show ?case by blast
next
  case (RGroup n a)
  from RGroup.prems(2) obtain p rest caps where st: "(p, rest, caps) \<in> set (rx_run a st)"
    "st' = (p, rest, (n, take (length (ms_rest st) - length rest) (ms_rest st)) # caps)" by auto
  have "set (take k (ms_rest st)) \<subseteq> S" for k using RGroup.prems(1) set_take_subset [of k "ms_rest st"]
    unfolding caps_within_def by blast
  with RGroup.IH [OF RGroup.prems(1) st(1)] st(2) show ?case by (simp add: caps_within_def)
next
  case (RSeq a b)
  from RSeq.prems(2) obtain st1 where st1: "st1 \<in> set (rx_run a st)" "st' \<in> set (rx_run b st1)" by auto
  show ?case by (rule RSeq.IH(2) [OF RSeq.IH(1) [OF RSeq.prems(1) st1(1)] st1(2)])
next
  case (RAlt a b)
  from RAlt.prems(2) have "st' \<in> set (rx_run a st) \<or> st' \<in> set (rx_run b st)" by simp
  then show ?case using RAlt.IH(1) [OF RAlt.prems(1)] RAlt.IH(2) [OF RAlt.prems(1)] by blast
next
  case (ROpt a)
  from ROpt.prems(2) have "st' \<in> set (rx_run a st) \<or> st' = st" by auto
  then show ?case using ROpt.IH [OF ROpt.prems(1)] ROpt.prems(1) by blast
next
  case REndLine
  then show ?case by (cases "ms_rest st") (simp_all split: if_splits)
qed (simp_all split: if_splits list.splits)

lemma rx_find_within:
  "rx_find r p cs = Some (sk, st) \<Longrightarrow> set cs \<subseteq> S \<Longrightarrow> set sk \<subseteq> S \<and> caps_within S st"
proof (induction r p cs arbitrary: sk rule: rx_find.induct)
  case (1 r p)
  then show ?case using rx_run_within [of S "(p, [], [])" st r] by (auto simp: caps_within_def split: list.splits)
next
  case (2 r p c cs)
  then show ?case using rx_run_within [of S "(p, c # cs, [])" st r] by (auto simp: caps_within_def split: list.splits)
qed

lemma set_cells_string: "set (cells_string cs) = (\<Union>c\<in>set cs. set (snd c))"
  by (auto simp: cells_string_def)

lemma rx_replace_within: "set (rx_replace r lit p cs) \<subseteq> set (cells_string cs) \<union> set lit"
proof (induction r lit p cs rule: rx_replace.induct)
  case (1 r lit p cs)
  show ?case
  proof (cases "rx_find r p cs")
    case None
    then show ?thesis by (simp add: rx_replace_no_match)
  next
    case (Some x)
    then obtain sk p' rest caps where x: "rx_find r p cs = Some (sk, (p', rest, caps))" by (metis prod.exhaust)
    from rx_find_within [OF this order_refl] have w: "set sk \<subseteq> set cs" "set rest \<subseteq> set cs" "set (concat (map snd caps)) \<subseteq> set cs"
      by (auto simp: caps_within_def)
    have "set ds \<subseteq> set cs" if "map_of caps 1 = Some ds" for ds
      using map_of_SomeD [OF that] w(3) by force
    then have "set (cap_string 1 caps) \<subseteq> set (cells_string cs)"
      by (cases "map_of caps 1") (simp_all add: cap_string_def set_cells_string UN_mono)
    moreover have "set (cells_string sk) \<subseteq> set (cells_string cs)" "set (cells_string rest) \<subseteq> set (cells_string cs)"
      using w by (auto simp: set_cells_string)
    moreover have "length rest < length cs \<Longrightarrow> set (rx_replace r lit p' rest) \<subseteq> set (cells_string rest) \<union> set lit"
      using 1 x by blast
    ultimately show ?thesis by (subst rx_replace.simps) (auto simp: x)
  qed
qed

lemma rx_ReplaceAllString_within: "set (rx_ReplaceAllString r s lit) \<subseteq> set s \<union> set lit"
  using rx_replace_within [of r lit None "cells s"] by (simp add: rx_ReplaceAllString_def)

lemma redact_Text_within: "set (fst (redact_Text s)) \<subseteq> set s \<union> set (Replacement @ ''@'')"
proof -
  let ?T = "set s \<union> set (Replacement @ ''@'')"
  have step: "set (rx_ReplaceAllString r v lit) \<subseteq> ?T" if "set v \<subseteq> ?T" "set lit \<subseteq> ?T" for r v lit
    using rx_ReplaceAllString_within [of r v lit] that by blast
  show ?thesis unfolding redact_Text_def Let_def fst_conv by (intro step) auto
qed

subsection \<open>What may be handed out\<close>

text \<open>A byte that does not control a terminal: no ASCII control character but tab, newline and carriage return.\<close>

definition plain_byte :: "char \<Rightarrow> bool" where
  "plain_byte c \<longleftrightarrow> byte c \<in> {9, 10, 13} \<or> 32 \<le> byte c \<and> byte c \<noteq> 127"

lemma kept_rune_plain: "keeps_rune r \<Longrightarrow> list_all plain_byte (utf8_encode r)"
  by (auto simp: utf8_encode_def keeps_rune_def unicode_IsControl_def plain_byte_def RuneError_def Let_def)

lemma terminalText_plain: "list_all plain_byte (terminalText value)"
  using kept_rune_plain by (auto simp: terminalText_def string_of_runes_def list_all_iff)

lemma append_output_plain: "list_all plain_byte out \<Longrightarrow> list_all plain_byte (append_output out v)"
proof -
  assume "list_all plain_byte out"
  moreover have "list_all plain_byte (Replacement @ ''@'')" by (simp add: Replacement_def plain_byte_def)
  ultimately have "list_all plain_byte (out @ fst (redact_Text (terminalText v)))"
    using redact_Text_within [of "terminalText v"] terminalText_plain [of v] by (auto simp: list_all_iff)
  then show ?thesis by (auto simp: append_output_def list_all_iff dest: in_set_dropD)
qed

lemma append_output_bound: "length (append_output out value) \<le> capture_MaxOutputBytes"
proof -
  have "length (if n < length xs then drop (length xs - n) xs else xs) \<le> n" for n and xs :: string by simp
  then show ?thesis by (simp only: append_output_def split: prod.splits)
qed

lemma set_cells_Trim: "set (cells_string (dropWhile p cs)) \<subseteq> set (cells_string cs)" "set (cells_string (rev cs)) = set (cells_string cs)"
  by (auto simp: set_cells_string dest: set_dropWhileD)

lemma strings_TrimSpace_within: "set (strings_TrimSpace s) \<subseteq> set s"
proof -
  have "set (strings_TrimSpace s) \<subseteq> set (cells_string (cells s))"
    unfolding strings_TrimSpace_def using set_cells_Trim by (metis (no_types, lifting) order_trans)
  then show ?thesis by simp
qed

lemma length_cells_string: "length (cells_string cs) = sum_list (map (\<lambda>c. length (snd c)) cs)"
  by (simp add: cells_string_def length_concat o_def)

lemma strings_TrimSpace_length: "length (strings_TrimSpace s) \<le> length s"
proof -
  have d: "length (cells_string (dropWhile p cs)) \<le> length (cells_string cs)" for p and cs :: "cell list"
    by (induction cs) (auto simp: length_cells_string)
  have r: "length (cells_string (rev cs)) = length (cells_string cs)" for cs :: "cell list"
    by (simp add: length_cells_string rev_map [symmetric])
  have "length (strings_TrimSpace s) \<le> length (cells_string (cells s))"
    unfolding strings_TrimSpace_def r by (metis (no_types, lifting) d r order_trans)
  then show ?thesis by simp
qed

lemma strings_TrimPrefix_within: "set (strings_TrimPrefix s p) \<subseteq> set s" "length (strings_TrimPrefix s p) \<le> length s"
  by (auto simp: strings_TrimPrefix_def dest: in_set_dropD)

definition output_ok :: "Relay \<Rightarrow> bool" where
  "output_ok r \<longleftrightarrow> length (rl_output r) \<le> capture_MaxOutputBytes \<and> list_all plain_byte (rl_output r)"

lemma appendLocked_ok: "output_ok r \<Longrightarrow> output_ok (appendLocked value r)"
  using append_output_plain append_output_bound by (simp add: appendLocked_def output_ok_def)

lemma feed_loop_ok: "output_ok r \<Longrightarrow> output_ok (feed_loop r)"
proof (induction r rule: feed_loop.induct)
  case (1 r)
  show ?case
  proof (cases "strings_Index (rl_pending r) (relay_marker (rl_token r))")
    case None
    then show ?thesis using appendLocked_ok [OF 1(2)] 1(2) by (subst feed_loop.simps) (auto simp: output_ok_def)
  next
    case (Some i)
    show ?thesis using 1(1) [OF Some] by (subst feed_loop.simps) (simp add: Some output_ok_def)
  qed
qed

text \<open>The states of a relay, however it is fed, read and reset.\<close>

inductive relay_run :: "string \<Rightarrow> Relay \<Rightarrow> bool" for token where
  relay_start: "relay_run token (relay_Start token)"
| relay_feed: "relay_run token r \<Longrightarrow> relay_run token (Feed v r)"
| relay_reset: "relay_run token r \<Longrightarrow> relay_run token (relay_Reset r)"
| relay_snapshot: "relay_run token r \<Longrightarrow> relay_run token (snd (Snapshot command r))"

lemma Snapshot_ok: "output_ok r \<Longrightarrow> output_ok (snd (Snapshot command r))"
  using appendLocked_ok [of r "rl_pending r"] by (simp add: Snapshot_def output_ok_def)

lemma relay_run_ok: "relay_run token r \<Longrightarrow> output_ok r"
proof (induction rule: relay_run.induct)
  case (relay_feed r v)
  then show ?case using feed_loop_ok [of "r\<lparr>rl_pending := rl_pending r @ v\<rparr>"] by (simp add: Feed_def output_ok_def)
next
  case (relay_snapshot r command)
  then show ?case using Snapshot_ok by blast
qed (simp_all add: relay_Start_def relay_Reset_def output_ok_def)

text \<open>
  Property C36: what the relay hands out is bounded and plain. In every state a relay can reach,
  the answer to a read request has at most 8192 bytes, so the client accepts it whole, and
  contains no ASCII control character but tab, newline and carriage return: no escape sequence
  of a command's output reaches the diagnostics.
\<close>

theorem capture_bounded_plain:
  assumes "relay_run token r" and "serve_request bytes r = (Some answer, r')"
  shows "length answer \<le> 8192 \<and> list_all plain_byte answer \<and> client_response answer = Inr answer"
proof -
  obtain command where c: "Snapshot command r = (answer, r')"
    using assms(2) by (auto simp: serve_request_def split: if_splits prod.splits)
  have ok: "output_ok r'" using Snapshot_ok [OF relay_run_ok [OF assms(1)], of command] c by simp
  let ?o = "strings_TrimSpace (rl_output r')"
  have "answer = ?o \<or> answer = strings_TrimSpace (strings_TrimPrefix ?o command)" using c by (auto simp: Snapshot_def split: if_splits)
  then have "length answer \<le> length (rl_output r') \<and> set answer \<subseteq> set (rl_output r')"
    using strings_TrimSpace_within strings_TrimSpace_length strings_TrimPrefix_within by (meson order_trans)
  then have "length answer \<le> 8192" "list_all plain_byte answer" using ok
    by (auto simp: output_ok_def capture_MaxOutputBytes_def list_all_iff)
  then show ?thesis by (simp add: client_response_def capture_MaxOutputBytes_def)
qed

subsection \<open>Which bytes are kept\<close>

text \<open>The specification: the text after the last marker of the whole transcript, if there is one.\<close>

function last_segment :: "string \<Rightarrow> string \<Rightarrow> string option" where
  "last_segment token s =
     (case strings_Index s (relay_marker token) of
        None \<Rightarrow> None
      | Some i \<Rightarrow> (case drop (i + length (relay_marker token)) s of rest \<Rightarrow>
          case last_segment token rest of None \<Rightarrow> Some rest | Some t \<Rightarrow> Some t))"
  by pat_completeness auto
termination
  by (relation "measure (\<lambda>(token, s). length s)") (auto dest!: strings_Index_bound simp: relay_marker_def)

declare last_segment.simps [simp del]

lemma last_segment_None: "last_segment token s = None \<longleftrightarrow> strings_Index s (relay_marker token) = None"
  by (subst last_segment.simps) (auto split: option.splits)

lemma hasPrefix_append: "length m \<le> length s \<Longrightarrow> hasPrefix (s @ v) m = hasPrefix s m"
  by (simp add: hasPrefix_def)

lemma hasPrefix_length: "hasPrefix s m \<Longrightarrow> length m \<le> length s"
  by (metis hasPrefix_def length_take min.cobounded1)

lemma strings_Index_append: "strings_Index s m = Some i \<Longrightarrow> strings_Index (s @ v) m = Some i"
proof (induction s arbitrary: i)
  case Nil
  then show ?case by (cases v) (auto simp: hasPrefix_def split: if_splits)
next
  case (Cons c s)
  show ?case
  proof (cases "hasPrefix (c # s) m")
    case True
    then show ?thesis using Cons.prems hasPrefix_append [of m "c # s" v] hasPrefix_length [OF True] by simp
  next
    case False
    with Cons.prems obtain j where j: "strings_Index s m = Some j" "i = Suc j" by auto
    have "j + length m \<le> length s" using strings_Index_bound j(1) by blast
    then have "\<not> hasPrefix (c # s @ v) m" using False hasPrefix_append [of m "c # s" v] by simp
    with Cons.IH [OF j(1)] j(2) show ?thesis by simp
  qed
qed

lemma last_segment_append:
  "last_segment token s = Some t \<Longrightarrow>
   last_segment token (s @ v) = (case last_segment token (t @ v) of None \<Rightarrow> Some (t @ v) | Some u \<Rightarrow> Some u)"
proof (induction token s arbitrary: t rule: last_segment.induct)
  case (1 token s)
  let ?m = "relay_marker token"
  obtain i where i: "strings_Index s ?m = Some i" using 1(2) last_segment_None [of token s] by fastforce
  let ?rest = "drop (i + length ?m) s"
  have d: "drop (i + length ?m) (s @ v) = ?rest @ v" using strings_Index_bound [OF i] by simp
  have e: "last_segment token (s @ v) = (case last_segment token (?rest @ v) of None \<Rightarrow> Some (?rest @ v) | Some u \<Rightarrow> Some u)"
    by (subst last_segment.simps) (simp only: strings_Index_append [OF i] d option.case)
  show ?case
  proof (cases "last_segment token ?rest")
    case None
    then have t: "t = ?rest" using 1(2) i by (subst (asm) last_segment.simps) simp
    show ?thesis unfolding t by (rule e)
  next
    case (Some u)
    then have t: "t = u" using 1(2) i by (subst (asm) last_segment.simps) simp
    from 1(1) [OF i Some] e t show ?thesis by (simp split: option.splits)
  qed
qed

text \<open>A marker that spans two chunks starts in what was kept back of the first.\<close>

lemma strings_Index_kept:
  assumes "strings_Index (c @ p) m = None" "c \<noteq> [] \<Longrightarrow> length p = length m - 1" "m \<noteq> []"
  shows "strings_Index (c @ p @ v) m = map_option (\<lambda>i. length c + i) (strings_Index (p @ v) m)"
  using assms(1,2)
proof (induction c)
  case Nil
  then show ?case by (cases "strings_Index (p @ v) m") simp_all
next
  case (Cons x c)
  have "length p = length m - 1" using Cons.prems(2) by simp
  then have "length m \<le> length (x # c @ p)" using assms(3) by (cases m) auto
  moreover have "\<not> hasPrefix (x # c @ p) m" using Cons.prems(1) by (auto split: if_splits)
  ultimately have "\<not> hasPrefix (x # c @ p @ v) m" using hasPrefix_append [of m "x # c @ p" v] by simp
  moreover have "strings_Index (c @ p @ v) m = map_option (\<lambda>i. length c + i) (strings_Index (p @ v) m)"
    by (rule Cons.IH) (use Cons.prems in \<open>auto split: if_splits\<close>)
  ultimately show ?case by (simp add: option.map_comp o_def)
qed

text \<open>
  A relay tracks a transcript: the pieces it has appended and what is pending are together the
  text after the last marker, or the whole transcript when there is none. In the loop of \<open>Feed\<close>
  (\<open>tracks_loop\<close>) the text may still contain markers, none of which starts in the pieces.
\<close>

definition tracks_loop :: "string \<Rightarrow> Relay \<Rightarrow> bool" where
  "tracks_loop stream r \<longleftrightarrow> (\<exists>pieces. [] \<notin> set pieces \<and>
     strings_Index (concat pieces @ rl_pending r) (relay_marker (rl_token r)) =
       map_option (\<lambda>i. length (concat pieces) + i) (strings_Index (rl_pending r) (relay_marker (rl_token r))) \<and>
     (concat pieces \<noteq> [] \<longrightarrow> length (relay_marker (rl_token r)) - 1 \<le> length (rl_pending r)) \<and>
     (if rl_active r
      then rl_output r = foldl append_output [] pieces \<and>
        last_segment (rl_token r) stream = (case last_segment (rl_token r) (concat pieces @ rl_pending r) of
          None \<Rightarrow> Some (concat pieces @ rl_pending r) | Some t \<Rightarrow> Some t)
      else rl_output r = [] \<and> stream = concat pieces @ rl_pending r))"

definition tracks :: "string \<Rightarrow> Relay \<Rightarrow> bool" where
  "tracks stream r \<longleftrightarrow> (\<exists>pieces. [] \<notin> set pieces \<and>
     strings_Index (concat pieces @ rl_pending r) (relay_marker (rl_token r)) = None \<and>
     (concat pieces \<noteq> [] \<longrightarrow> length (rl_pending r) = length (relay_marker (rl_token r)) - 1) \<and>
     (if rl_active r
      then rl_output r = foldl append_output [] pieces \<and> last_segment (rl_token r) stream = Some (concat pieces @ rl_pending r)
      else rl_output r = [] \<and> stream = concat pieces @ rl_pending r))"

lemma map_option_plus_0 [simp]: "map_option ((+) (0::nat)) x = x"
  by (cases x) simp_all

lemma feed_loop_token [simp]: "rl_token (feed_loop r) = rl_token r"
proof (induction r rule: feed_loop.induct)
  case (1 r)
  then show ?case by (subst feed_loop.simps) (auto simp: appendLocked_def split: option.splits)
qed

lemma feed_loop_tracks: "tracks_loop stream r \<Longrightarrow> tracks stream (feed_loop r)"
proof (induction r rule: feed_loop.induct)
  case (1 r)
  let ?m = "relay_marker (rl_token r)"
  from 1(2) obtain pieces where p: "[] \<notin> set pieces"
    "strings_Index (concat pieces @ rl_pending r) ?m = map_option (\<lambda>i. length (concat pieces) + i) (strings_Index (rl_pending r) ?m)"
    "concat pieces \<noteq> [] \<longrightarrow> length ?m - 1 \<le> length (rl_pending r)"
    "if rl_active r then rl_output r = foldl append_output [] pieces \<and>
        last_segment (rl_token r) stream = (case last_segment (rl_token r) (concat pieces @ rl_pending r) of
          None \<Rightarrow> Some (concat pieces @ rl_pending r) | Some t \<Rightarrow> Some t)
      else rl_output r = [] \<and> stream = concat pieces @ rl_pending r" unfolding tracks_loop_def by blast
  show ?case
  proof (cases "strings_Index (rl_pending r) ?m")
    case None
    then have n: "strings_Index (concat pieces @ rl_pending r) ?m = None" using p(2) by simp
    then have l: "last_segment (rl_token r) (concat pieces @ rl_pending r) = None" by (simp add: last_segment_None)
    let ?k = "length (rl_pending r) - (length ?m - 1)"
    show ?thesis
    proof (cases "length (rl_pending r) \<le> length ?m - 1")
      case True
      then have f: "feed_loop r = r" by (subst feed_loop.simps) (simp add: None)
      show ?thesis unfolding f tracks_def using p n l True by (intro exI [of _ pieces]) auto
    next
      case False
      let ?v = "take ?k (rl_pending r)" and ?w = "drop ?k (rl_pending r)"
      have f: "feed_loop r = (appendLocked ?v r)\<lparr>rl_pending := ?w\<rparr>" by (subst feed_loop.simps) (use False None in simp)
      have v: "?v \<noteq> []" using False by (cases "rl_pending r") auto
      have len: "length ?w = length ?m - 1" using False by simp
      have c: "concat (pieces @ [?v]) @ ?w = concat pieces @ rl_pending r" by simp
      show ?thesis unfolding f tracks_def
      proof (intro exI [of _ "pieces @ [?v]"] conjI)
        show "[] \<notin> set (pieces @ [?v])" using p(1) v by auto
      qed (use p(4) n l len v c in \<open>auto simp: appendLocked_def simp del: concat_append\<close>)
    qed
  next
    case (Some i)
    let ?rest = "drop (i + length ?m) (rl_pending r)"
    let ?r = "(if rl_active r then appendLocked (take i (rl_pending r)) r else r)
      \<lparr>rl_output := [], rl_active := True, rl_pending := ?rest\<rparr>"
    have idx: "strings_Index (concat pieces @ rl_pending r) ?m = Some (length (concat pieces) + i)" using p(2) Some by simp
    have seg: "last_segment (rl_token r) (concat pieces @ rl_pending r) =
        (case last_segment (rl_token r) ?rest of None \<Rightarrow> Some ?rest | Some t \<Rightarrow> Some t)"
      by (subst last_segment.simps) (simp add: idx split: option.splits)
    have tok: "rl_token ?r = rl_token r" by (simp add: appendLocked_def)
    have "last_segment (rl_token r) stream = (case last_segment (rl_token r) ?rest of None \<Rightarrow> Some ?rest | Some t \<Rightarrow> Some t)"
      using p(4) seg by (auto split: if_splits option.splits)
    moreover have "rl_pending ?r = ?rest" "rl_active ?r" "rl_output ?r = []" by simp_all
    ultimately have "tracks_loop stream ?r" unfolding tracks_loop_def tok by (intro exI [of _ "[]"]) (simp only: if_True, simp split: option.splits)
    moreover have "feed_loop r = feed_loop ?r" by (subst feed_loop.simps) (simp add: Some)
    ultimately show ?thesis using 1(1) [OF Some] by simp
  qed
qed

lemma Feed_tracks:
  assumes "tracks stream r"
  shows "tracks (stream @ v) (Feed v r)"
proof -
  let ?m = "relay_marker (rl_token r)"
  from assms obtain pieces where p: "[] \<notin> set pieces" "strings_Index (concat pieces @ rl_pending r) ?m = None"
    "concat pieces \<noteq> [] \<longrightarrow> length (rl_pending r) = length ?m - 1"
    "if rl_active r then rl_output r = foldl append_output [] pieces \<and> last_segment (rl_token r) stream = Some (concat pieces @ rl_pending r)
      else rl_output r = [] \<and> stream = concat pieces @ rl_pending r" unfolding tracks_def by blast
  have m: "?m \<noteq> []" by (simp add: relay_marker_def)
  have "tracks_loop (stream @ v) (r\<lparr>rl_pending := rl_pending r @ v\<rparr>)" unfolding tracks_loop_def
    using p strings_Index_kept [OF p(2) _ m, of v] last_segment_append [of "rl_token r" stream "concat pieces @ rl_pending r" v]
    by (intro exI [of _ pieces]) (auto split: option.splits)
  then show ?thesis unfolding Feed_def by (rule feed_loop_tracks)
qed

lemma feeds_track: "tracks stream r \<Longrightarrow> tracks (stream @ concat chunks) (fold Feed chunks r)"
proof (induction chunks arbitrary: stream r)
  case (Cons c chunks)
  from Cons.IH [OF Feed_tracks [OF Cons.prems], of c] show ?case by simp
qed simp

lemma start_tracks: "tracks [] (relay_Start token)"
  unfolding tracks_def by (intro exI [of _ "[]"]) (simp add: relay_Start_def relay_marker_def)

lemma Feed_token: "rl_token (fold Feed chunks r) = rl_token r"
  by (induction chunks arbitrary: r) (simp_all add: Feed_def)


text \<open>A relay that has seen its marker and the output of a command.\<close>

definition demo_relay :: Relay where
  "demo_relay = Feed (relay_marker ''t'' @ ''no such file or directory'') (relay_Start ''t'')"

lemma demo_relay_run: "relay_run ''t'' demo_relay"
  unfolding demo_relay_def by (intro relay_feed relay_start)

theorem capture_bounded_plain_witness:
  "\<exists>answer r'. serve_request (''read'' @ [CHR 0x0A]) demo_relay = (Some answer, r') \<and> answer = ''no such file or directory'' \<and>
     list_all plain_byte answer"
proof -
  have "fst (serve_request (''read'' @ [CHR 0x0A]) demo_relay) = Some ''no such file or directory''" by code_simp
  then obtain r' where r: "serve_request (''read'' @ [CHR 0x0A]) demo_relay = (Some ''no such file or directory'', r')" by (metis prod.collapse)
  from capture_bounded_plain [OF demo_relay_run r] r show ?thesis by blast
qed

text \<open>
  Redaction works on pieces. A secret that lies across the end of a piece is only
  redacted up to that end: here the transcript contains an assignment of a password, the relay
  holds back its last bytes for the marker, and the answer contains most of the password, while
  redacting the text as a whole removes it.
\<close>

lemma capture_splits_secret:
  "\<exists>r. relay_run ''t'' r \<and> last_segment ''t'' (relay_marker ''t'' @ ''password=correcthorsebattery'') = Some ''password=correcthorsebattery'' \<and>
     r = Feed (relay_marker ''t'' @ ''password=correcthorsebattery'') (relay_Start ''t'') \<and>
     fst (redact_Text (terminalText ''password=correcthorsebattery'')) = ''password=[REDACTED]'' \<and>
     fst (Snapshot [] r) = ''password=[REDACTED]recthorsebattery''"
proof (intro exI conjI refl)
  show "relay_run ''t'' (Feed (relay_marker ''t'' @ ''password=correcthorsebattery'') (relay_Start ''t''))"
    by (intro relay_feed relay_start)
qed code_simp+

end
