(* ===== verification/Spec2Isabelle.thy ===== *)
theory Spec2Isabelle
  imports Lifecycle Corpora RecordProps VersionProps Relay
begin

text \<open>
  A verification library for solomon, a local tool that looks at a command line before it is sent
  and after it has failed, and proposes, or under opt-ins makes, a repair. It models the Go
  program under \<open>src/\<close> as functions in HOL and proves what the program promises: it does not
  rewrite a command line without the authority the user gave, it does not lose or corrupt the
  user's files, and it does not leak what it redacts or let text control the terminal.

  \<^bold>\<open>The program.\<close> The engine (\<open>internal/diagnose\<close>) tokenizes a line, assesses its risk and looks for a
  repair of the command name, of arguments through packs of rules, or of a path. Packs
  (\<open>internal/packs\<close>) are embedded in the program or installed with a signature by a trusted
  publisher. The daemon (\<open>internal/daemon\<close>) answers requests of the shell adapters
  (\<open>internal/shell\<close>): it asks packs, learned rules (\<open>internal/localstate\<close>) and the engine, issues
  tokens for confirming and undoing, and extracts evidence from the output of failed commands, which
  the relay (\<open>internal/capture\<close>) kept and \<open>internal/redact\<close> cleaned. The configuration
  (\<open>internal/config\<close>) sets the mode and the opt-ins. \<open>cmd/solomon\<close> is the command line.

  \<^bold>\<open>Conventions.\<close> A Go string is a list of bytes (\<open>string\<close>), a struct a \<open>record\<close> whose selectors carry a
  prefix, \<open>(T, error)\<close> is \<open>go_error + T\<close>, a method with a pointer receiver returns the new value, a loop is a
  recursion. What the program observes of its surroundings is an argument: system calls
  that may fail in any pattern (\<open>system\<close>), the clock and the context by the number of calls so far, \<open>rand.Read\<close>,
  the database engine (\<open>sqlite\<close>), \<open>regexp.Compile\<close> for patterns of packs, \<open>ed25519.Verify\<close>, SHA-256. A
  definition has the name of its Go function, with a prefix where two packages use the same name or
  HOL does.

  \<^bold>\<open>Go's library.\<close> \<open>Prelude\<close> (errors, results, lists), \<open>GoStrings\<close>, \<open>GoUnicode\<close>, \<open>GoLetters\<close>, \<open>GoStrconv\<close>,
  \<open>GoFloat\<close>, \<open>GoBase64\<close>, \<open>GoHex\<close>, \<open>GoRegexp\<close>, \<open>GoJSON\<close> model what the sources use of the standard library; \<open>JSONProps\<close>
  proves that the JSON parser reads back what the printer writes.

  \<^bold>\<open>Engine\<close> (\<open>engine.go\<close>, \<open>redact.go\<close>). \<open>Redact\<close>: which slots of a command are replaced, exactly. \<open>Tokenizer\<close>,
  \<open>Rewriting\<close>: the words are the values of the ranges, and a rewritten line has the old words with one
  exchanged. \<open>EditDistance\<close>: the tables compute the least number of edits, \<open>nearest\<close> returns a best
  candidate; the locale \<open>table_rows\<close> is interpreted on both distances. \<open>Risk\<close>: a line assessed safe is
  read-only. \<open>Executables\<close>: the cache never changes an answer. \<open>Engine\<close>, \<open>EngineProps\<close>: the action of
  a decision obeys the mode, its effect is one exchanged word, it is valid for the protocol. \<open>RecordProps\<close>:
  the record line can be split again.

  \<^bold>\<open>Packs\<close> (\<open>internal/packs\<close>). \<open>FailureEvidence\<close>: the eight extractors, as interpretations of one locale.
  \<open>PackRegistry\<close>: keyring and enabled packs refine a map and a set; revocation is final. \<open>Packs\<close>,
  \<open>PackProps\<close>, \<open>VersionProps\<close>: \<open>Compile\<close> accepts exactly the well-formed packs. \<open>PackRuntime\<close>, \<open>RuntimeProps\<close>: the
  resolver, cancellation, and the origin of an automatic rewrite. \<open>PackFiles\<close>, \<open>Staging\<close>, \<open>Corpora\<close>: decoding, installing,
  loading, staged activation with roll-back, embedded packs, fixtures.

  \<^bold>\<open>Files and configuration.\<close> \<open>Files\<close> (\<open>internal/filesystem\<close>, \<open>internal/securetemp\<close>): the disk and atomic replacement.
  \<open>Config\<close>: settings, exceptions, migration and the invariant \<open>config_ok\<close>. \<open>StateFiles\<close>: the stored
  files are read back or unchanged. \<open>ConfigLoad\<close>: a project file counts only if it is approved.

  \<^bold>\<open>Daemon.\<close> \<open>Daemon\<close> (\<open>protocol.go\<close>, \<open>service.go\<close>), \<open>ServiceProps\<close> (tokens in every interleaving), \<open>ServicePolicy\<close> (who may
  rewrite, undo and confirm, evidence). \<open>LocalState\<close>, \<open>LearningProps\<close>: the learning store as a
  transition system with its history. \<open>Wire\<close> (\<open>client.go\<close>, \<open>server.go\<close>): an exchange delivers what was sent.
  \<open>Relay\<close> (\<open>relay.go\<close>): what is kept does not depend on the reads. \<open>Shell\<close> (\<open>actions.go\<close>, \<open>shell.go\<close>).

  \<^bold>\<open>Command line\<close> (\<open>cmd/solomon\<close>). \<open>Terminal\<close>: what is printed cannot control the terminal. \<open>Commands\<close>, \<open>CommandProps\<close>: the
  commands that change files and the store. \<open>Release\<close> (checksums, \<open>updatechannel\<close>, \<open>releasepolicy\<close>,
  \<open>releasecompat\<close>), \<open>Guards\<close> (\<open>runtimecheck\<close>, \<open>credential\<close>, \<open>history\<close>). \<open>Inspecting\<close>: flags, \<open>check\<close> and the commands that only look,
  and waiting for the daemon. \<open>Lifecycle\<close>: endpoint, listener and \<open>daemon serve\<close>; at most one daemon listens. This theory
  composes them: from the files and the learning history to a rewritten line.

  \<^bold>\<open>Bounds and fuel.\<close> Repetition in a regular expression is bounded by the length of the rest of the text
  (\<open>star_run_fuel\<close> shows that this is enough). \<open>projectPath\<close> ends because parents have shorter names. The loop that
  waits for a daemon may not end by itself: it is a \<open>partial_function\<close> in the option type, and it is
  proved to return if its context ends. All other recursions have their termination proofs. The
  64-bit limits of \<open>strconv.Atoi\<close> are kept; counters and lengths stay far below 2 to the 63.

  \<^bold>\<open>Not modelled.\<close> The shell programs in \<open>shell/scripts.go\<close> are string constants in other languages; an
  adapter carries the name of its script. \<open>capture start\<close>, which runs \<open>script\<close> and \<open>mkfifo\<close>, the dispatcher \<open>run\<close> with
  \<open>main\<close>, and the start of a detached process only arrange processes. The relay's socket, deadlines and signals
  are inputs of the model, not modelled themselves. The Windows variants of directories, named pipes
  and ownership are left out: paths and files are those of Unix. The decimal text of a confidence in
  JSON is an argument. The mains of \<open>latency-gate\<close>, \<open>release-compatibility\<close>, \<open>release-revocation\<close> and \<open>update-manifest\<close> call the modelled
  packages and print. Goroutines appear only as interleavings of the atomic methods.
\<close>

section \<open>Properties that span components\<close>

text \<open>What a learned and a curated rewrite rest on: the history of the store, and a pack embedded in the program.\<close>

definition earned_rewrite :: "Service \<Rightarrow> store_history \<Rightarrow> Request \<Rightarrow> Response \<Rightarrow> bool" where
  "earned_rewrite svc h request response \<longleftrightarrow> (\<exists>rule\<in>set (sc_LearnedRules svc). 3 \<le> evidence h (lr_DraftID rule) \<and>
     chosen_action h (lr_ID rule) (lr_DraftID rule) = Some ''rewrite'' \<and> switched_on h (lr_ID rule) (lr_DraftID rule) \<and>
     normalizedLearningCommand (rq_Command request) = (lr_Failure rule, True) \<and> rs_Suggestion response = lr_Correction rule)"

definition shipped_rewrite :: "tool \<Rightarrow> Response \<Rightarrow> bool" where
  "shipped_rewrite tool response \<longleftrightarrow> (\<exists>p rule. embedded_pack tool p \<and> rule \<in> set (p_Rules p) \<and> r_Risk rule = RiskSafe \<and>
     rs_PackID response = p_ID p \<and> rs_RuleID response = r_ID rule)"

lemma served_learned:
  assumes "fresh_ids (tl_sqlite tool)" and "store_run (tl_sqlite tool) h (ts_db s)" and "serve_service tool s = (Inr svc, s')"
    and "rewrite_by_learning svc request response"
  shows "earned_rewrite svc h request response"
proof -
  obtain cfg s2 rules where p: "open_learning tool cfg s2 = (Inr rules, s')" "sc_LearnedRules svc = rules" "ts_db s2 = ts_db s"
    using serve_parts [OF assms(3)] by metis
  obtain rule where r: "rule \<in> set rules" "lr_Action rule = ''rewrite''" "normalizedLearningCommand (rq_Command request) = (lr_Failure rule, True)"
      "rs_Suggestion response = lr_Correction rule"
    using assms(4) p(2) by (auto simp: rewrite_by_learning_def)
  have "store_run (tl_sqlite tool) h (ts_db s2)" using assms(2) p(3) by simp
  from open_learning_rules [OF assms(1) refl this p(1) r(1)] r p(2) show ?thesis unfolding earned_rewrite_def by (metis (no_types, lifting))
qed

lemma served_curated:
  assumes "serve_service tool s = (Inr svc, s')" and "rewrite_by_pack svc env request st response"
  shows "cf_CuratedPacksEnabled (sc_Config svc) \<and> shipped_rewrite tool response"
proof -
  obtain cfg s1 s2 resolver where p: "on_disk (runtimePackResolver tool cfg) s1 = (Inr resolver, s2)" "sc_Config svc = cfg" "sc_Packs svc = resolver"
    using serve_parts [OF assms(1)] by metis
  then obtain d where d: "runtimePackResolver tool cfg (ts_disk s1) = (Inr resolver, d)" by (auto simp: on_disk_def split: prod.splits)
  obtain match polls where m: "MatchLineContext (ee_ctx (se_engine env)) resolver (rq_Command request) (st_polls (sv_engine st)) = (Inr (Some match), polls)"
      "rm_Source match \<noteq> ''installed''" "rm_Risk match = RiskSafe" "rs_PackID response = rm_PackID match" "rs_RuleID response = rm_RuleID match"
    using assms(2) p(3) by (auto simp: rewrite_by_pack_def)
  obtain pack rule where k: "pack \<in> set (rr_packs resolver)" "rule \<in> set (cp_Rules (rp_compiled pack))" "rm_Source match = rp_source pack"
      "rm_PackID match = p_ID (cp_Pack (rp_compiled pack))" "rm_RuleID match = r_ID (cr_Rule rule)" "rm_Risk match = r_Risk (cr_Rule rule)"
    using line_match_origin [OF m(1)] by blast
  obtain q where q: "Compile (tl_compile tool) q = Inr (rp_compiled pack)" "embedded_pack tool q" and on: "cf_CuratedPacksEnabled cfg"
    using runtime_pack_trusted [OF d k(1)] m(2) k(3) by auto
  have "cp_Pack (rp_compiled pack) = q" "cr_Rule rule \<in> set (p_Rules q)" using q(1) Compile_iff compiled_rule [OF q(1) k(2)] by blast+
  then have "shipped_rewrite tool response" using q(2) k m unfolding shipped_rewrite_def by metis
  with on p(2) show ?thesis by simp
qed

text \<open>
  Property C1: from the user's files to a rewritten command line. Take a daemon as \<open>daemon serve\<close>
  builds it from the files of the machine and a learning store in any state that the store can
  reach. When it answers a request with a rewrite, then its configuration is well-formed, the request was
  a pre-send, the risk is safe, and either the rewrite is a learned one, for
  which learning and its ceiling are opened, at least three pairs were recorded since the last
  purge and the user last chose the action rewrite; or it is a curated one, in mode rewrite with
  automatic application on, whose pack is embedded in the program and whose rule is safe; or the
  engine made it, in the same mode and for a line without a rule exception.
\<close>

theorem served_rewrites_authorized:
  assumes "fresh_ids (tl_sqlite tool)" and "store_run (tl_sqlite tool) h (ts_db s)" and "serve_service tool s = (Inr svc, s')"
    and "Handle svc env request st = (Inr response, st')" and "rs_Action response = ''rewrite''"
  shows "config_ok (sc_Config svc) \<and> rq_Operation request = PreSendOperation \<and> rs_Risk response = RiskSafe \<and>
    (cf_LocalLearningEnabled (sc_Config svc) \<and> cf_LearnedRuleActionCeiling (sc_Config svc) = ''rewrite'' \<and> earned_rewrite svc h request response \<or>
     cf_Mode (sc_Config svc) = ''rewrite'' \<and> cf_AutoApplySafe (sc_Config svc) \<and>
       (cf_CuratedPacksEnabled (sc_Config svc) \<and> shipped_rewrite tool response \<or> \<not> HasRuleException (sc_Config svc) (rq_Command request)))"
proof -
  obtain cfg s1 resolver where p: "load_config tool s = (Inr cfg, s1)" "sc_Config svc = cfg" "sc_Engine svc = engine_options tool cfg resolver"
    using serve_parts [OF assms(3)] by metis
  have ok: "config_ok (sc_Config svc)" and engine: "o_Config (sc_Engine svc) = sc_Config svc"
    using served_config_ok [OF p(1)] p by (simp_all add: engine_options_def)
  note h = Handle_rewrite [OF assms(4,5)]
  then consider "rewrite_by_pack svc env request st response" | "rewrite_by_learning svc request response" | "rewrite_by_engine svc request response" by blast
  then show ?thesis
  proof cases
    case 1
    with served_curated [OF assms(3) 1] ok h show ?thesis by (simp add: rewrite_by_pack_def)
  next
    case 2
    with served_learned [OF assms(1-3) 2] ok h show ?thesis by (simp add: rewrite_by_learning_def)
  next
    case 3
    with ok h engine show ?thesis by (simp add: rewrite_by_engine_def)
  qed
qed

lemma learned_answer:
  assumes "sc_Packs svc = \<lparr>rr_packs = []\<rparr>" and "sc_LearnedRules svc = [demo_rule]"
    and "cf_LocalLearningEnabled (sc_Config svc)" "cf_LearnedRuleActionCeiling (sc_Config svc) = ''rewrite''"
  shows "\<exists>response st. Handle svc demo_service_env (demo_request PreSendOperation\<lparr>rq_Command := ''gti''\<rparr>) demo_service_state
     = (Inr response, st) \<and> rs_Action response = ''rewrite'' \<and> rs_Source response = ''learned'' \<and> rs_Suggestion response = ''git''"
proof -
  have f: "ShellCommandSupported [] ''gti''" "MatchLineContext (\<lambda>_. None) \<lparr>rr_packs = []\<rparr> ''gti'' 0 = (Inr None, 2)"
      "normalizedLearningCommand ''gti'' = (''gti'', True)" "limitedLearnedAction ''rewrite'' ''rewrite'' = ''rewrite''" by code_simp+
  have l: "learnedDecision svc ''gti'' ''pre'' = Some (learned_response ''rewrite'' demo_rule)"
    using assms by (simp add: learnedDecision_def f demo_rule_def)
  show ?thesis
    by (simp add: Handle_def operation_names preSend_def demo_request_def policy_curated f curatedDecision_def l assms(1) issueUndoToken_def
        learned_response_def newConfirmationToken_def demo_rule_def split: sum.splits)
qed

theorem served_rewrites_authorized_witness:
  "\<exists>svc s' response st. serve_service demo_tool demo_machine = (Inr svc, s') \<and>
     Handle svc demo_service_env (demo_request PreSendOperation\<lparr>rq_Command := ''gti''\<rparr>) demo_service_state = (Inr response, st) \<and>
     rs_Action response = ''rewrite'' \<and> rs_Suggestion response = ''git'' \<and> config_ok (sc_Config svc)"
proof -
  let ?c = "serve_service demo_tool demo_machine"
  have "case fst ?c of Inl e \<Rightarrow> False | Inr svc \<Rightarrow> rr_packs (sc_Packs svc) = [] \<and> sc_LearnedRules svc = [demo_rule] \<and>
     cf_LocalLearningEnabled (sc_Config svc) \<and> cf_LearnedRuleActionCeiling (sc_Config svc) = ''rewrite''" by code_simp
  then obtain svc s' where c: "?c = (Inr svc, s')" "rr_packs (sc_Packs svc) = []" "sc_LearnedRules svc = [demo_rule]"
      "cf_LocalLearningEnabled (sc_Config svc)" "cf_LearnedRuleActionCeiling (sc_Config svc) = ''rewrite''"
    by (cases ?c; cases "fst ?c") auto
  then obtain response st where r: "Handle svc demo_service_env (demo_request PreSendOperation\<lparr>rq_Command := ''gti''\<rparr>) demo_service_state = (Inr response, st)"
      "rs_Action response = ''rewrite''" "rs_Suggestion response = ''git''"
    using learned_answer [of svc] by (cases "sc_Packs svc") auto
  from served_rewrites_authorized [OF _ _ c(1) r(1,2), of "fst demo_store"] demo_fresh demo_machine_store c r show ?thesis by auto
qed

end
